(* ===== verification/Prelude.thy ===== *)
theory Prelude
  imports Complex_Main "HOL-Library.Word" "HOL-Library.AList"
begin

text \<open>
  Shared vocabulary of the development: the Go data types and standard-library
  functions that several packages of the node use, with the lemmas every component
  theory builds on.

  \<^item> A Go error or panic is a value of \<open>fail\<close>; an operation that can fail returns
    \<open>'a res\<close>. An operation that also changes state returns the new state beside it.
  \<^item> A Go map is an association list without duplicate keys (\<open>wf_map\<close>). Its list order is
    one possible iteration order; Go leaves the order open, so a theorem about every
    well-formed map covers every order.
  \<^item> \<open>time.Time\<close> is a count of nanoseconds (\<open>gotime\<close>); \<open>Time.Sub\<close> saturates at the
    limits of \<open>time.Duration\<close> as in package \<open>time\<close>. Each reading of the clock is an argument.
  \<^item> \<open>uint64\<close> is \<open>u64\<close>, a byte is \<open>8 word\<close>, \<open>*big.Int\<close> is \<open>int\<close>.
\<close>

section \<open>Types\<close>

type_synonym byte = "8 word"
type_synonym bytes = "byte list"
type_synonym u64 = "64 word"
type_synonym gotime = int
type_synonym duration = int

datatype fail = Error string | Panic string

type_synonym 'a res = "fail + 'a"

type_synonym ('k, 'v) gomap = "('k \<times> 'v) list"

named_theorems gomap_simps \<open>lookups, sizes and well-formedness of Go maps\<close>

section \<open>Results\<close>

definition is_panic :: "'a res \<Rightarrow> bool" where
  "is_panic r = (case r of Inl (Panic _) \<Rightarrow> True | _ \<Rightarrow> False)"

definition is_ok :: "'a res \<Rightarrow> bool" where
  "is_ok r = (case r of Inr _ \<Rightarrow> True | Inl _ \<Rightarrow> False)"

lemma is_ok_simps [simp]: "is_ok (Inr x)" "\<not> is_ok (Inl e)"
  by (simp_all add: is_ok_def)

lemma is_panic_simps [simp]:
  "is_panic (Inl (Panic s))" "\<not> is_panic (Inl (Error s))" "\<not> is_panic (Inr x)"
  by (simp_all add: is_panic_def)

lemma res_bindE:
  "(case r of Inl e \<Rightarrow> Inl e | Inr x \<Rightarrow> f x) = Inr y \<Longrightarrow> (\<And>x. r = Inr x \<Longrightarrow> f x = Inr y \<Longrightarrow> P) \<Longrightarrow> P"
  by (cases r) simp_all

lemma is_okE: "is_ok r \<Longrightarrow> (\<And>x. r = Inr x \<Longrightarrow> P) \<Longrightarrow> P"
  by (cases r) auto

section \<open>Go maps\<close>

abbreviation wf_map :: "('k, 'v) gomap \<Rightarrow> bool" where
  "wf_map m \<equiv> distinct (map fst m)"

definition mget :: "('k, 'v) gomap \<Rightarrow> 'k \<Rightarrow> 'v option" where
  "mget m k = map_of m k"

definition mput :: "'k \<Rightarrow> 'v \<Rightarrow> ('k, 'v) gomap \<Rightarrow> ('k, 'v) gomap" where
  "mput k v m = AList.update k v m"

definition mdel :: "'k \<Rightarrow> ('k, 'v) gomap \<Rightarrow> ('k, 'v) gomap" where
  "mdel k m = AList.delete k m"

definition mhas :: "('k, 'v) gomap \<Rightarrow> 'k \<Rightarrow> bool" where
  "mhas m k = (mget m k \<noteq> None)"

text \<open>\<open>len(m)\<close>, and the loop \<open>for k, v := range m { if !keep(k, v) { delete(m, k) } }\<close>.\<close>

definition mlen :: "('k, 'v) gomap \<Rightarrow> nat" where
  "mlen m = length m"

definition mkeep :: "('k \<Rightarrow> 'v \<Rightarrow> bool) \<Rightarrow> ('k, 'v) gomap \<Rightarrow> ('k, 'v) gomap" where
  "mkeep P m = filter (\<lambda>(k, v). P k v) m"

definition mmap :: "('k \<Rightarrow> 'v \<Rightarrow> 'w) \<Rightarrow> ('k, 'v) gomap \<Rightarrow> ('k, 'w) gomap" where
  "mmap f m = map (\<lambda>(k, v). (k, f k v)) m"

lemma mget_empty [gomap_simps, simp]: "mget [] k = None"
  by (simp add: mget_def)

lemma mput_empty [simp]: "mput k v [] = [(k, v)]"
  by (simp add: mput_def)

lemma mget_Cons [simp]: "mget ((k', v) # m) k = (if k' = k then Some v else mget m k)"
  by (simp add: mget_def)

lemma mget_mput [gomap_simps]: "mget (mput k v m) k' = (if k' = k then Some v else mget m k')"
  by (simp add: mget_def mput_def update_conv')

lemma mget_mdel [gomap_simps]: "mget (mdel k m) k' = (if k' = k then None else mget m k')"
  by (simp add: mget_def mdel_def delete_conv')

lemma mget_in_set: "mget m k = Some v \<Longrightarrow> (k, v) \<in> set m"
  by (simp add: mget_def map_of_SomeD)

lemma mget_in_keys: "mget m k = Some v \<Longrightarrow> k \<in> fst ` set m"
  by (force dest: mget_in_set)

lemma mget_None_iff: "mget m k = None \<longleftrightarrow> k \<notin> fst ` set m"
  by (simp add: mget_def map_of_eq_None_iff)

lemma mhas_iff: "mhas m k \<longleftrightarrow> k \<in> fst ` set m"
  by (simp add: mhas_def mget_None_iff)

lemma mget_of_set: "wf_map m \<Longrightarrow> (k, v) \<in> set m \<Longrightarrow> mget m k = Some v"
  by (simp add: mget_def)

lemma wf_mput [gomap_simps, intro]: "wf_map m \<Longrightarrow> wf_map (mput k v m)"
  by (simp add: mput_def distinct_update)

lemma wf_mdel [gomap_simps, intro]: "wf_map m \<Longrightarrow> wf_map (mdel k m)"
  by (simp add: mdel_def distinct_delete)

lemma mlen_empty [gomap_simps, simp]: "mlen [] = 0"
  by (simp add: mlen_def)

lemma length_update: "length (AList.update k v m) = (if k \<in> fst ` set m then length m else Suc (length m))"
  by (induction m) auto

lemma mlen_mput [gomap_simps]:
  "mlen (mput k v m) = (if mget m k = None then Suc (mlen m) else mlen m)"
  by (simp add: mlen_def mput_def length_update mget_None_iff)

lemma mlen_mdel_le: "mlen (mdel k m) \<le> mlen m"
  by (simp add: mlen_def mdel_def length_delete_le)

lemma length_delete:
  "wf_map m \<Longrightarrow> length (AList.delete k m) = (if k \<in> fst ` set m then length m - 1 else length m)"
proof (induction m)
  case Nil
  then show ?case by simp
next
  case (Cons a m)
  then show ?case
    by (cases m) (auto simp: delete_id)
qed

lemma mlen_mdel [gomap_simps]:
  "wf_map m \<Longrightarrow> mlen (mdel k m) = (if mget m k = None then mlen m else mlen m - 1)"
  by (simp add: mlen_def mdel_def length_delete mget_None_iff)

lemma mlen_dom: "wf_map m \<Longrightarrow> mlen m = card (fst ` set m)"
  by (metis distinct_card length_map list.set_map mlen_def)

lemma set_mkeep [simp]: "set (mkeep P m) = {kv \<in> set m. P (fst kv) (snd kv)}"
  by (auto simp: mkeep_def)

lemma wf_mkeep [gomap_simps, intro]: "wf_map m \<Longrightarrow> wf_map (mkeep P m)"
  by (induction m) (auto simp: mkeep_def)

lemma mget_mkeep [gomap_simps]:
  "wf_map m \<Longrightarrow>
   mget (mkeep P m) k = (case mget m k of None \<Rightarrow> None | Some v \<Rightarrow> if P k v then Some v else None)"
proof (induction m)
  case Nil
  then show ?case by (simp add: mkeep_def)
next
  case (Cons a m)
  have "mget (mkeep P m) k = None" if "fst a = k"
    using Cons.prems that by (auto simp: mget_None_iff)
  with Cons show ?case
    by (cases a) (auto simp: mkeep_def mget_Cons split: option.splits)
qed

lemma mlen_mkeep_le: "mlen (mkeep P m) \<le> mlen m"
  by (simp add: mlen_def mkeep_def)

lemma keys_mmap [simp]: "map fst (mmap f m) = map fst m"
  by (induction m) (auto simp: mmap_def)

lemma mget_mmap [gomap_simps]: "mget (mmap f m) k = map_option (f k) (mget m k)"
  by (induction m) (auto simp: mmap_def mget_def)

lemma mlen_mmap [gomap_simps, simp]: "mlen (mmap f m) = mlen m"
  by (simp add: mlen_def mmap_def)

lemma set_mput_subset: "set (mput k v m) \<subseteq> insert (k, v) (set m)"
  by (induction m) (auto simp: mput_def)

lemma in_set_mput: "wf_map m \<Longrightarrow> (k', v') \<in> set (mput k v m) \<Longrightarrow>
   (k' = k \<and> v' = v) \<or> (k' \<noteq> k \<and> (k', v') \<in> set m)"
  by (metis mget_in_set mget_mput mget_of_set option.inject wf_mput)

lemma set_mdel_subset: "set (mdel k m) \<subseteq> set m"
  by (induction m) (auto simp: mdel_def)

lemma fst_set_mput: "fst ` set (mput k v m) = insert k (fst ` set m)"
  by (simp add: mput_def dom_update)

section \<open>64-bit counters\<close>

lemma unat_of_nat_u64 [simp]: "unat (of_nat n :: u64) = n mod 2 ^ 64"
  by (simp add: unat_of_nat take_bit_eq_mod)

lemma of_nat_u64_eq: "h < 2 ^ 64 \<Longrightarrow> (of_nat h :: u64) = v \<longleftrightarrow> h = unat v"
  by (auto simp: word_unat_eq_iff)

lemma unat_u64_less [simp]: "unat (w :: u64) < 18446744073709551616"
  using unsigned_less [of w] by simp

lemma unat_Suc_u64: "(w :: u64) + 1 \<noteq> 0 \<Longrightarrow> unat (w + 1) = Suc (unat w)"
proof -
  assume a: "w + 1 \<noteq> 0"
  have "unat (w + 1) = (unat w + 1) mod 2 ^ 64"
    by (simp add: unat_word_ariths)
  moreover have "unat (w + 1) \<noteq> 0" using a by (simp add: unat_eq_0)
  moreover have "unat w + 1 = 2 ^ 64 \<or> unat w + 1 < 2 ^ 64"
    using unat_u64_less [of w] by (simp del: unat_u64_less) arith
  ultimately show ?thesis by (auto simp del: power_Suc)
qed
section \<open>Time\<close>

definition min_duration :: int where "min_duration = - (2 ^ 63)"
definition max_duration :: int where "max_duration = 2 ^ 63 - 1"

text \<open>\<open>t.Sub(u)\<close> of package \<open>time\<close>: saturating difference.\<close>

definition time_sub :: "gotime \<Rightarrow> gotime \<Rightarrow> duration" where
  "time_sub t u = max min_duration (min max_duration (t - u))"

definition second :: duration where "second = 1000000000"
definition minute :: duration where "minute = 60 * second"
definition hour :: duration where "hour = 60 * minute"

lemma duration_values:
  "second = 1000000000" "minute = 60000000000" "hour = 3600000000000"
  by (simp_all add: second_def minute_def hour_def)

lemma time_sub_gt: "0 \<le> d \<Longrightarrow> d < max_duration \<Longrightarrow> d < time_sub t u \<longleftrightarrow> d < t - u"
  by (auto simp: time_sub_def min_duration_def max_duration_def)

lemma time_sub_ge: "0 \<le> d \<Longrightarrow> d \<le> max_duration \<Longrightarrow> d \<le> time_sub t u \<longleftrightarrow> d \<le> t - u"
  by (auto simp: time_sub_def min_duration_def max_duration_def)

end
