(* ===== verification/Float64.thy ===== *)
theory Float64
  imports Prelude
begin

text \<open>
  Go's \<open>float64\<close>: IEEE 754 binary64 with round to nearest, ties to even. A finite value is
  the rational it denotes, so rounding is explicit and the thresholds of the node
  (\<open>0.85\<close>, \<open>0.67\<close>, \<open>0.33\<close>) are compared as the machine compares them. Overflow
  gives an infinity, \<open>0/0\<close> gives NaN, comparisons with NaN are false. The sign of zero and
  NaN payloads are not represented: no code of the node observes them.
  \<open>int(f)\<close> truncates; outside the range of \<open>int64\<close> Go leaves the value open, which is
  \<open>None\<close> here.
\<close>

section \<open>Rounding\<close>

datatype f64 = Fin rat | Inf bool | NaN

text \<open>\<open>Inf True\<close> is minus infinity.\<close>

definition pow2 :: "int \<Rightarrow> rat" where
  "pow2 k = (if 0 \<le> k then 2 ^ nat k else 1 / 2 ^ nat (- k))"

function ilog2 :: "int \<Rightarrow> int" where
  "ilog2 n = (if n < 2 then 0 else 1 + ilog2 (n div 2))"
  by pat_completeness auto
termination
  by (relation "measure nat") auto

declare ilog2.simps [simp del]

text \<open>The exponent of \<open>x\<close>: the largest \<open>k\<close> with \<open>2^k \<le> \<bar>x\<bar>\<close>.\<close>

definition expo :: "rat \<Rightarrow> int" where
  "expo x = (let (n, d) = quotient_of \<bar>x\<bar>;
                 k = ilog2 n - ilog2 d
             in if pow2 k \<le> \<bar>x\<bar> then k else k - 1)"

definition round_even :: "rat \<Rightarrow> int" where
  "round_even x = (let f = \<lfloor>x\<rfloor>; r = x - of_int f in
     if r < 1/2 then f else if 1/2 < r then f + 1 else if even f then f else f + 1)"

definition rnd_unit :: "rat \<Rightarrow> int" where
  "rnd_unit x = max (expo x - 52) (- 1074)"

definition rnd :: "rat \<Rightarrow> f64" where
  "rnd x = (if x = 0 then Fin 0
     else let e = rnd_unit x; y = of_int (round_even (x / pow2 e)) * pow2 e
          in if pow2 1024 \<le> \<bar>y\<bar> then Inf (x < 0) else Fin y)"

section \<open>Arithmetic, comparison and conversion\<close>

fun f_add :: "f64 \<Rightarrow> f64 \<Rightarrow> f64" where
  "f_add (Fin a) (Fin b) = rnd (a + b)"
| "f_add (Inf s) (Inf t) = (if s = t then Inf s else NaN)"
| "f_add (Inf s) (Fin _) = Inf s"
| "f_add (Fin _) (Inf s) = Inf s"
| "f_add _ _ = NaN"

fun f_neg :: "f64 \<Rightarrow> f64" where
  "f_neg (Fin a) = Fin (- a)"
| "f_neg (Inf s) = Inf (\<not> s)"
| "f_neg NaN = NaN"

definition f_sub :: "f64 \<Rightarrow> f64 \<Rightarrow> f64" where
  "f_sub a b = f_add a (f_neg b)"

fun f_mul :: "f64 \<Rightarrow> f64 \<Rightarrow> f64" where
  "f_mul (Fin a) (Fin b) = rnd (a * b)"
| "f_mul (Inf s) (Inf t) = Inf (s \<noteq> t)"
| "f_mul (Inf s) (Fin a) = (if a = 0 then NaN else Inf (s \<noteq> (a < 0)))"
| "f_mul (Fin a) (Inf s) = (if a = 0 then NaN else Inf (s \<noteq> (a < 0)))"
| "f_mul _ _ = NaN"

text \<open>Division by zero takes the zero as positive.\<close>

fun f_div :: "f64 \<Rightarrow> f64 \<Rightarrow> f64" where
  "f_div (Fin a) (Fin b) = (if b = 0 then (if a = 0 then NaN else Inf (a < 0)) else rnd (a / b))"
| "f_div (Inf s) (Fin b) = Inf (s \<noteq> (b < 0))"
| "f_div (Fin _) (Inf _) = Fin 0"
| "f_div _ _ = NaN"

fun f_lt :: "f64 \<Rightarrow> f64 \<Rightarrow> bool" where
  "f_lt (Fin a) (Fin b) = (a < b)"
| "f_lt (Inf s) (Inf t) = (s \<and> \<not> t)"
| "f_lt (Inf s) (Fin _) = s"
| "f_lt (Fin _) (Inf s) = (\<not> s)"
| "f_lt _ _ = False"

fun f_eq :: "f64 \<Rightarrow> f64 \<Rightarrow> bool" where
  "f_eq (Fin a) (Fin b) = (a = b)"
| "f_eq (Inf s) (Inf t) = (s = t)"
| "f_eq _ _ = False"

definition f_le :: "f64 \<Rightarrow> f64 \<Rightarrow> bool" where
  "f_le a b = (f_lt a b \<or> f_eq a b)"

definition f_of_int :: "int \<Rightarrow> f64" where
  "f_of_int n = rnd (of_int n)"

definition trunc_rat :: "rat \<Rightarrow> int" where
  "trunc_rat q = (if q < 0 then - \<lfloor>- q\<rfloor> else \<lfloor>q\<rfloor>)"

fun f_to_int :: "f64 \<Rightarrow> int option" where
  "f_to_int (Fin q) = (let n = trunc_rat q in
     if - (2 ^ 63) \<le> n \<and> n < 2 ^ 63 then Some n else None)"
| "f_to_int _ = None"

text \<open>Go leaves a conversion that does not fit to the machine; on amd64 it gives the least \<open>int64\<close>.\<close>

definition f_int :: "f64 \<Rightarrow> int" where
  "f_int x = (case f_to_int x of Some n \<Rightarrow> n | None \<Rightarrow> - (2 ^ 63))"

text \<open>A Go literal such as \<open>0.85\<close> of type \<open>float64\<close> is the rounded decimal.\<close>

abbreviation f_lit :: "rat \<Rightarrow> f64" where
  "f_lit q \<equiv> rnd q"

section \<open>Powers of two and exponents\<close>

lemma pow2_powi: "pow2 k = 2 powi k"
  by (simp add: pow2_def power_int_def inverse_eq_divide power_one_over)

lemma pow2_pos [simp]: "0 < pow2 k" and pow2_nonneg [simp]: "0 \<le> pow2 k"
  and pow2_nonzero [simp]: "pow2 k \<noteq> 0" and pow2_not_le [simp]: "\<not> pow2 k \<le> 0"
  by (simp_all add: pow2_powi not_le)

lemma pow2_0 [simp]: "pow2 0 = 1"
  by (simp add: pow2_def)

lemma pow2_add: "pow2 (a + b) = pow2 a * pow2 b"
  by (simp add: pow2_powi power_int_add)

lemma pow2_diff: "pow2 (a - b) = pow2 a / pow2 b"
  by (simp add: pow2_powi power_int_diff)

lemma pow2_nat: "0 \<le> k \<Longrightarrow> pow2 k = of_int (2 ^ nat k)"
  by (simp add: pow2_def)

lemma pow2_mono: "a \<le> b \<Longrightarrow> pow2 a \<le> pow2 b"
  by (simp add: pow2_powi power_int_increasing)

lemma pow2_less_iff: "pow2 a < pow2 b \<longleftrightarrow> a < b"
  by (metis linorder_not_less order_less_irrefl pow2_powi power_int_strict_increasing
      one_less_numeral_iff semiring_norm(76) pow2_mono order_le_less)

lemma pow2_le_iff: "pow2 a \<le> pow2 b \<longleftrightarrow> a \<le> b"
  using pow2_less_iff [of b a] by (simp add: linorder_not_less [symmetric])

lemma ilog2_spec: "0 < n \<Longrightarrow> 0 \<le> ilog2 n \<and> 2 ^ nat (ilog2 n) \<le> n \<and> n < 2 ^ nat (ilog2 n + 1)"
proof (induction n rule: ilog2.induct)
  case (1 n)
  show ?case
  proof (cases "n < 2")
    case True
    with "1.prems" show ?thesis by (simp add: ilog2.simps [of n])
  next
    case False
    define k where "k = ilog2 (n div 2)"
    have IH: "0 \<le> k" "2 ^ nat k \<le> n div 2" "n div 2 < 2 ^ nat (k + 1)"
      using "1.IH" False by (auto simp: k_def)
    have "ilog2 n = 1 + k"
      using False by (simp add: ilog2.simps [of n] k_def)
    moreover have "nat (1 + k) = Suc (nat k)" "nat (1 + k + 1) = Suc (nat (k + 1))"
      using IH(1) by auto
    ultimately show ?thesis
      using IH by auto
  qed
qed

lemma ilog2_pow2:
  assumes "0 < n"
  shows "pow2 (ilog2 n) \<le> of_int n" "of_int n < pow2 (ilog2 n + 1)"
proof -
  note s = ilog2_spec [OF assms]
  show "pow2 (ilog2 n) \<le> of_int n"
    using s by (simp only: pow2_nat of_int_le_iff)
  show "of_int n < pow2 (ilog2 n + 1)"
    using s by (simp only: pow2_nat of_int_less_iff add_nonneg_nonneg zero_le_one)
qed

lemma expo_spec:
  assumes "x \<noteq> 0"
  shows "pow2 (expo x) \<le> \<bar>x\<bar> \<and> \<bar>x\<bar> < pow2 (expo x + 1)"
proof -
  obtain n d where q: "quotient_of \<bar>x\<bar> = (n, d)"
    by (cases "quotient_of \<bar>x\<bar>")
  have d: "0 < d" and x: "\<bar>x\<bar> = of_int n / of_int d"
    using q by (simp_all add: quotient_of_denom_pos quotient_of_div)
  have n: "0 < n"
    using assms d x by (metis abs_of_nonneg abs_zero divide_eq_0_iff linorder_neqE of_int_0_eq_iff
        of_int_0_less_iff zero_less_abs_iff zero_less_divide_iff less_asym)
  let ?a = "ilog2 n" and ?b = "ilog2 d"
  note a = ilog2_pow2 [OF n] and b = ilog2_pow2 [OF d]
  have pd: "0 < (of_int d :: rat)" using d by simp
  have "\<bar>x\<bar> < pow2 (?a + 1) / pow2 ?b"
    unfolding x using a b pd n by (intro frac_less) auto
  then have up: "\<bar>x\<bar> < pow2 (?a - ?b + 1)"
    by (simp add: pow2_diff pow2_add)
  have "pow2 ?a / pow2 (?b + 1) < \<bar>x\<bar>"
    unfolding x using a b pd n by (intro frac_less2) auto
  then have lo: "pow2 (?a - ?b - 1) < \<bar>x\<bar>"
    by (simp add: pow2_diff pow2_add field_simps)
  show ?thesis
    using up lo by (auto simp: expo_def q Let_def)
qed

lemma expo_unique:
  assumes "pow2 k \<le> \<bar>x\<bar>" "\<bar>x\<bar> < pow2 (k + 1)"
  shows "expo x = k"
proof -
  have "x \<noteq> 0" using assms(1) by auto
  note s = expo_spec [OF this]
  have "pow2 k < pow2 (expo x + 1)" "pow2 (expo x) < pow2 (k + 1)"
    using assms s by linarith+
  then show ?thesis by (simp add: pow2_less_iff)
qed

section \<open>Properties of rounding\<close>

lemma round_even_half: "\<bar>of_int (round_even x) - x\<bar> \<le> 1 / 2"
proof -
  have "of_int \<lfloor>x\<rfloor> \<le> x" "x < of_int \<lfloor>x\<rfloor> + 1" by linarith+
  then show ?thesis
    by (auto simp: round_even_def Let_def abs_le_iff simp del: of_int_floor_le)
qed

lemma round_even_near: "\<bar>x - of_int n\<bar> < 1 / 2 \<Longrightarrow> round_even x = n"
proof -
  assume h: "\<bar>x - of_int n\<bar> < 1 / 2"
  have "\<bar>of_int (round_even x) - of_int n :: rat\<bar> < 1"
    using h round_even_half [of x] by linarith
  then have "\<bar>round_even x - n\<bar> < 1"
    by (metis of_int_1 of_int_abs of_int_diff of_int_less_iff)
  then show ?thesis by simp
qed

lemma round_even_int [simp]: "round_even (of_int n) = n"
  by (rule round_even_near) simp

lemma round_even_mono: "x \<le> y \<Longrightarrow> round_even x \<le> round_even y"
proof (rule ccontr)
  assume le: "x \<le> y" and "\<not> round_even x \<le> round_even y"
  then have gt: "round_even y + 1 \<le> round_even x" by simp
  have "of_int (round_even y) + 1 \<le> (of_int (round_even x) :: rat)"
    using gt by (metis of_int_1 of_int_add of_int_le_iff)
  then have "x = y" using le round_even_half [of x] round_even_half [of y] by linarith
  then show False using gt by simp
qed

definition rnd_val :: "rat \<Rightarrow> rat" where
  "rnd_val x = (if x = 0 then 0 else of_int (round_even (x / pow2 (rnd_unit x))) * pow2 (rnd_unit x))"

lemma rnd_eq: "rnd x = (if pow2 1024 \<le> \<bar>rnd_val x\<bar> then Inf (x < 0) else Fin (rnd_val x))"
  using pow2_pos [of 1024] by (auto simp: rnd_def rnd_val_def Let_def)

lemma rnd_val_near_int:
  assumes "rnd_unit x \<le> 0" "x \<noteq> 0" "\<bar>x - of_int n\<bar> < pow2 (rnd_unit x) / 2"
  shows "rnd_val x = of_int n"
proof -
  let ?u = "rnd_unit x"
  have "of_int n / pow2 ?u = of_int (n * 2 ^ nat (- ?u))"
    using assms(1) by (auto simp: pow2_def)
  then obtain m :: int where m: "of_int n / pow2 ?u = of_int m" by metis
  have "\<bar>x / pow2 ?u - of_int m\<bar> = \<bar>x - of_int n\<bar> / pow2 ?u"
    by (simp add: m [symmetric] diff_divide_distrib [symmetric])
  also have "\<dots> < 1 / 2"
    using assms(3) by (simp add: field_simps)
  finally have "round_even (x / pow2 ?u) = m" by (rule round_even_near)
  then show ?thesis
    using assms(2) m by (simp add: rnd_val_def field_simps)
qed

lemma rnd_val_exact:
  assumes "x = of_int m * pow2 e" "\<bar>m\<bar> \<le> 2 ^ 53" "- 1074 \<le> e"
  shows "rnd_val x = x"
proof (cases "x = 0")
  case True
  then show ?thesis by (simp add: rnd_val_def)
next
  case False
  let ?u = "rnd_unit x"
  have ab: "\<bar>x\<bar> = of_int \<bar>m\<bar> * pow2 e"
    by (simp add: assms(1) abs_mult)
  have "\<exists>k::int. x = of_int k * pow2 ?u"
  proof (cases "?u \<le> e")
    case True
    have "pow2 e = of_int (2 ^ nat (e - ?u)) * pow2 ?u"
      using True by (simp only: pow2_nat [symmetric] pow2_add [symmetric]) simp
    then have "x = of_int (m * 2 ^ nat (e - ?u)) * pow2 ?u"
      using assms(1) by simp
    then show ?thesis by blast
  next
    case False
    have "of_int \<bar>m\<bar> \<le> pow2 53"
      using assms(2) by (simp add: pow2_def)
    then have "\<bar>x\<bar> \<le> pow2 (53 + e)"
      by (simp add: ab pow2_add)
    moreover have "pow2 (expo x) \<le> \<bar>x\<bar>"
      using expo_spec [OF \<open>x \<noteq> 0\<close>] by simp
    ultimately have le: "expo x \<le> 53 + e"
      by (meson order_trans pow2_le_iff)
    then have "expo x = 53 + e" "?u = e + 1"
      using False assms(3) by (auto simp: rnd_unit_def)
    then have "pow2 (53 + e) \<le> \<bar>x\<bar>" "\<bar>x\<bar> \<le> pow2 (53 + e)"
      using \<open>pow2 (expo x) \<le> \<bar>x\<bar>\<close> \<open>\<bar>x\<bar> \<le> pow2 (53 + e)\<close> by simp_all
    then have "\<bar>x\<bar> = pow2 52 * pow2 ?u"
      by (simp add: \<open>?u = e + 1\<close> pow2_add [symmetric] algebra_simps)
    then have "x = of_int (2 ^ 52) * pow2 ?u \<or> x = of_int (- (2 ^ 52)) * pow2 ?u"
      by (auto simp: pow2_nat abs_if split: if_splits)
    then show ?thesis by blast
  qed
  then obtain k :: int where k: "x = of_int k * pow2 ?u" by blast
  then have "x / pow2 ?u = of_int k"
    by (metis nonzero_mult_div_cancel_right pow2_nonzero)
  then show ?thesis
    using False k by (simp add: rnd_val_def)
qed

lemma rnd_exact:
  assumes "x = of_int m * pow2 e" "\<bar>m\<bar> \<le> 2 ^ 53" "- 1074 \<le> e" "\<bar>x\<bar> < pow2 1024"
  shows "rnd x = Fin x"
  using assms rnd_val_exact [OF assms(1-3)] by (simp add: rnd_eq)

lemma rnd_int: "\<bar>n\<bar> \<le> 2 ^ 53 \<Longrightarrow> rnd (of_int n) = Fin (of_int n)"
proof (rule rnd_exact [where m = n and e = 0])
  assume h: "\<bar>n\<bar> \<le> 2 ^ 53"
  have "\<bar>of_int n :: rat\<bar> \<le> pow2 53"
    using h by (simp add: pow2_def flip: of_int_abs)
  also have "\<dots> < pow2 1024" by (simp add: pow2_less_iff)
  finally show "\<bar>of_int n :: rat\<bar> < pow2 1024" .
qed auto

lemma f_of_int_exact [simp]: "\<bar>n\<bar> \<le> 2 ^ 53 \<Longrightarrow> f_of_int n = Fin (of_int n)"
  by (simp add: f_of_int_def rnd_int)

lemma rnd_val_error: "x \<noteq> 0 \<Longrightarrow> \<bar>rnd_val x - x\<bar> \<le> pow2 (rnd_unit x) / 2"
proof -
  assume x: "x \<noteq> 0"
  let ?p = "pow2 (rnd_unit x)"
  have "rnd_val x - x = (of_int (round_even (x / ?p)) - x / ?p) * ?p"
    using x by (simp add: rnd_val_def algebra_simps)
  then have "\<bar>rnd_val x - x\<bar> = \<bar>of_int (round_even (x / ?p)) - x / ?p\<bar> * ?p"
    by (simp add: abs_mult)
  also have "\<dots> \<le> 1 / 2 * ?p"
    by (intro mult_right_mono round_even_half) simp
  finally show ?thesis by simp
qed

lemma round_even_nonneg: "0 \<le> x \<Longrightarrow> 0 \<le> round_even x"
  using round_even_mono [of 0 x] round_even_int [of 0] by simp

lemma rnd_val_nonneg: "0 \<le> x \<Longrightarrow> 0 \<le> rnd_val x"
  by (simp add: rnd_val_def round_even_nonneg)

lemma rnd_val_le_grid:
  assumes "0 < x" "x \<le> z" "z = of_int m * pow2 (rnd_unit x)"
  shows "rnd_val x \<le> z"
proof -
  have "x / pow2 (rnd_unit x) \<le> of_int m"
    using assms by (simp add: field_simps)
  then have "round_even (x / pow2 (rnd_unit x)) \<le> m"
    using round_even_mono round_even_int by metis
  then show ?thesis
    using assms by (simp add: rnd_val_def)
qed

lemma rnd_val_ge_grid:
  assumes "0 < x" "z \<le> x" "z = of_int m * pow2 (rnd_unit x)"
  shows "z \<le> rnd_val x"
proof -
  have "of_int m \<le> x / pow2 (rnd_unit x)"
    using assms by (simp add: field_simps)
  then have "m \<le> round_even (x / pow2 (rnd_unit x))"
    using round_even_mono round_even_int by metis
  then show ?thesis
    using assms by (simp add: rnd_val_def)
qed

lemma pow2_grid: "u \<le> k \<Longrightarrow> \<exists>m. pow2 k = of_int m * pow2 u"
proof
  assume "u \<le> k"
  then show "pow2 k = of_int (2 ^ nat (k - u)) * pow2 u"
    by (simp only: pow2_nat [symmetric] pow2_add [symmetric]) simp
qed

lemma rnd_val_mono:
  assumes "0 \<le> x" "x \<le> y"
  shows "rnd_val x \<le> rnd_val y"
proof (cases "x = 0")
  case True
  then show ?thesis using assms rnd_val_nonneg [of y] by (simp add: rnd_val_def)
next
  case False
  then have pos: "0 < x" "0 < y" using assms by auto
  let ?u = "rnd_unit x" and ?v = "rnd_unit y"
  have ex: "\<bar>x\<bar> < pow2 (expo x + 1)" "pow2 (expo y) \<le> \<bar>y\<bar>" "pow2 (expo x) \<le> \<bar>x\<bar>"
      "\<bar>y\<bar> < pow2 (expo y + 1)"
    using expo_spec [of x] expo_spec [of y] pos by auto
  have "pow2 (expo x) < pow2 (expo y + 1)"
    using ex(3,4) pos assms(2) by simp
  then have mono: "expo x \<le> expo y" by (simp add: pow2_less_iff)
  show ?thesis
  proof (cases "?u = ?v")
    case True
    have "x / pow2 ?v \<le> y / pow2 ?v"
      using assms(2) by (simp add: divide_right_mono)
    then show ?thesis
      using pos True by (simp add: rnd_val_def round_even_mono)
  next
    case False
    then have lt: "expo x < expo y" "?v = expo y - 52" "?u \<le> expo y"
      using mono by (auto simp: rnd_unit_def)
    have "pow2 (expo x + 1) \<le> pow2 (expo y)"
      using lt(1) by (simp add: pow2_le_iff)
    then have xz: "x \<le> pow2 (expo y)" using ex(1) pos by simp
    have yz: "pow2 (expo y) \<le> y" using ex(2) pos by simp
    have "rnd_val x \<le> pow2 (expo y)"
      using pow2_grid [OF lt(3)] rnd_val_le_grid [OF pos(1) xz] by blast
    moreover have "pow2 (expo y) \<le> rnd_val y"
      using pow2_grid [of ?v "expo y"] lt(2) rnd_val_ge_grid [OF pos(2) yz] by auto
    ultimately show ?thesis by simp
  qed
qed

lemma rnd_val_idem: "0 \<le> x \<Longrightarrow> rnd_val (rnd_val x) = rnd_val x"
proof (cases "x = 0")
  case False
  assume "0 \<le> x"
  let ?u = "rnd_unit x" and ?m = "round_even (x / pow2 (rnd_unit x))"
  have "x < pow2 (expo x + 1)" using expo_spec [OF False] \<open>0 \<le> x\<close> by simp
  also have "\<dots> \<le> pow2 (53 + ?u)" unfolding pow2_le_iff by (simp add: rnd_unit_def)
  finally have "x / pow2 ?u \<le> of_int (2 ^ 53)" by (simp add: pow2_add pow2_def [of 53] field_simps)
  then have "?m \<le> 2 ^ 53" using round_even_mono [of "x / pow2 ?u" "of_int (2 ^ 53)"] by (simp only: round_even_int)
  moreover have "0 \<le> ?m" using \<open>0 \<le> x\<close> by (simp add: round_even_nonneg)
  ultimately show ?thesis
    using rnd_val_exact [of "rnd_val x" ?m ?u] False by (simp add: rnd_val_def rnd_unit_def)
qed (simp add: rnd_val_def)

lemma rnd_val_int: "\<bar>n\<bar> \<le> 2 ^ 53 \<Longrightarrow> rnd_val (of_int n) = of_int n"
  using rnd_int [of n] by (auto simp: rnd_eq split: if_splits)

lemma rnd_unit_le:
  assumes "0 < x" "x < pow2 k" "- 1021 \<le> k"
  shows "rnd_unit x \<le> k - 53"
proof -
  have "pow2 (expo x) < pow2 k"
    using expo_spec [of x] assms by auto
  then show ?thesis
    using assms(3) by (simp add: rnd_unit_def pow2_less_iff)
qed

lemma rnd_finite:
  assumes "0 \<le> x" "x \<le> 2 ^ 53"
  shows "rnd x = Fin (rnd_val x)"
proof -
  have "rnd_val x \<le> rnd_val (of_int (2 ^ 53))"
    using assms by (intro rnd_val_mono) auto
  also have "\<dots> = pow2 53" by (subst rnd_val_int) (simp_all add: pow2_def)
  also have "\<dots> < pow2 1024" by (simp add: pow2_less_iff)
  finally show ?thesis
    using rnd_val_nonneg [OF assms(1)] by (simp add: rnd_eq)
qed

text \<open>A value between two integers stays between them.\<close>

lemma rnd_between:
  assumes "0 \<le> a" "b \<le> 2 ^ 53" "of_int a \<le> x" "x \<le> of_int b"
  shows "rnd x = Fin (rnd_val x)" "of_int a \<le> rnd_val x" "rnd_val x \<le> of_int b"
proof -
  have bounds: "(0 :: rat) \<le> of_int a" "(of_int b :: rat) \<le> of_int (2 ^ 53)"
    using assms(1,2) by (simp_all only: of_int_le_iff of_int_0_le_iff)
  have x: "0 \<le> x" "x \<le> 2 ^ 53" using assms(3,4) bounds by simp_all
  show "rnd x = Fin (rnd_val x)" by (rule rnd_finite [OF x])
  have ints: "rnd_val (of_int a) = of_int a" "rnd_val (of_int b) = of_int b"
    using assms bounds x by (auto intro!: rnd_val_int)
  show "of_int a \<le> rnd_val x" using rnd_val_mono [OF bounds(1) assms(3)] ints by simp
  show "rnd_val x \<le> of_int b" using rnd_val_mono [OF x(1) assms(4)] ints by simp
qed

lemma f_to_int_range: "0 \<le> q \<Longrightarrow> q < 2 ^ 63 \<Longrightarrow> f_to_int (Fin q) = Some \<lfloor>q\<rfloor>"
  by (simp add: trunc_rat_def Let_def floor_less_iff le_floor_iff)

lemma rnd_dyadic:
  assumes "x = of_int m * pow2 e" "\<bar>m\<bar> \<le> 2 ^ 53" "- 1074 \<le> e" "\<bar>x\<bar> \<le> 2 ^ 10"
  shows "rnd x = Fin x"
proof (rule rnd_exact [OF assms(1-3)])
  have "\<bar>x\<bar> \<le> pow2 10" using assms(4) by (simp add: pow2_def)
  also have "\<dots> < pow2 1024" by (simp add: pow2_less_iff)
  finally show "\<bar>x\<bar> < pow2 1024" .
qed

lemma rnd_numeral [simp]: "rnd (numeral k) = Fin (numeral k)" if "(numeral k :: int) \<le> 2 ^ 53" for k
  using rnd_int [of "numeral k"] that by simp

lemma rnd_one [simp]: "rnd 1 = Fin 1" and rnd_zero [simp]: "rnd 0 = Fin 0"
  using rnd_int [of 1] rnd_int [of 0] by simp_all

lemma rnd_half [simp]: "rnd (1 / 2) = Fin (1 / 2)"
  by (rule rnd_dyadic [of _ 1 "- 1"]) (simp_all add: pow2_def)

lemma rnd_five_halves [simp]: "rnd (5 / 2) = Fin (5 / 2)"
  by (rule rnd_dyadic [of _ 5 "- 1"]) (simp_all add: pow2_def)

section \<open>The order\<close>

lemma f_lt_le: "x \<noteq> NaN \<Longrightarrow> y \<noteq> NaN \<Longrightarrow> f_le x y = (\<not> f_lt y x)"
  by (cases x; cases y) (auto simp: f_le_def)

lemma f_le_trans: "f_le x y \<Longrightarrow> f_le y z \<Longrightarrow> f_le x z"
  by (cases x; cases y; cases z) (auto simp: f_le_def)

lemma f_le_not_NaN: "f_le x y \<Longrightarrow> x \<noteq> NaN \<and> y \<noteq> NaN"
  by (cases x; cases y) (auto simp: f_le_def)

definition inside :: "f64 \<Rightarrow> f64 \<Rightarrow> f64 \<Rightarrow> bool" where
  "inside lo hi x = (f_le lo x \<and> f_le x hi)"

section \<open>Percentage thresholds\<close>

text \<open>
  The node computes vote thresholds as \<open>int(float64(n) * c)\<close> with a decimal literal \<open>c\<close>.
  When \<open>c\<close> is close enough to \<open>p/100\<close>, the result is the integer quotient \<open>p * n div 100\<close>:
  the error of the product never crosses an integer.
\<close>

definition near_percent :: "rat \<Rightarrow> int \<Rightarrow> bool" where
  "near_percent c p = (0 < p \<and> p < 100 \<and> c \<le> 1 \<and>
     (if of_int p / 100 \<le> c then c - of_int p / 100 \<le> 1 / 2 ^ 53
      else of_int p / 100 - c \<le> c / 2 ^ 54))"

lemma near_percent_range:
  assumes "near_percent c p"
  shows "0 < p" "p < 100" "0 < c" "c \<le> 1"
proof -
  show "0 < p" "p < 100" "c \<le> 1" using assms by (auto simp: near_percent_def)
  then have "0 < (of_int p :: rat) / 100" by simp
  then show "0 < c"
    using assms by (cases "of_int p / 100 \<le> c") (auto simp: near_percent_def field_simps)
qed

lemma near_percent_product:
  assumes c: "near_percent c p" and n: "0 \<le> n" "n \<le> 2 ^ 40"
  shows "of_int n * c \<le> of_int (p * n) / 100 + 1 / 8192"
    and "of_int (p * n) / 100 \<le> of_int n * c \<or>
         of_int (p * n) / 100 - of_int n * c \<le> of_int n * c / 2 ^ 54"
proof -
  have px: "of_int (p * n) / 100 = of_int n * (of_int p / 100 :: rat)" by simp
  have n': "0 \<le> (of_int n :: rat)" "(of_int n :: rat) \<le> 2 ^ 40" using n by simp_all
  show "of_int n * c \<le> of_int (p * n) / 100 + 1 / 8192"
  proof (cases "of_int p / 100 \<le> c")
    case True
    then have "of_int n * (c - of_int p / 100) \<le> 2 ^ 40 * (1 / 2 ^ 53)"
      using c n' by (intro mult_mono) (auto simp: near_percent_def)
    then show ?thesis unfolding px by (simp add: right_diff_distrib)
  next
    case False
    then have "of_int n * c \<le> of_int n * (of_int p / 100)"
      using n' by (intro mult_left_mono) auto
    then show ?thesis unfolding px by simp
  qed
  show "of_int (p * n) / 100 \<le> of_int n * c \<or>
        of_int (p * n) / 100 - of_int n * c \<le> of_int n * c / 2 ^ 54"
  proof (cases "of_int p / 100 \<le> c")
    case True
    then show ?thesis unfolding px using n' by (intro disjI1 mult_left_mono) auto
  next
    case False
    then have "of_int n * (of_int p / 100 - c) \<le> of_int n * (c / 2 ^ 54)"
      using c n' by (intro mult_left_mono) (auto simp: near_percent_def)
    then show ?thesis unfolding px by (simp add: right_diff_distrib)
  qed
qed

lemma rnd_val_ge_int:
  assumes "0 < x" "rnd_unit x \<le> 0" "0 \<le> k" "k \<le> 2 ^ 53"
    and "of_int k \<le> x \<or> of_int k - x \<le> x / 2 ^ 54"
  shows "of_int k \<le> rnd_val x"
proof (cases "of_int k \<le> x")
  case True
  then show ?thesis
    using rnd_val_mono [of "of_int k" x] assms rnd_val_int [of k] by simp
next
  case False
  have "x < pow2 (expo x + 1)" using expo_spec [of x] assms(1) by simp
  also have "\<dots> \<le> pow2 (rnd_unit x + 53)" by (simp add: pow2_le_iff rnd_unit_def)
  also have "\<dots> = pow2 (rnd_unit x) * 2 ^ 53" by (simp add: pow2_add pow2_def [of 53])
  finally have "x / 2 ^ 54 < pow2 (rnd_unit x) / 2" by simp
  moreover have "\<bar>x - of_int k\<bar> \<le> x / 2 ^ 54" using assms(5) False by auto
  ultimately show ?thesis
    using rnd_val_near_int [of x k] assms by simp
qed

lemma threshold_trunc:
  assumes c: "near_percent c p" and n: "0 \<le> n" "n \<le> 2 ^ 40"
  shows "f_to_int (f_mul (f_of_int n) (Fin c)) = Some (p * n div 100)"
proof (cases "n = 0")
  case True
  then show ?thesis by (simp add: f_of_int_def rnd_def trunc_rat_def)
next
  case False
  define x where "x = of_int n * c"
  define k where "k = p * n div 100"
  note c' = near_percent_range [OF c]
  have n': "0 < (of_int n :: rat)" "(of_int n :: rat) \<le> 2 ^ 40" using n False by simp_all
  have x0: "0 < x" using n' c' by (simp add: x_def)
  have xle: "x \<le> 2 ^ 40" using mult_mono [OF n'(2) c'(4)] c' n' by (simp add: x_def)
  have unit: "rnd_unit x \<le> - 12" using rnd_unit_le [of x 41] x0 xle by (simp add: pow2_def)
  have "pow2 (rnd_unit x) \<le> pow2 (- 12)" using unit by (simp add: pow2_le_iff)
  then have err: "\<bar>rnd_val x - x\<bar> \<le> 1 / 8192"
    using rnd_val_error [of x] x0 by (simp add: pow2_def)
  have r: "0 \<le> p * n mod 100" "p * n mod 100 \<le> 99" by auto
  have "p * n = 100 * k + p * n mod 100" by (simp add: k_def)
  then have "of_int (p * n) = (of_int (100 * k + p * n mod 100) :: rat)" by (rule arg_cong)
  then have pk: "of_int (p * n) / 100 = (of_int k + of_int (p * n mod 100) / 100 :: rat)"
    by simp
  have r': "0 \<le> (of_int (p * n mod 100) :: rat)" "(of_int (p * n mod 100) :: rat) \<le> 99"
    using r by (simp, metis of_int_le_iff of_int_numeral)
  have k0: "0 \<le> k" using c' n by (simp add: k_def pos_imp_zdiv_nonneg_iff)
  have pn: "p * n \<le> 100 * 2 ^ 40" using c' n by (intro mult_mono) auto
  then have kle: "k \<le> 2 ^ 53" by (simp add: k_def)
  have "of_int k \<le> rnd_val x"
    using rnd_val_ge_int [OF x0 _ k0 kle] near_percent_product(2) [OF c n] unit r'
    unfolding pk x_def by linarith
  moreover have "rnd_val x < of_int k + 1"
    using near_percent_product(1) [OF c n] err r' unfolding pk x_def by linarith
  ultimately have "\<lfloor>rnd_val x\<rfloor> = k" by (simp add: floor_eq_iff)
  moreover have "0 \<le> rnd_val x" using x0 rnd_val_nonneg [of x] by simp
  moreover have "rnd x = Fin (rnd_val x)" using rnd_finite [of x] x0 xle by simp
  moreover have "f_of_int n = Fin (of_int n)" using n by (intro f_of_int_exact) simp
  ultimately show ?thesis
    using k0 kle by (simp add: x_def [symmetric] trunc_rat_def Let_def k_def [symmetric])
qed

lemma expo_85: "expo (85 / 100) = - 1"
  by (rule expo_unique) (simp_all add: pow2_def)

lemma expo_67: "expo (67 / 100) = - 1"
  by (rule expo_unique) (simp_all add: pow2_def)

lemma rnd_lit:
  assumes "expo q = e" "q \<noteq> 0" "- 1022 \<le> e" "\<bar>q / pow2 (e - 52) - of_int m\<bar> < 1 / 2"
    "\<bar>of_int m * pow2 (e - 52)\<bar> < pow2 1024"
  shows "rnd q = Fin (of_int m * pow2 (e - 52))"
proof -
  have "rnd_unit q = e - 52" using assms(1,3) by (simp add: rnd_unit_def)
  moreover have "round_even (q / pow2 (e - 52)) = m" by (rule round_even_near [OF assms(4)])
  ultimately show ?thesis using assms(2,5) by (simp add: rnd_def Let_def)
qed

lemma pow2_lt_1024: "k < 1024 \<Longrightarrow> q \<le> pow2 k \<Longrightarrow> q < pow2 1024"
  using pow2_less_iff [of k 1024] by simp

lemma lit_85: "rnd (85 / 100) = Fin (7656119366529843 / 2 ^ 53)"
proof -
  have "rnd (85 / 100) = Fin (of_int 7656119366529843 * pow2 (- 1 - 52))"
    by (rule rnd_lit [OF expo_85]) (auto simp: pow2_def intro!: pow2_lt_1024 [of 0])
  then show ?thesis by (simp add: pow2_def)
qed

lemma lit_67: "rnd (67 / 100) = Fin (6034823500676465 / 2 ^ 53)"
proof -
  have "rnd (67 / 100) = Fin (of_int 6034823500676465 * pow2 (- 1 - 52))"
    by (rule rnd_lit [OF expo_67]) (auto simp: pow2_def intro!: pow2_lt_1024 [of 0])
  then show ?thesis by (simp add: pow2_def)
qed

lemma trunc_85:
  "0 \<le> n \<Longrightarrow> n \<le> 2 ^ 40 \<Longrightarrow> f_to_int (f_mul (f_of_int n) (f_lit (85 / 100))) = Some (85 * n div 100)"
  unfolding lit_85 by (rule threshold_trunc) (simp_all add: near_percent_def)

lemma trunc_67:
  "0 \<le> n \<Longrightarrow> n \<le> 2 ^ 40 \<Longrightarrow> f_to_int (f_mul (f_of_int n) (f_lit (67 / 100))) = Some (67 * n div 100)"
  unfolding lit_67 by (rule threshold_trunc) (simp_all add: near_percent_def)

text \<open>\<open>d.Seconds()\<close> of package \<open>time\<close>.\<close>

definition duration_seconds :: "duration \<Rightarrow> f64" where
  "duration_seconds d = (let s = trunc_rat (of_int d / of_int second); nsec = d - s * second
     in f_add (f_of_int s) (f_div (f_of_int nsec) (f_lit 1000000000)))"

end
