(* ===== verification/Encoding.thy ===== *)
theory Encoding
  imports Prelude
begin

text \<open>
  The byte and text encodings the node builds its keys, identifiers and signatures from:
  string/byte conversion, \<open>hex.EncodeToString\<close>, \<open>%d\<close> of \<open>fmt.Sprintf\<close> with
  \<open>strconv.ParseUint\<close> as its inverse, \<open>big.Int.Bytes\<close>/\<open>SetBytes\<close>,
  \<open>binary.BigEndian.PutUint64\<close>, \<open>bytes.Compare\<close>, slicing, and SHA-256.
\<close>

section \<open>Strings and bytes\<close>

definition bytes_of :: "string \<Rightarrow> bytes" where
  "bytes_of s = map of_char s"

lemma bytes_of_simps [simp]: "bytes_of [] = []" "bytes_of (a @ b) = bytes_of a @ bytes_of b"
  "length (bytes_of s) = length s"
  by (simp_all add: bytes_of_def)

lemma unat_of_char: "unat (of_char c :: 8 word) = of_char c"
proof -
  have "(of_char c :: 8 word) = of_nat (of_char c)" by (rule of_nat_of_char [symmetric])
  moreover have "of_char c < (256 :: nat)" by (rule nat_of_char_less_256)
  ultimately show ?thesis by (simp add: unat_of_nat take_bit_nat_eq_self)
qed

lemma of_char_word_inj: "(of_char c :: 8 word) = of_char d \<longleftrightarrow> c = d"
  by (metis unat_of_char of_char_eq_iff)

lemma bytes_of_inj: "bytes_of a = bytes_of b \<longleftrightarrow> a = b"
  by (simp add: bytes_of_def inj_map_eq_map inj_on_def of_char_word_inj)

section \<open>Hexadecimal text\<close>

definition hex_digit :: "nat \<Rightarrow> char" where
  "hex_digit n = ''0123456789abcdef'' ! n"

definition hex_byte :: "byte \<Rightarrow> string" where
  "hex_byte b = [hex_digit (unat b div 16), hex_digit (unat b mod 16)]"

definition hex :: "bytes \<Rightarrow> string" where
  "hex bs = concat (map hex_byte bs)"

lemma length_hex: "length (hex bs) = 2 * length bs"
  by (induction bs) (auto simp: hex_def hex_byte_def)

lemma hex_digit_inj: "m < 16 \<Longrightarrow> n < 16 \<Longrightarrow> hex_digit m = hex_digit n \<longleftrightarrow> m = n"
proof -
  have "distinct ''0123456789abcdef''" by simp
  then show "m < 16 \<Longrightarrow> n < 16 \<Longrightarrow> ?thesis"
    by (simp add: hex_digit_def nth_eq_iff_index_eq)
qed

lemma hex_byte_inj: "hex_byte a = hex_byte b \<longleftrightarrow> a = b"
proof
  assume h: "hex_byte a = hex_byte b"
  have "unat a < 256" "unat b < 256" using unsigned_less [of a] unsigned_less [of b] by simp_all
  then have "unat a div 16 < 16" "unat b div 16 < 16" by (auto simp: less_mult_imp_div_less)
  then have "unat a div 16 = unat b div 16" "unat a mod 16 = unat b mod 16"
    using h by (simp_all add: hex_byte_def hex_digit_inj)
  then have "unat a = unat b" by (metis div_mult_mod_eq)
  then show "a = b" by (simp add: word_unat_eq_iff)
qed simp

lemma hex_inj: "hex a = hex b \<longleftrightarrow> a = b"
proof (induction a arbitrary: b)
  case Nil
  then show ?case using length_hex [of b] by (cases b) (auto simp: hex_def hex_byte_def)
next
  case (Cons x xs)
  show ?case
  proof (cases b)
    case Nil
    then show ?thesis by (simp add: hex_def hex_byte_def)
  next
    case (Cons y ys)
    have "hex (x # xs) = hex (y # ys) \<longleftrightarrow> hex_byte x = hex_byte y \<and> hex xs = hex ys"
      by (simp add: hex_def hex_byte_def)
    then show ?thesis by (simp add: Cons Cons.IH hex_byte_inj)
  qed
qed

section \<open>Decimal text\<close>

definition digit :: "nat \<Rightarrow> char" where
  "digit d = char_of (48 + d)"

fun dec_nat :: "nat \<Rightarrow> string" where
  "dec_nat n = (if n < 10 then [digit n] else dec_nat (n div 10) @ [digit (n mod 10)])"

declare dec_nat.simps [simp del]

definition dec_u64 :: "u64 \<Rightarrow> string" where
  "dec_u64 n = dec_nat (unat n)"

definition is_digit :: "char \<Rightarrow> bool" where
  "is_digit c = (48 \<le> (of_char c :: nat) \<and> (of_char c :: nat) \<le> 57)"

definition digit_value :: "char \<Rightarrow> nat" where
  "digit_value c = of_char c - 48"

definition dec_value :: "string \<Rightarrow> nat" where
  "dec_value s = foldl (\<lambda>a c. a * 10 + digit_value c) 0 s"

text \<open>\<open>strconv.ParseUint(s, 10, 64)\<close>: digits only, no sign, in the range of 64 bits.\<close>

definition parse_u64 :: "string \<Rightarrow> u64 option" where
  "parse_u64 s = (if s \<noteq> [] \<and> list_all is_digit s \<and> dec_value s < 2 ^ 64
                  then Some (of_nat (dec_value s)) else None)"

definition dec_int :: "int \<Rightarrow> string" where
  "dec_int n = (if n < 0 then ''-'' @ dec_nat (nat (- n)) else dec_nat (nat n))"

lemma digit_facts [simp]: "d < 10 \<Longrightarrow> is_digit (digit d)" "d < 10 \<Longrightarrow> digit_value (digit d) = d"
  by (simp_all add: is_digit_def digit_value_def digit_def of_char_of)

lemma dec_nat_digits: "list_all is_digit (dec_nat n) \<and> dec_nat n \<noteq> []"
proof (induction n rule: dec_nat.induct)
  case (1 n)
  then show ?case
    by (cases "n < 10") (simp_all add: dec_nat.simps [of n])
qed

lemma dec_value_dec_nat [simp]: "dec_value (dec_nat n) = n"
proof (induction n rule: dec_nat.induct)
  case (1 n)
  then show ?case
    by (cases "n < 10") (simp_all add: dec_nat.simps [of n] dec_value_def)
qed

lemma dec_nat_inj: "dec_nat m = dec_nat n \<longleftrightarrow> m = n"
  by (metis dec_value_dec_nat)

lemma dec_u64_inj: "dec_u64 m = dec_u64 n \<longleftrightarrow> m = n"
  by (simp add: dec_u64_def dec_nat_inj word_unat_eq_iff)

lemma parse_dec_u64: "parse_u64 (dec_u64 n) = Some n"
  using dec_nat_digits [of "unat n"] unsigned_less [of n]
  by (simp add: parse_u64_def dec_u64_def)

section \<open>Big-endian numbers\<close>

fun be_bytes :: "nat \<Rightarrow> bytes" where
  "be_bytes n = (if n = 0 then [] else be_bytes (n div 256) @ [of_nat (n mod 256)])"

declare be_bytes.simps [simp del]

definition be_val :: "bytes \<Rightarrow> nat" where
  "be_val bs = foldl (\<lambda>a b. a * 256 + unat b) 0 bs"

definition put_u64 :: "u64 \<Rightarrow> bytes" where
  "put_u64 w = map (\<lambda>i. ucast (drop_bit (8 * i) w)) (rev [0..<8])"

lemma be_val_be_bytes [simp]: "be_val (be_bytes n) = n"
proof (induction n rule: be_bytes.induct)
  case (1 n)
  have "unat (of_nat (n mod 256) :: byte) = n mod 256"
    by (simp add: unat_of_nat take_bit_eq_mod)
  with 1 show ?case
    by (cases "n = 0") (simp_all add: be_bytes.simps [of n] be_bytes.simps [of 0] be_val_def)
qed

lemma be_val_zeros [simp]: "be_val (replicate n 0) = 0"
  by (induction n) (simp_all add: be_val_def)

section \<open>Order and slices of byte strings\<close>

text \<open>\<open>bytes.Compare(a, b) < 0\<close>.\<close>

fun bytes_less :: "bytes \<Rightarrow> bytes \<Rightarrow> bool" where
  "bytes_less [] [] = False"
| "bytes_less [] (_ # _) = True"
| "bytes_less (_ # _) [] = False"
| "bytes_less (a # as) (b # bs) = (a < b \<or> (a = b \<and> bytes_less as bs))"

lemma bytes_less_irrefl: "\<not> bytes_less a a"
  by (induction a) auto

lemma bytes_less_trans: "bytes_less a b \<Longrightarrow> bytes_less b c \<Longrightarrow> bytes_less a c"
proof (induction a b arbitrary: c rule: bytes_less.induct)
  case (2 b bs)
  then show ?case by (cases c) auto
next
  case (4 a as b bs)
  then show ?case by (cases c) auto
qed auto

lemma bytes_less_total: "a \<noteq> b \<Longrightarrow> bytes_less a b \<or> bytes_less b a"
  by (induction a b rule: bytes_less.induct) auto

lemma bytes_less_asym: "bytes_less a b \<Longrightarrow> \<not> bytes_less b a"
  using bytes_less_trans bytes_less_irrefl by blast

text \<open>\<open>s[:n]\<close> panics when \<open>n\<close> exceeds the length.\<close>

definition slice_to :: "nat \<Rightarrow> 'a list \<Rightarrow> 'a list res" where
  "slice_to n s = (if n \<le> length s then Inr (take n s) else Inl (Panic ''slice bounds out of range''))"

section \<open>SHA-256\<close>

type_synonym w32 = "32 word"

text \<open>The constant tables, eight 32-bit words to a number, most significant word first.\<close>

definition w32_row :: "nat \<Rightarrow> w32 list" where
  "w32_row n = map (\<lambda>i. of_nat (n div 2 ^ (32 * i))) (rev [0..<8])"

definition sha_k :: "w32 list" where
  "sha_k = concat (map w32_row [
     0x428a2f9871374491b5c0fbcfe9b5dba53956c25b59f111f1923f82a4ab1c5ed5,
     0xd807aa9812835b01243185be550c7dc372be5d7480deb1fe9bdc06a7c19bf174,
     0xe49b69c1efbe47860fc19dc6240ca1cc2de92c6f4a7484aa5cb0a9dc76f988da,
     0x983e5152a831c66db00327c8bf597fc7c6e00bf3d5a7914706ca635114292967,
     0x27b70a852e1b21384d2c6dfc53380d13650a7354766a0abb81c2c92e92722c85,
     0xa2bfe8a1a81a664bc24b8b70c76c51a3d192e819d6990624f40e3585106aa070,
     0x19a4c1161e376c082748774c34b0bcb5391c0cb34ed8aa4a5b9cca4f682e6ff3,
     0x748f82ee78a5636f84c878148cc7020890befffaa4506cebbef9a3f7c67178f2])"

definition sha_h0 :: "w32 list" where
  "sha_h0 = concat (map w32_row [
     0x6a09e667bb67ae853c6ef372a54ff53a510e527f9b05688c1f83d9ab5be0cd19])"

definition rotr :: "nat \<Rightarrow> w32 \<Rightarrow> w32" where
  "rotr n w = word_rotr n w"

definition sha_schedule :: "w32 list \<Rightarrow> w32 list" where
  "sha_schedule w16 = foldl (\<lambda>w i.
     let a = w ! (i - 15); b = w ! (i - 2);
         s0 = xor (xor (rotr 7 a) (rotr 18 a)) (drop_bit 3 a);
         s1 = xor (xor (rotr 17 b) (rotr 19 b)) (drop_bit 10 b)
     in w @ [w ! (i - 16) + s0 + w ! (i - 7) + s1]) w16 [16..<64]"

definition sha_round :: "w32 list \<Rightarrow> w32 \<times> w32 \<Rightarrow> w32 list" where
  "sha_round v kw = (case v of
     [a, b, c, d, e, f, g, h] \<Rightarrow>
       let s1 = xor (xor (rotr 6 e) (rotr 11 e)) (rotr 25 e);
           ch = xor (and e f) (and (not e) g);
           t1 = h + s1 + ch + fst kw + snd kw;
           s0 = xor (xor (rotr 2 a) (rotr 13 a)) (rotr 22 a);
           mj = xor (xor (and a b) (and a c)) (and b c)
       in [t1 + (s0 + mj), a, b, c, d + t1, e, f, g]
   | _ \<Rightarrow> v)"

definition sha_compress :: "w32 list \<Rightarrow> w32 list \<Rightarrow> w32 list" where
  "sha_compress h w16 = map2 (+) h (foldl sha_round h (zip sha_k (sha_schedule w16)))"

definition w32_of_bytes :: "bytes \<Rightarrow> w32" where
  "w32_of_bytes bs = of_nat (be_val bs)"

definition bytes_of_w32 :: "w32 \<Rightarrow> bytes" where
  "bytes_of_w32 w = map (\<lambda>i. ucast (drop_bit (8 * i) w)) (rev [0..<4])"

fun chunks :: "nat \<Rightarrow> 'a list \<Rightarrow> 'a list list" where
  "chunks n xs = (if xs = [] \<or> n = 0 then [] else take n xs # chunks n (drop n xs))"

declare chunks.simps [simp del]

definition sha_pad :: "bytes \<Rightarrow> bytes" where
  "sha_pad bs = (let l = length bs; z = (119 - l mod 64) mod 64 in
     bs @ [0x80] @ replicate z 0 @ put_u64 (of_nat (8 * l)))"

definition sha256 :: "bytes \<Rightarrow> bytes" where
  "sha256 bs = concat (map bytes_of_w32
     (foldl (\<lambda>h c. sha_compress h (map w32_of_bytes (chunks 4 c))) sha_h0 (chunks 64 (sha_pad bs))))"

lemma length_sha_round: "length (sha_round v kw) = length v"
  by (auto simp: sha_round_def Let_def split: list.splits)

lemma length_foldl_sha_round: "length (foldl sha_round v kws) = length v"
  by (induction kws arbitrary: v) (auto simp: length_sha_round)

lemma length_sha_compress: "length (sha_compress h w) = length h"
  by (simp add: sha_compress_def length_foldl_sha_round)

lemma length_sha_fold: "length (foldl (\<lambda>h c. sha_compress h (f c)) h cs) = length h"
  by (induction cs arbitrary: h) (auto simp: length_sha_compress)

lemma length_sha256 [simp]: "length (sha256 bs) = 32"
  by (simp add: sha256_def length_concat comp_def bytes_of_w32_def length_sha_fold
      sum_list_triv sha_h0_def w32_row_def)

lemma sha256_not_Nil [simp]: "sha256 bs \<noteq> []"
  using length_sha256 [of bs] by (metis list.size(3) zero_neq_numeral)

text \<open>
  Statements that depend on the hash being collision free name the collision instead of
  assuming that there is none.
\<close>

definition sha256_collision :: "bytes \<Rightarrow> bytes \<Rightarrow> bool" where
  "sha256_collision a b = (a \<noteq> b \<and> sha256 a = sha256 b)"

end
