(* ===== verification/Core_Types.thy ===== *)
theory Core_Types
  imports Float64 Encoding
begin

text \<open>
  Package \<open>core\<close> (\<open>pkg/core/types.go\<close>, \<open>pkg/core/constants.go\<close>): headers, blocks,
  transactions, validators and accounts, their hashes, the P-256 public-key encoding and the
  protocol constants.

  Field names carry a prefix per type (\<open>h_\<close>, \<open>b_\<close>, \<open>tx_\<close>, \<open>v_\<close>, \<open>a_\<close>). A nil byte
  slice is the empty list, but for \<open>VRFOutput\<close>, where the code tells nil from empty. The
  pointers \<open>Header\<close> and \<open>*big.Int\<close> are taken as non-nil. \<open>json.Marshal\<close> is an argument
  (\<open>encoder\<close>), and so is \<open>json.Unmarshal\<close>
  (\<open>decoder\<close>); that decoding gives a value back is a hypothesis on that value (\<open>json_ok\<close>).
\<close>

section \<open>Data (pkg/core/types.go)\<close>

record BlockHeader =
  h_Version :: int
  h_PrevBlockHash :: bytes
  h_MerkleRoot :: bytes
  h_Timestamp :: gotime
  h_Nonce :: u64
  h_Difficulty :: int
  h_Height :: u64
  h_PoBScore :: f64
  h_PoBWeight :: u64
  h_VRFProof :: bytes
  h_VRFOutput :: "bytes option"

record Transaction =
  tx_ID :: string
  tx_From :: string
  tx_To :: string
  tx_Amount :: int
  tx_Timestamp :: gotime
  tx_Nonce :: u64
  tx_Fee :: int
  tx_Signature :: bytes
  tx_Data :: bytes

record Block =
  b_Header :: BlockHeader
  b_Transactions :: "Transaction list"
  b_ProposerID :: string
  b_PoHSequence :: bytes
  b_Signature :: bytes
  b_VRFProof :: bytes

record ValidatorInfo =
  v_ID :: string
  v_PublicKey :: bytes
  v_VRFPublicKey :: bytes
  v_PoBScore :: f64
  v_UploadBandwidth :: f64
  v_Latency :: f64
  v_PacketLoss :: f64
  v_Reputation :: int
  v_LastPoBTest :: gotime
  v_IsActive :: bool
  v_RewardAddress :: string
  v_NetworkASN :: string
  v_IPAddress :: string
  v_IsSuspended :: bool
  v_SuspensionEndTime :: gotime
  v_SuspensionReason :: string
  v_IsObserver :: bool
  v_ObserverStartTime :: gotime
  v_ObserverDuration :: duration

record Account =
  a_Address :: string
  a_Balance :: int
  a_Nonce :: u64
  a_CodeHash :: bytes

type_synonym 'a encoder = "'a \<Rightarrow> bytes res"
type_synonym 'a decoder = "bytes \<Rightarrow> 'a res"

text \<open>What \<open>json.Unmarshal\<close> makes of what \<open>json.Marshal\<close> wrote for one value.\<close>

definition json_ok :: "'a encoder \<Rightarrow> 'a decoder \<Rightarrow> 'a \<Rightarrow> bool" where
  "json_ok enc dec x = (case enc x of Inl _ \<Rightarrow> True | Inr bs \<Rightarrow> dec bs = Inr x)"

lemma json_okD: "json_ok enc dec x \<Longrightarrow> enc x = Inr bs \<Longrightarrow> dec bs = Inr x"
  by (simp add: json_ok_def)

text \<open>The zero value of \<open>time.Time\<close>, as nanoseconds relative to the Unix epoch.\<close>

definition zero_time :: gotime where
  "zero_time = - 62135596800 * second"

section \<open>Hashes\<close>

definition Block_Hash :: "Block encoder \<Rightarrow> Block \<Rightarrow> bytes res" where
  "Block_Hash enc b =
     (case enc (b\<lparr>b_Signature := []\<rparr>) of Inl e \<Rightarrow> Inl e | Inr data \<Rightarrow> Inr (sha256 data))"

definition Transaction_Hash :: "Transaction encoder \<Rightarrow> Transaction \<Rightarrow> bytes res" where
  "Transaction_Hash enc tx =
     (case enc (tx\<lparr>tx_Signature := []\<rparr>) of Inl e \<Rightarrow> Inl e | Inr data \<Rightarrow> Inr (sha256 data))"

lemma Block_Hash_signature [simp]: "Block_Hash enc (b\<lparr>b_Signature := s\<rparr>) = Block_Hash enc b"
  by (simp add: Block_Hash_def)

lemma Transaction_Hash_signature [simp]:
  "Transaction_Hash enc (tx\<lparr>tx_Signature := s\<rparr>) = Transaction_Hash enc tx"
  by (simp add: Transaction_Hash_def)

lemma length_Block_Hash: "Block_Hash enc b = Inr h \<Longrightarrow> length h = 32"
  by (auto simp: Block_Hash_def split: sum.splits)

lemma length_Transaction_Hash: "Transaction_Hash enc tx = Inr h \<Longrightarrow> length h = 32"
  by (auto simp: Transaction_Hash_def split: sum.splits)

section \<open>Public keys (EncodePublicKey, DecodeECDSAPublicKey)\<close>

text \<open>An ECDSA public key on P-256 is its pair of coordinates.\<close>

type_synonym PublicKey = "nat \<times> nat"

definition p256_P :: nat where
  "p256_P = 2 ^ 256 - 2 ^ 224 + 2 ^ 192 + 2 ^ 96 - 1"

definition p256_B :: int where
  "p256_B = 0x5ac635d8aa3a93e7b3ebbd55769886bc651d06b0cc53b0f63bce3c3e27d2604b"

text \<open>\<open>copy(padded[32-len(b):], b)\<close> on a zeroed array of 32 bytes.\<close>

definition pad32 :: "bytes \<Rightarrow> bytes res" where
  "pad32 b = (if 32 < length b then Inl (Panic ''slice bounds out of range'')
              else Inr (replicate (32 - length b) 0 @ b))"

definition EncodePublicKey :: "PublicKey \<Rightarrow> bytes res" where
  "EncodePublicKey k = (case pad32 (be_bytes (fst k)) of Inl e \<Rightarrow> Inl e
     | Inr x \<Rightarrow> (case pad32 (be_bytes (snd k)) of Inl e \<Rightarrow> Inl e | Inr y \<Rightarrow> Inr (x @ y)))"

text \<open>
  The legacy form holds only the \<open>x\<close> coordinate; \<open>big.Int.ModSqrt\<close> is the argument
  \<open>modsqrt\<close>.
\<close>

definition DecodeECDSAPublicKey :: "(int \<Rightarrow> nat \<Rightarrow> nat) \<Rightarrow> bytes \<Rightarrow> PublicKey res" where
  "DecodeECDSAPublicKey modsqrt bs =
     (if bs = [] then Inl (Error ''empty public key'')
      else if length bs = 64 then Inr (be_val (take 32 bs), be_val (drop 32 bs))
      else let x = be_val bs;
               ySquared = (int x * int x * int x - int x * 3 + p256_B) mod int p256_P
           in Inr (x, modsqrt ySquared p256_P))"

lemma length_be_bytes: "n < 256 ^ k \<Longrightarrow> length (be_bytes n) \<le> k"
proof (induction k arbitrary: n)
  case 0
  then show ?case by (simp add: be_bytes.simps)
next
  case (Suc k)
  have "n div 256 < 256 ^ k"
    using Suc.prems by (simp add: less_mult_imp_div_less mult.commute)
  with Suc.IH show ?case
    by (cases "n = 0") (simp_all add: be_bytes.simps [of n] be_bytes.simps [of 0])
qed

lemma be_val_pad: "be_val (replicate k 0 @ bs) = be_val bs"
  by (induction k) (simp_all add: be_val_def)

lemma pad32_small: "n < 2 ^ 256 \<Longrightarrow>
   \<exists>b. pad32 (be_bytes n) = Inr b \<and> length b = 32 \<and> be_val b = n"
  using length_be_bytes [of n 32] by (simp add: pad32_def be_val_pad)

text \<open>A validator for concrete examples.\<close>

definition demo_info :: ValidatorInfo where
  "demo_info = \<lparr>v_ID = ''v'', v_PublicKey = replicate 64 0, v_VRFPublicKey = [], v_PoBScore = NaN,
     v_UploadBandwidth = NaN, v_Latency = NaN, v_PacketLoss = NaN, v_Reputation = 0, v_LastPoBTest = 0,
     v_IsActive = True, v_RewardAddress = [], v_NetworkASN = [], v_IPAddress = [], v_IsSuspended = False,
     v_SuspensionEndTime = 0, v_SuspensionReason = [], v_IsObserver = False, v_ObserverStartTime = 0,
     v_ObserverDuration = 0\<rparr>"

section \<open>Constants (pkg/core/constants.go)\<close>

definition BlockTime :: duration where "BlockTime = 30 * second"
definition PropagationPhase :: duration where "PropagationPhase = 10 * second"
definition VerificationVotingPhase :: duration where "VerificationVotingPhase = 15 * second"
definition MinUploadBandwidth :: f64 where "MinUploadBandwidth = f_lit 7"
definition TargetLatency :: f64 where "TargetLatency = f_lit 100"
definition TargetPacketLoss :: f64 where "TargetPacketLoss = f_lit (1 / 10)"
definition MinPoBScore :: f64 where "MinPoBScore = f_lit (85 / 100)"
definition SupermajorityThreshold :: f64 where "SupermajorityThreshold = f_lit (85 / 100)"
definition TestDataSize :: nat where "TestDataSize = 8 * 1024 * 1024"
definition MaxNewAddressesPerBlock :: nat where "MaxNewAddressesPerBlock = 15"
definition InitialBlockReward :: int where "InitialBlockReward = 100"
definition BlockRewardReduction :: int where "BlockRewardReduction = 1"
definition BlockReductionInterval :: int where "BlockReductionInterval = 1000000"
definition MinBlockReward :: int where "MinBlockReward = 1"
definition ProposerRewardPercentage :: int where "ProposerRewardPercentage = 80"
definition PoBContributorPercentage :: int where "PoBContributorPercentage = 20"
definition MaxPoBContributors :: int where "MaxPoBContributors = 20"

text \<open>
  A public key whose coordinates fit into 256 bits survives the wire encoding: encoding
  pads both coordinates to 32 bytes, never panics, and decoding gives the key back, whatever
  the number of leading zero bytes of a coordinate.
\<close>

theorem public_key_roundtrip:
  assumes "fst k < 2 ^ 256" "snd k < 2 ^ 256"
  shows "\<exists>bs. EncodePublicKey k = Inr bs \<and> length bs = 64 \<and> DecodeECDSAPublicKey ms bs = Inr k"
proof -
  obtain x y where "pad32 (be_bytes (fst k)) = Inr x" "length x = 32" "be_val x = fst k"
    and "pad32 (be_bytes (snd k)) = Inr y" "length y = 32" "be_val y = snd k"
    using pad32_small [OF assms(1)] pad32_small [OF assms(2)] by blast
  then show ?thesis
    by (auto simp: EncodePublicKey_def DecodeECDSAPublicKey_def)
qed

theorem public_key_roundtrip_witness:
  "\<exists>bs. EncodePublicKey (1, 2 ^ 255) = Inr bs \<and> length bs = 64 \<and>
        DecodeECDSAPublicKey (\<lambda>_ _. 0) bs = Inr (1, 2 ^ 255)"
  using public_key_roundtrip [of "(1, 2 ^ 255)" "\<lambda>_ _. 0"] by simp

end
