(* ===== verification/Tx_Pool.thy ===== *)
theory Tx_Pool
  imports Core_Types
begin

text \<open>
  The transaction pool (\<open>pkg/blockchain/mempool.go\<close>): an ID index beside a list in order of
  arrival. The interface \<open>tx_pool\<close> is what the pool's clients (mempool synchronisation, the
  block proposer) rely on; it is interpreted on the operations of the code.
\<close>

section \<open>State and operations\<close>

record Mempool =
  mp_transactions :: "(string, Transaction) gomap"
  mp_priorityTx :: "Transaction list"

definition NewMempool :: Mempool where
  "NewMempool = \<lparr>mp_transactions = [], mp_priorityTx = []\<rparr>"

definition AddTransaction :: "Transaction \<Rightarrow> Mempool \<Rightarrow> Mempool" where
  "AddTransaction tx m =
     (if mhas (mp_transactions m) (tx_ID tx) then m
      else m\<lparr>mp_transactions := mput (tx_ID tx) tx (mp_transactions m),
             mp_priorityTx := mp_priorityTx m @ [tx]\<rparr>)"

definition GetTransactions :: "Mempool \<Rightarrow> int \<Rightarrow> Transaction list res" where
  "GetTransactions m count =
     (let count' = (if count > int (length (mp_priorityTx m)) then int (length (mp_priorityTx m)) else count)
      in if count' < 0 then Inl (Panic ''slice bounds out of range'')
         else Inr (take (nat count') (mp_priorityTx m)))"

fun remove_first :: "string \<Rightarrow> Transaction list \<Rightarrow> Transaction list" where
  "remove_first txID [] = []"
| "remove_first txID (tx # txs) = (if tx_ID tx = txID then txs else tx # remove_first txID txs)"

definition RemoveTransaction :: "string \<Rightarrow> Mempool \<Rightarrow> Mempool" where
  "RemoveTransaction txID m =
     m\<lparr>mp_transactions := mdel txID (mp_transactions m),
       mp_priorityTx := remove_first txID (mp_priorityTx m)\<rparr>"

definition Contains :: "Mempool \<Rightarrow> string \<Rightarrow> bool" where
  "Contains m txID = mhas (mp_transactions m) txID"

definition Mempool_Size :: "Mempool \<Rightarrow> nat" where
  "Mempool_Size m = mlen (mp_transactions m)"

definition GetTransaction :: "Mempool \<Rightarrow> string \<Rightarrow> Transaction option" where
  "GetTransaction m txID = mget (mp_transactions m) txID"

definition GetPendingTransactions :: "Mempool \<Rightarrow> Transaction list" where
  "GetPendingTransactions m = mp_priorityTx m"

definition estimateTransactionSize :: "Transaction \<Rightarrow> int" where
  "estimateTransactionSize tx = (64 + 42 + 42 + 32 + 8 + 8 + 32 + 64) + int (length (tx_Data tx))"

fun by_size_loop :: "int \<Rightarrow> int \<Rightarrow> Transaction list \<Rightarrow> Transaction list \<Rightarrow> Transaction list" where
  "by_size_loop maxSizeBytes totalSize selected [] = selected"
| "by_size_loop maxSizeBytes totalSize selected (tx # txs) =
     (let txSize = estimateTransactionSize tx in
      if totalSize + txSize > maxSizeBytes then selected
      else by_size_loop maxSizeBytes (totalSize + txSize) (selected @ [tx]) txs)"

definition GetTransactionsBySize :: "Mempool \<Rightarrow> int \<Rightarrow> Transaction list" where
  "GetTransactionsBySize m maxSizeBytes = by_size_loop maxSizeBytes 0 [] (mp_priorityTx m)"

section \<open>The interface of a pool\<close>

locale tx_pool =
  fixes insert_tx :: "Transaction \<Rightarrow> 's \<Rightarrow> 's"
    and remove_tx :: "string \<Rightarrow> 's \<Rightarrow> 's"
    and lookup_tx :: "'s \<Rightarrow> string \<Rightarrow> Transaction option"
    and pending :: "'s \<Rightarrow> Transaction list"
    and inv :: "'s \<Rightarrow> bool"
  assumes inv_insert: "inv s \<Longrightarrow> inv (insert_tx tx s)"
    and inv_remove: "inv s \<Longrightarrow> inv (remove_tx i s)"
    and lookup_insert: "inv s \<Longrightarrow> lookup_tx (insert_tx tx s) i =
      (if i = tx_ID tx \<and> lookup_tx s i = None then Some tx else lookup_tx s i)"
    and lookup_remove: "inv s \<Longrightarrow> lookup_tx (remove_tx i s) j = (if j = i then None else lookup_tx s j)"
    and pending_lookup: "inv s \<Longrightarrow> tx \<in> set (pending s) \<longleftrightarrow> lookup_tx s (tx_ID tx) = Some tx"
    and pending_distinct: "inv s \<Longrightarrow> distinct (map tx_ID (pending s))"
    and lookup_id: "inv s \<Longrightarrow> lookup_tx s i = Some tx \<Longrightarrow> tx_ID tx = i"
begin

text \<open>Adding a list of transactions: the first one with an ID wins, earlier entries stay.\<close>

definition insert_all :: "Transaction list \<Rightarrow> 's \<Rightarrow> 's" where
  "insert_all txs s = foldl (\<lambda>s tx. insert_tx tx s) s txs"

lemma inv_insert_all: "inv s \<Longrightarrow> inv (insert_all txs s)"
  unfolding insert_all_def by (induction txs arbitrary: s) (auto simp: inv_insert)

lemma lookup_insert_all:
  "inv s \<Longrightarrow> lookup_tx (insert_all txs s) i =
   (case lookup_tx s i of Some tx \<Rightarrow> Some tx | None \<Rightarrow> List.find (\<lambda>tx. tx_ID tx = i) txs)"
proof (induction txs arbitrary: s)
  case Nil
  then show ?case by (auto simp: insert_all_def split: option.splits)
next
  case (Cons tx txs)
  have step: "insert_all (tx # txs) s = insert_all txs (insert_tx tx s)" by (simp add: insert_all_def)
  note eq = Cons.IH [OF inv_insert [OF Cons.prems, of tx]] lookup_insert [OF Cons.prems, of tx i]
  show ?case
  proof (cases "i = tx_ID tx \<and> lookup_tx s i = None")
    case True
    then have i: "tx_ID tx = i" "lookup_tx s i = None" by auto
    then have "lookup_tx (insert_tx tx s) i = Some tx" using eq(2) by simp
    with i show ?thesis unfolding step eq(1) by simp
  next
    case False
    then have "lookup_tx (insert_tx tx s) i = lookup_tx s i" unfolding eq(2) by (rule if_not_P)
    with False show ?thesis unfolding step eq(1) by (cases "lookup_tx s i") auto
  qed
qed

lemma insert_again: "inv s \<Longrightarrow> lookup_tx s (tx_ID tx) \<noteq> None \<Longrightarrow>
    lookup_tx (insert_tx tx s) i = lookup_tx s i"
  by (auto simp: lookup_insert)

lemma pending_iff: "inv s \<Longrightarrow> (\<exists>tx \<in> set (pending s). tx_ID tx = i) \<longleftrightarrow> lookup_tx s i \<noteq> None"
  by (metis pending_lookup lookup_id not_None_eq)

end

text \<open>The invariant of the code's pool: index and list hold the same transactions.\<close>

definition mempool_inv :: "Mempool \<Rightarrow> bool" where
  "mempool_inv m = (wf_map (mp_transactions m) \<and> distinct (map tx_ID (mp_priorityTx m)) \<and>
     mp_transactions m = map (\<lambda>tx. (tx_ID tx, tx)) (mp_priorityTx m))"

lemma mempool_inv_new: "mempool_inv NewMempool"
  by (simp add: mempool_inv_def NewMempool_def)

lemma update_fresh: "k \<notin> fst ` set m \<Longrightarrow> AList.update k v m = m @ [(k, v)]"
  by (induction m) auto

lemma delete_pairs: "distinct (map tx_ID txs) \<Longrightarrow>
   AList.delete i (map (\<lambda>tx. (tx_ID tx, tx)) txs) = map (\<lambda>tx. (tx_ID tx, tx)) (remove_first i txs)"
proof (induction txs)
  case (Cons tx txs)
  then show ?case by (auto simp: delete_id image_iff)
qed simp

lemma distinct_remove_first: "distinct (map tx_ID txs) \<Longrightarrow> distinct (map tx_ID (remove_first i txs))"
proof -
  have "set (remove_first i xs) \<subseteq> set xs" for xs by (induction xs) auto
  then show "distinct (map tx_ID txs) \<Longrightarrow> ?thesis" by (induction txs) auto
qed

lemma mempool_inv_add: "mempool_inv m \<Longrightarrow> mempool_inv (AddTransaction tx m)"
  by (auto simp: mempool_inv_def AddTransaction_def mhas_iff mput_def update_fresh comp_def image_iff)

lemma mempool_inv_remove: "mempool_inv m \<Longrightarrow> mempool_inv (RemoveTransaction i m)"
  by (auto simp: mempool_inv_def RemoveTransaction_def mdel_def delete_pairs distinct_remove_first comp_def
      dest: distinct_remove_first [of _ i])

lemma mempool_get: "mempool_inv m \<Longrightarrow> GetTransaction m i = Some tx \<longleftrightarrow>
    tx \<in> set (mp_priorityTx m) \<and> tx_ID tx = i"
  unfolding mempool_inv_def GetTransaction_def mget_def by (subst map_of_eq_Some_iff) auto

interpretation mempool: tx_pool AddTransaction RemoveTransaction GetTransaction GetPendingTransactions mempool_inv
proof
  fix s tx i j
  assume inv: "mempool_inv s"
  show "mempool_inv (AddTransaction tx s)" by (rule mempool_inv_add [OF inv])
  show "mempool_inv (RemoveTransaction i s)" by (rule mempool_inv_remove [OF inv])
  show "GetTransaction (AddTransaction tx s) i =
      (if i = tx_ID tx \<and> GetTransaction s i = None then Some tx else GetTransaction s i)"
    by (auto simp: GetTransaction_def AddTransaction_def mhas_def mget_mput)
  show "GetTransaction (RemoveTransaction i s) j = (if j = i then None else GetTransaction s j)"
    by (simp add: GetTransaction_def RemoveTransaction_def mget_mdel)
  show "tx \<in> set (GetPendingTransactions s) \<longleftrightarrow> GetTransaction s (tx_ID tx) = Some tx"
    by (simp add: mempool_get [OF inv] GetPendingTransactions_def)
  show "distinct (map tx_ID (GetPendingTransactions s))"
    using inv by (simp add: mempool_inv_def GetPendingTransactions_def)
  show "GetTransaction s i = Some tx \<Longrightarrow> tx_ID tx = i" by (simp add: mempool_get [OF inv])
qed

section \<open>Selection by size\<close>

definition total_size :: "Transaction list \<Rightarrow> int" where
  "total_size txs = sum_list (map estimateTransactionSize txs)"

lemma by_size_loop_prefix:
  "\<exists>k \<le> length txs. by_size_loop maxb tot sel txs = sel @ take k txs \<and>
     (0 < k \<longrightarrow> tot + total_size (take k txs) \<le> maxb) \<and>
     (k < length txs \<longrightarrow> maxb < tot + total_size (take (Suc k) txs))"
proof (induction txs arbitrary: tot sel)
  case Nil
  then show ?case by simp
next
  case (Cons tx txs)
  show ?case
  proof (cases "tot + estimateTransactionSize tx > maxb")
    case True
    then show ?thesis by (intro exI [of _ 0]) (simp add: Let_def total_size_def)
  next
    case False
    obtain k where k: "k \<le> length txs"
        "by_size_loop maxb (tot + estimateTransactionSize tx) (sel @ [tx]) txs = (sel @ [tx]) @ take k txs"
        "0 < k \<longrightarrow> tot + estimateTransactionSize tx + total_size (take k txs) \<le> maxb"
        "k < length txs \<longrightarrow> maxb < tot + estimateTransactionSize tx + total_size (take (Suc k) txs)"
      using Cons.IH by blast
    with False show ?thesis
      by (intro exI [of _ "Suc k"]) (cases "k = 0", auto simp: Let_def total_size_def)
  qed
qed

section \<open>Properties\<close>

definition demo_tx :: "string \<Rightarrow> Transaction" where
  "demo_tx i = \<lparr>tx_ID = i, tx_From = ''a'', tx_To = ''b'', tx_Amount = 1, tx_Timestamp = 0,
     tx_Nonce = 1, tx_Fee = 0, tx_Signature = [], tx_Data = []\<rparr>"

definition demo_pool :: Mempool where
  "demo_pool = AddTransaction (demo_tx ''2'') (AddTransaction (demo_tx ''1'') NewMempool)"

lemma demo_pool_inv: "mempool_inv demo_pool"
  by (simp add: demo_pool_def mempool_inv_new mempool_inv_add)

lemma demo_pool_simps:
  "mp_priorityTx demo_pool = [demo_tx ''1'', demo_tx ''2'']" "tx_ID (demo_tx i) = i"
  by (simp_all add: demo_pool_def NewMempool_def AddTransaction_def mhas_def mget_mput demo_tx_def)

text \<open>
  C27: The pool's index and its list never diverge: a new pool is consistent, adding and
  removing keep it so, and in a consistent pool the list has no ID twice, \<open>Size\<close> is its length,
  \<open>Contains\<close> and \<open>GetTransaction\<close> find exactly the transactions of the list.
\<close>

theorem mempool_consistent:
  "mempool_inv NewMempool \<and>
   (\<forall>m tx i. mempool_inv m \<longrightarrow> mempool_inv (AddTransaction tx m) \<and> mempool_inv (RemoveTransaction i m)) \<and>
   (\<forall>m i. mempool_inv m \<longrightarrow> distinct (map tx_ID (GetPendingTransactions m)) \<and>
      Mempool_Size m = length (GetPendingTransactions m) \<and>
      (Contains m i \<longleftrightarrow> (\<exists>tx \<in> set (GetPendingTransactions m). tx_ID tx = i)) \<and>
      (\<forall>tx. GetTransaction m i = Some tx \<longleftrightarrow> tx \<in> set (GetPendingTransactions m) \<and> tx_ID tx = i))"
proof (intro conjI allI impI)
  show "mempool_inv NewMempool" by (rule mempool_inv_new)
next
  fix m tx i assume "mempool_inv m"
  then show "mempool_inv (AddTransaction tx m)" "mempool_inv (RemoveTransaction i m)"
    by (rule mempool.inv_insert, rule mempool.inv_remove)
next
  fix m tx i assume inv: "mempool_inv m"
  show "distinct (map tx_ID (GetPendingTransactions m))" by (rule mempool.pending_distinct [OF inv])
  show "Mempool_Size m = length (GetPendingTransactions m)"
    using inv by (simp add: mempool_inv_def Mempool_Size_def mlen_def GetPendingTransactions_def)
  show "Contains m i \<longleftrightarrow> (\<exists>tx \<in> set (GetPendingTransactions m). tx_ID tx = i)"
    using mempool.pending_iff [OF inv] by (simp add: Contains_def mhas_def GetTransaction_def)
  show "GetTransaction m i = Some tx \<longleftrightarrow> tx \<in> set (GetPendingTransactions m) \<and> tx_ID tx = i"
    by (simp add: mempool_get [OF inv] GetPendingTransactions_def)
qed

theorem mempool_consistent_witness:
  "Mempool_Size demo_pool = 2 \<and> GetTransaction demo_pool ''2'' = Some (demo_tx ''2'') \<and>
   mempool_inv (RemoveTransaction ''1'' demo_pool)"
  using mempool_consistent demo_pool_inv by (auto simp: GetPendingTransactions_def demo_pool_simps)

text \<open>
  The pool is first-come-first-served: adding a transaction with a new ID puts it at the
  end of the list, an ID already present leaves the pool as it is, and removing an ID takes out
  exactly that transaction and keeps the order of the others.
\<close>

theorem mempool_order:
  assumes "mempool_inv m"
  shows "GetPendingTransactions (AddTransaction tx m) =
      GetPendingTransactions m @ (if Contains m (tx_ID tx) then [] else [tx]) \<and>
    GetPendingTransactions (RemoveTransaction i m) =
      filter (\<lambda>tx. tx_ID tx \<noteq> i) (GetPendingTransactions m)"
proof
  show "GetPendingTransactions (AddTransaction tx m) =
      GetPendingTransactions m @ (if Contains m (tx_ID tx) then [] else [tx])"
    by (simp add: GetPendingTransactions_def AddTransaction_def Contains_def)
  have "distinct (map tx_ID txs) \<Longrightarrow> remove_first i txs = filter (\<lambda>tx. tx_ID tx \<noteq> i) txs" for txs
  proof (induction txs)
    case (Cons tx txs)
    then have "filter (\<lambda>x. tx_ID x \<noteq> tx_ID tx) txs = txs"
      by (intro filter_True) (auto simp: image_iff)
    with Cons show ?case by auto
  qed simp
  with assms show "GetPendingTransactions (RemoveTransaction i m) =
      filter (\<lambda>tx. tx_ID tx \<noteq> i) (GetPendingTransactions m)"
    by (simp add: GetPendingTransactions_def RemoveTransaction_def mempool_inv_def)
qed

theorem mempool_order_witness:
  "GetPendingTransactions (RemoveTransaction ''1'' demo_pool) = [demo_tx ''2'']"
  using mempool_order [OF demo_pool_inv, of "demo_tx ''1''" "''1''"]
  by (simp add: GetPendingTransactions_def demo_pool_simps)

text \<open>
  Block filling respects the capacity and is greedy: the selection is a prefix of the
  pool's list; if it is not empty its estimated size is within the limit; and if it stops
  before the end, the next transaction would have exceeded the limit.
\<close>

theorem size_selection:
  "\<exists>k \<le> length (mp_priorityTx m). GetTransactionsBySize m cap = take k (mp_priorityTx m) \<and>
     (0 < k \<longrightarrow> total_size (take k (mp_priorityTx m)) \<le> cap) \<and>
     (k < length (mp_priorityTx m) \<longrightarrow> cap < total_size (take (Suc k) (mp_priorityTx m)))"
  using by_size_loop_prefix [of "mp_priorityTx m" cap 0 "[]"] by (simp add: GetTransactionsBySize_def)

theorem size_selection_witness:
  "\<exists>k \<le> 2. GetTransactionsBySize demo_pool 300 = take k [demo_tx ''1'', demo_tx ''2'']"
  using size_selection [of demo_pool 300] by (auto simp: demo_pool_simps numeral_2_eq_2)

end
