(* ===== verification/Mempool_Sync.thy ===== *)
theory Mempool_Sync
  imports Tx_Pool
begin

text \<open>
  Transaction gossip over the pool (\<open>pkg/mempool/mempool_sync.go\<close>). The callbacks
  \<open>broadcastFunc\<close> and \<open>requestTxFunc\<close>, set by the network layer, are arguments
  (\<open>None\<close> when not set); an operation that broadcasts also returns the transactions handed to
  \<open>broadcastFunc\<close>, in order. What the pool does is used through its interface \<open>mempool\<close>.
\<close>

section \<open>State and operations\<close>

record MempoolSync =
  ms_mempool :: Mempool
  ms_knownTxs :: "(string, bool) gomap"
  ms_syncInterval :: duration
  ms_maxBatchSize :: int

type_synonym broadcast_func = "(Transaction \<Rightarrow> fail option) option"
type_synonym request_func = "(string \<Rightarrow> Transaction res) option"

definition NewMempoolSync :: "Mempool \<Rightarrow> MempoolSync" where
  "NewMempoolSync m = \<lparr>ms_mempool = m, ms_knownTxs = [], ms_syncInterval = 5 * second, ms_maxBatchSize = 50\<rparr>"

definition known :: "MempoolSync \<Rightarrow> string \<Rightarrow> bool" where
  "known ms txID = (mget (ms_knownTxs ms) txID = Some True)"

definition mark_known :: "string \<Rightarrow> MempoolSync \<Rightarrow> MempoolSync" where
  "mark_known txID ms = ms\<lparr>ms_knownTxs := mput txID True (ms_knownTxs ms)\<rparr>"

definition BroadcastTransaction ::
  "broadcast_func \<Rightarrow> Transaction \<Rightarrow> MempoolSync \<Rightarrow> MempoolSync \<times> Transaction list \<times> unit res" where
  "BroadcastTransaction bf tx ms =
     (let ms' = mark_known (tx_ID tx) ms;
          done_log = (case slice_to 12 (tx_ID tx) of Inl e \<Rightarrow> Inl e | Inr _ \<Rightarrow> Inr ())
      in case bf of
           None \<Rightarrow> (ms', [], done_log)
         | Some f \<Rightarrow> (case f tx of
               Some (Panic p) \<Rightarrow> (ms', [tx], Inl (Panic p))
             | Some (Error _) \<Rightarrow> (ms', [tx], Inl (Error ''broadcast failed''))
             | None \<Rightarrow> (ms', [tx], done_log)))"

definition HandleTxAnnouncement ::
  "request_func \<Rightarrow> string \<Rightarrow> string \<Rightarrow> MempoolSync \<Rightarrow> MempoolSync \<times> unit res" where
  "HandleTxAnnouncement rf txID peerID ms =
     (if known ms txID then (ms, Inr ())
      else let ms' = mark_known txID ms in
        if GetTransaction (ms_mempool ms') txID \<noteq> None then (ms', Inr ())
        else case rf of
            None \<Rightarrow> (ms', Inr ())
          | Some f \<Rightarrow> (case f txID of
                Inl (Panic p) \<Rightarrow> (ms', Inl (Panic p))
              | Inl (Error _) \<Rightarrow> (ms', Inl (Error ''failed to request tx''))
              | Inr tx \<Rightarrow>
                  (ms'\<lparr>ms_mempool := AddTransaction tx (ms_mempool ms')\<rparr>,
                   (case (slice_to 12 peerID, slice_to 12 (tx_ID tx)) of
                      (Inr _, Inr _) \<Rightarrow> Inr () | _ \<Rightarrow> Inl (Panic ''slice bounds out of range'')))))"

definition HandleTxRequest :: "string list \<Rightarrow> MempoolSync \<Rightarrow> Transaction list" where
  "HandleTxRequest txIDs ms = List.map_filter (GetTransaction (ms_mempool ms)) txIDs"

fun HandleTxResponse :: "Transaction list \<Rightarrow> MempoolSync \<Rightarrow> MempoolSync" where
  "HandleTxResponse [] ms = ms"
| "HandleTxResponse (tx # txs) ms =
     (let ms' = mark_known (tx_ID tx) ms
      in HandleTxResponse txs (ms'\<lparr>ms_mempool := AddTransaction tx (ms_mempool ms')\<rparr>))"

text \<open>
  One tick of \<open>SyncWithPeers\<close>. \<open>performSync\<close> calls the broadcast callback for every pending
  transaction not yet known and ignores its result.
\<close>

fun sync_loop :: "broadcast_func \<Rightarrow> Transaction list \<Rightarrow> MempoolSync \<times> Transaction list
    \<Rightarrow> MempoolSync \<times> Transaction list" where
  "sync_loop bf [] (ms, sent) = (ms, sent)"
| "sync_loop bf (tx # txs) (ms, sent) =
     (if known ms (tx_ID tx) then sync_loop bf txs (ms, sent)
      else sync_loop bf txs (mark_known (tx_ID tx) ms, if bf = None then sent else sent @ [tx]))"

definition performSync :: "broadcast_func \<Rightarrow> string list \<Rightarrow> MempoolSync \<Rightarrow> MempoolSync \<times> Transaction list" where
  "performSync bf peers ms =
     (if peers = [] then (ms, [])
      else sync_loop bf (GetPendingTransactions (ms_mempool ms)) (ms, []))"

definition GetMempoolStats :: "MempoolSync \<Rightarrow> nat \<times> nat" where
  "GetMempoolStats ms = (mlen (ms_knownTxs ms), Mempool_Size (ms_mempool ms))"

definition CleanupOldKnownTxs :: "duration \<Rightarrow> MempoolSync \<Rightarrow> MempoolSync" where
  "CleanupOldKnownTxs maxAge ms =
     (let pendingIDs = map tx_ID (GetPendingTransactions (ms_mempool ms))
      in ms\<lparr>ms_knownTxs := mkeep (\<lambda>txID _. txID \<in> set pendingIDs) (ms_knownTxs ms)\<rparr>)"

section \<open>Lemmas\<close>

definition ms_inv :: "MempoolSync \<Rightarrow> bool" where
  "ms_inv ms = (mempool_inv (ms_mempool ms) \<and> wf_map (ms_knownTxs ms))"

lemma mark_known_simps [simp]:
  "known (mark_known i ms) j \<longleftrightarrow> j = i \<or> known ms j"
  "ms_mempool (mark_known i ms) = ms_mempool ms"
  "known (ms\<lparr>ms_mempool := m\<rparr>) j = known ms j"
  by (auto simp: known_def mark_known_def mget_mput)

lemma ms_inv_mark: "ms_inv ms \<Longrightarrow> ms_inv (mark_known i ms)"
  by (simp add: ms_inv_def mark_known_def wf_mput)

lemma ms_inv_pool: "ms_inv ms \<Longrightarrow> ms_inv (ms\<lparr>ms_mempool := AddTransaction tx (ms_mempool ms)\<rparr>)"
  by (simp add: ms_inv_def mempool.inv_insert)

lemma response_pool:
  "ms_mempool (HandleTxResponse txs ms) = mempool.insert_all txs (ms_mempool ms)"
  by (induction txs arbitrary: ms) (simp_all add: mempool.insert_all_def Let_def)

lemma response_known: "known (HandleTxResponse txs ms) i \<longleftrightarrow> i \<in> tx_ID ` set txs \<or> known ms i"
  by (induction txs arbitrary: ms) (auto simp: Let_def)

lemma response_inv: "ms_inv ms \<Longrightarrow> ms_inv (HandleTxResponse txs ms)"
  by (induction txs arbitrary: ms) (simp_all add: Let_def ms_inv_mark ms_inv_pool del: mark_known_simps)

lemma sync_loop_effect:
  "distinct (map tx_ID txs) \<Longrightarrow>
   sync_loop bf txs (ms, sent) = (ms', sent') \<Longrightarrow>
   sent' = sent @ (if bf = None then [] else filter (\<lambda>tx. \<not> known ms (tx_ID tx)) txs) \<and>
   ms_mempool ms' = ms_mempool ms \<and> (\<forall>i. known ms' i \<longleftrightarrow> i \<in> tx_ID ` set txs \<or> known ms i)"
proof (induction txs arbitrary: ms sent)
  case Nil
  then show ?case by simp
next
  case (Cons tx txs)
  have other: "filter (\<lambda>t. \<not> known (mark_known (tx_ID tx) ms) (tx_ID t)) txs =
      filter (\<lambda>t. \<not> known ms (tx_ID t)) txs"
    using Cons.prems(1) by (intro filter_cong) (auto simp: image_iff)
  show ?case
  proof (cases "known ms (tx_ID tx)")
    case True
    with Cons show ?thesis by auto
  next
    case False
    with Cons.prems Cons.IH [of "mark_known (tx_ID tx) ms" "if bf = None then sent else sent @ [tx]"] other
    show ?thesis by (auto split: if_splits)
  qed
qed

lemma performSync_effect:
  assumes "ms_inv ms" "peers \<noteq> []" "performSync bf peers ms = (ms', sent)"
  shows "sent = (if bf = None then []
        else filter (\<lambda>tx. \<not> known ms (tx_ID tx)) (GetPendingTransactions (ms_mempool ms)))"
    "ms_mempool ms' = ms_mempool ms"
    "known ms' i \<longleftrightarrow> i \<in> tx_ID ` set (GetPendingTransactions (ms_mempool ms)) \<or> known ms i"
  using assms sync_loop_effect [of "GetPendingTransactions (ms_mempool ms)" bf ms "[]" ms' sent]
    mempool.pending_distinct [of "ms_mempool ms"]
  by (simp_all add: performSync_def ms_inv_def)

lemma request_find:
  "mempool_inv m \<Longrightarrow> List.find (\<lambda>tx. tx_ID tx = i) (List.map_filter (GetTransaction m) ids) =
   (if i \<in> set ids then GetTransaction m i else None)"
proof (induction ids)
  case Nil
  then show ?case by (simp add: map_filter_simps)
next
  case (Cons j ids)
  then show ?case
    using mempool.lookup_id [OF Cons.prems, of j]
    by (cases "GetTransaction m j") (auto simp: map_filter_simps)
qed

section \<open>Properties\<close>

definition demo_sync :: MempoolSync where
  "demo_sync = NewMempoolSync demo_pool"

lemma demo_sync_inv: "ms_inv demo_sync"
  by (simp add: demo_sync_def NewMempoolSync_def ms_inv_def demo_pool_inv)

lemma demo_sync_simps: "known demo_sync i = False" "ms_mempool demo_sync = demo_pool"
  by (simp_all add: demo_sync_def NewMempoolSync_def known_def)

text \<open>
  A sync round broadcasts each pending transaction that is not yet known exactly once, in
  the order of the pool, and changes no pool; afterwards every pending transaction is known,
  so the next round broadcasts nothing.
\<close>

theorem sync_round_broadcasts_once:
  assumes "ms_inv ms" "peers \<noteq> []" "performSync (Some f) peers ms = (ms1, sent1)"
    "performSync (Some f) peers ms1 = (ms2, sent2)"
  shows "sent1 = filter (\<lambda>tx. \<not> known ms (tx_ID tx)) (GetPendingTransactions (ms_mempool ms)) \<and>
    ms_mempool ms1 = ms_mempool ms \<and> sent2 = []"
proof -
  note e1 = performSync_effect [OF assms(1-3)]
  have "distinct (map tx_ID (GetPendingTransactions (ms_mempool ms)))"
    using assms(1) by (simp add: ms_inv_def mempool.pending_distinct)
  then have "sent2 = filter (\<lambda>tx. \<not> known ms1 (tx_ID tx)) (GetPendingTransactions (ms_mempool ms1))"
    using assms(2,4) e1(2) sync_loop_effect [of _ "Some f" ms1 "[]" ms2 sent2]
    by (simp add: performSync_def)
  then show ?thesis using e1 by (auto simp: filter_empty_conv)
qed

theorem sync_round_broadcasts_once_witness:
  "snd (performSync (Some (\<lambda>_. None)) [''p''] demo_sync) = [demo_tx ''1'', demo_tx ''2''] \<and>
   snd (performSync (Some (\<lambda>_. None)) [''p''] (fst (performSync (Some (\<lambda>_. None)) [''p''] demo_sync))) = []"
  using sync_round_broadcasts_once [OF demo_sync_inv, of "[''p'']" "\<lambda>_. None", OF _ prod.collapse [symmetric] prod.collapse [symmetric]]
  by (simp add: demo_sync_simps GetPendingTransactions_def demo_pool_simps)

text \<open>
  Answering a request and handling the answer moves transactions between two pools: after
  node B handles A's answer to a list of IDs, B finds under each ID what it had before, or
  else, if the ID was requested, what A has; and all answered IDs are known to B.
\<close>

theorem request_response_transfer:
  assumes "ms_inv msA" "ms_inv msB"
  shows "GetTransaction (ms_mempool (HandleTxResponse (HandleTxRequest ids msA) msB)) i =
      (case GetTransaction (ms_mempool msB) i of Some tx \<Rightarrow> Some tx
       | None \<Rightarrow> if i \<in> set ids then GetTransaction (ms_mempool msA) i else None) \<and>
    ms_inv (HandleTxResponse (HandleTxRequest ids msA) msB) \<and>
    (\<forall>tx \<in> set (HandleTxRequest ids msA). known (HandleTxResponse (HandleTxRequest ids msA) msB) (tx_ID tx))"
  using assms response_inv [OF assms(2)]
  by (auto simp: response_pool mempool.lookup_insert_all ms_inv_def HandleTxRequest_def request_find
      response_known split: option.splits)

theorem request_response_transfer_witness:
  "GetTransaction (ms_mempool (HandleTxResponse (HandleTxRequest [''2'', ''9''] demo_sync)
     (NewMempoolSync NewMempool))) ''2'' = Some (demo_tx ''2'')"
proof -
  have "ms_inv (NewMempoolSync NewMempool)" by (simp add: NewMempoolSync_def ms_inv_def mempool_inv_new)
  from request_response_transfer [OF demo_sync_inv this, of "[''2'', ''9'']" "''2''"] show ?thesis
    by (simp add: demo_sync_simps NewMempoolSync_def NewMempool_def GetTransaction_def demo_pool_def
        AddTransaction_def mhas_def mget_mput demo_tx_def)
qed

text \<open>
  An announced ID is requested at most once: the first announcement of an unknown ID that
  the pool lacks asks the peer, and adds the transaction if the peer delivers it; but if that
  request fails, the ID stays marked as known and every later announcement of it is dropped,
  although the pool does not have the transaction.
\<close>

theorem announcement_requested_once:
  assumes "\<not> known ms i" "GetTransaction (ms_mempool ms) i = None"
    "HandleTxAnnouncement (Some f) i p ms = (ms1, r)"
  shows "(\<forall>rf q. HandleTxAnnouncement rf i q ms1 = (ms1, Inr ())) \<and>
    (case f i of
       Inl e \<Rightarrow> r \<noteq> Inr () \<and> GetTransaction (ms_mempool ms1) i = None
     | Inr tx \<Rightarrow> ms_mempool ms1 = AddTransaction tx (ms_mempool ms))"
  using assms by (auto simp: HandleTxAnnouncement_def Let_def split: sum.splits fail.splits)

theorem announcement_requested_once_witness:
  "fst (HandleTxAnnouncement (Some (\<lambda>i. Inr (demo_tx i))) ''9'' ''q''
     (fst (HandleTxAnnouncement (Some (\<lambda>_. Inl (Error ''timeout''))) ''9'' ''p'' demo_sync)))
   = fst (HandleTxAnnouncement (Some (\<lambda>_. Inl (Error ''timeout''))) ''9'' ''p'' demo_sync)"
  using announcement_requested_once [of demo_sync "''9''" "\<lambda>_. Inl (Error ''timeout'')" "''p''", OF _ _ prod.collapse [symmetric]]
  by (simp add: demo_sync_simps demo_pool_def GetTransaction_def AddTransaction_def NewMempool_def
      mhas_def mget_mput demo_tx_def)

text \<open>
  Cleaning the known set keeps an ID exactly if it was known and is still pending, whatever
  age limit is passed: the argument \<open>maxAge\<close> has no effect.
\<close>

theorem cleanup_known:
  assumes "ms_inv ms"
  shows "known (CleanupOldKnownTxs maxAge ms) i \<longleftrightarrow>
    known ms i \<and> i \<in> tx_ID ` set (GetPendingTransactions (ms_mempool ms))"
  using assms by (auto simp: known_def CleanupOldKnownTxs_def Let_def mget_mkeep ms_inv_def split: option.splits)

theorem cleanup_known_witness:
  "\<not> known (CleanupOldKnownTxs (24 * hour) (mark_known ''9'' demo_sync)) ''9''"
  using cleanup_known [OF ms_inv_mark [OF demo_sync_inv]]
  by (simp add: demo_sync_simps GetPendingTransactions_def demo_pool_simps)

end
