(* ===== verification/Store.thy ===== *)
theory Store
  imports Core_Types "HOL-Library.Sublist"
begin

text \<open>
  The key/value store under the node. LevelDB is a third-party package, so its operations
  are a parameter, the record \<open>leveldb\<close> over a type of database states; \<open>kv_laws\<close> states the
  documented behaviour the node relies on, for calls that report no error. A call that
  fails leaves a state about which nothing is known. \<open>memdb_ops\<close> is an instance in memory.

  Keys are Go strings: \<open>[]byte(key)\<close> and \<open>string(iter.Key())\<close> are inverse to each other.
  An iterator reads a snapshot, so it is the list of entries at the time it is opened.
\<close>

datatype batchop = BPut string bytes | BDel string

record 'db leveldb =
  db_get :: "'db \<Rightarrow> string \<Rightarrow> bytes option"
  db_put :: "string \<Rightarrow> bytes \<Rightarrow> 'db \<Rightarrow> 'db \<times> fail option"
  db_del :: "string \<Rightarrow> 'db \<Rightarrow> 'db \<times> fail option"
  db_write :: "batchop list \<Rightarrow> 'db \<Rightarrow> 'db \<times> fail option"
  db_iter :: "'db \<Rightarrow> string \<Rightarrow> (string \<times> bytes) list"
  db_iter_err :: "'db \<Rightarrow> string \<Rightarrow> fail option"

fun batch_effect :: "batchop list \<Rightarrow> (string \<Rightarrow> bytes option) \<Rightarrow> string \<Rightarrow> bytes option" where
  "batch_effect [] m = m"
| "batch_effect (BPut k v # ops) m = batch_effect ops (m(k := Some v))"
| "batch_effect (BDel k # ops) m = batch_effect ops (m(k := None))"

definition kv_laws :: "'db leveldb \<Rightarrow> bool" where
  "kv_laws L = (
     (\<forall>k v d d'. db_put L k v d = (d', None) \<longrightarrow> db_get L d' = (db_get L d)(k := Some v)) \<and>
     (\<forall>k d d'. db_del L k d = (d', None) \<longrightarrow> db_get L d' = (db_get L d)(k := None)) \<and>
     (\<forall>ops d d'. db_write L ops d = (d', None) \<longrightarrow> db_get L d' = batch_effect ops (db_get L d)) \<and>
     (\<forall>d p. db_iter_err L d p = None \<longrightarrow>
        set (db_iter L d p) = {(k, v). prefix p k \<and> db_get L d k = Some v} \<and>
        distinct (map fst (db_iter L d p))))"

lemma kv_put: "kv_laws L \<Longrightarrow> db_put L k v d = (d', None) \<Longrightarrow> db_get L d' = (db_get L d)(k := Some v)"
  by (simp add: kv_laws_def)

lemma kv_del: "kv_laws L \<Longrightarrow> db_del L k d = (d', None) \<Longrightarrow> db_get L d' = (db_get L d)(k := None)"
  by (simp add: kv_laws_def)

lemma kv_write: "kv_laws L \<Longrightarrow> db_write L ops d = (d', None) \<Longrightarrow>
    db_get L d' = batch_effect ops (db_get L d)"
  by (simp add: kv_laws_def)

lemma kv_iter: "kv_laws L \<Longrightarrow> db_iter_err L d p = None \<Longrightarrow>
    set (db_iter L d p) = {(k, v). prefix p k \<and> db_get L d k = Some v}"
  by (simp add: kv_laws_def)

lemma kv_iter_distinct: "kv_laws L \<Longrightarrow> db_iter_err L d p = None \<Longrightarrow>
    distinct (map fst (db_iter L d p))"
  by (simp add: kv_laws_def)

lemma batch_effect_append: "batch_effect (xs @ ys) m = batch_effect ys (batch_effect xs m)"
  by (induction xs m rule: batch_effect.induct) (simp_all add: fun_upd_def)

lemma batch_effect_dels:
  "batch_effect (map BDel ks) m = (\<lambda>k. if k \<in> set ks then None else m k)"
  by (induction ks arbitrary: m) auto

section \<open>A store in memory\<close>

type_synonym memdb = "(string, bytes) gomap"

fun mem_write :: "batchop list \<Rightarrow> memdb \<Rightarrow> memdb" where
  "mem_write [] d = d"
| "mem_write (BPut k v # ops) d = mem_write ops (mput k v d)"
| "mem_write (BDel k # ops) d = mem_write ops (mdel k d)"

text \<open>The snapshot of an iterator has every live entry once.\<close>

definition mem_iter :: "memdb \<Rightarrow> string \<Rightarrow> (string \<times> bytes) list" where
  "mem_iter d p = filter (\<lambda>(k, v). prefix p k) (AList.clearjunk d)"

definition memdb_ops :: "memdb leveldb" where
  "memdb_ops = \<lparr>
     db_get = mget,
     db_put = (\<lambda>k v d. (mput k v d, None)),
     db_del = (\<lambda>k d. (mdel k d, None)),
     db_write = (\<lambda>ops d. (mem_write ops d, None)),
     db_iter = mem_iter,
     db_iter_err = (\<lambda>d p. None)\<rparr>"

lemma mget_mem_write: "mget (mem_write ops d) = batch_effect ops (mget d)"
  by (induction ops d rule: mem_write.induct)
    (auto simp: mget_mput mget_mdel fun_upd_def cong: if_cong)

lemma distinct_filter_fst: "distinct (map fst m) \<Longrightarrow> distinct (map fst (filter P m))"
  by (induction m) auto

lemma mem_iter_set: "set (mem_iter d p) = {(k, v). prefix p k \<and> mget d k = Some v}"
proof -
  have "(k, v) \<in> set (AList.clearjunk d) \<longleftrightarrow> mget d k = Some v" for k v
    by (metis distinct_clearjunk map_of_clearjunk map_of_eq_Some_iff mget_def)
  then show ?thesis by (auto simp: mem_iter_def)
qed

lemma mem_iter_distinct: "distinct (map fst (mem_iter d p))"
  by (simp add: mem_iter_def distinct_filter_fst distinct_clearjunk)

lemma memdb_laws: "kv_laws memdb_ops"
  by (auto simp: kv_laws_def memdb_ops_def mem_iter_set mem_iter_distinct mget_mem_write
      mget_mput mget_mdel)

end
