(* ===== verification/Chain.thy ===== *)
theory Chain
  imports Store
begin

text \<open>
  The block store (\<open>pkg/blockchain/blockchain.go\<close>): the record \<open>Blockchain\<close> with its
  operations, and the interface \<open>chain_store\<close> through which fork resolution, block
  synchronisation and the validator see it.

  The database handle, which the node's packages share, is the field \<open>bc_db\<close>. The mutex is
  not modelled here: an operation is one atomic step. The nested read locks of the history
  functions are the subject of \<open>Lock_Order.thy\<close>.
\<close>

section \<open>State\<close>

record 'db chain_env =
  ce_ldb :: "'db leveldb"
  ce_enc :: "Block encoder"
  ce_dec :: "Block decoder"

record 'db Blockchain =
  bc_db :: 'db
  bc_currentBlock :: Block
  bc_Difficulty :: int

definition block_key :: "u64 \<Rightarrow> string" where
  "block_key h = ''block_'' @ dec_u64 h"

definition current_key :: string where
  "current_key = ''current_block''"

abbreviation height_of :: "Block \<Rightarrow> u64" where
  "height_of b \<equiv> h_Height (b_Header b)"

abbreviation prev_of :: "Block \<Rightarrow> bytes" where
  "prev_of b \<equiv> h_PrevBlockHash (b_Header b)"

lemma block_key_inj: "block_key a = block_key b \<longleftrightarrow> a = b"
  by (simp add: block_key_def dec_u64_inj)

lemma block_key_not_current [simp]: "block_key h \<noteq> current_key" "current_key \<noteq> block_key h"
  by (simp_all add: block_key_def current_key_def)

section \<open>Operations\<close>

definition createGenesisBlock :: Block where
  "createGenesisBlock = \<lparr>
     b_Header = \<lparr>h_Version = 1, h_PrevBlockHash = [], h_MerkleRoot = [],
       h_Timestamp = 1735689600 * second, h_Nonce = 0, h_Difficulty = 1, h_Height = 0,
       h_PoBScore = f_of_int 1, h_PoBWeight = 0, h_VRFProof = [], h_VRFOutput = None\<rparr>,
     b_Transactions = [], b_ProposerID = ''genesis'', b_PoHSequence = [], b_Signature = [],
     b_VRFProof = []\<rparr>"

definition NewBlockchain :: "'db chain_env \<Rightarrow> 'db \<Rightarrow> 'db \<times> 'db Blockchain res" where
  "NewBlockchain env db =
     (case ce_enc env createGenesisBlock of
        Inl e \<Rightarrow> (db, Inl e)
      | Inr genesisBytes \<Rightarrow>
          (let (db', currentBlockBytes, err) =
             (case db_get (ce_ldb env) db current_key of
                Some bs \<Rightarrow> (db, bs, None)
              | None \<Rightarrow> (let (d, e) = db_put (ce_ldb env) current_key genesisBytes db
                         in (d, genesisBytes, e)))
           in case err of
                Some e \<Rightarrow> (db', Inl e)
              | None \<Rightarrow> (case ce_dec env currentBlockBytes of
                    Inl e \<Rightarrow> (db', Inl e)
                  | Inr b \<Rightarrow>
                      (db', Inr \<lparr>bc_db = db', bc_currentBlock = b, bc_Difficulty = 1\<rparr>))))"

definition GetLatestBlock :: "'db Blockchain \<Rightarrow> Block" where
  "GetLatestBlock bc = bc_currentBlock bc"

definition AddBlock :: "'db chain_env \<Rightarrow> Block \<Rightarrow> 'db Blockchain \<Rightarrow> 'db Blockchain \<times> fail option" where
  "AddBlock env block bc =
     (case ce_enc env block of
        Inl e \<Rightarrow> (bc, Some e)
      | Inr blockBytes \<Rightarrow>
          (case db_put (ce_ldb env) (block_key (height_of block)) blockBytes (bc_db bc) of
             (db1, Some e) \<Rightarrow> (bc\<lparr>bc_db := db1\<rparr>, Some e)
           | (db1, None) \<Rightarrow>
               (case db_put (ce_ldb env) current_key blockBytes db1 of
                  (db2, Some e) \<Rightarrow> (bc\<lparr>bc_db := db2\<rparr>, Some e)
                | (db2, None) \<Rightarrow> (bc\<lparr>bc_db := db2, bc_currentBlock := block\<rparr>, None))))"

definition GetBlockByHeight :: "'db chain_env \<Rightarrow> 'db Blockchain \<Rightarrow> u64 \<Rightarrow> Block res" where
  "GetBlockByHeight env bc h =
     (case db_get (ce_ldb env) (bc_db bc) (block_key h) of
        None \<Rightarrow> Inl (Error ''block not found at height'')
      | Some blockBytes \<Rightarrow> (case ce_dec env blockBytes of
            Inl (Panic p) \<Rightarrow> Inl (Panic p)
          | Inl (Error _) \<Rightarrow> Inl (Error ''failed to unmarshal block'')
          | Inr b \<Rightarrow> Inr b))"

definition VerifyBlock :: "'db chain_env \<Rightarrow> 'db Blockchain \<Rightarrow> Block \<Rightarrow> fail option" where
  "VerifyBlock env bc block =
     (let latestBlock = GetLatestBlock bc in
      if height_of block \<noteq> height_of latestBlock + 1 then Some (Error ''invalid block height'')
      else case Block_Hash (ce_enc env) latestBlock of
             Inl e \<Rightarrow> Some e
           | Inr prevHash \<Rightarrow>
               if prev_of block \<noteq> prevHash then Some (Error ''invalid previous block hash'')
               else None)"

subsection \<open>Searches (GetTransactionHistory, GetTransactionByID, GetTotalTransactionCount)\<close>

text \<open>
  The backward loops count a \<open>uint64\<close> down and leave at 0, so they recurse on the height
  as a natural number. \<open>history_block\<close> is the inner loop with its break at the limit.
\<close>

fun history_block :: "string \<Rightarrow> int \<Rightarrow> Transaction list \<Rightarrow> Transaction list \<Rightarrow> Transaction list" where
  "history_block address limit transactions [] = transactions"
| "history_block address limit transactions (tx # txs) =
     (if tx_From tx = address \<or> tx_To tx = address then
        (let transactions' = transactions @ [tx] in
         if limit \<le> int (length transactions') then transactions'
         else history_block address limit transactions' txs)
      else history_block address limit transactions txs)"

fun history_loop :: "'db chain_env \<Rightarrow> 'db Blockchain \<Rightarrow> string \<Rightarrow> int \<Rightarrow> nat \<Rightarrow> Transaction list
    \<Rightarrow> Transaction list" where
  "history_loop env bc address limit height transactions =
     (if int (length transactions) < limit then
        (case GetBlockByHeight env bc (of_nat height) of
           Inl _ \<Rightarrow> transactions
         | Inr block \<Rightarrow>
             (let transactions' = history_block address limit transactions (b_Transactions block) in
              if height = 0 then transactions'
              else history_loop env bc address limit (height - 1) transactions'))
      else transactions)"

declare history_loop.simps [simp del]

definition GetTransactionHistory ::
  "'db chain_env \<Rightarrow> 'db Blockchain \<Rightarrow> string \<Rightarrow> int \<Rightarrow> Transaction list" where
  "GetTransactionHistory env bc address limit =
     history_loop env bc address limit (unat (height_of (bc_currentBlock bc))) []"

fun id_loop :: "'db chain_env \<Rightarrow> 'db Blockchain \<Rightarrow> string \<Rightarrow> nat \<Rightarrow> Transaction option" where
  "id_loop env bc txID height =
     (case GetBlockByHeight env bc (of_nat height) of
        Inl _ \<Rightarrow> None
      | Inr block \<Rightarrow>
          (case List.find (\<lambda>tx. tx_ID tx = txID) (b_Transactions block) of
             Some tx \<Rightarrow> Some tx
           | None \<Rightarrow> if height = 0 then None else id_loop env bc txID (height - 1)))"

declare id_loop.simps [simp del]

definition GetTransactionByID :: "'db chain_env \<Rightarrow> 'db Blockchain \<Rightarrow> string \<Rightarrow> Transaction option" where
  "GetTransactionByID env bc txID = id_loop env bc txID (unat (height_of (bc_currentBlock bc)))"

text \<open>The forward loop \<open>for height := 0; height <= currentHeight; height++\<close> may not end.\<close>

partial_function (option) count_loop ::
  "'db chain_env \<Rightarrow> 'db Blockchain \<Rightarrow> u64 \<Rightarrow> u64 \<Rightarrow> u64 option" where
  "count_loop env bc height count =
     (if height \<le> height_of (bc_currentBlock bc) then
        (case GetBlockByHeight env bc height of
           Inl _ \<Rightarrow> Some count
         | Inr block \<Rightarrow>
             count_loop env bc (height + 1) (count + of_nat (length (b_Transactions block))))
      else Some count)"

definition GetTotalTransactionCount :: "'db chain_env \<Rightarrow> 'db Blockchain \<Rightarrow> u64 option" where
  "GetTotalTransactionCount env bc = count_loop env bc 0 0"

section \<open>The interface of a block store\<close>

text \<open>
  What the clients of the block store rely on. \<open>ok b\<close> says that the database and the JSON
  codec do what their packages document for the block \<open>b\<close>.
\<close>

locale chain_store =
  fixes add :: "Block \<Rightarrow> 's \<Rightarrow> 's \<times> fail option"
    and get :: "'s \<Rightarrow> u64 \<Rightarrow> Block res"
    and tip :: "'s \<Rightarrow> Block"
    and verify :: "'s \<Rightarrow> Block \<Rightarrow> fail option"
    and hash_of :: "Block \<Rightarrow> bytes res"
    and ok :: "Block \<Rightarrow> bool"
  assumes add_tip: "add b s = (s', None) \<Longrightarrow> tip s' = b"
    and add_get: "ok b \<Longrightarrow> add b s = (s', None) \<Longrightarrow>
      get s' h = (if h = height_of b then Inr b else get s h)"
    and add_fail: "add b s = (s', Some e) \<Longrightarrow> tip s' = tip s"
    and verify_ok: "verify s b = None \<longleftrightarrow>
      height_of b = height_of (tip s) + 1 \<and> hash_of (tip s) = Inr (prev_of b)"
begin

text \<open>Every block above height 0 is stored at its height and is the parent of the next one.\<close>

definition linked :: "'s \<Rightarrow> bool" where
  "linked s = (\<forall>h. 0 < h \<and> h \<le> unat (height_of (tip s)) \<longrightarrow>
     (\<exists>b. get s (of_nat h) = Inr b \<and> unat (height_of b) = h \<and>
       (if h = unat (height_of (tip s)) then b = tip s
        else \<exists>c. get s (of_nat (h + 1)) = Inr c \<and> hash_of b = Inr (prev_of c))))"

lemma linked_base: "height_of (tip s) = 0 \<Longrightarrow> linked s"
  by (simp add: linked_def)

lemma linked_get: "linked s \<Longrightarrow> 0 < h \<Longrightarrow> h \<le> unat (height_of (tip s)) \<Longrightarrow>
   \<exists>b. get s (of_nat h) = Inr b \<and> unat (height_of b) = h"
  unfolding linked_def by blast

lemma linked_tip: "linked s \<Longrightarrow> height_of (tip s) \<noteq> 0 \<Longrightarrow> get s (height_of (tip s)) = Inr (tip s)"
  by (auto simp: linked_def unat_gt_0 dest!: spec [of _ "unat (height_of (tip s))"])

lemma linked_next: "linked s \<Longrightarrow> 0 < h \<Longrightarrow> h < unat (height_of (tip s)) \<Longrightarrow>
   \<exists>b c. get s (of_nat h) = Inr b \<and> unat (height_of b) = h \<and>
     get s (of_nat (h + 1)) = Inr c \<and> hash_of b = Inr (prev_of c)"
  unfolding linked_def by (drule spec [of _ h]) auto

text \<open>Adding a verified block keeps the chain linked.\<close>

lemma linked_add:
  assumes "linked s" "ok b" "verify s b = None" "add b s = (s', None)"
  shows "linked s'"
proof (cases "height_of b = 0")
  case True
  then show ?thesis using add_tip [OF assms(4)] by (simp add: linked_base)
next
  case False
  define n where "n = unat (height_of (tip s))"
  have hb: "unat (height_of b) = Suc n" and prev: "hash_of (tip s) = Inr (prev_of b)"
    using assms(3) False unat_Suc_u64 [of "height_of (tip s)"] by (auto simp: verify_ok n_def)
  have tip': "tip s' = b" by (rule add_tip [OF assms(4)])
  have big: "Suc n < 2 ^ 64" using unat_u64_less [of "height_of b"] hb by simp
  have get': "get s' (of_nat k) = (if k = Suc n then Inr b else get s (of_nat k))" if "k \<le> Suc n" for k
    using add_get [OF assms(2,4), of "of_nat k"] of_nat_u64_eq [of k "height_of b"] that big hb by simp
  show ?thesis unfolding linked_def tip' hb
  proof (intro allI impI)
    fix h assume h: "0 < h \<and> h \<le> Suc n"
    consider "h = Suc n" | "h = n" "0 < n" | "h < n" using h by linarith
    then show "\<exists>ba. get s' (of_nat h) = Inr ba \<and> unat (height_of ba) = h \<and>
      (if h = Suc n then ba = b else \<exists>c. get s' (of_nat (h + 1)) = Inr c \<and> hash_of ba = Inr (prev_of c))"
    proof cases
      case 1
      then show ?thesis using get' [of "Suc n"] hb by simp
    next
      case 2
      then have "get s (of_nat n) = Inr (tip s)"
        using linked_tip [OF assms(1)] of_nat_u64_eq [of n "height_of (tip s)"] big n_def
        by (auto simp: unat_gt_0)
      then show ?thesis using 2 get' [of n] get' [of "Suc n"] prev n_def by simp
    next
      case 3
      then obtain ba c where "get s (of_nat h) = Inr ba" "unat (height_of ba) = h"
          "get s (of_nat (h + 1)) = Inr c" "hash_of ba = Inr (prev_of c)"
        using linked_next [OF assms(1), of h] h n_def by blast
      then show ?thesis using 3 get' [of h] get' [of "h + 1"] by simp
    qed
  qed
qed

end

interpretation bc: chain_store "AddBlock env" "GetBlockByHeight env" GetLatestBlock
    "VerifyBlock env" "Block_Hash (ce_enc env)"
    "\<lambda>b. kv_laws (ce_ldb env) \<and> json_ok (ce_enc env) (ce_dec env) b" for env
proof
  fix b s s' h e
  show "AddBlock env b s = (s', None) \<Longrightarrow> GetLatestBlock s' = b"
    by (auto simp: AddBlock_def GetLatestBlock_def split: sum.splits prod.splits option.splits)
  show "AddBlock env b s = (s', Some e) \<Longrightarrow> GetLatestBlock s' = GetLatestBlock s"
    by (auto simp: AddBlock_def GetLatestBlock_def split: sum.splits prod.splits option.splits)
  show "(VerifyBlock env s b = None) =
        (height_of b = height_of (GetLatestBlock s) + 1 \<and>
         Block_Hash (ce_enc env) (GetLatestBlock s) = Inr (prev_of b))"
    by (auto simp: VerifyBlock_def Let_def split: sum.splits)
  assume ok: "kv_laws (ce_ldb env) \<and> json_ok (ce_enc env) (ce_dec env) b"
    and add: "AddBlock env b s = (s', None)"
  then obtain bs d1 d2 where enc: "ce_enc env b = Inr bs"
    and p1: "db_put (ce_ldb env) (block_key (height_of b)) bs (bc_db s) = (d1, None)"
    and p2: "db_put (ce_ldb env) current_key bs d1 = (d2, None)" and s': "bc_db s' = d2"
    by (auto simp: AddBlock_def split: sum.splits prod.splits option.splits)
  have "db_get (ce_ldb env) (bc_db s') (block_key h) =
        (if h = height_of b then Some bs else db_get (ce_ldb env) (bc_db s) (block_key h))"
    using kv_put [OF _ p1] kv_put [OF _ p2] ok s' by (simp add: block_key_inj)
  then show "GetBlockByHeight env s' h = (if h = height_of b then Inr b else GetBlockByHeight env s h)"
    using ok enc by (simp add: GetBlockByHeight_def json_ok_def)
qed

section \<open>Chains built from verified blocks\<close>

text \<open>
  \<open>built env bc0 n bc\<close>: \<open>bc\<close> is \<open>bc0\<close> after \<open>n\<close> rounds of \<open>VerifyBlock\<close> and \<open>AddBlock\<close>, as
  the validator and the synchronisation do them, each without an error and on a block whose
  JSON form decodes to it.
\<close>

inductive built :: "'db chain_env \<Rightarrow> 'db Blockchain \<Rightarrow> nat \<Rightarrow> 'db Blockchain \<Rightarrow> bool"
  for env bc0 where
  built_start: "built env bc0 0 bc0"
| built_block: "built env bc0 n bc \<Longrightarrow> json_ok (ce_enc env) (ce_dec env) b \<Longrightarrow>
    VerifyBlock env bc b = None \<Longrightarrow> AddBlock env b bc = (bc', None) \<Longrightarrow> built env bc0 (Suc n) bc'"

inductive_cases built_0E: "built env bc0 0 bc"
inductive_cases built_SucE: "built env bc0 (Suc n) bc"

text \<open>The start: \<open>NewBlockchain\<close> on an empty database.\<close>

definition fresh_start :: "'db chain_env \<Rightarrow> 'db Blockchain \<Rightarrow> bool" where
  "fresh_start env bc0 = (kv_laws (ce_ldb env) \<and>
     json_ok (ce_enc env) (ce_dec env) createGenesisBlock \<and>
     (\<exists>db db'. (\<forall>k. db_get (ce_ldb env) db k = None) \<and> NewBlockchain env db = (db', Inr bc0)))"

lemma height_genesis [simp]: "height_of createGenesisBlock = 0"
  by (simp add: createGenesisBlock_def)

lemma fresh_laws: "fresh_start env bc0 \<Longrightarrow> kv_laws (ce_ldb env)"
  by (simp add: fresh_start_def)

lemma fresh_state:
  assumes "fresh_start env bc0"
  shows "GetLatestBlock bc0 = createGenesisBlock \<and>
    GetBlockByHeight env bc0 h = Inl (Error ''block not found at height'')"
proof -
  obtain db db' where e: "\<And>k. db_get (ce_ldb env) db k = None"
    and n: "NewBlockchain env db = (db', Inr bc0)"
    using assms by (auto simp: fresh_start_def)
  from n e obtain bs where enc: "ce_enc env createGenesisBlock = Inr bs"
    and p: "db_put (ce_ldb env) current_key bs db = (db', None)"
    and dec: "ce_dec env bs = Inr (bc_currentBlock bc0)" and db': "bc_db bc0 = db'"
    by (auto simp: NewBlockchain_def Let_def split: sum.splits prod.splits option.splits)
  have "bc_currentBlock bc0 = createGenesisBlock"
    using assms enc dec by (auto simp: fresh_start_def json_ok_def)
  moreover have "db_get (ce_ldb env) db' (block_key h) = None"
    using kv_put [OF fresh_laws [OF assms] p] e by simp
  ultimately show ?thesis by (simp add: GetLatestBlock_def GetBlockByHeight_def db')
qed

lemma built_height:
  assumes "fresh_start env bc0" "built env bc0 n bc" "n < 2 ^ 64"
  shows "unat (height_of (GetLatestBlock bc)) = n"
  using assms(2,3)
proof (induction rule: built.induct)
  case built_start
  then show ?case using fresh_state [OF assms(1)] by simp
next
  case (built_block n bc b bc')
  have "unat (height_of b) = unat (height_of (GetLatestBlock bc) + 1)"
    using built_block.hyps by (simp add: bc.verify_ok)
  also have "\<dots> = Suc n"
    using built_block by (simp add: unat_word_ariths)
  finally show ?case using bc.add_tip [OF built_block.hyps(4)] by simp
qed

lemma built_linked:
  assumes "fresh_start env bc0" "built env bc0 n bc"
  shows "bc.linked env bc"
  using assms(2)
proof (induction rule: built.induct)
  case built_start
  then show ?case using fresh_state [OF assms(1)] by (simp add: bc.linked_base)
next
  case (built_block n bc b bc')
  then show ?case using bc.linked_add [of env bc b bc'] fresh_laws [OF assms(1)] by blast
qed

lemma built_get:
  assumes "fresh_start env bc0" "built env bc0 n bc" "n < 2 ^ 64" "0 < h" "h \<le> n"
  shows "\<exists>b. GetBlockByHeight env bc (of_nat h) = Inr b \<and> unat (height_of b) = h"
  using bc.linked_get [OF built_linked [OF assms(1,2)] assms(4)] built_height [OF assms(1-3)] assms(5)
  by simp

lemma built_next:
  assumes "fresh_start env bc0" "built env bc0 n bc" "n < 2 ^ 64" "0 < h" "h < n"
  shows "\<exists>b c. GetBlockByHeight env bc (of_nat h) = Inr b \<and> unat (height_of b) = h \<and>
    GetBlockByHeight env bc (of_nat (h + 1)) = Inr c \<and> Block_Hash (ce_enc env) b = Inr (prev_of c)"
  using bc.linked_next [OF built_linked [OF assms(1,2)] assms(4)] built_height [OF assms(1-3)] assms(5)
  by simp

lemma built_tip:
  assumes "fresh_start env bc0" "built env bc0 n bc" "n < 2 ^ 64" "0 < n"
  shows "GetBlockByHeight env bc (of_nat n) = Inr (GetLatestBlock bc)"
proof -
  have h: "unat (height_of (GetLatestBlock bc)) = n" by (rule built_height [OF assms(1-3)])
  have "height_of (GetLatestBlock bc) = of_nat n" using h by (metis of_nat_u64_eq assms(3))
  moreover have "height_of (GetLatestBlock bc) \<noteq> 0" using h assms(4) by auto
  ultimately show ?thesis using bc.linked_tip [OF built_linked [OF assms(1,2)]] by simp
qed

text \<open>The genesis block is never stored under its height, and stays unstored.\<close>

lemma built_no_zero:
  assumes "fresh_start env bc0" "built env bc0 n bc" "n < 2 ^ 64"
  shows "GetBlockByHeight env bc 0 = Inl (Error ''block not found at height'')"
  using assms(2,3)
proof (induction rule: built.induct)
  case built_start
  then show ?case using fresh_state [OF assms(1)] by simp
next
  case (built_block n bc b bc')
  have "built env bc0 (Suc n) bc'" using built_block by (blast intro: built.built_block)
  then have "unat (height_of b) = Suc n"
    using built_height [OF assms(1)] built_block.prems bc.add_tip [OF built_block.hyps(4)] by blast
  then have "height_of b \<noteq> 0" by auto
  then show ?case
    using bc.add_get [OF _ built_block.hyps(4), of 0] built_block fresh_laws [OF assms(1)] by auto
qed

text \<open>One step changes only the new height.\<close>

lemma built_step_get:
  assumes "fresh_start env bc0" "built env bc0 n bc" "json_ok (ce_enc env) (ce_dec env) b"
    "VerifyBlock env bc b = None" "AddBlock env b bc = (bc', None)" "Suc n < 2 ^ 64" "h \<le> Suc n"
  shows "GetBlockByHeight env bc' (of_nat h) = (if h = Suc n then Inr b else GetBlockByHeight env bc (of_nat h))"
proof -
  have "unat (height_of b) = Suc n"
    using built_height [OF assms(1) built_block [OF assms(2-5)] assms(6)] bc.add_tip [OF assms(5)] by simp
  moreover have "h < 2 ^ 64" using assms(6,7) by simp
  ultimately show ?thesis
    using bc.add_get [OF _ assms(5), of "of_nat h"] assms(3) fresh_laws [OF assms(1)]
      of_nat_u64_eq [of h "height_of b"] by simp
qed

text \<open>The block at a height, with the genesis block at 0.\<close>

definition block_at :: "'db chain_env \<Rightarrow> 'db Blockchain \<Rightarrow> nat \<Rightarrow> Block" where
  "block_at env bc h = (if h = 0 then createGenesisBlock
     else case GetBlockByHeight env bc (of_nat h) of Inr b \<Rightarrow> b | Inl _ \<Rightarrow> createGenesisBlock)"

lemma built_codec:
  assumes "fresh_start env bc0" "built env bc0 n bc" "n < 2 ^ 64" "0 < h" "h \<le> n"
  shows "\<exists>b bs. GetBlockByHeight env bc (of_nat h) = Inr b \<and> ce_enc env b = Inr bs \<and>
    json_ok (ce_enc env) (ce_dec env) b"
  using assms(2,3,5)
proof (induction rule: built.induct)
  case built_start
  then show ?case using assms(4) by simp
next
  case (built_block n bc b bc')
  note get' = built_step_get [OF assms(1) built_block.hyps(1-4) built_block.prems]
  have "\<exists>bs. ce_enc env b = Inr bs"
    using built_block.hyps(4) by (auto simp: AddBlock_def split: sum.splits)
  then show ?case using get' built_block by (cases "h = Suc n") auto
qed

lemma built_first:
  assumes "fresh_start env bc0" "built env bc0 n bc" "n < 2 ^ 64" "0 < n"
  shows "\<exists>c. GetBlockByHeight env bc (of_nat 1) = Inr c \<and>
    Block_Hash (ce_enc env) createGenesisBlock = Inr (prev_of c)"
  using assms(2-4)
proof (induction rule: built.induct)
  case (built_block n bc b bc')
  note get' = built_step_get [OF assms(1) built_block.hyps(1-4) built_block.prems(1), of 1]
  show ?case
  proof (cases "n = 0")
    case True
    then have "GetLatestBlock bc = createGenesisBlock"
      using built_block.hyps(1) fresh_state [OF assms(1)] by (auto elim: built_0E)
    then show ?thesis using get' True built_block.hyps(3) by (simp add: bc.verify_ok)
  next
    case False
    then show ?thesis using get' built_block by auto
  qed
qed simp

lemma built_block_at:
  assumes "fresh_start env bc0" "built env bc0 n bc" "n < 2 ^ 64" "h \<le> n"
  shows "unat (height_of (block_at env bc h)) = h"
    "0 < h \<Longrightarrow> GetBlockByHeight env bc (of_nat h) = Inr (block_at env bc h)"
    "GetLatestBlock bc = block_at env bc n"
proof -
  show g: "GetBlockByHeight env bc (of_nat h) = Inr (block_at env bc h)" if "0 < h"
    using built_get [OF assms(1-3) that assms(4)] that by (auto simp: block_at_def)
  show "unat (height_of (block_at env bc h)) = h"
  proof (cases "h = 0")
    case True
    then show ?thesis by (simp add: block_at_def)
  next
    case False
    then show ?thesis using g built_get [OF assms(1-3) _ assms(4)] by auto
  qed
  show "GetLatestBlock bc = block_at env bc n"
  proof (cases "n = 0")
    case True
    then show ?thesis using assms(2) fresh_state [OF assms(1)] by (auto simp: block_at_def elim: built_0E)
  next
    case False
    then show ?thesis using built_tip [OF assms(1-3)] by (simp add: block_at_def)
  qed
qed

lemma built_block_at_link:
  assumes "fresh_start env bc0" "built env bc0 n bc" "n < 2 ^ 64" "h < n"
  shows "Block_Hash (ce_enc env) (block_at env bc h) = Inr (prev_of (block_at env bc (Suc h)))"
proof (cases "h = 0")
  case True
  then show ?thesis using built_first [OF assms(1-3)] assms(4) by (auto simp: block_at_def)
next
  case False
  then show ?thesis using built_next [OF assms(1-3) _ assms(4)] by (auto simp: block_at_def)
qed

section \<open>Chains that are stored soundly\<close>

text \<open>
  A write may fail, and then the value of its key is not known, but the other keys are what they were (\<open>put_local\<close>). So a
  failed \<open>AddBlock\<close> can leave a block above the tip. What the next block needs is that the chain is stored up to its
  tip: this is kept by every outcome of verifying and adding a block.
\<close>

definition put_local :: "'db leveldb \<Rightarrow> bool" where
  "put_local L \<longleftrightarrow> (\<forall>k v d k'. k' \<noteq> k \<longrightarrow> db_get L (fst (db_put L k v d)) k' = db_get L d k')"

definition sound_chain :: "'db chain_env \<Rightarrow> 'db Blockchain \<Rightarrow> bool" where
  "sound_chain env bc \<longleftrightarrow> (let n = unat (height_of (GetLatestBlock bc)) in
     block_at env bc n = GetLatestBlock bc \<and>
     (\<forall>h \<le> n. unat (height_of (block_at env bc h)) = h \<and>
       (0 < h \<longrightarrow> GetBlockByHeight env bc (of_nat h) = Inr (block_at env bc h))) \<and>
     (\<forall>h < n. Block_Hash (ce_enc env) (block_at env bc h) = Inr (prev_of (block_at env bc (Suc h)))))"

lemma built_sound:
  assumes "fresh_start env bc0" "built env bc0 n bc" "n < 2 ^ 64"
  shows "sound_chain env bc"
  unfolding sound_chain_def Let_def built_height [OF assms]
  using built_block_at [OF assms] built_block_at_link [OF assms] by (metis order_refl)

text \<open>A chain with the same tip that stores the same blocks up to it is as sound.\<close>

lemma sound_cong:
  assumes "sound_chain env bc" "GetLatestBlock bc' = GetLatestBlock bc" "n = unat (height_of (GetLatestBlock bc))"
    and "\<And>h. 0 < h \<Longrightarrow> h \<le> n \<Longrightarrow> GetBlockByHeight env bc' (of_nat h) = GetBlockByHeight env bc (of_nat h)"
  shows "sound_chain env bc' \<and> (\<forall>h \<le> n. block_at env bc' h = block_at env bc h)"
proof -
  have eq: "block_at env bc' h = block_at env bc h" if "h \<le> n" for h using assms(4) that by (simp add: block_at_def)
  then show ?thesis using assms(1,2,3,4) by (auto simp: sound_chain_def Let_def)
qed

lemma verified_height:
  assumes "VerifyBlock env bc b = None" "n = unat (height_of (GetLatestBlock bc))" "n + 1 < 2 ^ 64"
  shows "unat (height_of b) = Suc n" "height_of b = of_nat (Suc n)"
proof -
  show "unat (height_of b) = Suc n" using assms by (simp add: bc.verify_ok unat_word_ariths)
  then show "height_of b = of_nat (Suc n)" using of_nat_u64_eq [of "Suc n" "height_of b"] assms(3) by simp
qed

lemma sound_add_fail:
  assumes "put_local (ce_ldb env)" "sound_chain env bc" "n = unat (height_of (GetLatestBlock bc))" "n + 1 < 2 ^ 64"
    and "VerifyBlock env bc b = None" "AddBlock env b bc = (bc', Some e)"
  shows "sound_chain env bc' \<and> (\<forall>h \<le> n. block_at env bc' h = block_at env bc h)"
proof (rule sound_cong [OF assms(2) bc.add_fail [OF assms(6)] assms(3)])
  fix h assume h: "0 < h" "h \<le> n"
  have "of_nat h \<noteq> height_of b"
    using h verified_height(1) [OF assms(5,3,4)] of_nat_u64_eq [of h "height_of b"] assms(4) by auto
  then have other: "block_key (of_nat h) \<noteq> block_key (height_of b)" by (simp add: block_key_inj)
  have loc: "k' \<noteq> k \<Longrightarrow> db_get (ce_ldb env) (fst (db_put (ce_ldb env) k v d)) k' = db_get (ce_ldb env) d k'" for k v d k'
    using assms(1) by (simp add: put_local_def)
  have "db_get (ce_ldb env) (bc_db bc') (block_key (of_nat h)) = db_get (ce_ldb env) (bc_db bc) (block_key (of_nat h))"
  proof (cases "ce_enc env b")
    case (Inl x)
    then show ?thesis using assms(6) by (simp add: AddBlock_def)
  next
    case (Inr bs)
    obtain d1 e1 where d1: "db_put (ce_ldb env) (block_key (height_of b)) bs (bc_db bc) = (d1, e1)" by fastforce
    obtain d2 e2 where d2: "db_put (ce_ldb env) current_key bs d1 = (d2, e2)" by fastforce
    have "db_get (ce_ldb env) d1 (block_key (of_nat h)) = db_get (ce_ldb env) (bc_db bc) (block_key (of_nat h))"
      using loc [OF other, of bs "bc_db bc"] d1 by simp
    moreover have "db_get (ce_ldb env) d2 (block_key (of_nat h)) = db_get (ce_ldb env) d1 (block_key (of_nat h))"
      using loc [of "block_key (of_nat h)" current_key bs d1] d2 by simp
    moreover have "bc_db bc' = d1 \<or> bc_db bc' = d2"
      using assms(6) Inr d1 d2 by (auto simp: AddBlock_def split: option.splits)
    ultimately show ?thesis by metis
  qed
  then show "GetBlockByHeight env bc' (of_nat h) = GetBlockByHeight env bc (of_nat h)" by (simp add: GetBlockByHeight_def)
qed

lemma sound_add:
  assumes "kv_laws (ce_ldb env)" "sound_chain env bc" "n = unat (height_of (GetLatestBlock bc))" "n + 1 < 2 ^ 64"
    and "json_ok (ce_enc env) (ce_dec env) b" "VerifyBlock env bc b = None" "AddBlock env b bc = (bc', None)"
  shows "sound_chain env bc' \<and> unat (height_of (GetLatestBlock bc')) = Suc n \<and>
    (\<forall>h \<le> n. block_at env bc' h = block_at env bc h) \<and> block_at env bc' (Suc n) = b"
proof -
  note height = verified_height [OF assms(6,3,4)]
  have tip: "GetLatestBlock bc' = b" by (rule bc.add_tip [OF assms(7)])
  have get: "GetBlockByHeight env bc' (of_nat h) = (if h = Suc n then Inr b else GetBlockByHeight env bc (of_nat h))" if "h \<le> Suc n" for h
    using bc.add_get [OF _ assms(7), of "of_nat h"] assms(1,5) that assms(4) height(1) of_nat_u64_eq [of h "height_of b"] by simp
  have new: "block_at env bc' (Suc n) = b" using get [of "Suc n"] by (simp add: block_at_def del: of_nat_Suc)
  have old: "block_at env bc' h = block_at env bc h" if "h \<le> n" for h using get [of h] that by (simp add: block_at_def)
  have "Block_Hash (ce_enc env) (GetLatestBlock bc) = Inr (prev_of b)" using assms(6) by (simp add: bc.verify_ok)
  moreover have s: "block_at env bc n = GetLatestBlock bc"
      "\<And>h. h \<le> n \<Longrightarrow> unat (height_of (block_at env bc h)) = h"
      "\<And>h. 0 < h \<Longrightarrow> h \<le> n \<Longrightarrow> GetBlockByHeight env bc (of_nat h) = Inr (block_at env bc h)"
      "\<And>h. h < n \<Longrightarrow> Block_Hash (ce_enc env) (block_at env bc h) = Inr (prev_of (block_at env bc (Suc h)))"
    using assms(2,3) by (auto simp: sound_chain_def Let_def)
  ultimately have link: "Block_Hash (ce_enc env) (block_at env bc' h) = Inr (prev_of (block_at env bc' (Suc h)))" if "h < Suc n" for h
    using that old new by (cases "h = n") auto
  have stored: "unat (height_of (block_at env bc' h)) = h \<and> (0 < h \<longrightarrow> GetBlockByHeight env bc' (of_nat h) = Inr (block_at env bc' h))"
    if "h \<le> Suc n" for h
    using that old new get [OF that] s(2,3) height(1) by (cases "h = Suc n") auto
  show ?thesis using link stored old new tip height(1) by (simp add: sound_chain_def Let_def)
qed

section \<open>The searches\<close>

text \<open>The blocks the backward loops visit: from \<open>n\<close> down, up to the first missing one.\<close>

fun walk :: "'db chain_env \<Rightarrow> 'db Blockchain \<Rightarrow> nat \<Rightarrow> Block list" where
  "walk env bc n = (case GetBlockByHeight env bc (of_nat n) of Inl _ \<Rightarrow> []
     | Inr b \<Rightarrow> b # (if n = 0 then [] else walk env bc (n - 1)))"

declare walk.simps [simp del]

definition visible_txs :: "'db chain_env \<Rightarrow> 'db Blockchain \<Rightarrow> Transaction list" where
  "visible_txs env bc =
     concat (map b_Transactions (walk env bc (unat (height_of (bc_currentBlock bc)))))"

abbreviation involves :: "string \<Rightarrow> Transaction \<Rightarrow> bool" where
  "involves address tx \<equiv> tx_From tx = address \<or> tx_To tx = address"

lemma history_block_eq:
  "int (length acc) < limit \<Longrightarrow>
   history_block address limit acc txs = take (nat limit) (acc @ filter (involves address) txs)"
proof (induction address limit acc txs rule: history_block.induct)
  case (2 address limit acc tx txs)
  show ?case
  proof (cases "limit \<le> int (length acc) + 1")
    case True
    with "2.prems" have "nat limit = Suc (length acc)" by linarith
    with 2 True show ?thesis by (auto simp: Let_def)
  qed (use 2 in \<open>auto simp: Let_def\<close>)
qed auto

lemma history_loop_eq:
  "length acc \<le> nat limit \<Longrightarrow>
   history_loop env bc address limit n acc =
   take (nat limit) (acc @ filter (involves address) (concat (map b_Transactions (walk env bc n))))"
proof (induction env bc address limit n acc rule: history_loop.induct)
  case (1 env bc address limit n acc)
  show ?case
  proof (cases "int (length acc) < limit")
    case False
    then show ?thesis using "1.prems"
      by (subst history_loop.simps) (simp add: nat_le_iff)
  next
    case True
    show ?thesis
    proof (cases "GetBlockByHeight env bc (of_nat n)")
      case (Inl e)
      with True "1.prems" show ?thesis
        by (subst history_loop.simps) (simp add: walk.simps)
    next
      case (Inr b)
      have hb: "history_block address limit acc (b_Transactions b) =
          take (nat limit) (acc @ filter (involves address) (b_Transactions b))"
        by (rule history_block_eq [OF True])
      show ?thesis
      proof (cases "n = 0")
        case True
        with Inr hb \<open>int (length acc) < limit\<close> show ?thesis
          by (subst history_loop.simps) (simp add: walk.simps)
      next
        case False
        have "length (history_block address limit acc (b_Transactions b)) \<le> nat limit"
          by (simp add: hb)
        from "1.IH" [OF True Inr refl False this] Inr False True show ?thesis
          by (subst history_loop.simps, subst walk.simps) (simp add: hb min_def)
      qed
    qed
  qed
qed

lemma id_loop_eq:
  "id_loop env bc txID n =
   List.find (\<lambda>tx. tx_ID tx = txID) (concat (map b_Transactions (walk env bc n)))"
proof (induction env bc txID n rule: id_loop.induct)
  case (1 env bc txID n)
  have app: "List.find P (xs @ ys) = (case List.find P xs of None \<Rightarrow> List.find P ys | Some x \<Rightarrow> Some x)"
    for P and xs ys :: "Transaction list" by (induction xs) auto
  show ?case
    using "1.IH" by (subst id_loop.simps, subst walk.simps) (auto simp: app split: sum.splits option.splits)
qed

lemma count_loop_stop:
  "GetBlockByHeight env bc h = Inl e \<Longrightarrow> count_loop env bc h c = Some c"
  by (subst count_loop.simps) simp

text \<open>On a built chain the walk visits every block above the genesis.\<close>

lemma walk_covers:
  assumes "fresh_start env bc0" "built env bc0 n bc" "n < 2 ^ 64" "m \<le> n" "0 < h" "h \<le> m"
    "GetBlockByHeight env bc (of_nat h) = Inr b"
  shows "b \<in> set (walk env bc m)"
  using assms(4,6)
proof (induction m)
  case 0
  then show ?case using assms(5) by simp
next
  case (Suc m)
  obtain c where c: "GetBlockByHeight env bc (of_nat (Suc m)) = Inr c"
    using built_get [OF assms(1-3)] Suc.prems by blast
  show ?case
  proof (cases "h = Suc m")
    case True
    then show ?thesis using assms(7) by (subst walk.simps) auto
  next
    case False
    with Suc c show ?thesis by (subst walk.simps) auto
  qed
qed

section \<open>Comparing two chains\<close>

abbreviation unsigned_block :: "Block \<Rightarrow> Block" where
  "unsigned_block b \<equiv> b\<lparr>b_Signature := []\<rparr>"

definition same_block_at :: "'db chain_env \<Rightarrow> 'db Blockchain \<Rightarrow> 'db Blockchain \<Rightarrow> nat \<Rightarrow> bool" where
  "same_block_at env bc bc' h = (case (GetBlockByHeight env bc (of_nat h), GetBlockByHeight env bc' (of_nat h)) of
     (Inr b, Inr b') \<Rightarrow> unsigned_block b = unsigned_block b' | _ \<Rightarrow> False)"

text \<open>Two blocks at one height whose encodings collide, or coincide though the blocks differ.\<close>

definition hash_failure_at :: "'db chain_env \<Rightarrow> 'db Blockchain \<Rightarrow> 'db Blockchain \<Rightarrow> nat \<Rightarrow> bool" where
  "hash_failure_at env bc bc' h = (case (GetBlockByHeight env bc (of_nat h), GetBlockByHeight env bc' (of_nat h)) of
     (Inr b, Inr b') \<Rightarrow> (case (ce_enc env (unsigned_block b), ce_enc env (unsigned_block b')) of
        (Inr x, Inr x') \<Rightarrow> sha256_collision x x' \<or> (x = x' \<and> unsigned_block b \<noteq> unsigned_block b')
      | _ \<Rightarrow> False)
   | _ \<Rightarrow> False)"

lemma unsigned_prev: "unsigned_block b = unsigned_block b' \<Longrightarrow> prev_of b = prev_of b'"
  by (metis Block.ext_inject Block.surjective Block.update_convs(5))

text \<open>If two chains agree at a height, they agree one below it, or the hash fails there.\<close>

lemma same_parent:
  assumes "\<exists>b c. GetBlockByHeight env bc (of_nat h) = Inr b \<and> unat (height_of b) = h \<and>
      GetBlockByHeight env bc (of_nat (h + 1)) = Inr c \<and> Block_Hash (ce_enc env) b = Inr (prev_of c)"
    and "\<exists>b c. GetBlockByHeight env bc' (of_nat h) = Inr b \<and> unat (height_of b) = h \<and>
      GetBlockByHeight env bc' (of_nat (h + 1)) = Inr c \<and> Block_Hash (ce_enc env) b = Inr (prev_of c)"
    and "same_block_at env bc bc' (h + 1)"
  shows "same_block_at env bc bc' h \<or> hash_failure_at env bc bc' h"
proof -
  from assms(1) obtain b c where b: "GetBlockByHeight env bc (of_nat h) = Inr b"
      "GetBlockByHeight env bc (of_nat (h + 1)) = Inr c" "Block_Hash (ce_enc env) b = Inr (prev_of c)"
    by blast
  from assms(2) obtain b' c' where b': "GetBlockByHeight env bc' (of_nat h) = Inr b'"
      "GetBlockByHeight env bc' (of_nat (h + 1)) = Inr c'" "Block_Hash (ce_enc env) b' = Inr (prev_of c')"
    by blast
  have "prev_of c = prev_of c'"
    using assms(3) b(2) b'(2) by (intro unsigned_prev) (simp add: same_block_at_def)
  with b(3) b'(3) obtain x x' where "ce_enc env (unsigned_block b) = Inr x"
      "ce_enc env (unsigned_block b') = Inr x'" "sha256 x = sha256 x'"
    by (auto simp: Block_Hash_def split: sum.splits)
  with b(1) b'(1) show ?thesis
    by (auto simp: same_block_at_def hash_failure_at_def sha256_collision_def)
qed

section \<open>A concrete chain\<close>

text \<open>A codec that writes the height in one byte, and the chain of three blocks it can carry.\<close>

definition demo_block :: "u64 \<Rightarrow> Block" where
  "demo_block h = (if h = 0 then createGenesisBlock else createGenesisBlock\<lparr>
     b_Header := (b_Header createGenesisBlock)\<lparr>h_Height := h, h_PrevBlockHash := sha256 [ucast (h - 1)]\<rparr>,
     b_Transactions := [\<lparr>tx_ID = ''tx'', tx_From = ''a'', tx_To = ''b'', tx_Amount = 1,
       tx_Timestamp = 0, tx_Nonce = 0, tx_Fee = 0, tx_Signature = [], tx_Data = []\<rparr>]\<rparr>)"

definition demo_env :: "memdb chain_env" where
  "demo_env = \<lparr>ce_ldb = memdb_ops, ce_enc = (\<lambda>b. Inr [ucast (height_of b)]),
     ce_dec = (\<lambda>bs. case bs of [x] \<Rightarrow> Inr (demo_block (ucast x)) | _ \<Rightarrow> Inl (Error ''bad block''))\<rparr>"

definition demo_bc0 :: "memdb Blockchain" where
  "demo_bc0 = \<lparr>bc_db = [(current_key, [0])], bc_currentBlock = demo_block 0, bc_Difficulty = 1\<rparr>"

definition demo_bc1 :: "memdb Blockchain" where
  "demo_bc1 = fst (AddBlock demo_env (demo_block 1) demo_bc0)"

definition demo_bc2 :: "memdb Blockchain" where
  "demo_bc2 = fst (AddBlock demo_env (demo_block 2) demo_bc1)"

lemma demo_env_simps [simp]:
  "ce_ldb demo_env = memdb_ops" "ce_enc demo_env b = Inr [ucast (height_of b)]"
  "ce_dec demo_env [x] = Inr (demo_block (ucast x))"
  by (simp_all add: demo_env_def)

lemma demo_height [simp]: "height_of (demo_block h) = h"
  by (simp add: demo_block_def)

lemma demo_fresh: "fresh_start demo_env demo_bc0"
proof -
  have "NewBlockchain demo_env [] = ([(current_key, [0])], Inr demo_bc0)"
    by (simp add: NewBlockchain_def demo_bc0_def memdb_ops_def mput_def)
  moreover have "\<forall>k. db_get (ce_ldb demo_env) [] k = None" by (simp add: memdb_ops_def)
  moreover have "json_ok (ce_enc demo_env) (ce_dec demo_env) createGenesisBlock"
    by (simp add: json_ok_def demo_block_def)
  ultimately show ?thesis using memdb_laws by (auto simp: fresh_start_def)
qed

lemma demo_add: "snd (AddBlock demo_env b bc) = None"
  by (simp add: AddBlock_def memdb_ops_def)

lemma demo_latest: "GetLatestBlock demo_bc0 = demo_block 0" "GetLatestBlock demo_bc1 = demo_block 1"
    "GetLatestBlock demo_bc2 = demo_block 2"
  by (simp_all add: GetLatestBlock_def demo_bc0_def demo_bc1_def demo_bc2_def AddBlock_def memdb_ops_def)

lemma demo_built: "built demo_env demo_bc0 2 demo_bc2"
proof -
  have b1: "built demo_env demo_bc0 (Suc 0) demo_bc1"
  proof (rule built_block [OF built_start])
    show "json_ok (ce_enc demo_env) (ce_dec demo_env) (demo_block 1)" by (simp add: json_ok_def)
    show "VerifyBlock demo_env demo_bc0 (demo_block 1) = None"
      by (simp add: VerifyBlock_def Let_def demo_latest Block_Hash_def) (simp add: demo_block_def createGenesisBlock_def)
    show "AddBlock demo_env (demo_block 1) demo_bc0 = (demo_bc1, None)"
      using demo_add [of "demo_block 1" demo_bc0] by (simp add: demo_bc1_def prod_eq_iff)
  qed
  have "built demo_env demo_bc0 (Suc (Suc 0)) demo_bc2"
  proof (rule built_block [OF b1])
    show "json_ok (ce_enc demo_env) (ce_dec demo_env) (demo_block 2)" by (simp add: json_ok_def)
    show "VerifyBlock demo_env demo_bc1 (demo_block 2) = None"
      by (simp add: VerifyBlock_def Let_def demo_latest Block_Hash_def) (simp add: demo_block_def createGenesisBlock_def)
    show "AddBlock demo_env (demo_block 2) demo_bc1 = (demo_bc2, None)"
      using demo_add [of "demo_block 2" demo_bc1] by (simp add: demo_bc2_def prod_eq_iff)
  qed
  then show ?thesis by (simp add: numeral_2_eq_2)
qed

section \<open>Properties\<close>

text \<open>
  C3: A chain grown by \<open>VerifyBlock\<close> and \<open>AddBlock\<close> from a fresh database is a linked chain:
  after \<open>n\<close> blocks the latest block has height \<open>n\<close>, every height from 1 to \<open>n\<close> holds a block
  of that height, each block names the hash of the block below it, and the latest block is
  the one stored at height \<open>n\<close>.
\<close>

theorem chain_linked:
  assumes "fresh_start env bc0" "built env bc0 n bc" "n < 2 ^ 64"
  shows "unat (height_of (GetLatestBlock bc)) = n \<and>
    (0 < n \<longrightarrow> GetBlockByHeight env bc (of_nat n) = Inr (GetLatestBlock bc)) \<and>
    (\<forall>h. 0 < h \<and> h < n \<longrightarrow> (\<exists>b c. GetBlockByHeight env bc (of_nat h) = Inr b \<and>
        unat (height_of b) = h \<and> GetBlockByHeight env bc (of_nat (h + 1)) = Inr c \<and>
        Block_Hash (ce_enc env) b = Inr (prev_of c)))"
  using built_height [OF assms] built_tip [OF assms] built_next [OF assms] by blast

theorem chain_linked_witness:
  "\<exists>b c. GetBlockByHeight demo_env demo_bc2 1 = Inr b \<and> unat (height_of b) = 1 \<and>
     GetBlockByHeight demo_env demo_bc2 2 = Inr c \<and> Block_Hash (ce_enc demo_env) b = Inr (prev_of c)"
  using chain_linked [OF demo_fresh demo_built, simplified] by (auto dest!: spec [of _ 1])

text \<open>
  C8: The hash links make history immutable: if two chains grown from fresh databases end in
  the same block, then at every height they hold the same block but for its signature, or
  some height shows two stored blocks whose encodings are equal though the blocks differ, or
  a concrete SHA-256 collision between them.
\<close>

theorem chain_immutable:
  assumes "fresh_start env bc0" "built env bc0 n bc" "n < 2 ^ 64"
    "fresh_start env bc0'" "built env bc0' n bc'" "GetLatestBlock bc = GetLatestBlock bc'"
  shows "(\<forall>h. 0 < h \<and> h \<le> n \<longrightarrow> same_block_at env bc bc' h) \<or>
    (\<exists>h. 0 < h \<and> h \<le> n \<and> hash_failure_at env bc bc' h)"
proof (rule disjCI)
  assume nb: "\<not> (\<exists>h. 0 < h \<and> h \<le> n \<and> hash_failure_at env bc bc' h)"
  have down: "same_block_at env bc bc' (n - k)" if "k < n" for k
    using that
  proof (induction k)
    case 0
    then show ?case
      using built_tip [OF assms(1-3)] built_tip [OF assms(4,5,3)] assms(6) by (auto simp: same_block_at_def)
  next
    case (Suc k)
    define h where "h = n - Suc k"
    have h: "0 < h" "h < n" "n - k = h + 1" using Suc.prems by (auto simp: h_def)
    then have "same_block_at env bc bc' (h + 1)" using Suc by simp
    then show ?case
      using same_parent [OF built_next [OF assms(1-3) h(1,2)] built_next [OF assms(4,5,3) h(1,2)]] nb h
      unfolding h_def [symmetric] by (meson less_imp_le)
  qed
  show "\<forall>h. 0 < h \<and> h \<le> n \<longrightarrow> same_block_at env bc bc' h"
    using down by (metis diff_diff_cancel diff_less zero_less_diff less_le_trans)
qed

theorem chain_immutable_witness:
  "same_block_at demo_env demo_bc2 demo_bc2 1 \<or>
   (\<exists>h. 0 < h \<and> h \<le> 2 \<and> hash_failure_at demo_env demo_bc2 demo_bc2 h)"
  using chain_immutable [OF demo_fresh demo_built _ demo_fresh demo_built refl]
  by (auto dest: spec [of _ 1])

text \<open>
  \<open>AddBlock\<close> either succeeds, and then the block is the latest one, is found at its height,
  and every other height reads as before, or reports an error and leaves the latest block.
\<close>

theorem add_block_effect:
  assumes "kv_laws (ce_ldb env)" "json_ok (ce_enc env) (ce_dec env) b" "AddBlock env b bc = (bc', r)"
  shows "(r = None \<and> GetLatestBlock bc' = b \<and> (\<forall>h. GetBlockByHeight env bc' h =
            (if h = height_of b then Inr b else GetBlockByHeight env bc h))) \<or>
    ((\<exists>e. r = Some e) \<and> GetLatestBlock bc' = GetLatestBlock bc)"
  using assms bc.add_tip [of env b bc bc'] bc.add_get [of env b bc bc'] bc.add_fail [of env b bc bc']
  by (cases r) auto

theorem add_block_effect_witness:
  "GetLatestBlock demo_bc1 = demo_block 1 \<and> GetBlockByHeight demo_env demo_bc1 1 = Inr (demo_block 1)"
proof -
  have "AddBlock demo_env (demo_block 1) demo_bc0 = (demo_bc1, None)"
    using demo_add [of "demo_block 1" demo_bc0] by (simp add: demo_bc1_def prod_eq_iff)
  from add_block_effect [OF _ _ this] show ?thesis by (simp add: memdb_laws json_ok_def)
qed

text \<open>
  The history of an address is the first \<open>limit\<close> of the transactions that name it as sender
  or receiver, from the latest block down to the first missing height, and the search by ID
  gives the first transaction with that ID in the same order.
\<close>

theorem transaction_searches:
  "GetTransactionHistory env bc address limit =
     take (nat limit) (filter (involves address) (visible_txs env bc)) \<and>
   GetTransactionByID env bc txID = List.find (\<lambda>tx. tx_ID tx = txID) (visible_txs env bc)"
  by (simp add: GetTransactionHistory_def GetTransactionByID_def visible_txs_def history_loop_eq id_loop_eq)

text \<open>
  On a chain built from verified blocks the search by ID misses no transaction of a block
  above the genesis: if a block at height 1 to \<open>n\<close> has a transaction with the ID, one is found.
\<close>

theorem id_search_complete:
  assumes "fresh_start env bc0" "built env bc0 n bc" "n < 2 ^ 64" "0 < h" "h \<le> n"
    "GetBlockByHeight env bc (of_nat h) = Inr b" "tx \<in> set (b_Transactions b)"
  shows "\<exists>tx'. GetTransactionByID env bc (tx_ID tx) = Some tx' \<and> tx_ID tx' = tx_ID tx"
proof -
  have "unat (height_of (bc_currentBlock bc)) = n"
    using built_height [OF assms(1-3)] by (simp add: GetLatestBlock_def)
  then have "tx \<in> set (visible_txs env bc)"
    using walk_covers [OF assms(1-3) order_refl assms(4-6)] assms(7) by (auto simp: visible_txs_def)
  then show ?thesis unfolding GetTransactionByID_def id_loop_eq visible_txs_def [symmetric]
    by (cases "List.find (\<lambda>t. tx_ID t = tx_ID tx) (visible_txs env bc)")
      (auto simp: find_None_iff find_Some_iff)
qed

theorem id_search_complete_witness:
  "\<exists>tx'. GetTransactionByID demo_env demo_bc2 ''tx'' = Some tx' \<and> tx_ID tx' = ''tx''"
proof -
  have "GetBlockByHeight demo_env demo_bc2 (of_nat 1) = Inr (demo_block 1)"
    by (simp add: demo_bc0_def demo_bc1_def demo_bc2_def AddBlock_def GetBlockByHeight_def memdb_ops_def
        mget_mput block_key_inj)
  from id_search_complete [OF demo_fresh demo_built _ _ _ this, of "hd (b_Transactions (demo_block 1))"]
  show ?thesis by (simp add: demo_block_def)
qed

text \<open>
  \<open>GetTotalTransactionCount\<close> reports 0 for every chain built from a fresh database,
  whatever its blocks hold: its loop starts at height 0, where no block is ever stored, and
  leaves at the first error.
\<close>

theorem total_count_zero:
  assumes "fresh_start env bc0" "built env bc0 n bc" "n < 2 ^ 64"
  shows "GetTotalTransactionCount env bc = Some 0"
  using count_loop_stop [OF built_no_zero [OF assms]] by (simp add: GetTotalTransactionCount_def)

theorem total_count_zero_witness:
  "GetTotalTransactionCount demo_env demo_bc2 = Some 0 \<and> b_Transactions (GetLatestBlock demo_bc2) \<noteq> []"
  using total_count_zero [OF demo_fresh demo_built] by (simp add: demo_latest) (simp add: demo_block_def)

end
