(* ===== verification/Sync_Manager.thy ===== *)
theory Sync_Manager
  imports Chain
begin

text \<open>
  Block synchronisation (\<open>pkg/sync/sync_manager.go\<close>): the status machine of a node that
  catches up with a peer, the requests it sends, the answers it gives and how it processes
  them. The pointer to the shared \<open>Blockchain\<close> is the field \<open>sy_blockchain\<close>.
\<close>

section \<open>State and operations\<close>

datatype SyncStatus = StatusSyncing | StatusSynced | StatusBehind

record 'db SyncManager =
  sy_blockchain :: "'db Blockchain"
  sy_status :: SyncStatus
  sy_targetHeight :: u64
  sy_currentHeight :: u64
  sy_syncPeer :: string
  sy_requestTimeout :: duration

record BlockRequest =
  br_StartHeight :: u64
  br_EndHeight :: u64

definition NewSyncManager :: "'db Blockchain \<Rightarrow> 'db SyncManager" where
  "NewSyncManager bc = \<lparr>sy_blockchain = bc, sy_status = StatusSynced, sy_targetHeight = 0,
     sy_currentHeight = height_of (GetLatestBlock bc), sy_syncPeer = [],
     sy_requestTimeout = 30 * second\<rparr>"

definition UpdateHeight :: "u64 \<Rightarrow> 'db SyncManager \<Rightarrow> 'db SyncManager" where
  "UpdateHeight h sm = sm\<lparr>sy_currentHeight := h\<rparr>"

text \<open>The log line of \<open>StartSync\<close> slices the peer ID after the state has changed.\<close>

definition StartSync :: "u64 \<Rightarrow> string \<Rightarrow> 'db SyncManager \<Rightarrow> 'db SyncManager \<times> unit res" where
  "StartSync peerHeight peerID sm =
     (let sm1 = sm\<lparr>sy_currentHeight := height_of (GetLatestBlock (sy_blockchain sm))\<rparr> in
      if peerHeight \<le> sy_currentHeight sm1 then (sm1\<lparr>sy_status := StatusSynced\<rparr>, Inr ())
      else (sm1\<lparr>sy_status := StatusSyncing, sy_targetHeight := peerHeight, sy_syncPeer := peerID\<rparr>,
            (case slice_to 12 peerID of Inl e \<Rightarrow> Inl e | Inr _ \<Rightarrow> Inr ())))"

definition CreateBlockRequest :: "u64 \<Rightarrow> 'db SyncManager \<Rightarrow> BlockRequest" where
  "CreateBlockRequest batchSize sm =
     (let startHeight = sy_currentHeight sm + 1;
          endHeight = startHeight + batchSize - 1
      in \<lparr>br_StartHeight = startHeight,
          br_EndHeight = (if endHeight > sy_targetHeight sm then sy_targetHeight sm else endHeight)\<rparr>)"

fun process_loop :: "'db chain_env \<Rightarrow> Block list \<Rightarrow> 'db SyncManager \<Rightarrow> 'db SyncManager \<times> unit res" where
  "process_loop env [] sm = (sm, Inr ())"
| "process_loop env (block # blocks) sm =
     (case VerifyBlock env (sy_blockchain sm) block of
        Some (Panic p) \<Rightarrow> (sm, Inl (Panic p))
      | Some (Error _) \<Rightarrow> (sm, Inl (Error ''invalid block''))
      | None \<Rightarrow>
          (case AddBlock env block (sy_blockchain sm) of
             (bc', Some (Panic p)) \<Rightarrow> (sm\<lparr>sy_blockchain := bc'\<rparr>, Inl (Panic p))
           | (bc', Some (Error _)) \<Rightarrow> (sm\<lparr>sy_blockchain := bc'\<rparr>, Inl (Error ''failed to add block''))
           | (bc', None) \<Rightarrow>
               process_loop env blocks
                 (sm\<lparr>sy_blockchain := bc', sy_currentHeight := height_of block\<rparr>)))"

definition ProcessBlockResponse ::
  "'db chain_env \<Rightarrow> Block list \<Rightarrow> 'db SyncManager \<Rightarrow> 'db SyncManager \<times> unit res" where
  "ProcessBlockResponse env blocks sm =
     (if blocks = [] then (sm, Inl (Error ''empty block response''))
      else case process_loop env blocks sm of
             (sm', Inl e) \<Rightarrow> (sm', Inl e)
           | (sm', Inr _) \<Rightarrow>
               (if sy_currentHeight sm' \<ge> sy_targetHeight sm' then sm'\<lparr>sy_status := StatusSynced\<rparr> else sm',
                Inr ()))"

text \<open>
  The loop \<open>for height := req.StartHeight; height <= req.EndHeight; height++\<close> wraps around
  after the largest height, so it is not bounded by the request alone.
\<close>

partial_function (option) request_loop ::
  "'db chain_env \<Rightarrow> 'db Blockchain \<Rightarrow> u64 \<Rightarrow> u64 \<Rightarrow> Block list \<Rightarrow> Block list option" where
  "request_loop env bc endHeight height blocks =
     (if height \<le> endHeight then
        (case GetBlockByHeight env bc height of
           Inl _ \<Rightarrow> Some blocks
         | Inr block \<Rightarrow> request_loop env bc endHeight (height + 1) (blocks @ [block]))
      else Some blocks)"

definition HandleBlockRequest ::
  "'db chain_env \<Rightarrow> BlockRequest \<Rightarrow> 'db SyncManager \<Rightarrow> Block list res option" where
  "HandleBlockRequest env req sm =
     (if br_StartHeight req > br_EndHeight req then Some (Inl (Error ''invalid range: start > end''))
      else if br_StartHeight req > height_of (GetLatestBlock (sy_blockchain sm)) then Some (Inr [])
      else map_option Inr
        (request_loop env (sy_blockchain sm) (br_EndHeight req) (br_StartHeight req) []))"

definition IsSyncing :: "'db SyncManager \<Rightarrow> bool" where
  "IsSyncing sm = (sy_status sm = StatusSyncing)"

definition IsSynced :: "'db SyncManager \<Rightarrow> bool" where
  "IsSynced sm = (sy_status sm = StatusSynced)"

definition CheckIfBehind :: "u64 \<Rightarrow> 'db SyncManager \<Rightarrow> 'db SyncManager \<times> bool" where
  "CheckIfBehind peerHeight sm =
     (if peerHeight > sy_currentHeight sm + 10 then (sm\<lparr>sy_status := StatusBehind\<rparr>, True)
      else (sm, False))"

section \<open>Serving a request\<close>

lemma request_loop_stop:
  "\<not> h \<le> e \<Longrightarrow> request_loop env bc e h bs = Some bs"
  "GetBlockByHeight env bc h = Inl x \<Longrightarrow> request_loop env bc e h bs = Some bs"
  by (subst request_loop.simps, simp)+

lemma request_loop_step:
  "h \<le> e \<Longrightarrow> GetBlockByHeight env bc h = Inr b \<Longrightarrow>
   request_loop env bc e h bs = request_loop env bc e (h + 1) (bs @ [b])"
  by (subst request_loop.simps, simp)

text \<open>Above the tip of a built chain no block is stored.\<close>

lemma built_above:
  assumes "fresh_start env bc0" "built env bc0 n bc" "n < 2 ^ 64" "n < unat h"
  shows "GetBlockByHeight env bc h = Inl (Error ''block not found at height'')"
  using assms(2-4)
proof (induction rule: built.induct)
  case built_start
  then show ?case using fresh_state [OF assms(1)] by simp
next
  case (built_block n bc b bc')
  have "unat (height_of b) = Suc n"
    using built_height [OF assms(1) built.built_block [OF built_block.hyps(1-4)]] built_block.prems(1)
      bc.add_tip [OF built_block.hyps(4)] by simp
  then have "h \<noteq> height_of b" using built_block.prems(2) by auto
  then show ?case
    using bc.add_get [OF _ built_block.hyps(4), of h] built_block fresh_laws [OF assms(1)] by auto
qed

lemma request_loop_built:
  assumes "fresh_start env bc0" "built env bc0 n bc" "n + 1 < 2 ^ 64" "0 < h" "h \<le> n + 1"
  shows "request_loop env bc e (of_nat h) bs =
    Some (bs @ map (block_at env bc) [h..<Suc (min n (unat e))])"
  using assms(4,5)
proof (induction "n + 1 - h" arbitrary: h bs)
  case 0
  then have "GetBlockByHeight env bc (of_nat h) = Inl (Error ''block not found at height'')"
    using assms(3) by (intro built_above [OF assms(1,2)]) (simp_all del: of_nat_Suc of_nat_add)
  with 0 show ?case by (simp add: request_loop_stop)
next
  case (Suc k)
  then have hn: "h \<le> n" and h64: "h < 2 ^ 64" using assms(3) by simp_all
  have le: "(of_nat h :: u64) \<le> e \<longleftrightarrow> h \<le> unat e" using h64 by (simp add: word_le_nat_alt)
  show ?case
  proof (cases "h \<le> unat e")
    case False
    then show ?thesis using le by (simp add: request_loop_stop)
  next
    case True
    have "request_loop env bc e (of_nat h) bs =
        request_loop env bc e (of_nat (Suc h)) (bs @ [block_at env bc h])"
      using built_block_at(2) [OF assms(1,2) _ hn] Suc.prems(1) assms(3) le True
      by (simp add: request_loop_step add.commute)
    also have "\<dots> = Some (bs @ [block_at env bc h] @ map (block_at env bc) [Suc h..<Suc (min n (unat e))])"
      using Suc.hyps(1) [of "Suc h"] Suc.hyps(2) hn by (simp del: upt_Suc of_nat_Suc)
    also have "[block_at env bc h] @ map (block_at env bc) [Suc h..<Suc (min n (unat e))] =
        map (block_at env bc) [h..<Suc (min n (unat e))]"
      using hn True by (subst (2) upt_conv_Cons) auto
    finally show ?thesis .
  qed
qed

lemma request_answer_built:
  assumes "fresh_start env bc0" "built env bc0 n (sy_blockchain sm)" "n + 1 < 2 ^ 64" "0 < s" "s \<le> e"
  shows "HandleBlockRequest env \<lparr>br_StartHeight = s, br_EndHeight = e\<rparr> sm =
    Some (Inr (map (block_at env (sy_blockchain sm)) [unat s..<Suc (min n (unat e))]))"
proof -
  have ht: "unat (height_of (GetLatestBlock (sy_blockchain sm))) = n"
    using built_height [OF assms(1,2)] assms(3) by simp
  have s: "0 < unat s" "of_nat (unat s) = s" using assms(4) by (simp_all add: unat_gt_0)
  show ?thesis
  proof (cases "n < unat s")
    case True
    then show ?thesis using ht assms(5) by (simp add: HandleBlockRequest_def not_less word_less_nat_alt word_le_nat_alt)
  next
    case False
    then have "\<not> s > height_of (GetLatestBlock (sy_blockchain sm))" using ht by (simp add: word_less_nat_alt)
    then show ?thesis
      using request_loop_built [OF assms(1-3) s(1), of e "[]"] False assms(5) s(2)
      by (simp add: HandleBlockRequest_def not_less del: upt_Suc)
  qed
qed

section \<open>Processing an answer\<close>

lemma process_loop_sound:
  assumes "kv_laws (ce_ldb env)" "put_local (ce_ldb env)"
  shows "sound_chain env (sy_blockchain sm) \<Longrightarrow>
    n = unat (height_of (GetLatestBlock (sy_blockchain sm))) \<Longrightarrow> n + length blocks < 2 ^ 64 \<Longrightarrow>
    \<forall>b \<in> set blocks. json_ok (ce_enc env) (ce_dec env) b \<Longrightarrow> process_loop env blocks sm = (sm', r) \<Longrightarrow>
    sound_chain env (sy_blockchain sm') \<and>
    (\<exists>k \<le> length blocks. unat (height_of (GetLatestBlock (sy_blockchain sm'))) = n + k \<and>
      (\<forall>h \<le> n. block_at env (sy_blockchain sm') h = block_at env (sy_blockchain sm) h) \<and>
      (\<forall>i < k. block_at env (sy_blockchain sm') (n + 1 + i) = blocks ! i) \<and> (r = Inr () \<longleftrightarrow> k = length blocks))"
proof (induction blocks arbitrary: sm n)
  case Nil
  then show ?case by auto
next
  case (Cons b bs)
  consider e where "VerifyBlock env (sy_blockchain sm) b = Some e"
    | bc1 e where "VerifyBlock env (sy_blockchain sm) b = None" "AddBlock env b (sy_blockchain sm) = (bc1, Some e)"
    | bc1 where "VerifyBlock env (sy_blockchain sm) b = None" "AddBlock env b (sy_blockchain sm) = (bc1, None)"
    by (metis option.exhaust prod.exhaust)
  then show ?case
  proof cases
    case 1
    then have "sm' = sm" "r \<noteq> Inr ()" using Cons.prems(5) by (cases e, auto)+
    then show ?thesis using Cons.prems(1,2) by auto
  next
    case 2
    then have sm': "sm' = sm\<lparr>sy_blockchain := bc1\<rparr>" "r \<noteq> Inr ()" using Cons.prems(5) by (cases e, auto)+
    have "n + 1 < 2 ^ 64" using Cons.prems(3) by simp
    from sound_add_fail [OF assms(2) Cons.prems(1,2) this 2] show ?thesis
      using sm' Cons.prems(2) bc.add_fail [OF 2(2)] by (intro conjI exI [of _ 0]) auto
  next
    case 3
    let ?sm = "sm\<lparr>sy_blockchain := bc1, sy_currentHeight := height_of b\<rparr>"
    have small: "n + 1 < 2 ^ 64" "json_ok (ce_enc env) (ce_dec env) b" using Cons.prems(3,4) by simp_all
    note add = sound_add [OF assms(1) Cons.prems(1,2) small 3]
    have run: "process_loop env bs ?sm = (sm', r)" using Cons.prems(5) 3 by simp
    have ih: "sound_chain env (sy_blockchain sm') \<and>
      (\<exists>k \<le> length bs. unat (height_of (GetLatestBlock (sy_blockchain sm'))) = Suc n + k \<and>
      (\<forall>h \<le> Suc n. block_at env (sy_blockchain sm') h = block_at env bc1 h) \<and>
      (\<forall>i < k. block_at env (sy_blockchain sm') (Suc n + 1 + i) = bs ! i) \<and> (r = Inr () \<longleftrightarrow> k = length bs))"
      using Cons.IH [of ?sm "Suc n"] add Cons.prems(3,4) run by simp
    then obtain k where k: "k \<le> length bs" "unat (height_of (GetLatestBlock (sy_blockchain sm'))) = Suc n + k"
        "\<And>h. h \<le> Suc n \<Longrightarrow> block_at env (sy_blockchain sm') h = block_at env bc1 h"
        "\<And>i. i < k \<Longrightarrow> block_at env (sy_blockchain sm') (Suc n + 1 + i) = bs ! i" "r = Inr () \<longleftrightarrow> k = length bs" by blast
    have "block_at env (sy_blockchain sm') (n + 1 + i) = (b # bs) ! i" if "i < Suc k" for i
      using that k(3) [of "Suc n"] k(4) [of "i - 1"] add by (cases i) auto
    moreover have "block_at env (sy_blockchain sm') h = block_at env (sy_blockchain sm) h" if "h \<le> n" for h
      using that k(3) [of h] add by simp
    ultimately show ?thesis using ih k(1,2,5) by (intro conjI exI [of _ "Suc k"]) auto
  qed
qed

text \<open>
  A node at height \<open>m\<close> of a peer's chain accepts the peer's next blocks, when its own database
  does not fail.
\<close>

lemma process_loop_status: "process_loop env blocks sm = (sm', r) \<Longrightarrow> sy_status sm' = sy_status sm"
  by (induction env blocks sm rule: process_loop.induct)
    (auto split: option.splits prod.splits fail.splits)

lemma AddBlock_succeeds:
  assumes "\<forall>k v d. snd (db_put (ce_ldb env) k v d) = None" "ce_enc env b = Inr bs"
  shows "\<exists>bc'. AddBlock env b bc = (bc', None)"
proof -
  obtain d1 where "db_put (ce_ldb env) (block_key (height_of b)) bs (bc_db bc) = (d1, None)"
    using assms(1) by (metis prod.collapse)
  moreover obtain d2 where "db_put (ce_ldb env) current_key bs d1 = (d2, None)"
    using assms(1) by (metis prod.collapse)
  ultimately show ?thesis using assms(2) by (simp add: AddBlock_def)
qed

lemma process_loop_catch_up:
  assumes "fresh_start env bcA0" "built env bcA0 n bcA" "n < 2 ^ 64"
    "\<forall>k v d. snd (db_put (ce_ldb env) k v d) = None"
  shows "m \<le> j \<Longrightarrow> j \<le> n \<Longrightarrow> GetLatestBlock (sy_blockchain sm) = block_at env bcA m \<Longrightarrow>
    process_loop env (map (block_at env bcA) [Suc m..<Suc j]) sm = (sm', r) \<Longrightarrow>
    sy_currentHeight sm = height_of (block_at env bcA m) \<Longrightarrow>
    r = Inr () \<and> GetLatestBlock (sy_blockchain sm') = block_at env bcA j \<and>
    sy_currentHeight sm' = height_of (block_at env bcA j) \<and> sy_targetHeight sm' = sy_targetHeight sm"
proof (induction "j - m" arbitrary: m sm)
  case 0
  then show ?case by simp
next
  case (Suc k)
  let ?b = "block_at env bcA (Suc m)"
  have mj: "m < j" "m < n" using Suc by simp_all
  have list: "map (block_at env bcA) [Suc m..<Suc j] = ?b # map (block_at env bcA) [Suc (Suc m)..<Suc j]"
    using mj by (subst upt_conv_Cons) auto
  have hb: "unat (height_of ?b) = Suc m" and ht: "unat (height_of (block_at env bcA m)) = m"
    using built_block_at(1) [OF assms(1-3)] mj by simp_all
  have "height_of ?b = height_of (block_at env bcA m) + 1"
    using of_nat_u64_eq [of "Suc m" "height_of ?b"] of_nat_u64_eq [of m "height_of (block_at env bcA m)"]
      hb ht mj assms(3) by (simp add: add.commute)
  then have ver: "VerifyBlock env (sy_blockchain sm) ?b = None"
    using built_block_at_link [OF assms(1-3) mj(2)] Suc.prems(3) by (simp add: bc.verify_ok)
  obtain bs where "ce_enc env ?b = Inr bs"
    using built_codec [OF assms(1-3), of "Suc m"] mj by (auto simp: block_at_def)
  then obtain bc1 where add: "AddBlock env ?b (sy_blockchain sm) = (bc1, None)"
    using AddBlock_succeeds [OF assms(4)] by blast
  show ?case
    using Suc.hyps(1) [of "Suc m" "sm\<lparr>sy_blockchain := bc1, sy_currentHeight := height_of ?b\<rparr>"]
      Suc.hyps(2) Suc.prems mj ver add bc.add_tip [OF add] by (simp add: list del: upt_Suc)
qed

section \<open>Properties\<close>

text \<open>
  C15: A peer cannot break the chain through a block response. Whatever blocks it sends and however the call ends, a failed
  write included, a chain that is stored soundly up to its tip (each block at its height, linked to the one before it, down to
  the genesis block) is so afterwards; it is the old chain, block by block, and on top of it a prefix of the
  answer; and the call reports success exactly if the answer is not empty and all of it was added. Every chain that is
  built from verified blocks is stored soundly.
\<close>

theorem response_keeps_chain:
  assumes "kv_laws (ce_ldb env)" "put_local (ce_ldb env)" "sound_chain env (sy_blockchain sm)"
    and "n = unat (height_of (GetLatestBlock (sy_blockchain sm)))" "n + length blocks < 2 ^ 64"
    and "\<forall>b \<in> set blocks. json_ok (ce_enc env) (ce_dec env) b" "ProcessBlockResponse env blocks sm = (sm', r)"
  shows "sound_chain env (sy_blockchain sm') \<and>
    (\<exists>k \<le> length blocks. unat (height_of (GetLatestBlock (sy_blockchain sm'))) = n + k \<and>
      (\<forall>h \<le> n. block_at env (sy_blockchain sm') h = block_at env (sy_blockchain sm) h) \<and>
      (\<forall>i < k. block_at env (sy_blockchain sm') (n + 1 + i) = blocks ! i) \<and>
      (r = Inr () \<longleftrightarrow> blocks \<noteq> [] \<and> k = length blocks)) \<and>
    (\<forall>bc0 m bc. fresh_start env bc0 \<longrightarrow> built env bc0 m bc \<longrightarrow> m < 2 ^ 64 \<longrightarrow> sound_chain env bc)"
proof (cases "blocks = []")
  case True
  then have "sm' = sm" "r \<noteq> Inr ()" using assms(7) by (auto simp: ProcessBlockResponse_def)
  with True assms(3,4) built_sound show ?thesis by auto
next
  case False
  obtain sm1 r1 where p: "process_loop env blocks sm = (sm1, r1)" by (cases "process_loop env blocks sm")
  then have eq: "sy_blockchain sm' = sy_blockchain sm1" "r = Inr () \<longleftrightarrow> r1 = Inr ()"
    using assms(7) False by (auto simp: ProcessBlockResponse_def split: sum.splits if_splits)
  show ?thesis using process_loop_sound [OF assms(1,2,3,4,5,6) p] built_sound False unfolding eq by blast
qed

definition demo_sm :: "memdb SyncManager" where
  "demo_sm = NewSyncManager demo_bc0"

theorem response_keeps_chain_witness:
  "sound_chain demo_env (sy_blockchain (fst (ProcessBlockResponse demo_env [demo_block 1, demo_block 1] demo_sm))) \<and>
   block_at demo_env (sy_blockchain (fst (ProcessBlockResponse demo_env [demo_block 1, demo_block 1] demo_sm))) 0 = createGenesisBlock"
proof -
  have "put_local (ce_ldb demo_env)" by (simp add: put_local_def memdb_ops_def mget_mput)
  moreover have "\<forall>b \<in> set [demo_block 1, demo_block 1]. json_ok (ce_enc demo_env) (ce_dec demo_env) b"
    by (simp add: json_ok_def)
  moreover have "sound_chain demo_env (sy_blockchain demo_sm)"
    using built_sound [OF demo_fresh built_start] by (simp add: demo_sm_def NewSyncManager_def)
  moreover have "unat (height_of (GetLatestBlock (sy_blockchain demo_sm))) = 0"
    by (simp add: demo_sm_def NewSyncManager_def demo_latest demo_block_def)
  ultimately show ?thesis
    using response_keeps_chain [OF fresh_laws [OF demo_fresh] _ _ refl _ _ prod.collapse [symmetric]] by (simp add: block_at_def)
qed

text \<open>
  A request for heights \<open>s\<close> to \<open>e\<close> with \<open>0 < s \<le> e\<close> is answered by exactly the blocks of
  that range that the chain has, in order, and the loop ends even at the largest heights.
\<close>

theorem request_answer:
  assumes "fresh_start env bc0" "built env bc0 n (sy_blockchain sm)" "n + 1 < 2 ^ 64" "0 < s" "s \<le> e"
  shows "HandleBlockRequest env \<lparr>br_StartHeight = s, br_EndHeight = e\<rparr> sm =
    Some (Inr (map (block_at env (sy_blockchain sm)) [unat s..<Suc (min n (unat e))]))"
  by (rule request_answer_built [OF assms])

theorem request_answer_witness:
  "HandleBlockRequest demo_env \<lparr>br_StartHeight = 2, br_EndHeight = 5\<rparr> (NewSyncManager demo_bc2) =
   Some (Inr [block_at demo_env demo_bc2 2])"
  using request_answer [OF demo_fresh, of 2 "NewSyncManager demo_bc2" 2 5]
  by (simp add: NewSyncManager_def demo_built)

text \<open>
  C7: One round of synchronisation brings a node forward: a node whose latest block is the
  peer's block at height \<open>m\<close> and which starts a sync to the peer's height \<open>n\<close> asks for the next
  \<open>batch\<close> blocks, is answered, accepts all of them, ends with the peer's block at height
  \<open>min n (m + batch)\<close> and reports itself as synced exactly if that is the peer's tip. The node's
  own database must not fail, its peer must hold a chain of verified blocks, and the peer's ID must have twelve characters:
  the start of the sync panics on a shorter one, and only on such.
\<close>

theorem sync_round:
  assumes "fresh_start env bcA0" "built env bcA0 n (sy_blockchain smA)" "n + 1 < 2 ^ 64"
    "\<forall>k v d. snd (db_put (ce_ldb env) k v d) = None"
    "GetLatestBlock (sy_blockchain sm) = block_at env (sy_blockchain smA) m" "m < n"
    "0 < batch" "m + unat batch < 2 ^ 64" "StartSync (of_nat n) peer sm = (sm1, started)"
  shows "(started = Inr () \<longleftrightarrow> 12 \<le> length peer) \<and> (length peer < 12 \<longrightarrow> (\<exists>msg. started = Inl (Panic msg))) \<and>
    (started = Inr () \<longrightarrow> (\<exists>blocks sm2. HandleBlockRequest env (CreateBlockRequest batch sm1) smA = Some (Inr blocks) \<and>
    ProcessBlockResponse env blocks sm1 = (sm2, Inr ()) \<and>
    GetLatestBlock (sy_blockchain sm2) = block_at env (sy_blockchain smA) (min n (m + unat batch)) \<and>
    (IsSynced sm2 \<longleftrightarrow> n \<le> m + unat batch)))"
proof -
  let ?j = "min n (m + unat batch)"
  let ?bk = "block_at env (sy_blockchain smA)"
  have n: "n < 2 ^ 64" using assms(3) by simp
  have hm: "height_of (?bk k) = of_nat k" if "k \<le> n" for k
    using of_nat_u64_eq [of k "height_of (?bk k)"] built_block_at(1) [OF assms(1,2) n that] that n by simp
  have lt: "(of_nat m :: u64) < of_nat n" using assms(6) n by (simp add: word_less_nat_alt)
  then have sm1: "sm1 = sm\<lparr>sy_currentHeight := of_nat m, sy_status := StatusSyncing,
      sy_targetHeight := of_nat n, sy_syncPeer := peer\<rparr>"
    using assms(5,6,9) hm [of m] by (auto simp: StartSync_def Let_def not_le [symmetric])
  have started: "started = (case slice_to 12 peer of Inl e \<Rightarrow> Inl e | Inr _ \<Rightarrow> Inr ())"
    using assms(5,6,9) hm [of m] lt by (auto simp: StartSync_def Let_def not_le [symmetric])
  have um: "unat (of_nat m + batch :: u64) = m + unat batch"
    using assms(6,8) n by (simp add: unat_word_ariths)
  have req: "CreateBlockRequest batch sm1 = \<lparr>br_StartHeight = of_nat (Suc m), br_EndHeight = of_nat ?j\<rparr>"
  proof -
    have "(of_nat m + batch > (of_nat n :: u64)) \<longleftrightarrow> n < m + unat batch"
      using um n by (simp add: word_less_nat_alt)
    moreover have "of_nat m + batch = (of_nat (m + unat batch) :: u64)" by simp
    ultimately show ?thesis by (simp add: sm1 CreateBlockRequest_def Let_def min_def add.commute)
  qed
  have mj: "m < ?j" "?j \<le> n" using assms(6,7) by (auto simp: unat_gt_0 min_def)
  have uS: "unat (of_nat (Suc m) :: u64) = Suc m" and uj: "unat (of_nat ?j :: u64) = ?j"
    using assms(6) n mj by (simp_all del: of_nat_Suc)
  have pos: "(0 :: u64) < of_nat (Suc m)" using uS by (simp add: word_less_nat_alt del: of_nat_Suc)
  have le: "(of_nat (Suc m) :: u64) \<le> of_nat ?j" using uS uj mj by (simp add: word_le_nat_alt del: of_nat_Suc)
  have "HandleBlockRequest env (CreateBlockRequest batch sm1) smA = Some (Inr (map ?bk [Suc m..<Suc ?j]))"
    unfolding req using request_answer_built [OF assms(1-3) pos le] uS uj by (simp del: upt_Suc of_nat_Suc)
  moreover obtain sm2 r where p: "process_loop env (map ?bk [Suc m..<Suc ?j]) sm1 = (sm2, r)"
    by (cases "process_loop env (map ?bk [Suc m..<Suc ?j]) sm1")
  have "r = Inr () \<and> GetLatestBlock (sy_blockchain sm2) = ?bk ?j \<and>
      sy_currentHeight sm2 = height_of (?bk ?j) \<and> sy_targetHeight sm2 = of_nat n"
    using process_loop_catch_up [OF assms(1,2) n assms(4) _ mj(2) _ p] mj(1) assms(5,6) hm [of m]
    by (simp add: sm1)
  moreover have "of_nat n \<le> height_of (?bk ?j) \<longleftrightarrow> n \<le> m + unat batch"
    using hm [OF mj(2)] uj n by (simp add: word_le_nat_alt)
  moreover have "map ?bk [Suc m..<Suc ?j] \<noteq> []" using mj(1) by (simp del: upt_Suc min_less_iff_conj)
  moreover have "sy_status sm2 = StatusSyncing" using process_loop_status [OF p] by (simp add: sm1)
  ultimately have "\<exists>blocks sm2. HandleBlockRequest env (CreateBlockRequest batch sm1) smA = Some (Inr blocks) \<and>
    ProcessBlockResponse env blocks sm1 = (sm2, Inr ()) \<and>
    GetLatestBlock (sy_blockchain sm2) = ?bk ?j \<and> (IsSynced sm2 \<longleftrightarrow> n \<le> m + unat batch)"
    using p by (simp add: ProcessBlockResponse_def IsSynced_def del: upt_Suc)
  then show ?thesis by (auto simp: started slice_to_def)
qed

theorem sync_round_witness:
  "\<exists>sm1 blocks sm2. StartSync 2 ''QmPeerTwelve'' demo_sm = (sm1, Inr ()) \<and>
     HandleBlockRequest demo_env (CreateBlockRequest 1 sm1) (NewSyncManager demo_bc2) = Some (Inr blocks) \<and>
     ProcessBlockResponse demo_env blocks sm1 = (sm2, Inr ()) \<and>
     GetLatestBlock (sy_blockchain sm2) = block_at demo_env demo_bc2 1 \<and> \<not> IsSynced sm2"
proof -
  have "\<forall>k v d. snd (db_put (ce_ldb demo_env) k v d) = None" by (simp add: memdb_ops_def)
  moreover have "GetLatestBlock (sy_blockchain demo_sm) = block_at demo_env demo_bc2 0"
    by (simp add: demo_sm_def NewSyncManager_def demo_latest block_at_def demo_block_def)
  moreover obtain sm1 r where s: "StartSync 2 ''QmPeerTwelve'' demo_sm = (sm1, r)" by (cases "StartSync 2 ''QmPeerTwelve'' demo_sm")
  ultimately show ?thesis
    using sync_round [OF demo_fresh, of 2 "NewSyncManager demo_bc2" demo_sm 0 1 "''QmPeerTwelve''" sm1 r] demo_built
    by (auto simp: NewSyncManager_def)
qed

end
