(* ===== verification/Fork_Resolver.thy ===== *)
theory Fork_Resolver
  imports Chain
begin

text \<open>
  Fork resolution (\<open>pkg/blockchain/fork_resolver.go\<close>): candidate chains beside the main chain,
  the rule that prefers one over the other, and the reorganisation. The resolver and its main
  chain share one database, the field \<open>bc_db\<close> of the main chain. Loops that follow parent
  hashes may not end, so their results are options (\<open>None\<close>: the call does not return).
\<close>

section \<open>State and operations\<close>

record ChainInfo =
  ci_TipBlock :: Block
  ci_TotalWork :: u64
  ci_Height :: u64
  ci_ChainID :: string

record 'db ForkResolver =
  fr_mainChain :: "'db Blockchain"
  fr_candidateChains :: "(string, ChainInfo) gomap"

definition NewForkResolver :: "'db Blockchain \<Rightarrow> 'db ForkResolver" where
  "NewForkResolver bc = \<lparr>fr_mainChain = bc, fr_candidateChains = []\<rparr>"

definition hashBlock :: "'db chain_env \<Rightarrow> Block \<Rightarrow> bytes" where
  "hashBlock env b = (case Block_Hash (ce_enc env) b of Inl _ \<Rightarrow> [] | Inr h \<Rightarrow> h)"

definition calculateBlockWork :: "Block \<Rightarrow> u64" where
  "calculateBlockWork b =
     (if h_PoBWeight (b_Header b) > 0 then h_PoBWeight (b_Header b) else 1)"

definition shouldReorg :: "'db chain_env \<Rightarrow> ChainInfo \<Rightarrow> ChainInfo \<Rightarrow> bool" where
  "shouldReorg env candidate main =
     (if ci_Height candidate > ci_Height main + 6 then True
      else if ci_TotalWork candidate > ci_TotalWork main then True
      else if ci_TotalWork candidate = ci_TotalWork main then
        (if bytes_less (b_PoHSequence (ci_TipBlock candidate)) (b_PoHSequence (ci_TipBlock main)) then True
         else if b_PoHSequence (ci_TipBlock candidate) = b_PoHSequence (ci_TipBlock main)
                 \<and> bytes_less (hashBlock env (ci_TipBlock candidate)) (hashBlock env (ci_TipBlock main))
           then True
         else False)
      else False)"

text \<open>\<open>findBlock\<close>: down the main chain from its tip, then over the tips of the candidates.\<close>

partial_function (option) find_main ::
  "'db chain_env \<Rightarrow> 'db Blockchain \<Rightarrow> bytes \<Rightarrow> Block \<Rightarrow> Block option option" where
  "find_main env bc h current =
     (if hashBlock env current = h then Some (Some current)
      else if height_of current = 0 then Some None
      else case GetBlockByHeight env bc (height_of current - 1) of
             Inl _ \<Rightarrow> Some None
           | Inr parent \<Rightarrow> find_main env bc h parent)"

definition findBlock :: "'db chain_env \<Rightarrow> 'db ForkResolver \<Rightarrow> bytes \<Rightarrow> Block res option" where
  "findBlock env fr h =
     (case find_main env (fr_mainChain fr) h (GetLatestBlock (fr_mainChain fr)) of
        None \<Rightarrow> None
      | Some (Some b) \<Rightarrow> Some (Inr b)
      | Some None \<Rightarrow>
          (case List.find (\<lambda>(i, chain). hashBlock env (ci_TipBlock chain) = h) (fr_candidateChains fr) of
             Some (i, chain) \<Rightarrow> Some (Inr (ci_TipBlock chain))
           | None \<Rightarrow> Some (Inl (Error ''block not found''))))"

text \<open>\<open>calculateChainWork\<close>; a nil \<open>from\<close> is \<open>None\<close>, and reading its header panics.\<close>

partial_function (option) work_loop ::
  "'db chain_env \<Rightarrow> 'db ForkResolver \<Rightarrow> Block \<Rightarrow> Block \<Rightarrow> u64 \<Rightarrow> u64 option" where
  "work_loop env fr start current totalWork =
     (if height_of current \<ge> height_of start then
        (let totalWork' = totalWork + calculateBlockWork current in
         if height_of current = height_of start then Some totalWork'
         else case findBlock env fr (prev_of current) of
                None \<Rightarrow> None
              | Some r \<Rightarrow> (case r of
                    Inl _ \<Rightarrow> Some totalWork'
                  | Inr parent \<Rightarrow> work_loop env fr start parent totalWork'))
      else Some totalWork)"

definition calculateChainWork ::
  "'db chain_env \<Rightarrow> 'db ForkResolver \<Rightarrow> Block option \<Rightarrow> Block \<Rightarrow> u64 res option" where
  "calculateChainWork env fr start tip =
     (case start of
        None \<Rightarrow> Some (Inl (Panic ''nil pointer dereference''))
      | Some b \<Rightarrow> map_option Inr (work_loop env fr b tip 0))"

definition getMainChainInfo :: "'db chain_env \<Rightarrow> 'db ForkResolver \<Rightarrow> ChainInfo res option" where
  "getMainChainInfo env fr =
     (let tip = GetLatestBlock (fr_mainChain fr) in
      case calculateChainWork env fr None tip of
        None \<Rightarrow> None
      | Some (Inl e) \<Rightarrow> Some (Inl e)
      | Some (Inr w) \<Rightarrow> Some (Inr \<lparr>ci_TipBlock = tip, ci_TotalWork = w, ci_Height = height_of tip,
                                  ci_ChainID = ''main''\<rparr>))"

subsection \<open>Reorganisation\<close>

text \<open>The first two loops of \<open>findCommonAncestor\<close>: up to a block of at most a given height.\<close>

partial_function (option) descend ::
  "'db chain_env \<Rightarrow> 'db ForkResolver \<Rightarrow> u64 \<Rightarrow> Block \<Rightarrow> Block res option" where
  "descend env fr target current =
     (if height_of current > target then
        (case findBlock env fr (prev_of current) of
           None \<Rightarrow> None
         | Some r \<Rightarrow> (case r of Inl e \<Rightarrow> Some (Inl e) | Inr parent \<Rightarrow> descend env fr target parent))
      else Some (Inr current))"

partial_function (option) meet ::
  "'db chain_env \<Rightarrow> 'db ForkResolver \<Rightarrow> Block \<Rightarrow> Block \<Rightarrow> Block res option" where
  "meet env fr mainBlock forkBlock =
     (if hashBlock env mainBlock = hashBlock env forkBlock then Some (Inr mainBlock)
      else case findBlock env fr (prev_of mainBlock) of
             None \<Rightarrow> None
           | Some r \<Rightarrow> (case r of
                 Inl e \<Rightarrow> Some (Inl e)
               | Inr mainParent \<Rightarrow> (case findBlock env fr (prev_of forkBlock) of
                     None \<Rightarrow> None
                   | Some q \<Rightarrow> (case q of
                         Inl e \<Rightarrow> Some (Inl e)
                       | Inr forkParent \<Rightarrow> meet env fr mainParent forkParent))))"

definition findCommonAncestor :: "'db chain_env \<Rightarrow> 'db ForkResolver \<Rightarrow> Block \<Rightarrow> Block res option" where
  "findCommonAncestor env fr forkTip =
     (let mainTip = GetLatestBlock (fr_mainChain fr) in
      case descend env fr (height_of mainTip) forkTip of
        None \<Rightarrow> None
      | Some (Inl e) \<Rightarrow> Some (Inl e)
      | Some (Inr currentFork) \<Rightarrow>
          (case descend env fr (height_of currentFork) mainTip of
             None \<Rightarrow> None
           | Some (Inl e) \<Rightarrow> Some (Inl e)
           | Some (Inr currentMain) \<Rightarrow> meet env fr currentMain currentFork))"

partial_function (option) chain_blocks_loop ::
  "'db chain_env \<Rightarrow> 'db ForkResolver \<Rightarrow> Block \<Rightarrow> Block list \<Rightarrow> Block list res option" where
  "chain_blocks_loop env fr current blocks =
     (if height_of current > height_of (GetLatestBlock (fr_mainChain fr)) then
        (case findBlock env fr (prev_of current) of
           None \<Rightarrow> None
         | Some r \<Rightarrow> (case r of
               Inl e \<Rightarrow> Some (Inl e)
             | Inr parent \<Rightarrow> chain_blocks_loop env fr parent (current # blocks)))
      else Some (Inr blocks))"

definition getChainBlocks :: "'db chain_env \<Rightarrow> 'db ForkResolver \<Rightarrow> ChainInfo \<Rightarrow> Block list res option" where
  "getChainBlocks env fr chain = chain_blocks_loop env fr (ci_TipBlock chain) []"

partial_function (option) blocks_from_loop ::
  "'db chain_env \<Rightarrow> 'db Blockchain \<Rightarrow> u64 \<Rightarrow> u64 \<Rightarrow> Block list \<Rightarrow> Block list res option" where
  "blocks_from_loop env bc endHeight height blocks =
     (if height \<le> endHeight then
        (case GetBlockByHeight env bc height of
           Inl e \<Rightarrow> Some (Inl e)
         | Inr block \<Rightarrow> blocks_from_loop env bc endHeight (height + 1) (blocks @ [block]))
      else Some (Inr blocks))"

definition getBlocksFrom :: "'db chain_env \<Rightarrow> 'db ForkResolver \<Rightarrow> u64 \<Rightarrow> u64 \<Rightarrow> Block list res option" where
  "getBlocksFrom env fr startHeight endHeight =
     blocks_from_loop env (fr_mainChain fr) endHeight startHeight []"

definition rollbackBlock :: "'db chain_env \<Rightarrow> Block \<Rightarrow> 'db ForkResolver \<Rightarrow> 'db ForkResolver \<times> fail option" where
  "rollbackBlock env b fr =
     (case db_del (ce_ldb env) (block_key (height_of b)) (bc_db (fr_mainChain fr)) of
        (d, e) \<Rightarrow> (fr\<lparr>fr_mainChain := (fr_mainChain fr)\<lparr>bc_db := d\<rparr>\<rparr>, e))"

fun rollback_all :: "'db chain_env \<Rightarrow> Block list \<Rightarrow> 'db ForkResolver \<Rightarrow> 'db ForkResolver \<times> fail option" where
  "rollback_all env [] fr = (fr, None)"
| "rollback_all env (b # bs) fr =
     (case rollbackBlock env b fr of
        (fr', Some e) \<Rightarrow> (fr', Some (Error ''rollback failed''))
      | (fr', None) \<Rightarrow> rollback_all env bs fr')"

fun add_all :: "'db chain_env \<Rightarrow> Block list \<Rightarrow> 'db ForkResolver \<Rightarrow> 'db ForkResolver \<times> fail option" where
  "add_all env [] fr = (fr, None)"
| "add_all env (b # bs) fr =
     (case AddBlock env b (fr_mainChain fr) of
        (bc', Some e) \<Rightarrow> (fr\<lparr>fr_mainChain := bc'\<rparr>, Some (Error ''failed to add block during reorg''))
      | (bc', None) \<Rightarrow> add_all env bs (fr\<lparr>fr_mainChain := bc'\<rparr>))"

definition reorganize ::
  "'db chain_env \<Rightarrow> ChainInfo \<Rightarrow> 'db ForkResolver \<Rightarrow> ('db ForkResolver \<times> unit res) option" where
  "reorganize env newChain fr =
     (case findCommonAncestor env fr (ci_TipBlock newChain) of
        None \<Rightarrow> None
      | Some (Inl e) \<Rightarrow> Some (fr, Inl (Error ''failed to find common ancestor''))
      | Some (Inr commonAncestor) \<Rightarrow>
          (case getBlocksFrom env fr (height_of commonAncestor + 1)
                  (height_of (GetLatestBlock (fr_mainChain fr))) of
             None \<Rightarrow> None
           | Some (Inl e) \<Rightarrow> Some (fr, Inl e)
           | Some (Inr blocksToRemove) \<Rightarrow>
               (case getChainBlocks env fr newChain of
                  None \<Rightarrow> None
                | Some (Inl e) \<Rightarrow> Some (fr, Inl e)
                | Some (Inr blocksToAdd) \<Rightarrow>
                    (case rollback_all env (rev blocksToRemove) fr of
                       (fr1, Some e) \<Rightarrow> Some (fr1, Inl e)
                     | (fr1, None) \<Rightarrow>
                         (case add_all env blocksToAdd fr1 of
                            (fr2, Some e) \<Rightarrow> Some (fr2, Inl e)
                          | (fr2, None) \<Rightarrow>
                              Some (fr2\<lparr>fr_candidateChains :=
                                      mdel (ci_ChainID newChain) (fr_candidateChains fr2)\<rparr>, Inr ()))))))"

definition saveOrphanBlock ::
  "'db chain_env \<Rightarrow> Block \<Rightarrow> 'db ForkResolver \<Rightarrow> 'db ForkResolver \<times> unit res" where
  "saveOrphanBlock env b fr =
     (case slice_to 8 (hashBlock env b) of
        Inl e \<Rightarrow> (fr, Inl e)
      | Inr h8 \<Rightarrow> (case ce_enc env b of
            Inl e \<Rightarrow> (fr, Inl e)
          | Inr blockBytes \<Rightarrow>
              (case db_put (ce_ldb env) (''orphan_'' @ hex h8) blockBytes (bc_db (fr_mainChain fr)) of
                 (d, e) \<Rightarrow> (fr\<lparr>fr_mainChain := (fr_mainChain fr)\<lparr>bc_db := d\<rparr>\<rparr>,
                            (case e of None \<Rightarrow> Inr () | Some x \<Rightarrow> Inl x)))))"

text \<open>The decision at the end of both fork branches of \<open>HandleCompetingBlock\<close>.\<close>

definition decide ::
  "'db chain_env \<Rightarrow> ChainInfo \<Rightarrow> 'db ForkResolver \<Rightarrow> ('db ForkResolver \<times> unit res) option" where
  "decide env chain fr =
     (case getMainChainInfo env fr of
        None \<Rightarrow> None
      | Some (Inl e) \<Rightarrow> Some (fr, Inl e)
      | Some (Inr mainInfo) \<Rightarrow>
          if shouldReorg env chain mainInfo then reorganize env chain fr else Some (fr, Inr ()))"

definition HandleCompetingBlock ::
  "'db chain_env \<Rightarrow> Block \<Rightarrow> 'db ForkResolver \<Rightarrow> ('db ForkResolver \<times> unit res) option" where
  "HandleCompetingBlock env block fr =
     (let mainTip = GetLatestBlock (fr_mainChain fr) in
      if prev_of block = hashBlock env mainTip then
        (case AddBlock env block (fr_mainChain fr) of
           (bc', e) \<Rightarrow> Some (fr\<lparr>fr_mainChain := bc'\<rparr>, (case e of None \<Rightarrow> Inr () | Some x \<Rightarrow> Inl x)))
      else case slice_to 8 (prev_of block) of
        Inl e \<Rightarrow> Some (fr, Inl e)
      | Inr p8 \<Rightarrow>
          (let chainID = ''fork_'' @ hex p8 in
           case mget (fr_candidateChains fr) chainID of
             Some chain \<Rightarrow>
               (let chain' = chain\<lparr>ci_TipBlock := block, ci_Height := height_of block,
                               ci_TotalWork := ci_TotalWork chain + calculateBlockWork block\<rparr>
                in decide env chain' (fr\<lparr>fr_candidateChains := mput chainID chain' (fr_candidateChains fr)\<rparr>))
           | None \<Rightarrow>
               (case findBlock env fr (prev_of block) of
                  None \<Rightarrow> None
                | Some (Inl e) \<Rightarrow> Some (saveOrphanBlock env block fr)
                | Some (Inr parentBlock) \<Rightarrow>
                    (case calculateChainWork env fr (Some parentBlock) block of
                       None \<Rightarrow> None
                     | Some (Inl e) \<Rightarrow> Some (fr, Inl e)
                     | Some (Inr w) \<Rightarrow>
                         (let newChain = \<lparr>ci_TipBlock = block, ci_TotalWork = w,
                                ci_Height = height_of block, ci_ChainID = chainID\<rparr>
                          in decide env newChain
                               (fr\<lparr>fr_candidateChains := mput chainID newChain (fr_candidateChains fr)\<rparr>))))))"

text \<open>\<open>mainHeight-chain.Height\<close> is unsigned; the log line slices the ID, which is long enough.\<close>

definition CleanupOldForks :: "u64 \<Rightarrow> 'db ForkResolver \<Rightarrow> 'db ForkResolver" where
  "CleanupOldForks maxAge fr =
     (let mainHeight = height_of (GetLatestBlock (fr_mainChain fr)) in
      fr\<lparr>fr_candidateChains :=
           mkeep (\<lambda>_ chain. \<not> (mainHeight - ci_Height chain > maxAge)) (fr_candidateChains fr)\<rparr>)"

section \<open>Lemmas\<close>

lemma getMainChainInfo_panics: "getMainChainInfo env fr = Some (Inl (Panic ''nil pointer dereference''))"
  by (simp add: getMainChainInfo_def calculateChainWork_def Let_def)

lemma decide_panics: "decide env chain fr = Some (fr, Inl (Panic ''nil pointer dereference''))"
  by (simp add: decide_def getMainChainInfo_panics)

lemma find_main_found: "hashBlock env b = h \<Longrightarrow> find_main env bc h b = Some (Some b)"
  by (subst find_main.simps) simp

lemma find_main_step:
  "hashBlock env b \<noteq> h \<Longrightarrow> height_of b \<noteq> 0 \<Longrightarrow> GetBlockByHeight env bc (height_of b - 1) = Inr p \<Longrightarrow>
   find_main env bc h b = find_main env bc h p"
  by (subst find_main.simps) simp

lemma find_main_stop:
  "hashBlock env b \<noteq> h \<Longrightarrow> height_of b = 0 \<or> GetBlockByHeight env bc (height_of b - 1) = Inl e \<Longrightarrow>
   find_main env bc h b = Some None"
  by (subst find_main.simps) auto

text \<open>
  On a built chain the search down the main chain ends and finds the highest block with the
  hash; it does not reach the genesis block, which is not stored, except from the tip.
\<close>

lemma find_main_built:
  assumes "fresh_start env bc0" "built env bc0 n bc" "n < 2 ^ 64" "0 < k"
  shows "k \<le> n \<Longrightarrow> find_main env bc h (block_at env bc k) =
    Some (List.find (\<lambda>b. hashBlock env b = h) (map (block_at env bc) (rev [1..<Suc k])))"
  using assms(4)
proof (induction k)
  case (Suc k)
  have hk: "unat (height_of (block_at env bc (Suc k))) = Suc k"
    by (rule built_block_at(1) [OF assms(1-3) Suc.prems(1)])
  then have "height_of (block_at env bc (Suc k)) \<noteq> 0" by auto
  moreover have pred: "height_of (block_at env bc (Suc k)) - 1 = of_nat k"
    using of_nat_u64_eq [of "Suc k" "height_of (block_at env bc (Suc k))"] hk Suc.prems(1) assms(3)
    by (simp add: algebra_simps)
  ultimately show ?case
  proof (cases "hashBlock env (block_at env bc (Suc k)) = h")
    case True
    then show ?thesis by (simp add: find_main_found)
  next
    case False
    show ?thesis
    proof (cases "k = 0")
      case True
      then show ?thesis
        using False pred built_no_zero [OF assms(1-3)] by (simp add: find_main_stop)
    next
      case k: False
      then have "GetBlockByHeight env bc (height_of (block_at env bc (Suc k)) - 1) = Inr (block_at env bc k)"
        using pred built_block_at(2) [OF assms(1-3), of k] Suc.prems(1) by simp
      with k False Suc \<open>height_of (block_at env bc (Suc k)) \<noteq> 0\<close> show ?thesis
        by (simp add: find_main_step)
    qed
  qed
qed simp

lemma blocks_from_built:
  assumes "fresh_start env bc0" "built env bc0 n bc" "n + 1 < 2 ^ 64" "0 < h" "h \<le> n + 1"
  shows "blocks_from_loop env bc (of_nat n) (of_nat h) bs =
    Some (Inr (bs @ map (block_at env bc) [h..<Suc n]))"
  using assms(4,5)
proof (induction "n + 1 - h" arbitrary: h bs)
  case 0
  then have "h = n + 1" by simp
  then have "\<not> (of_nat h :: u64) \<le> of_nat n"
    using assms(3) by (simp add: word_le_nat_alt del: of_nat_Suc of_nat_add)
  then show ?case using \<open>h = n + 1\<close> by (subst blocks_from_loop.simps) simp
next
  case (Suc k)
  then have hn: "h \<le> n" by simp
  then have "(of_nat h :: u64) \<le> of_nat n"
    using assms(3) by (simp add: word_le_nat_alt)
  then have "blocks_from_loop env bc (of_nat n) (of_nat h) bs =
      blocks_from_loop env bc (of_nat n) (of_nat (Suc h)) (bs @ [block_at env bc h])"
    using built_block_at(2) [OF assms(1,2) _ hn] Suc.prems(1) assms(3)
    by (subst blocks_from_loop.simps) (simp add: add.commute)
  also have "\<dots> = Some (Inr (bs @ [block_at env bc h] @ map (block_at env bc) [Suc h..<Suc n]))"
    using Suc.hyps(1) [of "Suc h"] Suc.hyps(2) hn by (simp del: upt_Suc of_nat_Suc)
  also have "[block_at env bc h] @ map (block_at env bc) [Suc h..<Suc n] = map (block_at env bc) [h..<Suc n]"
    using hn by (subst (2) upt_conv_Cons) auto
  finally show ?case .
qed

lemma rollback_all_keeps:
  "rollback_all env bs fr = (fr', e) \<Longrightarrow>
   GetLatestBlock (fr_mainChain fr') = GetLatestBlock (fr_mainChain fr) \<and>
   fr_candidateChains fr' = fr_candidateChains fr"
  by (induction env bs fr arbitrary: fr' rule: rollback_all.induct)
    (fastforce simp: rollbackBlock_def GetLatestBlock_def split: prod.splits option.splits)+

section \<open>Properties\<close>

definition demo_fr :: "memdb ForkResolver" where
  "demo_fr = NewForkResolver demo_bc2"

lemma demo_hash: "hashBlock demo_env b = sha256 [ucast (height_of b)]"
  by (simp add: hashBlock_def Block_Hash_def)

text \<open>
  C26: Fork choice never completes: for a block that does not extend the main tip,
  \<open>HandleCompetingBlock\<close> never returns success through the fork rule. On a known fork it
  records the block and then panics; on a new one it can only panic, not return, or, when the
  parent is unknown, store the block as an orphan. The cause is that \<open>getMainChainInfo\<close> passes
  a nil block to \<open>calculateChainWork\<close>, which reads its header.
\<close>

theorem fork_choice_panics:
  assumes "prev_of block \<noteq> hashBlock env (GetLatestBlock (fr_mainChain fr))" "8 \<le> length (prev_of block)"
  shows "case mget (fr_candidateChains fr) (''fork_'' @ hex (take 8 (prev_of block))) of
      Some chain \<Rightarrow> \<exists>fr'. HandleCompetingBlock env block fr = Some (fr', Inl (Panic ''nil pointer dereference'')) \<and>
        (\<exists>c. mget (fr_candidateChains fr') (''fork_'' @ hex (take 8 (prev_of block))) = Some c \<and> ci_TipBlock c = block)
    | None \<Rightarrow> HandleCompetingBlock env block fr = None \<or>
        (\<exists>fr'. HandleCompetingBlock env block fr = Some (fr', Inl (Panic ''nil pointer dereference''))) \<or>
        (HandleCompetingBlock env block fr = Some (saveOrphanBlock env block fr) \<and>
         findBlock env fr (prev_of block) = Some (Inl (Error ''block not found'')))"
proof (cases "mget (fr_candidateChains fr) (''fork_'' @ hex (take 8 (prev_of block)))")
  case (Some chain)
  then show ?thesis using assms
    by (simp add: HandleCompetingBlock_def slice_to_def Let_def decide_panics mget_mput)
next
  case None
  have nf: "findBlock env fr h = Some (Inl e) \<Longrightarrow> e = Error ''block not found''" for h e
    by (auto simp: findBlock_def split: option.splits)
  show ?thesis using None assms
    by (auto simp: HandleCompetingBlock_def slice_to_def Let_def decide_panics calculateChainWork_def
        dest: nf split: option.splits sum.splits)
qed

definition demo_stray :: Block where
  "demo_stray = createGenesisBlock\<lparr>b_Header := (b_Header createGenesisBlock)\<lparr>h_PrevBlockHash := replicate 8 1\<rparr>\<rparr>"

definition demo_chain_info :: ChainInfo where
  "demo_chain_info = \<lparr>ci_TipBlock = demo_block 2, ci_TotalWork = 1, ci_Height = 2, ci_ChainID = ''fork''\<rparr>"

theorem fork_choice_panics_witness:
  "\<exists>fr'. HandleCompetingBlock demo_env demo_stray
     (demo_fr\<lparr>fr_candidateChains := [(''fork_'' @ hex (replicate 8 1), demo_chain_info)]\<rparr>)
   = Some (fr', Inl (Panic ''nil pointer dereference''))"
proof -
  have "replicate 8 1 \<noteq> hashBlock demo_env b" for b
  proof
    assume a: "replicate 8 1 = hashBlock demo_env b"
    have "length (hashBlock demo_env b) = 8" unfolding a [symmetric] by simp
    then show False by (simp add: demo_hash)
  qed
  moreover have "prev_of demo_stray = replicate 8 1" by (simp add: demo_stray_def)
  ultimately show ?thesis
    using fork_choice_panics [of demo_stray demo_env
        "demo_fr\<lparr>fr_candidateChains := [(''fork_'' @ hex (replicate 8 1), demo_chain_info)]\<rparr>"]
    by (auto simp: mget_def)
qed

text \<open>
  The preference between two chains whose heights differ by at most 6 is a strict order
  on their tips: the two are never preferred to each other, and one is preferred unless work,
  PoH sequence and hash all agree.
\<close>

theorem fork_preference:
  assumes "ci_Height c \<le> ci_Height m + 6" "ci_Height m \<le> ci_Height c + 6"
  shows "\<not> (shouldReorg env c m \<and> shouldReorg env m c) \<and>
    (shouldReorg env c m \<or> shouldReorg env m c \<or>
     (ci_TotalWork c = ci_TotalWork m \<and>
      b_PoHSequence (ci_TipBlock c) = b_PoHSequence (ci_TipBlock m) \<and>
      hashBlock env (ci_TipBlock c) = hashBlock env (ci_TipBlock m)))"
proof -
  have "\<not> ci_Height c > ci_Height m + 6" "\<not> ci_Height m > ci_Height c + 6"
    using assms by (simp_all add: not_less)
  then have eq: "shouldReorg env x y \<longleftrightarrow> ci_TotalWork x > ci_TotalWork y \<or> (ci_TotalWork x = ci_TotalWork y \<and>
      (bytes_less (b_PoHSequence (ci_TipBlock x)) (b_PoHSequence (ci_TipBlock y)) \<or>
       (b_PoHSequence (ci_TipBlock x) = b_PoHSequence (ci_TipBlock y) \<and>
        bytes_less (hashBlock env (ci_TipBlock x)) (hashBlock env (ci_TipBlock y)))))"
    if "x = c \<and> y = m \<or> x = m \<and> y = c" for x y
    using that by (auto simp: shouldReorg_def)
  note eqs = eq [of c m, simplified] eq [of m c, simplified]
  show ?thesis unfolding eqs
    using bytes_less_asym bytes_less_irrefl bytes_less_total by (metis less_asym neqE)
qed

theorem fork_preference_witness:
  "\<not> (shouldReorg demo_env demo_chain_info (demo_chain_info\<lparr>ci_TotalWork := 3\<rparr>) \<and>
      shouldReorg demo_env (demo_chain_info\<lparr>ci_TotalWork := 3\<rparr>) demo_chain_info)"
  using fork_preference [of demo_chain_info "demo_chain_info\<lparr>ci_TotalWork := 3\<rparr>" demo_env]
  by (simp add: demo_chain_info_def)

text \<open>
  Beyond a height difference of 6 the rule is not an order: a chain that is 7 blocks longer
  but lighter, and the shorter heavier chain, are each preferred to the other, so two nodes
  that hold them would swap for ever.
\<close>

theorem fork_preference_cycle:
  fixes light heavy :: ChainInfo and env :: "'db chain_env" and tip :: Block
  defines "light \<equiv> \<lparr>ci_TipBlock = tip, ci_TotalWork = 7, ci_Height = 7, ci_ChainID = ''a''\<rparr>"
    and "heavy \<equiv> \<lparr>ci_TipBlock = tip, ci_TotalWork = 100, ci_Height = 0, ci_ChainID = ''b''\<rparr>"
  shows "shouldReorg env light heavy \<and> shouldReorg env heavy light"
  by (simp add: shouldReorg_def light_def heavy_def)

text \<open>
  \<open>CleanupOldForks\<close> keeps exactly the forks whose distance \<open>mainHeight - height\<close> is at most
  the age limit; the difference is unsigned, so a fork ahead of the main chain, which is not
  old at all, is deleted as soon as its distance wraps above the limit.
\<close>

theorem cleanup_forks:
  assumes "wf_map (fr_candidateChains fr)"
  shows "mget (fr_candidateChains (CleanupOldForks maxAge fr)) i =
     (case mget (fr_candidateChains fr) i of
        Some c \<Rightarrow> if height_of (GetLatestBlock (fr_mainChain fr)) - ci_Height c \<le> maxAge then Some c else None
      | None \<Rightarrow> None) \<and>
    (\<forall>c d. mget (fr_candidateChains fr) i = Some c \<and> d \<noteq> 0 \<and> maxAge < - d \<and>
        ci_Height c = height_of (GetLatestBlock (fr_mainChain fr)) + d \<longrightarrow>
        mget (fr_candidateChains (CleanupOldForks maxAge fr)) i = None)"
  using assms by (auto simp: CleanupOldForks_def Let_def mget_mkeep split: option.splits)

theorem cleanup_forks_witness:
  "mget (fr_candidateChains (CleanupOldForks 100
     (demo_fr\<lparr>fr_candidateChains := [(''fork'', demo_chain_info\<lparr>ci_Height := 3\<rparr>)]\<rparr>))) ''fork'' = None"
  using cleanup_forks [THEN conjunct2, rule_format, of "demo_fr\<lparr>fr_candidateChains := [(''fork'', demo_chain_info\<lparr>ci_Height := 3\<rparr>)]\<rparr>"
      "''fork''" "demo_chain_info\<lparr>ci_Height := 3\<rparr>" 1 100]
  by (simp add: mget_def demo_fr_def NewForkResolver_def demo_latest)

text \<open>
  On a built main chain with at least one block \<open>findBlock\<close> always returns: it gives the
  highest main-chain block with the hash, else the tip of a candidate with that hash, else an
  error; and \<open>getBlocksFrom\<close> gives exactly the blocks from a height up to the tip.
\<close>

theorem main_chain_lookups:
  assumes "fresh_start env bc0" "built env bc0 n (fr_mainChain fr)" "n + 1 < 2 ^ 64" "0 < n" "0 < s" "s \<le> n + 1"
  shows "findBlock env fr h =
      Some (case List.find (\<lambda>b. hashBlock env b = h)
              (map (block_at env (fr_mainChain fr)) (rev [1..<Suc n]) @ map (ci_TipBlock \<circ> snd) (fr_candidateChains fr)) of
           Some b \<Rightarrow> Inr b | None \<Rightarrow> Inl (Error ''block not found'')) \<and>
    getBlocksFrom env fr (of_nat s) (of_nat n) = Some (Inr (map (block_at env (fr_mainChain fr)) [s..<Suc n]))"
proof
  have n: "n < 2 ^ 64" using assms(3) by simp
  have app: "List.find P (xs @ ys) = (case List.find P xs of None \<Rightarrow> List.find P ys | Some x \<Rightarrow> Some x)"
    for P and xs ys :: "Block list" by (induction xs) auto
  have cand: "List.find (\<lambda>b. hashBlock env b = h) (map (ci_TipBlock \<circ> snd) cs) =
      map_option (ci_TipBlock \<circ> snd) (List.find (\<lambda>(i, chain). hashBlock env (ci_TipBlock chain) = h) cs)"
    for cs :: "(string \<times> ChainInfo) list" by (induction cs) auto
  show "findBlock env fr h = Some (case List.find (\<lambda>b. hashBlock env b = h)
      (map (block_at env (fr_mainChain fr)) (rev [1..<Suc n]) @ map (ci_TipBlock \<circ> snd) (fr_candidateChains fr)) of
           Some b \<Rightarrow> Inr b | None \<Rightarrow> Inl (Error ''block not found''))"
    unfolding findBlock_def built_block_at(3) [OF assms(1,2) n order_refl]
      find_main_built [OF assms(1,2) n assms(4) order_refl] app cand
    by (auto split: option.splits)
  show "getBlocksFrom env fr (of_nat s) (of_nat n) = Some (Inr (map (block_at env (fr_mainChain fr)) [s..<Suc n]))"
    using blocks_from_built [OF assms(1-3,5,6), of "[]"] by (simp add: getBlocksFrom_def del: upt_Suc)
qed

theorem main_chain_lookups_witness:
  "getBlocksFrom demo_env demo_fr 1 2 = Some (Inr [block_at demo_env demo_bc2 1, block_at demo_env demo_bc2 2])"
proof -
  have "[1..<Suc 2] = [1, 2 :: nat]" by (simp add: upt_rec)
  then show ?thesis
    using main_chain_lookups [OF demo_fresh, THEN conjunct2, of 2 demo_fr 1]
    by (simp add: demo_fr_def NewForkResolver_def demo_built del: upt_Suc)
qed

text \<open>
  A reorganisation to a chain that is not higher than the main chain does not adopt it:
  when \<open>reorganize\<close> reports success for such a chain, it has added no block, the latest block
  is the old one, and the fork is forgotten, although \<open>shouldReorg\<close> prefers a heavier chain of
  equal or smaller height.
\<close>

theorem reorg_not_higher:
  assumes "height_of (ci_TipBlock c) \<le> height_of (GetLatestBlock (fr_mainChain fr))"
    "reorganize env c fr = Some (fr', Inr ())"
  shows "GetLatestBlock (fr_mainChain fr') = GetLatestBlock (fr_mainChain fr) \<and>
    fr_candidateChains fr' = mdel (ci_ChainID c) (fr_candidateChains fr)"
proof -
  have none: "getChainBlocks env fr c = Some (Inr [])"
    using assms(1) by (simp add: getChainBlocks_def chain_blocks_loop.simps not_less [symmetric])
  obtain bs fr1 where "rollback_all env bs fr = (fr1, None)"
      "fr' = fr1\<lparr>fr_candidateChains := mdel (ci_ChainID c) (fr_candidateChains fr1)\<rparr>"
    using assms(2) by (auto simp: reorganize_def none split: option.splits sum.splits prod.splits)
  then show ?thesis using rollback_all_keeps [of env bs fr fr1 None] by simp
qed

theorem reorg_not_higher_witness:
  "\<exists>fr'. reorganize demo_env demo_chain_info demo_fr = Some (fr', Inr ()) \<and>
     GetLatestBlock (fr_mainChain fr') = demo_block 2"
proof -
  have tip: "GetLatestBlock (fr_mainChain demo_fr) = demo_block 2"
    by (simp add: demo_fr_def NewForkResolver_def demo_latest)
  have ci: "ci_TipBlock demo_chain_info = demo_block 2" by (simp add: demo_chain_info_def)
  have "findCommonAncestor demo_env demo_fr (demo_block 2) = Some (Inr (demo_block 2))"
    by (simp add: findCommonAncestor_def Let_def tip descend.simps meet.simps)
  moreover have "getBlocksFrom demo_env demo_fr 3 2 = Some (Inr [])"
    by (simp add: getBlocksFrom_def blocks_from_loop.simps)
  moreover have "getChainBlocks demo_env demo_fr demo_chain_info = Some (Inr [])"
    by (simp add: getChainBlocks_def chain_blocks_loop.simps tip demo_chain_info_def)
  ultimately obtain fr' where "reorganize demo_env demo_chain_info demo_fr = Some (fr', Inr ())"
    by (simp add: reorganize_def tip ci)
  with reorg_not_higher [OF _ this] show ?thesis by (simp add: tip demo_chain_info_def)
qed

end
