(* ===== verification/Quorum.thy ===== *)
theory Quorum
  imports Core_Types
begin

text \<open>
  Quorum arithmetic shared by block voting (\<open>voting.go\<close>), checkpoints (\<open>checkpoint.go\<close>) and
  governance. The interface \<open>quorum_rule\<close> says that the votes required of \<open>n\<close> validators are
  a percentage of \<open>n\<close> rounded down, with a lower limit; inside it are the bounds and the
  intersection of two quorums. It is interpreted on the float expressions of the code.
\<close>

section \<open>The required votes\<close>

text \<open>\<open>int(float64(n) * p)\<close>; the conversion is defined for every finite product in range.\<close>

definition float_quota :: "f64 \<Rightarrow> int \<Rightarrow> int" where
  "float_quota p n = (case f_to_int (f_mul (f_of_int n) p) of Some k \<Rightarrow> k | None \<Rightarrow> - (2 ^ 63))"

text \<open>The literal \<open>0.67\<close> of \<open>FinalizeCheckpoint\<close>.\<close>

definition CheckpointThreshold :: f64 where
  "CheckpointThreshold = f_lit (67 / 100)"

lemma float_quota_85: "0 \<le> n \<Longrightarrow> n \<le> 2 ^ 40 \<Longrightarrow> float_quota SupermajorityThreshold n = 85 * n div 100"
  by (simp only: float_quota_def SupermajorityThreshold_def trunc_85 option.case)

lemma float_quota_67: "0 \<le> n \<Longrightarrow> n \<le> 2 ^ 40 \<Longrightarrow> float_quota CheckpointThreshold n = 67 * n div 100"
  by (simp only: float_quota_def CheckpointThreshold_def trunc_67 option.case)

section \<open>The interface of a quorum rule\<close>

locale quorum_rule =
  fixes required :: "int \<Rightarrow> int"
    and pct :: int
    and floor_votes :: int
  assumes required_eq: "0 \<le> n \<Longrightarrow> n \<le> 2 ^ 40 \<Longrightarrow> required n = max floor_votes (pct * n div 100)"
    and pct_range: "50 < pct" "pct \<le> 100"
    and floor_range: "0 \<le> floor_votes" "floor_votes \<le> 1"
begin

lemma required_le: "1 \<le> n \<Longrightarrow> n \<le> 2 ^ 40 \<Longrightarrow> required n \<le> n"
proof -
  assume n: "1 \<le> n" "n \<le> 2 ^ 40"
  have "pct * n \<le> 100 * n" using n pct_range by (intro mult_right_mono) auto
  then have "pct * n div 100 \<le> n" by linarith
  then show ?thesis using required_eq [of n] n floor_range by simp
qed

lemma required_ge: "0 \<le> n \<Longrightarrow> n \<le> 2 ^ 40 \<Longrightarrow> pct * n < 100 * required n + 100"
  using required_eq [of n] by (simp add: max_def) linarith

lemma required_nonneg: "0 \<le> n \<Longrightarrow> n \<le> 2 ^ 40 \<Longrightarrow> 0 \<le> required n"
  using required_eq [of n] floor_range by simp

lemma required_mono: "0 \<le> m \<Longrightarrow> m \<le> n \<Longrightarrow> n \<le> 2 ^ 40 \<Longrightarrow> required m \<le> required n"
proof -
  assume mn: "0 \<le> m" "m \<le> n" "n \<le> 2 ^ 40"
  then have "pct * m \<le> pct * n" using pct_range by (intro mult_left_mono) auto
  then have "pct * m div 100 \<le> pct * n div 100" by (rule zdiv_mono1) simp
  then show ?thesis using required_eq [of m] required_eq [of n] mn by simp
qed

text \<open>Once the surplus over one half exceeds the rounding, two quorums overlap.\<close>

lemma majority: "0 \<le> n \<Longrightarrow> n \<le> 2 ^ 40 \<Longrightarrow> 200 \<le> (2 * pct - 100) * n \<Longrightarrow> n < 2 * required n"
proof -
  assume n: "0 \<le> n" "n \<le> 2 ^ 40" and s: "200 \<le> (2 * pct - 100) * n"
  have "200 \<le> 2 * (pct * n) - 100 * n" using s by (simp add: algebra_simps)
  then show ?thesis using required_ge [OF n] by linarith
qed

lemma intersection:
  assumes "finite V" "int (card V) = n" "n \<le> 2 ^ 40" "200 \<le> (2 * pct - 100) * n"
    "A \<subseteq> V" "B \<subseteq> V" "required n \<le> int (card A)" "required n \<le> int (card B)"
  shows "A \<inter> B \<noteq> {}"
proof
  assume "A \<inter> B = {}"
  moreover have "finite A" "finite B" using assms(1,5,6) finite_subset by auto
  ultimately have "card (A \<union> B) = card A + card B" by (simp add: card_Un_disjoint)
  moreover have "card (A \<union> B) \<le> card V" using assms(1,5,6) by (simp add: card_mono)
  ultimately show False using majority [of n] assms by linarith
qed

end

text \<open>\<open>requiredVotes\<close> of \<open>StartVotingSession\<close>.\<close>

definition required_votes :: "int \<Rightarrow> int" where
  "required_votes totalValidators =
     (let r = float_quota SupermajorityThreshold totalValidators in if r = 0 then 1 else r)"

text \<open>\<open>requiredVotes\<close> of \<open>FinalizeCheckpoint\<close>.\<close>

definition checkpoint_required :: "int \<Rightarrow> int" where
  "checkpoint_required totalValidators = float_quota CheckpointThreshold totalValidators"

lemma required_votes_eq: "0 \<le> n \<Longrightarrow> n \<le> 2 ^ 40 \<Longrightarrow> required_votes n = max 1 (85 * n div 100)"
proof -
  assume n: "0 \<le> n" "n \<le> 2 ^ 40"
  then have "0 \<le> 85 * n div 100" by simp
  with float_quota_85 [OF n] show ?thesis by (simp only: required_votes_def Let_def max_def split: if_split) arith
qed

lemma checkpoint_required_eq: "0 \<le> n \<Longrightarrow> n \<le> 2 ^ 40 \<Longrightarrow> checkpoint_required n = max 0 (67 * n div 100)"
proof -
  assume n: "0 \<le> n" "n \<le> 2 ^ 40"
  then have "0 \<le> 67 * n div 100" by simp
  with float_quota_67 [OF n] show ?thesis by (simp add: checkpoint_required_def)
qed

interpretation voting_quorum: quorum_rule required_votes 85 1
  by unfold_locales (simp_all add: required_votes_eq)

interpretation checkpoint_quorum: quorum_rule checkpoint_required 67 0
  by unfold_locales (simp_all add: checkpoint_required_eq)

end
