(* ===== verification/Exchange_Sort.thy ===== *)
theory Exchange_Sort
  imports Float64 "HOL-Library.Multiset"
begin

text \<open>
  The exchange sort that four routines of the node write out with two index loops,
  \<open>for i { for j := i+1 { if worse(s[i], s[j]) { s[i], s[j] = s[j], s[i] } } }\<close>
  (checkpoint cleanup, test committee, network groups, median). \<open>select\<close> is the inner loop over
  \<open>j\<close>: it carries the value of \<open>s[i]\<close>, and a swap leaves the old value at \<open>j\<close>; \<open>exchange_sort\<close>
  is the outer loop over \<open>i\<close>. The interface \<open>sort_order\<close> states what the comparison must be
  for the result to be sorted; it is interpreted for each comparison of the code.
\<close>

fun select :: "('a \<Rightarrow> 'a \<Rightarrow> bool) \<Rightarrow> 'a \<Rightarrow> 'a list \<Rightarrow> 'a \<times> 'a list" where
  "select worse x [] = (x, [])"
| "select worse x (y # ys) =
     (if worse x y then (let (m, zs) = select worse y ys in (m, x # zs))
      else (let (m, zs) = select worse x ys in (m, y # zs)))"

lemma mset_select: "select worse x xs = (m, zs) \<Longrightarrow> add_mset m (mset zs) = add_mset x (mset xs)"
  by (induction xs arbitrary: x m zs)
    (auto simp: Let_def add_mset_commute split: if_splits prod.splits)

lemma length_select: "select worse x xs = (m, zs) \<Longrightarrow> length zs = length xs"
  using mset_select [of worse x xs m zs] by (metis add_right_cancel size_add_mset size_mset Suc_inject)

function exchange_sort :: "('a \<Rightarrow> 'a \<Rightarrow> bool) \<Rightarrow> 'a list \<Rightarrow> 'a list" where
  "exchange_sort worse [] = []"
| "exchange_sort worse (x # xs) = (let (m, zs) = select worse x xs in m # exchange_sort worse zs)"
  by pat_completeness auto
termination
  by (relation "measure (\<lambda>(worse, xs). length xs)") (auto dest: length_select [OF sym])

lemma mset_exchange_sort: "mset (exchange_sort worse xs) = mset xs"
  by (induction worse xs rule: exchange_sort.induct)
    (auto simp: Let_def mset_select split: prod.splits)

lemma set_exchange_sort [simp]: "set (exchange_sort worse xs) = set xs"
  by (metis mset_exchange_sort set_mset_mset)

lemma length_exchange_sort [simp]: "length (exchange_sort worse xs) = length xs"
  by (metis mset_exchange_sort size_mset)

lemma distinct_exchange_sort [simp]: "distinct (exchange_sort worse xs) = distinct xs"
  by (metis mset_exchange_sort distinct_count_atmost_1 set_exchange_sort)

locale sort_order =
  fixes worse :: "'a \<Rightarrow> 'a \<Rightarrow> bool"
    and ordered :: "'a \<Rightarrow> bool"
  assumes worse_asym: "ordered x \<Longrightarrow> ordered y \<Longrightarrow> worse x y \<Longrightarrow> \<not> worse y x"
    and not_worse_trans: "ordered x \<Longrightarrow> ordered y \<Longrightarrow> ordered z \<Longrightarrow> \<not> worse x y \<Longrightarrow> \<not> worse y z \<Longrightarrow> \<not> worse x z"
begin

lemma select_best:
  "list_all ordered (x # xs) \<Longrightarrow> select worse x xs = (m, zs) \<Longrightarrow>
   ordered m \<and> list_all ordered zs \<and> \<not> worse m x \<and> (\<forall>z \<in> set zs. \<not> worse m z)"
proof (induction xs arbitrary: x m zs)
  case Nil
  then show ?case using worse_asym by auto
next
  case (Cons y ys)
  show ?case
  proof (cases "worse x y")
    case True
    then obtain zs' where s: "select worse y ys = (m, zs')" "zs = x # zs'"
      using Cons.prems(2) by (auto simp: Let_def split: prod.splits)
    have "ordered m \<and> list_all ordered zs' \<and> \<not> worse m y \<and> (\<forall>z \<in> set zs'. \<not> worse m z)"
      using Cons.IH [OF _ s(1)] Cons.prems(1) by simp
    moreover have "\<not> worse y x" using worse_asym True Cons.prems(1) by simp
    ultimately show ?thesis using s(2) not_worse_trans [of m y x] Cons.prems(1) by auto
  next
    case False
    then obtain zs' where s: "select worse x ys = (m, zs')" "zs = y # zs'"
      using Cons.prems(2) by (auto simp: Let_def split: prod.splits)
    have "ordered m \<and> list_all ordered zs' \<and> \<not> worse m x \<and> (\<forall>z \<in> set zs'. \<not> worse m z)"
      using Cons.IH [OF _ s(1)] Cons.prems(1) by simp
    then show ?thesis using s(2) not_worse_trans [of m x y] False Cons.prems(1) by auto
  qed
qed

lemma sorted_exchange_sort:
  "list_all ordered xs \<Longrightarrow> sorted_wrt (\<lambda>x y. \<not> worse x y) (exchange_sort worse xs)"
proof (induction xs rule: measure_induct_rule [where f = length])
  case (less xs)
  show ?case
  proof (cases xs)
    case (Cons x ys)
    obtain m zs where s: "select worse x ys = (m, zs)" by (cases "select worse x ys")
    note best = select_best [OF less.prems [unfolded Cons] s]
    then have "sorted_wrt (\<lambda>x y. \<not> worse x y) (exchange_sort worse zs)"
      using less.IH [of zs] length_select [OF s] Cons by simp
    then show ?thesis using best by (simp add: Cons s)
  qed simp
qed

text \<open>The first \<open>k\<close> of the sorted list are no worse than any of the others.\<close>

lemma take_exchange_sort:
  "list_all ordered xs \<Longrightarrow> a \<in> set (take k (exchange_sort worse xs)) \<Longrightarrow>
   b \<in> set (drop k (exchange_sort worse xs)) \<Longrightarrow> \<not> worse a b"
  using sorted_exchange_sort [of xs] sorted_wrt_append
  by (metis append_take_drop_id)

end

end
