(* ===== verification/Checkpoint.thy ===== *)
theory Checkpoint
  imports Quorum Store Exchange_Sort
begin

text \<open>
  Checkpoints and their finality (\<open>pkg/consensus/checkpoint.go\<close>). The database and the JSON
  codecs of checkpoints and heights are the parameters \<open>cp_env\<close>.
\<close>

section \<open>State and operations\<close>

record Checkpoint =
  cp_Height :: u64
  cp_BlockHash :: bytes
  cp_StateRoot :: bytes
  cp_Timestamp :: gotime
  cp_ValidatorVotes :: int
  cp_TotalValidators :: int

record 'db cp_env =
  ce_store :: "'db leveldb"
  ce_block_enc :: "Block encoder"
  ce_cp_enc :: "Checkpoint encoder"
  ce_cp_dec :: "Checkpoint decoder"
  ce_height_enc :: "u64 encoder"
  ce_height_dec :: "u64 decoder"

record 'db CheckpointManager =
  cm_db :: 'db
  cm_checkpoints :: "(u64, Checkpoint) gomap"
  cm_finalizedHeight :: u64
  cm_checkpointInterval :: u64

definition checkpoint_key :: "u64 \<Rightarrow> string" where
  "checkpoint_key h = ''checkpoint_'' @ dec_u64 h"

definition finalized_key :: string where
  "finalized_key = ''finalized_height''"

fun load_checkpoints_loop ::
  "'db cp_env \<Rightarrow> (string \<times> bytes) list \<Rightarrow> (u64, Checkpoint) gomap \<Rightarrow> (u64, Checkpoint) gomap" where
  "load_checkpoints_loop env [] cps = cps"
| "load_checkpoints_loop env ((key, v) # entries) cps =
     load_checkpoints_loop env entries
       (if 11 < length key \<and> take 11 key = ''checkpoint_'' then
          (case ce_cp_dec env v of Inl _ \<Rightarrow> cps | Inr c \<Rightarrow> mput (cp_Height c) c cps)
        else cps)"

definition loadCheckpoints :: "'db cp_env \<Rightarrow> 'db CheckpointManager \<Rightarrow> 'db CheckpointManager" where
  "loadCheckpoints env cm =
     (let cm1 = (case db_get (ce_store env) (cm_db cm) finalized_key of
                   None \<Rightarrow> cm
                 | Some bs \<Rightarrow> (case ce_height_dec env bs of
                       Inl _ \<Rightarrow> cm | Inr h \<Rightarrow> cm\<lparr>cm_finalizedHeight := h\<rparr>))
      in cm1\<lparr>cm_checkpoints := load_checkpoints_loop env (db_iter (ce_store env) (cm_db cm) []) (cm_checkpoints cm1)\<rparr>)"

definition NewCheckpointManager :: "'db cp_env \<Rightarrow> 'db \<Rightarrow> u64 \<Rightarrow> 'db CheckpointManager" where
  "NewCheckpointManager env db interval =
     loadCheckpoints env \<lparr>cm_db = db, cm_checkpoints = [], cm_finalizedHeight = 0, cm_checkpointInterval = interval\<rparr>"

text \<open>A zero interval makes the remainder panic.\<close>

definition ShouldCreateCheckpoint :: "'db CheckpointManager \<Rightarrow> u64 \<Rightarrow> bool res" where
  "ShouldCreateCheckpoint cm h =
     (if cm_checkpointInterval cm = 0 then Inl (Panic ''integer divide by zero'')
      else Inr (h mod cm_checkpointInterval cm = 0))"

definition GetLastFinalizedHeight :: "'db CheckpointManager \<Rightarrow> u64" where
  "GetLastFinalizedHeight cm = cm_finalizedHeight cm"

definition GetFinalizedHeight :: "'db CheckpointManager \<Rightarrow> u64" where
  "GetFinalizedHeight cm = cm_finalizedHeight cm"

definition CreateCheckpoint ::
  "'db cp_env \<Rightarrow> gotime \<Rightarrow> Block \<Rightarrow> int \<Rightarrow> int \<Rightarrow> 'db CheckpointManager \<Rightarrow> 'db CheckpointManager \<times> unit res" where
  "CreateCheckpoint env now block validatorVotes totalValidators cm =
     (case Block_Hash (ce_block_enc env) block of
        Inl (Panic p) \<Rightarrow> (cm, Inl (Panic p))
      | Inl (Error _) \<Rightarrow> (cm, Inl (Error ''failed to hash block''))
      | Inr blockHash \<Rightarrow>
          (let c = \<lparr>cp_Height = h_Height (b_Header block), cp_BlockHash = blockHash,
                 cp_StateRoot = h_MerkleRoot (b_Header block), cp_Timestamp = now,
                 cp_ValidatorVotes = validatorVotes, cp_TotalValidators = totalValidators\<rparr>;
               cm1 = cm\<lparr>cm_checkpoints := mput (cp_Height c) c (cm_checkpoints cm)\<rparr>
           in case ce_cp_enc env c of
                Inl _ \<Rightarrow> (cm1, Inl (Error ''failed to marshal checkpoint''))
              | Inr bs \<Rightarrow>
                  (case db_put (ce_store env) (checkpoint_key (cp_Height c)) bs (cm_db cm1) of
                     (d, Some _) \<Rightarrow> (cm1\<lparr>cm_db := d\<rparr>, Inl (Error ''failed to save checkpoint''))
                   | (d, None) \<Rightarrow> (cm1\<lparr>cm_db := d\<rparr>, Inr ()))))"

definition FinalizeCheckpoint :: "'db cp_env \<Rightarrow> u64 \<Rightarrow> 'db CheckpointManager \<Rightarrow> 'db CheckpointManager \<times> unit res" where
  "FinalizeCheckpoint env height cm =
     (case mget (cm_checkpoints cm) height of
        None \<Rightarrow> (cm, Inl (Error ''checkpoint not found''))
      | Some c \<Rightarrow>
          (let requiredVotes = checkpoint_required (cp_TotalValidators c) in
           if cp_ValidatorVotes c < requiredVotes then (cm, Inl (Error ''insufficient votes for finalization''))
           else let cm1 = cm\<lparr>cm_finalizedHeight := height\<rparr> in
             case ce_height_enc env height of
               Inl e \<Rightarrow> (cm1, Inl e)
             | Inr bs \<Rightarrow>
                 (case db_put (ce_store env) finalized_key bs (cm_db cm1) of
                    (d, Some _) \<Rightarrow> (cm1\<lparr>cm_db := d\<rparr>, Inl (Error ''failed to save finalized height''))
                  | (d, None) \<Rightarrow> (cm1\<lparr>cm_db := d\<rparr>, Inr ()))))"

definition GetCheckpoint :: "u64 \<Rightarrow> 'db CheckpointManager \<Rightarrow> Checkpoint res" where
  "GetCheckpoint height cm = (case mget (cm_checkpoints cm) height of
       None \<Rightarrow> Inl (Error ''checkpoint not found'') | Some c \<Rightarrow> Inr c)"

fun latest_loop :: "Checkpoint list \<Rightarrow> Checkpoint option \<Rightarrow> Checkpoint option" where
  "latest_loop [] latest = latest"
| "latest_loop (c # cs) latest =
     latest_loop cs (case latest of None \<Rightarrow> Some c
       | Some l \<Rightarrow> if cp_Height c > cp_Height l then Some c else Some l)"

definition GetLatestCheckpoint :: "'db CheckpointManager \<Rightarrow> Checkpoint option" where
  "GetLatestCheckpoint cm = latest_loop (map snd (cm_checkpoints cm)) None"

definition CanReorg :: "u64 \<Rightarrow> 'db CheckpointManager \<Rightarrow> bool" where
  "CanReorg toHeight cm = (toHeight > cm_finalizedHeight cm)"

text \<open>
  The loop of \<open>CleanupOldCheckpoints\<close> from index \<open>keepLast\<close> over the heights in descending order;
  the result of the database deletion is ignored. A negative \<open>keepLast\<close> indexes out of range.
\<close>

fun cleanup_heights :: "'db cp_env \<Rightarrow> u64 list \<Rightarrow> 'db CheckpointManager \<Rightarrow> 'db CheckpointManager" where
  "cleanup_heights env [] cm = cm"
| "cleanup_heights env (h # hs) cm =
     (if h \<le> cm_finalizedHeight cm then cleanup_heights env hs cm
      else cleanup_heights env hs
        (cm\<lparr>cm_checkpoints := mdel h (cm_checkpoints cm),
            cm_db := fst (db_del (ce_store env) (checkpoint_key h) (cm_db cm))\<rparr>))"

definition CleanupOldCheckpoints ::
  "'db cp_env \<Rightarrow> int \<Rightarrow> 'db CheckpointManager \<Rightarrow> 'db CheckpointManager \<times> unit res" where
  "CleanupOldCheckpoints env keepLast cm =
     (if int (mlen (cm_checkpoints cm)) \<le> keepLast then (cm, Inr ())
      else if keepLast < 0 then (cm, Inl (Panic ''index out of range''))
      else (cleanup_heights env
              (drop (nat keepLast) (exchange_sort (<) (map fst (cm_checkpoints cm)))) cm, Inr ()))"

definition GetCheckpointStats :: "'db CheckpointManager \<Rightarrow> nat \<times> u64 \<times> u64" where
  "GetCheckpointStats cm = (mlen (cm_checkpoints cm), cm_finalizedHeight cm,
     (case GetLatestCheckpoint cm of None \<Rightarrow> 0 | Some c \<Rightarrow> cp_Height c))"

section \<open>Lemmas\<close>

interpretation height_desc: sort_order "(<) :: u64 \<Rightarrow> u64 \<Rightarrow> bool" "\<lambda>_. True"
  by unfold_locales auto

lemma cleanup_heights_get:
  "mget (cm_checkpoints (cleanup_heights env hs cm)) h =
     (if h \<in> set hs \<and> cm_finalizedHeight cm < h then None else mget (cm_checkpoints cm) h) \<and>
   cm_finalizedHeight (cleanup_heights env hs cm) = cm_finalizedHeight cm"
  by (induction env hs cm rule: cleanup_heights.induct) (auto simp: mget_mdel)

lemma latest_loop_max:
  "latest_loop cs l = Some m \<Longrightarrow>
   (Some m = l \<or> m \<in> set cs) \<and> (\<forall>c \<in> set cs. cp_Height c \<le> cp_Height m) \<and>
   (\<forall>k. l = Some k \<longrightarrow> cp_Height k \<le> cp_Height m)"
proof (induction cs l rule: latest_loop.induct)
  case (2 c cs latest)
  then show ?case by (cases latest) (auto split: if_splits)
qed simp

lemma finalize_effect:
  assumes "mget (cm_checkpoints cm) h = Some c" "checkpoint_required (cp_TotalValidators c) \<le> cp_ValidatorVotes c"
  shows "cm_finalizedHeight (fst (FinalizeCheckpoint env h cm)) = h"
    "cm_checkpoints (fst (FinalizeCheckpoint env h cm)) = cm_checkpoints cm"
  using assms by (auto simp: FinalizeCheckpoint_def Let_def split: sum.splits prod.splits option.splits)

section \<open>Properties\<close>

definition demo_cp :: "u64 \<Rightarrow> int \<Rightarrow> int \<Rightarrow> Checkpoint" where
  "demo_cp h v n = \<lparr>cp_Height = h, cp_BlockHash = [], cp_StateRoot = [], cp_Timestamp = 0,
     cp_ValidatorVotes = v, cp_TotalValidators = n\<rparr>"

definition demo_cm :: "memdb CheckpointManager" where
  "demo_cm = \<lparr>cm_db = [], cm_checkpoints = [(100, demo_cp 100 3 4), (200, demo_cp 200 4 4), (300, demo_cp 300 1 4)],
     cm_finalizedHeight = 0, cm_checkpointInterval = 100\<rparr>"

definition demo_cenv :: "memdb cp_env" where
  "demo_cenv = \<lparr>ce_store = memdb_ops, ce_block_enc = (\<lambda>_. Inr []), ce_cp_enc = (\<lambda>_. Inr []),
     ce_cp_dec = (\<lambda>_. Inl (Error [])), ce_height_enc = (\<lambda>h. Inr (bytes_of (dec_u64 h))), ce_height_dec = (\<lambda>_. Inl (Error []))\<rparr>"

text \<open>
  C28: A checkpoint is finalized only with its quorum: \<open>FinalizeCheckpoint\<close> changes the finalized
  height exactly if there is a checkpoint at the height with at least 67 per cent of its
  validators, rounded down; otherwise it reports an error and changes nothing. With six or more
  validators two quorums overlap, with four they need not.
\<close>

theorem finalize_needs_quorum:
  assumes "mget (cm_checkpoints cm) h = Some c" "0 \<le> cp_TotalValidators c" "cp_TotalValidators c \<le> 2 ^ 40"
  shows "(if 67 * cp_TotalValidators c div 100 \<le> cp_ValidatorVotes c
       then cm_finalizedHeight (fst (FinalizeCheckpoint env h cm)) = h
       else FinalizeCheckpoint env h cm = (cm, Inl (Error ''insufficient votes for finalization''))) \<and>
    (6 \<le> cp_TotalValidators c \<longrightarrow> cp_TotalValidators c < 2 * checkpoint_required (cp_TotalValidators c))"
proof (intro conjI impI)
  have r: "checkpoint_required (cp_TotalValidators c) = 67 * cp_TotalValidators c div 100"
    using checkpoint_required_eq [OF assms(2,3)] assms(2) by simp
  show "if 67 * cp_TotalValidators c div 100 \<le> cp_ValidatorVotes c
       then cm_finalizedHeight (fst (FinalizeCheckpoint env h cm)) = h
       else FinalizeCheckpoint env h cm = (cm, Inl (Error ''insufficient votes for finalization''))"
    using finalize_effect(1) [OF assms(1)] assms(1) by (auto simp: r FinalizeCheckpoint_def Let_def)
  show "cp_TotalValidators c < 2 * checkpoint_required (cp_TotalValidators c)" if "6 \<le> cp_TotalValidators c"
    using assms(2,3) that by (intro checkpoint_quorum.majority) auto
qed

theorem finalize_needs_quorum_witness:
  "cm_finalizedHeight (fst (FinalizeCheckpoint demo_cenv 100 demo_cm)) = 100 \<and>
   FinalizeCheckpoint demo_cenv 300 demo_cm = (demo_cm, Inl (Error ''insufficient votes for finalization''))"
  using finalize_needs_quorum [of demo_cm 100 "demo_cp 100 3 4" demo_cenv]
    finalize_needs_quorum [of demo_cm 300 "demo_cp 300 1 4" demo_cenv]
  by (simp add: demo_cm_def demo_cp_def)

text \<open>
  Finality can be taken back: when two checkpoints have their quorum, finalizing the lower one
  after the higher one lowers the finalized height, and a reorganisation to the height that was
  final is allowed again.
\<close>

theorem finality_can_regress:
  assumes "mget (cm_checkpoints cm) lo = Some c" "checkpoint_required (cp_TotalValidators c) \<le> cp_ValidatorVotes c"
    "mget (cm_checkpoints cm) hi = Some d" "checkpoint_required (cp_TotalValidators d) \<le> cp_ValidatorVotes d"
    "lo < hi" "cm1 = fst (FinalizeCheckpoint env hi cm)" "cm2 = fst (FinalizeCheckpoint env lo cm1)"
  shows "\<not> CanReorg hi cm1 \<and> CanReorg hi cm2 \<and> GetFinalizedHeight cm2 = lo"
  using finalize_effect [OF assms(3,4), of env] finalize_effect [of cm1 lo c env] assms
  by (simp add: CanReorg_def GetFinalizedHeight_def)

theorem finality_can_regress_witness:
  "CanReorg 200 (fst (FinalizeCheckpoint demo_cenv 100 (fst (FinalizeCheckpoint demo_cenv 200 demo_cm))))"
  using finality_can_regress [of demo_cm 100 "demo_cp 100 3 4" 200 "demo_cp 200 4 4", OF _ _ _ _ _ refl refl, of demo_cenv]
  by (simp add: demo_cm_def demo_cp_def checkpoint_required_eq)

text \<open>
  Cleaning up checkpoints never loses a finalized one: with \<open>0 \<le> keepLast\<close> it keeps every
  checkpoint at or below the finalized height and the \<open>keepLast\<close> highest; every other one is
  removed, and no checkpoint that is removed is higher than one that is kept above the
  finalized height.
\<close>

theorem cleanup_keeps_finalized:
  assumes "wf_map (cm_checkpoints cm)" "0 \<le> keepLast" "CleanupOldCheckpoints env keepLast cm = (cm', r)"
  shows "r = Inr () \<and>
    (\<exists>kept. kept \<subseteq> fst ` set (cm_checkpoints cm) \<and> card kept = min (nat keepLast) (mlen (cm_checkpoints cm)) \<and>
       (\<forall>a \<in> kept. \<forall>b \<in> fst ` set (cm_checkpoints cm) - kept. b < a) \<and>
       (\<forall>h. mget (cm_checkpoints cm') h =
          (if h \<in> kept \<or> h \<le> cm_finalizedHeight cm then mget (cm_checkpoints cm) h else None)))"
proof -
  let ?hs = "exchange_sort (<) (map fst (cm_checkpoints cm))"
  let ?kept = "set (take (nat keepLast) ?hs)" and ?cut = "set (drop (nat keepLast) ?hs)"
  have all: "?kept \<union> ?cut = fst ` set (cm_checkpoints cm)"
    by (metis append_take_drop_id list.set_map set_append set_exchange_sort)
  have dist: "distinct (take (nat keepLast) ?hs @ drop (nat keepLast) ?hs)" using assms(1) by simp
  then have disj: "?kept \<inter> ?cut = {}" by (simp only: distinct_append)
  have card: "card ?kept = min (nat keepLast) (mlen (cm_checkpoints cm))"
    using dist by (simp add: distinct_card mlen_def min.commute)
  have order: "b < a" if "a \<in> ?kept" "b \<in> ?cut" for a b
    using height_desc.take_exchange_sort [of "map fst (cm_checkpoints cm)" a "nat keepLast" b] that disj
    by (auto simp: list_all_iff not_less order_less_le)
  have get: "mget (cm_checkpoints cm') h =
      (if h \<in> ?kept \<or> h \<le> cm_finalizedHeight cm then mget (cm_checkpoints cm) h else None)" for h
  proof (cases "int (mlen (cm_checkpoints cm)) \<le> keepLast")
    case True
    then have "cm' = cm" "?cut = {}" using assms by (simp_all add: CleanupOldCheckpoints_def mlen_def)
    then show ?thesis using all by (auto simp: mget_None_iff)
  next
    case False
    then have "cm' = cleanup_heights env (drop (nat keepLast) ?hs) cm"
      using assms(2,3) by (simp add: CleanupOldCheckpoints_def)
    then have "mget (cm_checkpoints cm') h = (if h \<in> ?cut \<and> cm_finalizedHeight cm < h then None else mget (cm_checkpoints cm) h)"
      by (simp add: cleanup_heights_get)
    moreover have "h \<notin> ?kept \<Longrightarrow> h \<notin> ?cut \<Longrightarrow> mget (cm_checkpoints cm) h = None"
      using all by (auto simp: mget_None_iff)
    ultimately show ?thesis using disj by (auto simp: not_less)
  qed
  have "r = Inr ()" using assms(2,3) by (auto simp: CleanupOldCheckpoints_def split: if_splits)
  moreover have "\<forall>a \<in> ?kept. \<forall>b \<in> fst ` set (cm_checkpoints cm) - ?kept. b < a" using order all by blast
  ultimately show ?thesis using all card get by (intro conjI exI [of _ ?kept]) auto
qed

theorem cleanup_keeps_finalized_witness:
  "\<exists>kept. card kept = 1 \<and> (\<forall>h. mget (cm_checkpoints (fst (CleanupOldCheckpoints demo_cenv 1 demo_cm))) h =
     (if h \<in> kept \<or> h = 0 then mget (cm_checkpoints demo_cm) h else None))"
proof -
  have "wf_map (cm_checkpoints demo_cm)" "mlen (cm_checkpoints demo_cm) = 3" "cm_finalizedHeight demo_cm = 0"
    by (simp_all add: demo_cm_def mlen_def)
  with cleanup_keeps_finalized [OF _ _ prod.collapse [symmetric], of demo_cm 1 demo_cenv] show ?thesis by auto
qed

end
