(* ===== verification/State_Pruner.thy ===== *)
theory State_Pruner
  imports Chain Checkpoint
begin

text \<open>
  Pruning of old blocks (\<open>pkg/blockchain/state_pruner.go\<close>). The interface
  \<open>GetLastFinalizedHeight\<close> of the checkpoint manager is met by \<open>Checkpoint.thy\<close>; its value at
  the call is the argument \<open>finalizedHeight\<close>. \<open>CompactRange\<close> of LevelDB is the argument
  \<open>compact_range\<close>. The pruner shares the node's database, which is passed and returned.
\<close>

section \<open>Operations\<close>

record StatePruner =
  sp_retentionBlocks :: u64
  sp_retentionTime :: duration

definition NewStatePruner :: "u64 \<Rightarrow> duration \<Rightarrow> StatePruner" where
  "NewStatePruner retentionBlocks retentionTime = \<lparr>sp_retentionBlocks = retentionBlocks, sp_retentionTime = retentionTime\<rparr>"

definition trim_prefix :: "string \<Rightarrow> string \<Rightarrow> string" where
  "trim_prefix p s = (if prefix p s then drop (length p) s else s)"

text \<open>
  The loop of \<open>PruneOldBlocks\<close>: the deletions are collected in a batch that is written and
  reset when it holds 100 of them. A failed write ends the loop with the count so far.
\<close>

fun prune_loop ::
  "'db leveldb \<Rightarrow> u64 \<Rightarrow> (string \<times> bytes) list \<Rightarrow> batchop list \<Rightarrow> nat \<Rightarrow> 'db \<Rightarrow> 'db \<times> batchop list \<times> nat \<times> fail option" where
  "prune_loop L pruneThreshold [] batch prunedCount db = (db, batch, prunedCount, None)"
| "prune_loop L pruneThreshold ((key, v) # entries) batch prunedCount db =
     (case parse_u64 (trim_prefix ''block_'' key) of
        None \<Rightarrow> prune_loop L pruneThreshold entries batch prunedCount db
      | Some height \<Rightarrow>
          (let (batch', prunedCount') =
             (if height < pruneThreshold then (batch @ [BDel key], prunedCount + 1) else (batch, prunedCount))
           in if 100 \<le> length batch' then
                (case db_write L batch' db of
                   (db', Some _) \<Rightarrow> (db', batch', prunedCount', Some (Error ''failed to write batch''))
                 | (db', None) \<Rightarrow> prune_loop L pruneThreshold entries [] prunedCount' db')
              else prune_loop L pruneThreshold entries batch' prunedCount' db))"

definition PruneOldBlocks :: "'db leveldb \<Rightarrow> u64 \<Rightarrow> StatePruner \<Rightarrow> 'db \<Rightarrow> 'db \<times> nat \<times> fail option" where
  "PruneOldBlocks L finalizedHeight sp db =
     (if finalizedHeight = 0 then (db, 0, None)
      else if finalizedHeight \<le> sp_retentionBlocks sp then (db, 0, None)
      else
        (let pruneThreshold = finalizedHeight - sp_retentionBlocks sp in
         case prune_loop L pruneThreshold (db_iter L db ''block_'') [] 0 db of
           (db1, batch, prunedCount, Some e) \<Rightarrow> (db1, prunedCount, Some e)
         | (db1, batch, prunedCount, None) \<Rightarrow>
             if 0 < length batch then
               (case db_write L batch db1 of
                  (db2, Some _) \<Rightarrow> (db2, prunedCount, Some (Error ''failed to write final batch''))
                | (db2, None) \<Rightarrow> (db2, prunedCount, db_iter_err L db ''block_''))
             else (db1, prunedCount, db_iter_err L db ''block_'')))"

text \<open>\<open>PruneOldTransactions\<close> counts entries and prunes none.\<close>

definition PruneOldTransactions :: "'db leveldb \<Rightarrow> 'db \<Rightarrow> nat \<times> fail option" where
  "PruneOldTransactions L db = (let count = length (db_iter L db ''tx_'') in (0, None))"

definition GetDatabaseStats :: "'db leveldb \<Rightarrow> 'db \<Rightarrow> nat \<times> nat \<times> nat \<times> nat" where
  "GetDatabaseStats L db = (length (db_iter L db ''block_''), length (db_iter L db ''tx_''),
     length (db_iter L db ''account_''), length (db_iter L db ''validator_''))"

definition CompactDatabase :: "('db \<Rightarrow> 'db \<times> fail option) \<Rightarrow> 'db \<Rightarrow> 'db \<times> fail option" where
  "CompactDatabase compact_range db = (case compact_range db of
       (db', Some _) \<Rightarrow> (db', Some (Error ''compaction failed'')) | (db', None) \<Rightarrow> (db', None))"

definition PerformMaintenance ::
  "'db leveldb \<Rightarrow> ('db \<Rightarrow> 'db \<times> fail option) \<Rightarrow> u64 \<Rightarrow> StatePruner \<Rightarrow> 'db \<Rightarrow> 'db \<times> fail option" where
  "PerformMaintenance L compact_range finalizedHeight sp db =
     (case PruneOldBlocks L finalizedHeight sp db of
        (db1, blocksPruned, Some _) \<Rightarrow> (db1, Some (Error ''block pruning failed''))
      | (db1, blocksPruned, None) \<Rightarrow>
          (case PruneOldTransactions L db1 of
             (_, Some _) \<Rightarrow> (db1, Some (Error ''transaction pruning failed''))
           | (_, None) \<Rightarrow> ((if 0 < blocksPruned then fst (CompactDatabase compact_range db1) else db1), None)))"

section \<open>Lemmas\<close>

text \<open>The keys the loop selects.\<close>

definition prunable :: "u64 \<Rightarrow> string \<Rightarrow> bool" where
  "prunable t key = (prefix ''block_'' key \<and>
     (case parse_u64 (drop 6 key) of None \<Rightarrow> False | Some h \<Rightarrow> h < t))"

definition without :: "string list \<Rightarrow> (string \<Rightarrow> bytes option) \<Rightarrow> string \<Rightarrow> bytes option" where
  "without ks m = (\<lambda>k. if k \<in> set ks then None else m k)"

lemma without_append: "without (xs @ ys) m = without ys (without xs m)"
  by (auto simp: without_def)

lemma prune_loop_effect:
  assumes "kv_laws L" "\<forall>(k, v) \<in> set entries. prefix ''block_'' k"
    "prune_loop L t entries (map BDel pend) n db = (db', batch, n', None)"
  shows "\<exists>pend'. batch = map BDel pend' \<and>
    without pend' (db_get L db') =
      without (pend @ filter (prunable t) (map fst entries)) (db_get L db) \<and>
    n' = n + length (filter (prunable t) (map fst entries))"
  using assms(2,3)
proof (induction entries arbitrary: pend n db)
  case Nil
  then show ?case by auto
next
  case (Cons e entries)
  obtain key v where e: "e = (key, v)" by (cases e)
  have p: "prefix ''block_'' key" using Cons.prems(1) e by simp
  then have trim: "trim_prefix ''block_'' key = drop 6 key"
    by (simp add: trim_prefix_def eval_nat_numeral)
  let ?sel = "prunable t key"
  let ?pend = "if ?sel then pend @ [key] else pend" and ?n = "if ?sel then n + 1 else n"
  show ?case
  proof (cases "parse_u64 (drop 6 key)")
    case None
    then have "\<not> ?sel" by (simp add: prunable_def)
    with None Cons show ?thesis by (auto simp: e trim)
  next
    case (Some h)
    then have sel: "?sel \<longleftrightarrow> h < t" using p by (simp add: prunable_def)
    show ?thesis
    proof (cases "100 \<le> length ?pend")
      case False
      then have "prune_loop L t entries (map BDel ?pend) ?n db = (db', batch, n', None)"
        using Cons.prems(2) Some sel by (auto simp: e trim split: if_splits)
      from Cons.IH [OF _ this] Cons.prems(1) show ?thesis by (auto simp: e)
    next
      case True
      then obtain db1 where w: "db_write L (map BDel ?pend) db = (db1, None)"
          and rest: "prune_loop L t entries (map BDel []) ?n db1 = (db', batch, n', None)"
        using Cons.prems(2) Some sel by (auto simp: e trim split: if_splits prod.splits option.splits)
      have "db_get L db1 = without ?pend (db_get L db)"
        using kv_write [OF assms(1) w] by (simp add: batch_effect_dels without_def)
      with Cons.IH [OF _ rest] Cons.prems(1) show ?thesis by (auto simp: e without_append [symmetric])
    qed
  qed
qed

lemma prune_effect:
  assumes "kv_laws L" "db_iter_err L db ''block_'' = None" "PruneOldBlocks L f sp db = (db', n, None)"
    "f \<noteq> 0" "sp_retentionBlocks sp < f"
  shows "db_get L db' k = (if prunable (f - sp_retentionBlocks sp) k then None else db_get L db k)"
    "n = card {k. prunable (f - sp_retentionBlocks sp) k \<and> db_get L db k \<noteq> None}"
proof -
  let ?t = "f - sp_retentionBlocks sp" and ?es = "db_iter L db ''block_''"
  let ?ks = "filter (prunable ?t) (map fst ?es)"
  have es: "set ?es = {(k, v). prefix ''block_'' k \<and> db_get L db k = Some v}" "distinct (map fst ?es)"
    using kv_iter [OF assms(1,2)] kv_iter_distinct [OF assms(1,2)] by auto
  obtain db1 batch m e1 where l0: "prune_loop L ?t ?es [] 0 db = (db1, batch, m, e1)"
    by (cases "prune_loop L ?t ?es [] 0 db")
  have nle: "\<not> f \<le> sp_retentionBlocks sp" using assms(5) by simp
  have "e1 = None" using assms(3,4) l0 nle by (cases e1) (simp_all add: PruneOldBlocks_def)
  then have loop: "prune_loop L ?t ?es (map BDel []) 0 db = (db1, batch, m, None)" using l0 by simp
  have fin: "n = m \<and> (if batch = [] then db' = db1 else db_write L batch db1 = (db', None))"
    using assms(3,4) loop nle
    by (cases "db_write L batch db1"; cases "snd (db_write L batch db1)"; cases "batch = []")
      (auto simp: PruneOldBlocks_def)
  have pre: "\<forall>(k, v) \<in> set ?es. prefix ''block_'' k" using es(1) by auto
  obtain pend where pend: "batch = map BDel pend" "without pend (db_get L db1) = without ?ks (db_get L db)" "m = length ?ks"
    using prune_loop_effect [OF assms(1) pre loop] by auto
  have "db_get L db' = without pend (db_get L db1)"
  proof (cases "pend = []")
    case True
    then show ?thesis using fin pend(1) by (simp add: without_def)
  next
    case False
    then have "db_write L (map BDel pend) db1 = (db', None)" using fin pend(1) by simp
    from kv_write [OF assms(1) this] show ?thesis by (simp add: batch_effect_dels without_def)
  qed
  then have get: "db_get L db' = without ?ks (db_get L db)" "n = length ?ks" using pend fin by simp_all
  have ks: "set ?ks = {k. prunable ?t k \<and> db_get L db k \<noteq> None}"
  proof -
    have "fst ` set ?es = {k. prefix ''block_'' k \<and> db_get L db k \<noteq> None}"
      unfolding es(1) by (auto simp: image_iff)
    moreover have "prunable ?t k \<Longrightarrow> prefix ''block_'' k" for k by (simp add: prunable_def)
    ultimately show ?thesis by (simp only: set_filter set_map) blast
  qed
  show "db_get L db' k = (if prunable ?t k then None else db_get L db k)"
    using get(1) ks by (auto simp: without_def)
  show "n = card {k. prunable ?t k \<and> db_get L db k \<noteq> None}"
    unfolding get(2) ks [symmetric] using es(2) by (intro distinct_card [symmetric] distinct_filter)
qed

section \<open>Properties\<close>

text \<open>
  C24: Pruning never touches what a fork or the finality rule still needs: a pruning run that
  reports no error has deleted exactly the blocks below \<open>finalizedHeight - retentionBlocks\<close>, across
  all its batches, and reports their number; every block from that height on and every entry
  that is not a block reads as before; without a finalized checkpoint beyond the retention it
  deletes nothing.
\<close>

theorem prune_safety:
  assumes "kv_laws L" "db_iter_err L db ''block_'' = None"
    "PruneOldBlocks L (GetLastFinalizedHeight cm) sp db = (db', n, None)"
  shows "if GetLastFinalizedHeight cm \<le> sp_retentionBlocks sp then db' = db \<and> n = 0
    else (\<forall>h. db_get L db' (block_key h) =
           (if h < GetLastFinalizedHeight cm - sp_retentionBlocks sp then None else db_get L db (block_key h))) \<and>
      (\<forall>k. \<not> prefix ''block_'' k \<longrightarrow> db_get L db' k = db_get L db k) \<and>
      n = card {k. prunable (GetLastFinalizedHeight cm - sp_retentionBlocks sp) k \<and> db_get L db k \<noteq> None}"
proof (cases "GetLastFinalizedHeight cm \<le> sp_retentionBlocks sp")
  case True
  then show ?thesis using assms(3) by (auto simp: PruneOldBlocks_def split: if_splits)
next
  case False
  then have f: "GetLastFinalizedHeight cm \<noteq> 0" "sp_retentionBlocks sp < GetLastFinalizedHeight cm"
    by (auto simp: not_le)
  have "prunable t (block_key h) \<longleftrightarrow> h < t" for t h
    by (simp add: prunable_def block_key_def parse_dec_u64)
  moreover have "\<not> prefix ''block_'' k \<Longrightarrow> \<not> prunable t k" for t k by (simp add: prunable_def)
  ultimately show ?thesis using prune_effect [OF assms f] False by simp
qed

theorem prune_safety_witness:
  "db_get memdb_ops (fst (PruneOldBlocks memdb_ops (GetLastFinalizedHeight (demo_cm\<lparr>cm_finalizedHeight := 300\<rparr>))
     \<lparr>sp_retentionBlocks = 100, sp_retentionTime = 0\<rparr> [(block_key 5, [1]), (block_key 250, [2])])) (block_key 250) = Some [2]"
proof -
  let ?sp = "\<lparr>sp_retentionBlocks = 100, sp_retentionTime = 0\<rparr>" and ?db = "[(block_key 5, [1]), (block_key 250, [2])]"
  obtain db' n e where p: "PruneOldBlocks memdb_ops (GetLastFinalizedHeight (demo_cm\<lparr>cm_finalizedHeight := 300\<rparr>)) ?sp ?db = (db', n, e)"
    by (cases "PruneOldBlocks memdb_ops (GetLastFinalizedHeight (demo_cm\<lparr>cm_finalizedHeight := 300\<rparr>)) ?sp ?db")
  have w: "db_write memdb_ops b d = (mem_write b d, None)" for b d by (simp add: memdb_ops_def)
  have noerr: "prune_loop memdb_ops t es b m d = (d', b', m', x) \<Longrightarrow> x = None" for t es b m d d' b' m' x
    by (induction memdb_ops t es b m d rule: prune_loop.induct) (auto simp: w Let_def split: option.splits if_splits)
  have "e = None" using p
    by (auto simp: PruneOldBlocks_def w Let_def memdb_ops_def [THEN arg_cong, of db_iter_err] split: if_splits prod.splits option.splits dest: noerr)
  then show ?thesis
    using prune_safety [OF memdb_laws _ p [unfolded \<open>e = None\<close>]] p
    by (simp add: GetLastFinalizedHeight_def memdb_ops_def block_key_inj)
qed

end
