(* ===== verification/Governance.thy ===== *)
theory Governance
  imports Quorum
begin

text \<open>
  Governance proposals (\<open>pkg/consensus/governance.go\<close>): submission, voting, tally and the removal
  of validators. The string under a proposal's ID holds the clock in nanoseconds, the argument
  \<open>nano\<close>, in decimal.
\<close>

section \<open>State and operations\<close>

datatype ProposalStatus = Proposed | Voting_Phase | Passed | Failed

record Proposal =
  pr_ID :: string
  pr_Title :: string
  pr_Content :: string
  pr_AuthorID :: string
  pr_CreatedAt :: gotime
  pr_Votes :: "(string, bool) gomap"
  pr_Status :: ProposalStatus
  pr_VoteCount :: int

record Governance =
  gv_proposals :: "(string, Proposal) gomap"
  gv_activeValidators :: "(string, bool) gomap"

definition generateProposalID :: "int \<Rightarrow> string \<Rightarrow> string \<Rightarrow> string" where
  "generateProposalID nano title authorID =
     hex (sha256 (bytes_of (title @ ''-'' @ authorID @ ''-'' @ dec_int nano)))"

definition NewGovernance :: "(string, ValidatorInfo) gomap \<Rightarrow> Governance" where
  "NewGovernance validators = \<lparr>gv_proposals = [],
     gv_activeValidators = mmap (\<lambda>_ _. True) (mkeep (\<lambda>_ v. v_IsActive v) validators)\<rparr>"

definition is_active :: "Governance \<Rightarrow> string \<Rightarrow> bool" where
  "is_active g i = (mget (gv_activeValidators g) i = Some True)"

definition SubmitProposal ::
  "int \<Rightarrow> gotime \<Rightarrow> string \<Rightarrow> string \<Rightarrow> string \<Rightarrow> Governance \<Rightarrow> Governance \<times> Proposal res" where
  "SubmitProposal nano now title content authorID g =
     (if \<not> is_active g authorID then (g, Inl (Error ''only active validators can submit proposals''))
      else let p = \<lparr>pr_ID = generateProposalID nano title authorID, pr_Title = title, pr_Content = content,
             pr_AuthorID = authorID, pr_CreatedAt = now, pr_Votes = [], pr_Status = Proposed, pr_VoteCount = 0\<rparr>
        in (g\<lparr>gv_proposals := mput (pr_ID p) p (gv_proposals g)\<rparr>, Inr p))"

definition Vote_Proposal :: "string \<Rightarrow> string \<Rightarrow> bool \<Rightarrow> Governance \<Rightarrow> Governance \<times> unit res" where
  "Vote_Proposal proposalID validatorID vote g =
     (case mget (gv_proposals g) proposalID of
        None \<Rightarrow> (g, Inl (Error ''proposal not found''))
      | Some p \<Rightarrow>
          if pr_Status p \<noteq> Voting_Phase then (g, Inl (Error ''proposal is not in voting phase''))
          else if \<not> is_active g validatorID then (g, Inl (Error ''only active validators can vote''))
          else if mhas (pr_Votes p) validatorID then (g, Inl (Error ''validator has already voted''))
          else (g\<lparr>gv_proposals := mput proposalID
                  (p\<lparr>pr_Votes := mput validatorID vote (pr_Votes p), pr_VoteCount := pr_VoteCount p + 1\<rparr>)
                  (gv_proposals g)\<rparr>, Inr ()))"

definition TallyVotes :: "string \<Rightarrow> Governance \<Rightarrow> Governance \<times> bool res" where
  "TallyVotes proposalID g =
     (case mget (gv_proposals g) proposalID of
        None \<Rightarrow> (g, Inl (Error ''proposal not found''))
      | Some p \<Rightarrow>
          (let totalActiveValidators = mlen (gv_activeValidators g);
               set_status = (\<lambda>s. g\<lparr>gv_proposals := mput proposalID (p\<lparr>pr_Status := s\<rparr>) (gv_proposals g)\<rparr>)
           in if totalActiveValidators = 0 then (set_status Failed, Inl (Error ''no active validators to vote''))
              else let yesVotes = length (filter snd (pr_Votes p));
                       requiredVotes = f_mul (f_of_int (int totalActiveValidators)) SupermajorityThreshold
                   in if f_le requiredVotes (f_of_int (int yesVotes)) then (set_status Passed, Inr True)
                      else (set_status Failed, Inr False)))"

definition RevokeValidatorStatus :: "string \<Rightarrow> Governance \<Rightarrow> Governance \<times> unit res" where
  "RevokeValidatorStatus validatorID g =
     (if \<not> is_active g validatorID then (g, Inl (Error ''validator is not active''))
      else (g\<lparr>gv_activeValidators := mdel validatorID (gv_activeValidators g)\<rparr>, Inr ()))"

section \<open>Reachable states\<close>

inductive gov_reachable :: "Governance \<Rightarrow> bool" where
  gov_new: "gov_reachable (NewGovernance validators)"
| gov_submit: "gov_reachable g \<Longrightarrow> gov_reachable (fst (SubmitProposal nano now title content author g))"
| gov_vote: "gov_reachable g \<Longrightarrow> gov_reachable (fst (Vote_Proposal p v vote g))"
| gov_tally: "gov_reachable g \<Longrightarrow> gov_reachable (fst (TallyVotes p g))"
| gov_revoke: "gov_reachable g \<Longrightarrow> gov_reachable (fst (RevokeValidatorStatus v g))"

definition never_open :: "Governance \<Rightarrow> bool" where
  "never_open g = (\<forall>(i, p) \<in> set (gv_proposals g). pr_Status p \<noteq> Voting_Phase \<and> pr_Votes p = [])"

lemma never_open_put: "never_open g \<Longrightarrow> pr_Status p \<noteq> Voting_Phase \<Longrightarrow> pr_Votes p = [] \<Longrightarrow>
    never_open (g\<lparr>gv_proposals := mput i p (gv_proposals g)\<rparr>)"
  unfolding never_open_def using set_mput_subset [of i p "gv_proposals g"] by auto

lemma never_open_get: "never_open g \<Longrightarrow> mget (gv_proposals g) i = Some p \<Longrightarrow>
    pr_Status p \<noteq> Voting_Phase \<and> pr_Votes p = []"
  by (auto simp: never_open_def dest!: mget_in_set)

lemma never_open_reachable: "gov_reachable g \<Longrightarrow> never_open g"
proof (induction rule: gov_reachable.induct)
  case (gov_new validators)
  then show ?case by (simp add: never_open_def NewGovernance_def)
next
  case (gov_submit g nano now title content author)
  then show ?case by (simp add: SubmitProposal_def Let_def never_open_put)
next
  case (gov_vote g p v vote)
  then show ?case using never_open_get by (auto simp: Vote_Proposal_def split: option.splits)
next
  case (gov_tally g p)
  then show ?case using never_open_get
    by (auto simp: TallyVotes_def Let_def intro!: never_open_put split: option.splits)
next
  case (gov_revoke g v)
  then show ?case by (simp add: RevokeValidatorStatus_def never_open_def)
qed

text \<open>The float threshold of at least one validator is positive.\<close>

lemma threshold_positive:
  assumes "1 \<le> n" "n \<le> 2 ^ 53"
  shows "\<not> f_le (f_mul (f_of_int n) SupermajorityThreshold) (f_of_int 0)"
proof -
  define l where "l = (7656119366529843 / 2 ^ 53 :: rat)"
  have thr: "SupermajorityThreshold = Fin l" unfolding SupermajorityThreshold_def l_def by (rule lit_85)
  have "rnd_val l = l"
    by (rule rnd_val_exact [of l 7656119366529843 "- 53"]) (simp_all add: l_def pow2_def)
  then have "0 < rnd_val l" by (simp add: l_def)
  moreover have l0: "0 < l" by (simp add: l_def)
  moreover have "1 * l \<le> of_int n * l" using assms(1) l0 by (intro mult_right_mono) auto
  ultimately have "0 < rnd_val (of_int n * l)" using rnd_val_mono [of l "of_int n * l"] by simp
  moreover have "f_of_int n = Fin (of_int n)" using assms by (intro f_of_int_exact) simp
  moreover have "0 \<le> of_int n * l" using assms(1) l0 by (intro mult_nonneg_nonneg) auto
  ultimately show ?thesis by (simp add: thr f_le_def rnd_eq not_less)
qed

section \<open>Properties\<close>

text \<open>
  C29: No proposal can ever pass: in every state reached by the operations of the package no
  proposal is in the voting phase, because no operation enters it, so every vote is rejected,
  and every tally of a proposal with at least one active validator records a failure.
\<close>

theorem governance_cannot_pass:
  assumes "gov_reachable g" "mlen (gv_activeValidators g) \<le> 2 ^ 53"
  shows "(\<exists>e. Vote_Proposal p v vote g = (g, Inl (Error e))) \<and>
    snd (TallyVotes p g) \<noteq> Inr True \<and>
    (\<forall>q. mget (gv_proposals (fst (TallyVotes p g))) p = Some q \<longrightarrow> pr_Status q = Failed)"
proof -
  have no: "never_open g" by (rule never_open_reachable [OF assms(1)])
  have n: "0 < mlen (gv_activeValidators g) \<Longrightarrow>
      \<not> f_le (f_mul (f_of_int (int (mlen (gv_activeValidators g)))) SupermajorityThreshold) (f_of_int 0)"
    using assms(2) by (intro threshold_positive) auto
  show ?thesis
  proof (cases "mget (gv_proposals g) p")
    case None
    then show ?thesis by (simp add: Vote_Proposal_def TallyVotes_def)
  next
    case (Some q)
    then have "pr_Status q \<noteq> Voting_Phase" "pr_Votes q = []" using never_open_get [OF no] by simp_all
    then show ?thesis using Some n
      by (cases "mlen (gv_activeValidators g) = 0")
        (simp_all add: Vote_Proposal_def TallyVotes_def Let_def mget_mput del: f_of_int_exact)
  qed
qed

theorem governance_cannot_pass_witness:
  "\<exists>validators p. gov_reachable (fst (SubmitProposal 0 0 ''t'' ''c'' ''v'' (NewGovernance validators))) \<and>
     mget (gv_proposals (fst (SubmitProposal 0 0 ''t'' ''c'' ''v'' (NewGovernance validators)))) p \<noteq> None \<and>
     snd (TallyVotes p (fst (SubmitProposal 0 0 ''t'' ''c'' ''v'' (NewGovernance validators)))) \<noteq> Inr True"
proof -
  have a: "is_active (NewGovernance [(''v'', demo_info)]) ''v''"
    by (simp add: is_active_def NewGovernance_def mkeep_def mmap_def demo_info_def)
  let ?g = "fst (SubmitProposal 0 0 ''t'' ''c'' ''v'' (NewGovernance [(''v'', demo_info)]))"
  have r: "gov_reachable ?g" by (rule gov_submit [OF gov_new])
  have m: "mlen (gv_activeValidators ?g) \<le> 2 ^ 53" "mget (gv_proposals ?g) (generateProposalID 0 ''t'' ''v'') \<noteq> None"
    using a by (simp_all add: SubmitProposal_def Let_def NewGovernance_def mkeep_def mmap_def mlen_def mget_mput demo_info_def)
  show ?thesis using governance_cannot_pass [OF r m(1)] r m(2) by blast
qed

end
