(* ===== verification/Voting.thy ===== *)
theory Voting
  imports Quorum Store
begin

text \<open>
  Block voting (\<open>pkg/consensus/voting.go\<close>, \<open>pkg/consensus/vote_replay_protection.go\<close>): voting
  sessions, the vote handler with its guards, finality, replay protection and persistence.

  Parameters (\<open>voting_env\<close>): \<open>ecdsa.Verify\<close>, the square root of the legacy key format, the
  database and the JSON codec of votes, and the validator state. The type \<open>blockchain.State\<close>
  is not in the repository; the two reads made here are the record \<open>state_view\<close>. Each reading
  of the clock is an argument.
\<close>

section \<open>State\<close>

record Vote =
  vt_BlockHash :: bytes
  vt_ValidatorID :: string
  vt_Signature :: bytes
  vt_Timestamp :: gotime
  vt_VoteID :: string

record VotingSession =
  vs_BlockHash :: bytes
  vs_Votes :: "(string, Vote) gomap"
  vs_TotalValidators :: int
  vs_RequiredVotes :: int
  vs_StartTime :: gotime
  vs_VotingDeadline :: gotime
  vs_IsFinalized :: bool
  vs_FinalityAchievedAt :: gotime

record 'db VotingManager =
  vm_sessions :: "(string, VotingSession) gomap"
  vm_db :: "'db option"
  vm_processedVotes :: "(string, bool) gomap"

record state_view =
  sv_active :: "string list"
  sv_validator :: "string \<Rightarrow> ValidatorInfo res"

record 'db voting_env =
  ve_state :: "state_view option"
  ve_verify :: "PublicKey \<Rightarrow> bytes \<Rightarrow> nat \<Rightarrow> nat \<Rightarrow> bool"
  ve_modsqrt :: "int \<Rightarrow> nat \<Rightarrow> nat"
  ve_ldb :: "'db leveldb"
  ve_enc :: "Vote encoder"
  ve_dec :: "Vote decoder"

section \<open>Vote identifiers and signatures\<close>

definition generateVoteID :: "bytes \<Rightarrow> string \<Rightarrow> string" where
  "generateVoteID blockHash validatorID = hex (sha256 (blockHash @ bytes_of validatorID))"

definition CreateVoteMessage :: "bytes \<Rightarrow> string \<Rightarrow> bytes" where
  "CreateVoteMessage blockHash validatorID = sha256 (blockHash @ bytes_of validatorID)"

text \<open>\<open>ecdsa.Sign\<close> with its random reader is the argument \<open>sign\<close>.\<close>

definition SignVote :: "(bytes \<Rightarrow> (nat \<times> nat) res) \<Rightarrow> bytes \<Rightarrow> bytes res" where
  "SignVote sign blockHash = (case sign blockHash of
       Inl (Panic p) \<Rightarrow> Inl (Panic p)
     | Inl (Error _) \<Rightarrow> Inl (Error ''failed to sign vote'')
     | Inr (r, s) \<Rightarrow> Inr (be_bytes r @ be_bytes s))"

definition VerifyVote :: "(PublicKey \<Rightarrow> bytes \<Rightarrow> nat \<Rightarrow> nat \<Rightarrow> bool) \<Rightarrow> Vote \<Rightarrow> PublicKey \<Rightarrow> bool" where
  "VerifyVote verify vote publicKey =
     (if length (vt_Signature vote) < 32 then False
      else let half = length (vt_Signature vote) div 2;
               r = be_val (take half (vt_Signature vote));
               s = be_val (drop half (vt_Signature vote))
           in verify publicKey (vt_BlockHash vote) r s)"

section \<open>Persistence\<close>

definition vote_key :: "string \<Rightarrow> string" where
  "vote_key voteID = ''vote_'' @ voteID"

definition processed :: "'db VotingManager \<Rightarrow> string \<Rightarrow> bool" where
  "processed vm voteID = (mget (vm_processedVotes vm) voteID = Some True)"

definition MarkVoteProcessed :: "string \<Rightarrow> 'db VotingManager \<Rightarrow> 'db VotingManager" where
  "MarkVoteProcessed voteID vm = vm\<lparr>vm_processedVotes := mput voteID True (vm_processedVotes vm)\<rparr>"

definition IsVoteProcessed :: "bytes \<Rightarrow> string \<Rightarrow> 'db VotingManager \<Rightarrow> bool" where
  "IsVoteProcessed blockHash validatorID vm = processed vm (generateVoteID blockHash validatorID)"

definition PersistVote ::
  "'db voting_env \<Rightarrow> Vote \<Rightarrow> 'db VotingManager \<Rightarrow> 'db VotingManager \<times> unit res" where
  "PersistVote env vote vm =
     (case vm_db vm of
        None \<Rightarrow> (vm, Inl (Error ''database not initialized''))
      | Some d \<Rightarrow> (case ve_enc env vote of
            Inl _ \<Rightarrow> (vm, Inl (Error ''failed to marshal vote''))
          | Inr voteBytes \<Rightarrow>
              (case db_put (ve_ldb env) (vote_key (vt_VoteID vote)) voteBytes d of
                 (d', Some _) \<Rightarrow> (vm\<lparr>vm_db := Some d'\<rparr>, Inl (Error ''failed to persist vote''))
               | (d', None) \<Rightarrow> (vm\<lparr>vm_db := Some d'\<rparr>, Inr ()))))"

definition DeleteVoteFromDB ::
  "'db voting_env \<Rightarrow> string \<Rightarrow> 'db VotingManager \<Rightarrow> 'db VotingManager \<times> unit res" where
  "DeleteVoteFromDB env voteID vm =
     (case vm_db vm of
        None \<Rightarrow> (vm, Inr ())
      | Some d \<Rightarrow>
          (case db_del (ve_ldb env) (vote_key voteID) d of
             (d', Some _) \<Rightarrow> (vm\<lparr>vm_db := Some d'\<rparr>, Inl (Error ''failed to delete vote''))
           | (d', None) \<Rightarrow> (vm\<lparr>vm_db := Some d'\<rparr>, Inr ())))"

text \<open>
  The loop of \<open>LoadProcessedVotes\<close>. A legacy entry is deleted and rewritten under its
  deterministic ID; the results of these two writes are ignored, as is that of the marshalling.
\<close>

definition migrate_vote :: "'db voting_env \<Rightarrow> Vote \<Rightarrow> 'db \<Rightarrow> 'db" where
  "migrate_vote env vote d =
     (let correctVoteID = generateVoteID (vt_BlockHash vote) (vt_ValidatorID vote);
          d1 = fst (db_del (ve_ldb env) (vote_key (vt_VoteID vote)) d);
          voteBytes = (case ve_enc env (vote\<lparr>vt_VoteID := correctVoteID\<rparr>) of Inl _ \<Rightarrow> [] | Inr bs \<Rightarrow> bs)
      in fst (db_put (ve_ldb env) (vote_key correctVoteID) voteBytes d1))"

fun load_loop :: "'db voting_env \<Rightarrow> (string \<times> bytes) list \<Rightarrow> (string, bool) gomap \<times> 'db
    \<Rightarrow> (string, bool) gomap \<times> 'db" where
  "load_loop env [] (pv, d) = (pv, d)"
| "load_loop env ((k, v) # entries) (pv, d) =
     (case ve_dec env v of
        Inl _ \<Rightarrow> load_loop env entries (pv, d)
      | Inr vote \<Rightarrow>
          (let correctVoteID = generateVoteID (vt_BlockHash vote) (vt_ValidatorID vote);
               pv' = mput correctVoteID True (mput (vt_VoteID vote) True pv);
               d' = (if vt_VoteID vote \<noteq> correctVoteID then migrate_vote env vote d else d)
           in load_loop env entries (pv', d')))"

definition LoadProcessedVotes :: "'db voting_env \<Rightarrow> 'db VotingManager \<Rightarrow> 'db VotingManager \<times> unit res" where
  "LoadProcessedVotes env vm =
     (case vm_db vm of
        None \<Rightarrow> (vm, Inl (Error ''database not initialized''))
      | Some d \<Rightarrow>
          (case load_loop env (db_iter (ve_ldb env) d ''vote_'') (vm_processedVotes vm, d) of
             (pv, d') \<Rightarrow> (vm\<lparr>vm_processedVotes := pv, vm_db := Some d'\<rparr>,
                (case db_iter_err (ve_ldb env) d ''vote_'' of
                   None \<Rightarrow> Inr () | Some _ \<Rightarrow> Inl (Error ''error iterating votes'')))))"

definition NewVotingManager :: "'db voting_env \<Rightarrow> 'db option \<Rightarrow> 'db VotingManager" where
  "NewVotingManager env db =
     (let vm = \<lparr>vm_sessions = [], vm_db = db, vm_processedVotes = []\<rparr>
      in if db = None then vm else fst (LoadProcessedVotes env vm))"

section \<open>Sessions\<close>

text \<open>The error message of a duplicate session slices the hexadecimal hash to 8 characters.\<close>

definition StartVotingSession ::
  "gotime \<Rightarrow> gotime \<Rightarrow> bytes \<Rightarrow> int \<Rightarrow> 'db VotingManager \<Rightarrow> 'db VotingManager \<times> VotingSession res" where
  "StartVotingSession now1 now2 blockHash totalValidators vm =
     (let blockHashStr = hex blockHash in
      if mhas (vm_sessions vm) blockHashStr then
        (vm, (case slice_to 8 blockHashStr of
                Inl e \<Rightarrow> Inl e | Inr _ \<Rightarrow> Inl (Error ''voting session already exists'')))
      else
        let session = \<lparr>vs_BlockHash = blockHash, vs_Votes = [], vs_TotalValidators = totalValidators,
              vs_RequiredVotes = required_votes totalValidators, vs_StartTime = now1,
              vs_VotingDeadline = now2 + VerificationVotingPhase, vs_IsFinalized = False,
              vs_FinalityAchievedAt = zero_time\<rparr>
        in (vm\<lparr>vm_sessions := mput blockHashStr session (vm_sessions vm)\<rparr>, Inr session))"

text \<open>The checks of \<open>CastVote\<close> against the validator state; \<open>None\<close> lets the vote through.\<close>

definition state_check :: "'db voting_env \<Rightarrow> Vote \<Rightarrow> fail option" where
  "state_check env vote =
     (case ve_state env of
        None \<Rightarrow> None
      | Some st \<Rightarrow>
          (if vt_ValidatorID vote \<notin> set (sv_active st)
           then Some (Error ''validator is not in active validator set'')
           else case sv_validator st (vt_ValidatorID vote) of
              Inl _ \<Rightarrow> Some (Error ''failed to get validator info'')
            | Inr validatorInfo \<Rightarrow>
                if v_IsSuspended validatorInfo then Some (Error ''validator is suspended (observer mode)'')
                else (case DecodeECDSAPublicKey (ve_modsqrt env) (v_PublicKey validatorInfo) of
                   Inl _ \<Rightarrow> Some (Error ''failed to decode validator public key'')
                 | Inr publicKey \<Rightarrow>
                     if VerifyVote (ve_verify env) vote publicKey then None
                     else Some (Error ''invalid vote signature''))))"

text \<open>The bookkeeping at the end of \<open>CastVote\<close>; a failure to persist is only logged.\<close>

definition record_vote ::
  "'db voting_env \<Rightarrow> gotime \<Rightarrow> Vote \<Rightarrow> VotingSession \<Rightarrow> 'db VotingManager \<Rightarrow> 'db VotingManager" where
  "record_vote env now vote session vm =
     (let session1 = session\<lparr>vs_Votes := mput (vt_ValidatorID vote) vote (vs_Votes session)\<rparr>;
          session2 = (if int (mlen (vs_Votes session1)) \<ge> vs_RequiredVotes session1 \<and> \<not> vs_IsFinalized session1
                      then session1\<lparr>vs_IsFinalized := True, vs_FinalityAchievedAt := now\<rparr> else session1);
          vm1 = fst (PersistVote env vote vm);
          vm2 = vm1\<lparr>vm_processedVotes := mput (vt_VoteID vote) True (vm_processedVotes vm1)\<rparr>
      in vm2\<lparr>vm_sessions := mput (hex (vt_BlockHash vote)) session2 (vm_sessions vm2)\<rparr>)"

definition CastVote ::
  "'db voting_env \<Rightarrow> gotime \<Rightarrow> gotime \<Rightarrow> gotime \<Rightarrow> bytes \<Rightarrow> string \<Rightarrow> bytes \<Rightarrow> 'db VotingManager
    \<Rightarrow> 'db VotingManager \<times> unit res" where
  "CastVote env now1 now2 now3 blockHash validatorID signature vm =
     (case mget (vm_sessions vm) (hex blockHash) of
        None \<Rightarrow> (vm, (case slice_to 8 (hex blockHash) of
                   Inl e \<Rightarrow> Inl e | Inr _ \<Rightarrow> Inl (Error ''no voting session found'')))
      | Some session \<Rightarrow>
          if vs_IsFinalized session then (vm, Inl (Error ''voting session already finalized''))
          else if now1 > vs_VotingDeadline session then (vm, Inl (Error ''voting deadline exceeded''))
          else if mhas (vs_Votes session) validatorID
            then (vm, Inl (Error ''validator has already voted in this session''))
          else let voteID = generateVoteID blockHash validatorID in
            if processed vm voteID then (vm, Inl (Error ''replay attack detected''))
            else let vote = \<lparr>vt_BlockHash = blockHash, vt_ValidatorID = validatorID,
                       vt_Signature = signature, vt_Timestamp = now2, vt_VoteID = voteID\<rparr>
              in case state_check env vote of
                   Some e \<Rightarrow> (vm, Inl e)
                 | None \<Rightarrow> (record_vote env now3 vote session vm, Inr ()))"

definition CheckFinality :: "bytes \<Rightarrow> 'db VotingManager \<Rightarrow> (bool \<times> nat) res" where
  "CheckFinality blockHash vm = (case mget (vm_sessions vm) (hex blockHash) of
       None \<Rightarrow> Inl (Error ''no voting session found'')
     | Some session \<Rightarrow> Inr (vs_IsFinalized session, mlen (vs_Votes session)))"

definition GetVotes :: "bytes \<Rightarrow> 'db VotingManager \<Rightarrow> Vote list res" where
  "GetVotes blockHash vm = (case mget (vm_sessions vm) (hex blockHash) of
       None \<Rightarrow> Inl (Error ''no voting session found'')
     | Some session \<Rightarrow> Inr (map snd (vs_Votes session)))"

definition CleanupOldSessions :: "gotime \<Rightarrow> duration \<Rightarrow> 'db VotingManager \<Rightarrow> 'db VotingManager" where
  "CleanupOldSessions now maxAge vm =
     vm\<lparr>vm_sessions := mkeep (\<lambda>_ s. \<not> time_sub now (vs_StartTime s) > maxAge) (vm_sessions vm)\<rparr>"

text \<open>
  \<open>CleanupOldVotes\<close>: the inner loop forgets the votes of one session in memory and in the
  database; its two height arguments are not used by the code.
\<close>

fun forget_votes :: "'db voting_env \<Rightarrow> Vote list \<Rightarrow> 'db VotingManager \<Rightarrow> 'db VotingManager" where
  "forget_votes env [] vm = vm"
| "forget_votes env (vote # votes) vm =
     (let voteID = generateVoteID (vt_BlockHash vote) (vt_ValidatorID vote);
          vm1 = vm\<lparr>vm_processedVotes := mdel voteID (vm_processedVotes vm)\<rparr>
      in forget_votes env votes (fst (DeleteVoteFromDB env voteID vm1)))"

fun cleanup_loop :: "'db voting_env \<Rightarrow> (string \<times> VotingSession) list \<Rightarrow> 'db VotingManager \<times> nat
    \<Rightarrow> 'db VotingManager \<times> nat" where
  "cleanup_loop env [] (vm, cleaned) = (vm, cleaned)"
| "cleanup_loop env ((h, session) # rest) (vm, cleaned) =
     (if vs_IsFinalized session then
        (let vm1 = forget_votes env (map snd (vs_Votes session)) vm
         in cleanup_loop env rest (vm1\<lparr>vm_sessions := mdel h (vm_sessions vm1)\<rparr>,
              cleaned + mlen (vs_Votes session)))
      else cleanup_loop env rest (vm, cleaned))"

definition CleanupOldVotes ::
  "'db voting_env \<Rightarrow> u64 \<Rightarrow> u64 \<Rightarrow> 'db VotingManager \<Rightarrow> 'db VotingManager \<times> nat" where
  "CleanupOldVotes env currentBlockHeight keepRecentBlocks vm =
     cleanup_loop env (vm_sessions vm) (vm, 0)"

subsection \<open>FinalityTracker\<close>

type_synonym FinalityTracker = "(string, gotime) gomap"

definition MarkFinalized :: "gotime \<Rightarrow> bytes \<Rightarrow> FinalityTracker \<Rightarrow> FinalityTracker" where
  "MarkFinalized now blockHash ft = mput (hex blockHash) now ft"

definition IsFinalized :: "FinalityTracker \<Rightarrow> bytes \<Rightarrow> bool" where
  "IsFinalized ft blockHash = mhas ft (hex blockHash)"

definition GetFinalityTime :: "FinalityTracker \<Rightarrow> bytes \<Rightarrow> gotime option" where
  "GetFinalityTime ft blockHash = mget ft (hex blockHash)"

section \<open>Runs and their invariant\<close>

text \<open>
  The validator state is shared: the registry, slashing and block finalization change it between two votes, and
  \<open>SetState\<close> replaces it. A configuration is therefore the state the manager points to and the manager, and
  \<open>step_state\<close> lets any other state take its place at any time. \<open>CastVote\<close> reads the active set and the validator one after
  the other; a change between the two reads is the vote under a view that has the one from before and the other from
  after, which \<open>step_state\<close> also allows.
\<close>

type_synonym 'db voting_config = "state_view option \<times> 'db VotingManager"

definition SetState :: "state_view option \<Rightarrow> 'db voting_env \<Rightarrow> 'db voting_env" where
  "SetState st env = env\<lparr>ve_state := st\<rparr>"

inductive vote_step :: "'db voting_env \<Rightarrow> 'db voting_config \<Rightarrow> 'db voting_config \<Rightarrow> bool" for env where
  step_start: "0 \<le> tv \<Longrightarrow> tv \<le> 2 ^ 40 \<Longrightarrow>
    StartVotingSession now1 now2 blockHash tv vm = (vm', r) \<Longrightarrow> vote_step env (st, vm) (st, vm')"
| step_cast: "CastVote (SetState st env) now1 now2 now3 blockHash validatorID signature vm = (vm', r) \<Longrightarrow>
    vote_step env (st, vm) (st, vm')"
| step_mark: "vote_step env (st, vm) (st, MarkVoteProcessed voteID vm)"
| step_persist: "vote_step env (st, vm) (st, fst (PersistVote env vote vm))"
| step_delete: "vote_step env (st, vm) (st, fst (DeleteVoteFromDB env voteID vm))"
| step_load: "vote_step env (st, vm) (st, fst (LoadProcessedVotes env vm))"
| step_cleanup_sessions: "vote_step env (st, vm) (st, CleanupOldSessions now maxAge vm)"
| step_cleanup_votes: "CleanupOldVotes env height keep vm = (vm', n) \<Longrightarrow> vote_step env (st, vm) (st, vm')"
| step_state: "vote_step env (st, vm) (st', vm)"

text \<open>A run, the present configuration first.\<close>

inductive voting_run :: "'db voting_env \<Rightarrow> 'db voting_config list \<Rightarrow> bool" for env where
  run_start: "voting_run env [(st, NewVotingManager env db)]"
| run_step: "voting_run env (c # cs) \<Longrightarrow> vote_step env c c' \<Longrightarrow> voting_run env (c' # c # cs)"

text \<open>Somewhere in the run the vote was cast and accepted, and it passed the checks against the state of that moment.\<close>

definition cast_in :: "'db voting_env \<Rightarrow> 'db voting_config list \<Rightarrow> Vote \<Rightarrow> bool" where
  "cast_in env run vote \<longleftrightarrow> (\<exists>later st vm' vm earlier now1 now3. run = later @ (st, vm') # (st, vm) # earlier \<and>
     CastVote (SetState st env) now1 (vt_Timestamp vote) now3 (vt_BlockHash vote) (vt_ValidatorID vote) (vt_Signature vote) vm =
       (vm', Inr ()) \<and>
     state_check (SetState st env) vote = None)"

text \<open>What a vote of a session satisfies is a parameter of the invariant.\<close>

definition vote_ok :: "(Vote \<Rightarrow> bool) \<Rightarrow> VotingSession \<Rightarrow> string \<Rightarrow> Vote \<Rightarrow> bool" where
  "vote_ok P s v vote = (vt_ValidatorID vote = v \<and> vt_BlockHash vote = vs_BlockHash s \<and>
     vt_VoteID vote = generateVoteID (vs_BlockHash s) v \<and> P vote)"

definition session_ok :: "(Vote \<Rightarrow> bool) \<Rightarrow> string \<Rightarrow> VotingSession \<Rightarrow> bool" where
  "session_ok P h s = (h = hex (vs_BlockHash s) \<and> wf_map (vs_Votes s) \<and>
     0 \<le> vs_TotalValidators s \<and> vs_TotalValidators s \<le> 2 ^ 40 \<and>
     vs_RequiredVotes s = required_votes (vs_TotalValidators s) \<and>
     int (mlen (vs_Votes s)) \<le> vs_RequiredVotes s \<and>
     (vs_IsFinalized s \<longleftrightarrow> int (mlen (vs_Votes s)) = vs_RequiredVotes s) \<and>
     (\<forall>(v, vote) \<in> set (vs_Votes s). vote_ok P s v vote))"

definition vm_ok :: "(Vote \<Rightarrow> bool) \<Rightarrow> 'db VotingManager \<Rightarrow> bool" where
  "vm_ok P vm = (wf_map (vm_sessions vm) \<and> (\<forall>(h, s) \<in> set (vm_sessions vm). session_ok P h s))"

definition vm_inv :: "'db voting_env \<Rightarrow> 'db VotingManager \<Rightarrow> bool" where
  "vm_inv env vm = vm_ok (\<lambda>vote. state_check env vote = None) vm"

lemma session_ok_mono: "session_ok P h s \<Longrightarrow> (\<And>vote. P vote \<Longrightarrow> Q vote) \<Longrightarrow> session_ok Q h s"
  unfolding session_ok_def vote_ok_def by blast

lemma vm_ok_mono: "vm_ok P vm \<Longrightarrow> (\<And>vote. P vote \<Longrightarrow> Q vote) \<Longrightarrow> vm_ok Q vm"
  unfolding vm_ok_def using session_ok_mono by blast

lemma vm_ok_mput:
  "vm_ok P vm \<Longrightarrow> session_ok P h s \<Longrightarrow> vm_ok P (vm\<lparr>vm_sessions := mput h s (vm_sessions vm)\<rparr>)"
  unfolding vm_ok_def using set_mput_subset [of h s "vm_sessions vm"] by (auto simp: wf_mput)

lemma vm_ok_mkeep: "vm_ok P vm \<Longrightarrow> vm_ok P (vm\<lparr>vm_sessions := mkeep K (vm_sessions vm)\<rparr>)"
  by (auto simp: vm_ok_def wf_mkeep)

lemma vm_ok_mdel: "vm_ok P vm \<Longrightarrow> vm_ok P (vm\<lparr>vm_sessions := mdel h (vm_sessions vm)\<rparr>)"
  unfolding vm_ok_def using set_mdel_subset [of h "vm_sessions vm"] by (auto simp: wf_mdel)

lemma vm_ok_get: "vm_ok P vm \<Longrightarrow> mget (vm_sessions vm) h = Some s \<Longrightarrow> session_ok P h s"
  by (auto simp: vm_ok_def dest!: mget_in_set)

lemma vm_ok_sessions: "vm_sessions vm' = vm_sessions vm \<Longrightarrow> vm_ok P vm' = vm_ok P vm"
  by (simp add: vm_ok_def)

lemma persist_sessions [simp]: "vm_sessions (fst (PersistVote env vote vm)) = vm_sessions vm"
  by (simp add: PersistVote_def split: option.splits sum.splits prod.splits)

lemma delete_sessions [simp]: "vm_sessions (fst (DeleteVoteFromDB env voteID vm)) = vm_sessions vm"
  by (simp add: DeleteVoteFromDB_def split: option.splits prod.splits)

lemma forget_sessions [simp]: "vm_sessions (forget_votes env votes vm) = vm_sessions vm"
  by (induction env votes vm rule: forget_votes.induct) (simp_all add: Let_def)

lemma load_sessions [simp]: "vm_sessions (fst (LoadProcessedVotes env vm)) = vm_sessions vm"
  by (simp add: LoadProcessedVotes_def split: option.splits prod.splits)

lemma new_sessions: "vm_sessions (NewVotingManager env db) = []"
  by (simp add: NewVotingManager_def LoadProcessedVotes_def Let_def split: option.splits prod.splits)

text \<open>\<open>CleanupOldVotes\<close> removes exactly the finalized sessions.\<close>

lemma cleanup_sessions:
  "cleanup_loop env ss (vm, n) = (vm', k) \<Longrightarrow>
   vm_sessions vm' = foldl (\<lambda>m (h, s). if vs_IsFinalized s then mdel h m else m) (vm_sessions vm) ss"
  by (induction env ss "(vm, n)" arbitrary: vm n rule: cleanup_loop.induct)
    (auto simp: Let_def split: if_splits)

lemma vm_ok_cleanup: "vm_ok P vm \<Longrightarrow> cleanup_loop env ss (vm, n) = (vm', k) \<Longrightarrow> vm_ok P vm'"
proof (induction env ss "(vm, n)" arbitrary: vm n rule: cleanup_loop.induct)
  case (2 env h session rest vm cleaned)
  show ?case
  proof (cases "vs_IsFinalized session")
    case True
    let ?vm1 = "forget_votes env (map snd (vs_Votes session)) vm"
    have "vm_ok P (?vm1\<lparr>vm_sessions := mdel h (vm_sessions ?vm1)\<rparr>)"
      using "2.prems"(1) by (intro vm_ok_mdel) (simp add: vm_ok_def)
    with True 2 show ?thesis by (simp add: Let_def)
  qed (use 2 in simp)
qed simp

lemma session_ok_new:
  "0 \<le> tv \<Longrightarrow> tv \<le> 2 ^ 40 \<Longrightarrow> session_ok P (hex blockHash)
    \<lparr>vs_BlockHash = blockHash, vs_Votes = [], vs_TotalValidators = tv,
     vs_RequiredVotes = required_votes tv, vs_StartTime = t, vs_VotingDeadline = d,
     vs_IsFinalized = False, vs_FinalityAchievedAt = z\<rparr>"
  using required_votes_eq [of tv] by (auto simp: session_ok_def mlen_def)

lemma session_ok_vote:
  assumes "session_ok P (hex h) s" "\<not> vs_IsFinalized s" "mget (vs_Votes s) v = None"
    "vote = \<lparr>vt_BlockHash = h, vt_ValidatorID = v, vt_Signature = sg, vt_Timestamp = t, vt_VoteID = generateVoteID h v\<rparr>"
    "P vote"
  shows "session_ok P (hex h)
    (let s1 = s\<lparr>vs_Votes := mput v vote (vs_Votes s)\<rparr>
     in if int (mlen (vs_Votes s1)) \<ge> vs_RequiredVotes s1 \<and> \<not> vs_IsFinalized s1
        then s1\<lparr>vs_IsFinalized := True, vs_FinalityAchievedAt := now\<rparr> else s1)"
proof -
  have h: "vs_BlockHash s = h" using assms(1) by (simp add: session_ok_def hex_inj)
  have old: "\<And>w vt. (w, vt) \<in> set (vs_Votes s) \<Longrightarrow> vote_ok P s w vt"
    using assms(1) by (auto simp: session_ok_def)
  have "vote_ok P s v vote" using assms(4,5) h by (simp add: vote_ok_def)
  then have all: "\<forall>(w, vt) \<in> set (mput v vote (vs_Votes s)). vote_ok P s w vt"
    using set_mput_subset [of v vote "vs_Votes s"] old by blast
  have "int (mlen (vs_Votes s)) < vs_RequiredVotes s" using assms(1,2) by (auto simp: session_ok_def)
  moreover have "mlen (mput v vote (vs_Votes s)) = Suc (mlen (vs_Votes s))" by (simp add: mlen_mput assms(3))
  ultimately show ?thesis
    using assms(1,2) all by (auto simp: session_ok_def Let_def wf_mput vote_ok_def)
qed

text \<open>What an accepted vote went through, and that a rejected one changes nothing.\<close>

lemma cast_vote_cases:
  assumes "CastVote env now1 now2 now3 h v sg vm = (vm', r)"
  obtains "vm' = vm" "r \<noteq> Inr ()"
  | s vote where "r = Inr ()" "mget (vm_sessions vm) (hex h) = Some s" "\<not> vs_IsFinalized s" "mget (vs_Votes s) v = None"
      "vote = \<lparr>vt_BlockHash = h, vt_ValidatorID = v, vt_Signature = sg, vt_Timestamp = now2, vt_VoteID = generateVoteID h v\<rparr>"
      "state_check env vote = None" "vm' = record_vote env now3 vote s vm"
proof (cases "r = Inr ()")
  case False
  then have "vm' = vm" using assms by (auto simp: CastVote_def Let_def split: option.splits if_splits)
  with False that(1) show ?thesis by blast
next
  case True
  then show ?thesis using assms that(2)
    by (auto simp: CastVote_def Let_def mhas_def split: option.splits if_splits sum.splits)
qed

lemma vm_ok_cast:
  assumes "vm_ok P vm" "CastVote env now1 now2 now3 h v sg vm = (vm', r)"
    and new: "\<And>vote. r = Inr () \<Longrightarrow>
      vote = \<lparr>vt_BlockHash = h, vt_ValidatorID = v, vt_Signature = sg, vt_Timestamp = now2, vt_VoteID = generateVoteID h v\<rparr> \<Longrightarrow>
      state_check env vote = None \<Longrightarrow> P vote"
  shows "vm_ok P vm'"
  using assms(2)
proof (cases rule: cast_vote_cases)
  case 1
  then show ?thesis using assms(1) by simp
next
  case (2 s vote)
  note ok = session_ok_vote [OF vm_ok_get [OF assms(1) 2(2)] 2(3,4,5) new [OF 2(1,5,6)], of now3]
  have "vt_ValidatorID vote = v" "vt_BlockHash vote = h" using 2(5) by simp_all
  then show ?thesis
    unfolding 2(7) record_vote_def Let_def
    using ok assms(1) by (intro vm_ok_mput) (auto simp: vm_ok_def Let_def split: if_splits)
qed

lemma vm_ok_step:
  assumes "vm_ok P vm" "vote_step env (st, vm) (st', vm')"
    and cast: "\<And>now1 now2 now3 h v sg vote. st' = st \<Longrightarrow> CastVote (SetState st env) now1 now2 now3 h v sg vm = (vm', Inr ()) \<Longrightarrow>
      vote = \<lparr>vt_BlockHash = h, vt_ValidatorID = v, vt_Signature = sg, vt_Timestamp = now2, vt_VoteID = generateVoteID h v\<rparr> \<Longrightarrow>
      state_check (SetState st env) vote = None \<Longrightarrow> P vote"
  shows "vm_ok P vm'"
  using assms(2)
proof (cases rule: vote_step.cases)
  case (step_start tv now1 now2 blockHash r)
  then show ?thesis
    using assms(1) session_ok_new [of tv P blockHash now1 "now2 + VerificationVotingPhase" zero_time]
    by (auto simp: StartVotingSession_def Let_def intro: vm_ok_mput split: if_splits)
next
  case (step_cast now1 now2 now3 blockHash validatorID signature r)
  show ?thesis by (rule vm_ok_cast [OF assms(1) step_cast(2)]) (use step_cast cast in blast)
next
  case step_cleanup_sessions
  then show ?thesis using assms(1) by (simp add: CleanupOldSessions_def vm_ok_mkeep)
next
  case step_cleanup_votes
  then show ?thesis using vm_ok_cleanup [OF assms(1)] by (simp add: CleanupOldVotes_def)
qed (use assms(1) in \<open>simp_all add: MarkVoteProcessed_def vm_ok_def\<close>)

lemma cast_in_later: "cast_in env run vote \<Longrightarrow> cast_in env (c # run) vote"
  unfolding cast_in_def by (metis append_Cons)

lemma cast_inD: "cast_in env run vote \<Longrightarrow> vt_ValidatorID vote = v \<Longrightarrow> vt_BlockHash vote = h \<Longrightarrow>
   \<exists>later st vm' vm earlier now1 now3. run = later @ (st, vm') # (st, vm) # earlier \<and>
     CastVote (SetState st env) now1 (vt_Timestamp vote) now3 h v (vt_Signature vote) vm = (vm', Inr ()) \<and>
     state_check (SetState st env) vote = None"
  unfolding cast_in_def by (elim subst)

lemma run_ok: "voting_run env run \<Longrightarrow> vm_ok (cast_in env run) (snd (hd run))"
proof (induction rule: voting_run.induct)
  case (run_start st db)
  then show ?case by (simp add: vm_ok_def new_sessions)
next
  case (run_step c cs c')
  obtain st vm st' vm' where c: "c = (st, vm)" "c' = (st', vm')" by fastforce
  have "vm_ok (cast_in env (c' # c # cs)) vm"
    by (rule vm_ok_mono [where P = "cast_in env (c # cs)"]) (use run_step.IH c cast_in_later in simp_all)
  moreover have "cast_in env (c' # c # cs) vote"
    if "st' = st" "CastVote (SetState st env) now1 now2 now3 h v sg vm = (vm', Inr ())"
      "vote = \<lparr>vt_BlockHash = h, vt_ValidatorID = v, vt_Signature = sg, vt_Timestamp = now2, vt_VoteID = generateVoteID h v\<rparr>"
      "state_check (SetState st env) vote = None" for now1 now2 now3 h v sg vote
    unfolding cast_in_def c using that
    by (intro exI [of _ "[]"] exI [of _ st] exI [of _ vm'] exI [of _ vm] exI [of _ cs] exI [of _ now1] exI [of _ now3]) simp
  ultimately have "vm_ok (cast_in env (c' # c # cs)) vm'"
    by (rule vm_ok_step [OF _ run_step.hyps(2) [unfolded c]])
  then show ?case by (simp add: c)
qed

lemma run_session: "voting_run env ((st, vm) # cs) \<Longrightarrow> mget (vm_sessions vm) h = Some s \<Longrightarrow>
    session_ok (cast_in env ((st, vm) # cs)) h s"
  using vm_ok_get [OF run_ok [of env "(st, vm) # cs"]] by simp

section \<open>More lemmas\<close>

lemma foldl_mdel:
  "wf_map m \<Longrightarrow> mget (foldl (\<lambda>m (h, s). if P s then mdel h m else m) m ss) k =
   (if \<exists>s. (k, s) \<in> set ss \<and> P s then None else mget m k)"
proof (induction ss arbitrary: m)
  case (Cons hs ss)
  then show ?case by (cases hs) (auto simp: mget_mdel wf_mdel)
qed simp

lemma cleanup_get:
  assumes "wf_map (vm_sessions vm)" "CleanupOldVotes env a b vm = (vm', n)"
  shows "mget (vm_sessions vm') h = (case mget (vm_sessions vm) h of
     Some s \<Rightarrow> if vs_IsFinalized s then None else Some s | None \<Rightarrow> None)"
proof -
  have "(\<exists>s. (h, s) \<in> set (vm_sessions vm) \<and> vs_IsFinalized s) \<longleftrightarrow>
      (\<exists>s. mget (vm_sessions vm) h = Some s \<and> vs_IsFinalized s)"
    using mget_of_set [OF assms(1)] mget_in_set by metis
  moreover have "mget (vm_sessions vm') h = (if \<exists>s. (h, s) \<in> set (vm_sessions vm) \<and> vs_IsFinalized s
      then None else mget (vm_sessions vm) h)"
    unfolding cleanup_sessions [OF assms(2) [unfolded CleanupOldVotes_def]] by (rule foldl_mdel [OF assms(1)])
  ultimately show ?thesis by (auto split: option.splits)
qed

lemma delete_processed [simp]: "vm_processedVotes (fst (DeleteVoteFromDB env voteID vm)) = vm_processedVotes vm"
  by (simp add: DeleteVoteFromDB_def split: option.splits prod.splits)

lemma forget_processed:
  "processed (forget_votes env votes vm) i \<longleftrightarrow> processed vm i \<and>
   (\<forall>vote \<in> set votes. i \<noteq> generateVoteID (vt_BlockHash vote) (vt_ValidatorID vote))"
  by (induction env votes vm rule: forget_votes.induct) (auto simp: Let_def processed_def mget_mdel)

lemma cleanup_processed:
  "cleanup_loop env ss (vm, n) = (vm', k) \<Longrightarrow> processed vm' i \<longleftrightarrow> processed vm i \<and>
   (\<forall>(h, s) \<in> set ss. vs_IsFinalized s \<longrightarrow>
      (\<forall>vote \<in> snd ` set (vs_Votes s). i \<noteq> generateVoteID (vt_BlockHash vote) (vt_ValidatorID vote)))"
proof (induction env ss "(vm, n)" arbitrary: vm n rule: cleanup_loop.induct)
  case (2 env h session rest vm cleaned)
  have mg: "processed (v\<lparr>vm_sessions := m\<rparr>) i = processed v i" for v :: "'a VotingManager" and m
    by (simp add: processed_def)
  show ?case
  proof (cases "vs_IsFinalized session")
    case True
    with 2 show ?thesis by (auto simp: Let_def mg forget_processed)
  qed (use 2 in auto)
qed simp

lemma cast_accepts:
  assumes "mget (vm_sessions vm) (hex h) = Some s" "\<not> vs_IsFinalized s" "now1 \<le> vs_VotingDeadline s"
    "mget (vs_Votes s) v = None" "\<not> processed vm (generateVoteID h v)"
    "\<And>t. state_check env \<lparr>vt_BlockHash = h, vt_ValidatorID = v, vt_Signature = sg, vt_Timestamp = t,
       vt_VoteID = generateVoteID h v\<rparr> = None"
  shows "snd (CastVote env now1 now2 now3 h v sg vm) = Inr ()"
  using assms by (simp add: CastVote_def Let_def mhas_def not_less)

lemma VerifyVote_time [simp]: "VerifyVote f (vote\<lparr>vt_Timestamp := t\<rparr>) k = VerifyVote f vote k"
  by (simp add: VerifyVote_def)

lemma state_check_time: "state_check env (vote\<lparr>vt_Timestamp := t\<rparr>) = state_check env vote"
  by (simp add: state_check_def split: option.split sum.split)

section \<open>Signature encoding\<close>

lemma be_val_append: "be_val (a @ b) = be_val a * 256 ^ length b + be_val b"
proof -
  have "foldl (\<lambda>x y. x * 256 + unat y) k b = k * 256 ^ length b + foldl (\<lambda>x y. x * 256 + unat y) 0 b"
    for k and b :: bytes
  proof (induction b arbitrary: k)
    case (Cons x b)
    show ?case unfolding foldl_Cons Cons [of "k * 256 + unat x"] Cons [of "0 * 256 + unat x"]
      by (simp add: add_mult_distrib)
  qed simp
  then show ?thesis unfolding be_val_def foldl_append by blast
qed

lemma be_val_less: "be_val bs < 256 ^ length bs"
proof (induction bs rule: rev_induct)
  case (snoc x bs)
  have "unat x < 256" using unsigned_less [of x] by simp
  then show ?case using snoc by (simp add: be_val_append) (simp add: be_val_def)
qed (simp add: be_val_def)

lemma be_bytes_ge: "0 < n \<Longrightarrow> 256 ^ (length (be_bytes n) - 1) \<le> n"
proof (induction n rule: be_bytes.induct)
  case (1 n)
  show ?case
  proof (cases "n < 256")
    case True
    then have "be_bytes n = [of_nat n]" using 1 by (simp add: be_bytes.simps [of n] be_bytes.simps [of 0])
    then show ?thesis using 1 by simp
  next
    case False
    then have d: "0 < n div 256" by (simp add: div_greater_zero_iff)
    then have "0 < length (be_bytes (n div 256))" by (subst be_bytes.simps) simp
    moreover have "length (be_bytes n) = Suc (length (be_bytes (n div 256)))"
      using False by (subst be_bytes.simps) simp
    ultimately have "256 ^ (length (be_bytes n) - 1) = 256 * 256 ^ (length (be_bytes (n div 256)) - 1)"
      by (cases "length (be_bytes (n div 256))") simp_all
    also have "\<dots> \<le> 256 * (n div 256)" using "1.IH" d False by simp
    also have "\<dots> \<le> n" by simp
    finally show ?thesis .
  qed
qed

text \<open>Splitting the concatenation at half its length gives the two numbers back only if it falls on the seam.\<close>

lemma split_sign:
  assumes "0 < r" "0 < s"
  shows "be_val (take ((length (be_bytes r) + length (be_bytes s)) div 2) (be_bytes r @ be_bytes s)) = r \<longleftrightarrow>
    length (be_bytes s) = length (be_bytes r) \<or> length (be_bytes s) = Suc (length (be_bytes r))"
    (is "be_val (take ?half ?sig) = r \<longleftrightarrow> ?seam")
proof -
  let ?lr = "length (be_bytes r)" and ?ls = "length (be_bytes s)"
  have pos: "0 < ?lr" "0 < ?ls" using assms by (subst be_bytes.simps, simp)+
  consider "?half = ?lr" | "?half < ?lr" | "?lr < ?half" by linarith
  then show ?thesis
  proof cases
    case 1
    then have "be_val (take ?half ?sig) = r" by simp
    moreover have ?seam using 1 by linarith
    ultimately show ?thesis by simp
  next
    case 2
    have "be_val (take ?half ?sig) < 256 ^ ?half"
      using be_val_less [of "take ?half ?sig"] 2 by (simp add: min_def)
    also have "\<dots> \<le> 256 ^ (?lr - 1)" using 2 by (intro power_increasing) auto
    also have "\<dots> \<le> r" by (rule be_bytes_ge [OF assms(1)])
    finally show ?thesis using 2 by auto
  next
    case 3
    then have t: "take ?half ?sig = be_bytes r @ take (?half - ?lr) (be_bytes s)" by simp
    have "length (take (?half - ?lr) (be_bytes s)) = ?half - ?lr" using 3 by simp
    then have "be_val (take ?half ?sig) \<ge> r * 256 ^ (?half - ?lr)" unfolding t be_val_append by simp
    moreover have "(256 :: nat) ^ 1 \<le> 256 ^ (?half - ?lr)" using 3 by (intro power_increasing) auto
    then have "r * 256 \<le> r * 256 ^ (?half - ?lr)" by simp
    ultimately have "be_val (take ?half ?sig) > r" using assms(1) by linarith
    then show ?thesis using 3 by auto
  qed
qed

section \<open>Persistence lemmas\<close>

lemma load_loop_keeps:
  "load_loop env entries (pv, d) = (pv', d') \<Longrightarrow> mget pv i = Some True \<Longrightarrow> mget pv' i = Some True"
  by (induction env entries "(pv, d)" arbitrary: pv d rule: load_loop.induct)
    (auto simp: Let_def mget_mput split: sum.splits)

lemma load_loop_marks:
  "load_loop env entries (pv, d) = (pv', d') \<Longrightarrow> (k, v) \<in> set entries \<Longrightarrow> ve_dec env v = Inr vote \<Longrightarrow>
   mget pv' (vt_VoteID vote) = Some True \<and>
   mget pv' (generateVoteID (vt_BlockHash vote) (vt_ValidatorID vote)) = Some True"
proof (induction env entries "(pv, d)" arbitrary: pv d rule: load_loop.induct)
  case (2 env k' v' entries pv d)
  show ?case
  proof (cases "(k, v) \<in> set entries")
    case True
    then show ?thesis using 2 by (auto simp: Let_def split: sum.splits)
  next
    case False
    then have "v' = v" using "2.prems"(2) by simp
    then show ?thesis
      using "2.prems"(1,3) by (auto simp: Let_def mget_mput intro: load_loop_keeps)
  qed
qed simp

section \<open>Concrete states\<close>

definition demo_vote :: "bytes \<Rightarrow> string \<Rightarrow> Vote" where
  "demo_vote h v = \<lparr>vt_BlockHash = h, vt_ValidatorID = v, vt_Signature = replicate 64 1, vt_Timestamp = 0,
     vt_VoteID = generateVoteID h v\<rparr>"

definition demo_venv :: "memdb voting_env" where
  "demo_venv = \<lparr>ve_state = Some \<lparr>sv_active = [''v1'', ''v2'', ''v3''], sv_validator = (\<lambda>_. Inr demo_info)\<rparr>,
     ve_verify = (\<lambda>_ _ _ _. True), ve_modsqrt = (\<lambda>_ _. 0), ve_ldb = memdb_ops, ve_enc = (\<lambda>_. Inr [0]),
     ve_dec = (\<lambda>_. Inr (demo_vote [1] ''v1''))\<rparr>"

definition demo_vm0 :: "memdb VotingManager" where
  "demo_vm0 = NewVotingManager demo_venv None"

definition demo_vm1 :: "memdb VotingManager" where
  "demo_vm1 = fst (StartVotingSession 0 0 [1] 1 demo_vm0)"

definition demo_vm2 :: "memdb VotingManager" where
  "demo_vm2 = fst (CastVote demo_venv 0 0 0 [1] ''v1'' (replicate 64 1) demo_vm1)"

lemma demo_check: "v \<in> {''v1'', ''v2'', ''v3''} \<Longrightarrow>
   state_check demo_venv \<lparr>vt_BlockHash = h, vt_ValidatorID = v, vt_Signature = replicate 64 1, vt_Timestamp = t, vt_VoteID = i\<rparr> = None"
  by (auto simp: state_check_def demo_venv_def demo_info_def DecodeECDSAPublicKey_def VerifyVote_def Let_def)

lemma required_1: "required_votes 1 = 1" and required_3: "required_votes 3 = 2"
  by (simp_all add: required_votes_eq)

lemma demo_vm1_session: "mget (vm_sessions demo_vm1) (hex [1]) = Some
   \<lparr>vs_BlockHash = [1], vs_Votes = [], vs_TotalValidators = 1, vs_RequiredVotes = 1, vs_StartTime = 0,
    vs_VotingDeadline = VerificationVotingPhase, vs_IsFinalized = False, vs_FinalityAchievedAt = zero_time\<rparr>"
  "vm_processedVotes demo_vm1 = []" "vm_db demo_vm1 = None"
  by (simp_all add: demo_vm1_def demo_vm0_def StartVotingSession_def NewVotingManager_def Let_def mhas_def mget_mput required_1)

lemma demo_cast: "CastVote demo_venv 0 0 0 [1] ''v1'' (replicate 64 1) demo_vm1 = (demo_vm2, Inr ())"
proof -
  have "snd (CastVote demo_venv 0 0 0 [1] ''v1'' (replicate 64 1) demo_vm1) = Inr ()"
    by (rule cast_accepts [OF demo_vm1_session(1)])
      (simp_all add: demo_check demo_vm1_session processed_def VerificationVotingPhase_def second_def)
  then show ?thesis by (simp add: demo_vm2_def prod_eq_iff)
qed

lemma demo_vm2_session: "mget (vm_sessions demo_vm2) (hex [1]) = Some
   \<lparr>vs_BlockHash = [1], vs_Votes = [(''v1'', demo_vote [1] ''v1'')], vs_TotalValidators = 1, vs_RequiredVotes = 1, vs_StartTime = 0,
    vs_VotingDeadline = VerificationVotingPhase, vs_IsFinalized = True, vs_FinalityAchievedAt = 0\<rparr>"
proof -
  have eq: "demo_vm2 = record_vote demo_venv 0 (demo_vote [1] ''v1'')
      \<lparr>vs_BlockHash = [1], vs_Votes = [], vs_TotalValidators = 1, vs_RequiredVotes = 1, vs_StartTime = 0,
       vs_VotingDeadline = VerificationVotingPhase, vs_IsFinalized = False, vs_FinalityAchievedAt = zero_time\<rparr> demo_vm1"
    using demo_cast by (simp add: CastVote_def demo_vm1_session Let_def mhas_def demo_check processed_def
        demo_vote_def VerificationVotingPhase_def second_def)
  show ?thesis unfolding eq
    by (simp add: record_vote_def Let_def demo_vote_def mlen_def mget_mput)
qed

text \<open>The run of the example: the vote is cast while its validator is active, and then the state is emptied.\<close>

definition demo_run :: "memdb voting_config list" where
  "demo_run = [(Some \<lparr>sv_active = [], sv_validator = (\<lambda>_. Inl (Error []))\<rparr>, demo_vm2), (ve_state demo_venv, demo_vm2),
     (ve_state demo_venv, demo_vm1), (ve_state demo_venv, demo_vm0)]"

lemma demo_set_state: "SetState (ve_state demo_venv) demo_venv = demo_venv"
  by (simp add: SetState_def demo_venv_def)

lemma demo_run: "voting_run demo_venv demo_run"
proof -
  have "voting_run demo_venv [(ve_state demo_venv, demo_vm0)]" unfolding demo_vm0_def by (rule run_start)
  moreover have "vote_step demo_venv (ve_state demo_venv, demo_vm0) (ve_state demo_venv, demo_vm1)"
    unfolding demo_vm1_def by (rule step_start [of 1 0 0 "[1]"]) (auto simp: prod_eq_iff)
  moreover have "vote_step demo_venv (ve_state demo_venv, demo_vm1) (ve_state demo_venv, demo_vm2)"
    by (rule step_cast) (unfold demo_set_state, rule demo_cast)
  ultimately show ?thesis unfolding demo_run_def by (blast intro: run_step step_state)
qed

section \<open>Properties\<close>

text \<open>
  C4: In every state that a voting manager reaches, while the validator state under it changes in any way, each session
  is sound: it has at most the required number of votes, it is finalized exactly when it has that number, and each of
  its votes is recorded under its own validator, is for the session's block, was cast at some moment of the run and
  passed all checks against the validator state of that moment (active, not suspended, valid signature). It need not
  pass them later.
\<close>

theorem voting_invariant:
  assumes "voting_run env ((st, vm) # cs)" "mget (vm_sessions vm) h = Some s"
  shows "h = hex (vs_BlockHash s) \<and> distinct (map fst (vs_Votes s)) \<and>
    vs_RequiredVotes s = required_votes (vs_TotalValidators s) \<and>
    int (mlen (vs_Votes s)) \<le> vs_RequiredVotes s \<and>
    (vs_IsFinalized s \<longleftrightarrow> int (mlen (vs_Votes s)) = vs_RequiredVotes s) \<and>
    (\<forall>(v, vote) \<in> set (vs_Votes s). vt_ValidatorID vote = v \<and> vt_BlockHash vote = vs_BlockHash s \<and>
       (\<exists>later st' vm' vm0 earlier now1 now3. (st, vm) # cs = later @ (st', vm') # (st', vm0) # earlier \<and>
          CastVote (SetState st' env) now1 (vt_Timestamp vote) now3 (vs_BlockHash s) v (vt_Signature vote) vm0 = (vm', Inr ()) \<and>
          state_check (SetState st' env) vote = None))"
proof -
  have ok: "session_ok (cast_in env ((st, vm) # cs)) h s" by (rule run_session [OF assms])
  have "\<forall>(v, vote) \<in> set (vs_Votes s). vt_ValidatorID vote = v \<and> vt_BlockHash vote = vs_BlockHash s \<and> cast_in env ((st, vm) # cs) vote"
    using ok unfolding session_ok_def vote_ok_def by blast
  then have "\<forall>(v, vote) \<in> set (vs_Votes s). vt_ValidatorID vote = v \<and> vt_BlockHash vote = vs_BlockHash s \<and>
       (\<exists>later st' vm' vm0 earlier now1 now3. (st, vm) # cs = later @ (st', vm') # (st', vm0) # earlier \<and>
          CastVote (SetState st' env) now1 (vt_Timestamp vote) now3 (vs_BlockHash s) v (vt_Signature vote) vm0 = (vm', Inr ()) \<and>
          state_check (SetState st' env) vote = None)"
    using cast_inD by fast
  with ok show ?thesis unfolding session_ok_def by simp
qed

theorem voting_invariant_witness:
  "vs_IsFinalized (the (mget (vm_sessions demo_vm2) (hex [1]))) \<and>
   (\<exists>st. state_check (SetState st demo_venv) (demo_vote [1] ''v1'') = None) \<and>
   state_check (SetState (fst (hd demo_run)) demo_venv) (demo_vote [1] ''v1'') \<noteq> None"
proof -
  note run = demo_run [unfolded demo_run_def]
  have "state_check (SetState (fst (hd demo_run)) demo_venv) (demo_vote [1] ''v1'') \<noteq> None"
    by (simp add: demo_run_def SetState_def state_check_def)
  then show ?thesis using voting_invariant [OF run demo_vm2_session] by (auto simp: demo_vm2_session mlen_def)
qed

text \<open>
  C5: Finality is safe against forks up to double voting: if the validator set has \<open>n \<ge> 3\<close>
  members and two sessions over it are both finalized, some validator voted in both, whatever
  the two blocks are.
\<close>

theorem finality_intersection:
  assumes "vm_inv env vm" "ve_state env = Some st" "distinct (sv_active st)"
    "mget (vm_sessions vm) h1 = Some s1" "mget (vm_sessions vm) h2 = Some s2"
    "vs_IsFinalized s1" "vs_IsFinalized s2"
    "vs_TotalValidators s1 = int (length (sv_active st))" "vs_TotalValidators s2 = int (length (sv_active st))"
    "3 \<le> length (sv_active st)"
  shows "\<exists>v \<in> set (sv_active st). mhas (vs_Votes s1) v \<and> mhas (vs_Votes s2) v"
proof -
  let ?n = "int (length (sv_active st))"
  have voters: "fst ` set (vs_Votes s) \<subseteq> set (sv_active st) \<and> required_votes ?n \<le> int (card (fst ` set (vs_Votes s)))"
    if ok: "session_ok (\<lambda>vote. state_check env vote = None) h s" and fin: "vs_IsFinalized s" and tot: "vs_TotalValidators s = ?n" for h s
  proof
    have "vote_ok (\<lambda>vote. state_check env vote = None) s v vote \<Longrightarrow> v \<in> set (sv_active st)" for v vote
      using assms(2) by (auto simp: vote_ok_def state_check_def split: if_splits)
    then show "fst ` set (vs_Votes s) \<subseteq> set (sv_active st)" using ok unfolding session_ok_def by fastforce
    show "required_votes ?n \<le> int (card (fst ` set (vs_Votes s)))"
      using ok fin tot mlen_dom [of "vs_Votes s"] unfolding session_ok_def by simp
  qed
  note ok = vm_ok_get [OF assms(1) [unfolded vm_inv_def]]
  note v1 = voters [OF ok [OF assms(4)] assms(6,8)] and v2 = voters [OF ok [OF assms(5)] assms(7,9)]
  have "?n \<le> 2 ^ 40" using ok [OF assms(4)] assms(8) by (auto simp: session_ok_def)
  then have "fst ` set (vs_Votes s1) \<inter> fst ` set (vs_Votes s2) \<noteq> {}"
    using v1 v2 assms(3,10) by (intro voting_quorum.intersection [of "set (sv_active st)" ?n]) (auto simp: distinct_card)
  then show ?thesis using v1 by (auto simp: mhas_iff)
qed

definition demo_session :: "bytes \<Rightarrow> string \<Rightarrow> string \<Rightarrow> VotingSession" where
  "demo_session h v w = \<lparr>vs_BlockHash = h, vs_Votes = [(v, demo_vote h v), (w, demo_vote h w)],
     vs_TotalValidators = 3, vs_RequiredVotes = 2, vs_StartTime = 0, vs_VotingDeadline = 0,
     vs_IsFinalized = True, vs_FinalityAchievedAt = 0\<rparr>"

definition demo_vm3 :: "memdb VotingManager" where
  "demo_vm3 = \<lparr>vm_sessions = [(hex [1], demo_session [1] ''v1'' ''v2''), (hex [2], demo_session [2] ''v2'' ''v3'')],
     vm_db = None, vm_processedVotes = []\<rparr>"

theorem finality_intersection_witness:
  "vm_inv demo_venv demo_vm3 \<and>
   (\<exists>v \<in> {''v1'', ''v2'', ''v3''}. mhas (vs_Votes (demo_session [1] ''v1'' ''v2'')) v \<and>
      mhas (vs_Votes (demo_session [2] ''v2'' ''v3'')) v)"
proof
  show inv: "vm_inv demo_venv demo_vm3"
    by (simp add: vm_inv_def vm_ok_def demo_vm3_def session_ok_def demo_session_def hex_inj mlen_def required_3
        vote_ok_def demo_vote_def demo_check)
  show "\<exists>v \<in> {''v1'', ''v2'', ''v3''}. mhas (vs_Votes (demo_session [1] ''v1'' ''v2'')) v \<and>
      mhas (vs_Votes (demo_session [2] ''v2'' ''v3'')) v"
    using finality_intersection [OF inv, of "\<lparr>sv_active = [''v1'', ''v2'', ''v3''], sv_validator = (\<lambda>_. Inr demo_info)\<rparr>"
        "hex [1]" "demo_session [1] ''v1'' ''v2''" "hex [2]" "demo_session [2] ''v2'' ''v3''"]
    by (simp add: demo_venv_def) (simp add: demo_vm3_def mget_def hex_inj demo_session_def)
qed

text \<open>
  C16: \<open>CastVote\<close> accepts a vote exactly if its session exists and is open, the deadline has not
  passed, the validator has not voted in it, the vote ID has not been processed, and the checks
  against the validator state pass; if it accepts, the ID is marked as processed, and if it
  rejects, nothing changes.
\<close>

theorem cast_vote_decision:
  assumes "CastVote env now1 now2 now3 h v sg vm = (vm', r)"
  shows "(r = Inr () \<longleftrightarrow> (\<exists>s. mget (vm_sessions vm) (hex h) = Some s \<and> \<not> vs_IsFinalized s \<and>
        now1 \<le> vs_VotingDeadline s \<and> mget (vs_Votes s) v = None \<and>
        \<not> IsVoteProcessed h v vm \<and>
        state_check env \<lparr>vt_BlockHash = h, vt_ValidatorID = v, vt_Signature = sg, vt_Timestamp = now2,
          vt_VoteID = generateVoteID h v\<rparr> = None)) \<and>
    (r = Inr () \<longrightarrow> IsVoteProcessed h v vm') \<and> (r \<noteq> Inr () \<longrightarrow> vm' = vm)"
proof (cases "mget (vm_sessions vm) (hex h)")
  case None
  then show ?thesis using assms by (auto simp: CastVote_def split: sum.splits)
next
  case (Some s)
  let ?vote = "\<lparr>vt_BlockHash = h, vt_ValidatorID = v, vt_Signature = sg, vt_Timestamp = now2, vt_VoteID = generateVoteID h v\<rparr>"
  let ?ok = "\<not> vs_IsFinalized s \<and> now1 \<le> vs_VotingDeadline s \<and> mget (vs_Votes s) v = None \<and>
    \<not> processed vm (generateVoteID h v) \<and> state_check env ?vote = None"
  have acc: "?ok \<Longrightarrow> r = Inr () \<and> vm' = record_vote env now3 ?vote s vm"
    using assms Some by (simp add: CastVote_def Let_def mhas_def not_less)
  have rej: "\<not> ?ok \<Longrightarrow> r \<noteq> Inr () \<and> vm' = vm"
    using assms Some
    by (cases "vs_IsFinalized s"; cases "vs_VotingDeadline s < now1"; cases "mget (vs_Votes s) v";
        cases "processed vm (generateVoteID h v)"; cases "state_check env ?vote")
      (auto simp: CastVote_def Let_def mhas_def not_less)
  have proc: "processed (record_vote env now3 ?vote s vm) (generateVoteID h v)"
    by (simp add: record_vote_def Let_def processed_def mget_mput)
  show ?thesis unfolding IsVoteProcessed_def
  proof (cases ?ok)
    case True
    then show "(r = Inr () \<longleftrightarrow> (\<exists>s. mget (vm_sessions vm) (hex h) = Some s \<and> \<not> vs_IsFinalized s \<and>
        now1 \<le> vs_VotingDeadline s \<and> mget (vs_Votes s) v = None \<and> \<not> processed vm (generateVoteID h v) \<and>
        state_check env ?vote = None)) \<and>
      (r = Inr () \<longrightarrow> processed vm' (generateVoteID h v)) \<and> (r \<noteq> Inr () \<longrightarrow> vm' = vm)"
      using acc [OF True] proc by (simp add: Some)
  next
    case False
    then show "(r = Inr () \<longleftrightarrow> (\<exists>s. mget (vm_sessions vm) (hex h) = Some s \<and> \<not> vs_IsFinalized s \<and>
        now1 \<le> vs_VotingDeadline s \<and> mget (vs_Votes s) v = None \<and> \<not> processed vm (generateVoteID h v) \<and>
        state_check env ?vote = None)) \<and>
      (r = Inr () \<longrightarrow> processed vm' (generateVoteID h v)) \<and> (r \<noteq> Inr () \<longrightarrow> vm' = vm)"
      using rej [OF False] by (simp add: Some)
  qed
qed

theorem cast_vote_decision_witness:
  "IsVoteProcessed [1] ''v1'' demo_vm2"
  using cast_vote_decision [OF demo_cast] by blast

text \<open>
  The finality threshold of \<open>n\<close> validators lies between 1 and \<open>n\<close>, never falls as \<open>n\<close> grows,
  and for \<open>n \<ge> 3\<close> is more than half; but it is the 85 per cent rounded down, so whenever 85 per
  cent of \<open>n \<ge> 2\<close> is not a whole number a block becomes final with less than the supermajority
  (one vote of two validators, five of seven).
\<close>

theorem voting_threshold:
  assumes "1 \<le> n" "n \<le> 2 ^ 40"
  shows "1 \<le> required_votes n \<and> required_votes n \<le> n \<and>
    (\<forall>m. n \<le> m \<and> m \<le> 2 ^ 40 \<longrightarrow> required_votes n \<le> required_votes m) \<and>
    (3 \<le> n \<longrightarrow> n < 2 * required_votes n) \<and>
    (2 \<le> n \<and> 85 * n mod 100 \<noteq> 0 \<longrightarrow> 100 * required_votes n < 85 * n)"
proof (intro conjI impI allI)
  show "1 \<le> required_votes n" using assms required_votes_eq [of n] by simp
  show "required_votes n \<le> n" using assms by (rule voting_quorum.required_le)
  show "required_votes n \<le> required_votes m" if "n \<le> m \<and> m \<le> 2 ^ 40" for m
    using that assms by (intro voting_quorum.required_mono) auto
  show "n < 2 * required_votes n" if "3 \<le> n" using that assms by (intro voting_quorum.majority) auto
  show "100 * required_votes n < 85 * n" if "2 \<le> n \<and> 85 * n mod 100 \<noteq> 0"
  proof -
    have "100 div 100 \<le> 85 * n div 100" using that by (intro zdiv_mono1) auto
    then have "required_votes n = 85 * n div 100"
      using required_votes_eq [OF _ assms(2)] assms(1) by (simp add: max_def)
    moreover have "100 * (85 * n div 100) < 85 * n"
      using that mult_div_mod_eq [of 100 "85 * n"] pos_mod_sign [of 100 "85 * n"] by linarith
    ultimately show ?thesis by (rule ssubst)
  qed
qed

theorem voting_threshold_witness:
  "100 * required_votes 2 < 85 * 2 \<and> 100 * required_votes 7 < 85 * 7"
  using voting_threshold [of 2] voting_threshold [of 7] by simp

text \<open>
  Cleaning up votes opens the door to replays: \<open>CleanupOldVotes\<close> gives the same result for all
  heights passed to it, removes every finalized session, however recent, and keeps every other
  one; after it, a vote of a finalized session that still passes the checks is accepted a second time in a new
  session for the same block.
\<close>

theorem replay_after_cleanup:
  assumes "voting_run env ((st, vm) # cs)" "mget (vm_sessions vm) (hex h) = Some s" "vs_IsFinalized s"
    "mget (vs_Votes s) v = Some vote" "CleanupOldVotes env height keep vm = (vm1, k)"
    "StartVotingSession t1 t2 h total' vm1 = (vm2, r)" "now1 \<le> t2 + VerificationVotingPhase"
    "state_check (SetState st env) vote = None"
  shows "CleanupOldVotes env height' keep' vm = (vm1, k) \<and>
    (\<forall>g. mget (vm_sessions vm1) g = (case mget (vm_sessions vm) g of
       Some s \<Rightarrow> if vs_IsFinalized s then None else Some s | None \<Rightarrow> None)) \<and>
    snd (CastVote (SetState st env) now1 now2 now3 h v (vt_Signature vote) vm2) = Inr ()"
proof (intro conjI allI)
  have inv: "vm_ok (cast_in env ((st, vm) # cs)) vm" using run_ok [OF assms(1)] by simp
  have wf: "wf_map (vm_sessions vm)" using inv by (simp add: vm_ok_def)
  show "CleanupOldVotes env height' keep' vm = (vm1, k)" using assms(5) by (simp add: CleanupOldVotes_def)
  show "mget (vm_sessions vm1) g = (case mget (vm_sessions vm) g of
       Some s \<Rightarrow> if vs_IsFinalized s then None else Some s | None \<Rightarrow> None)" for g
    by (rule cleanup_get [OF wf assms(5)])
  then have "mget (vm_sessions vm1) (hex h) = None" using assms(2,3) by simp
  then have vm2: "vm2 = vm1\<lparr>vm_sessions := mput (hex h) \<lparr>vs_BlockHash = h, vs_Votes = [], vs_TotalValidators = total',
      vs_RequiredVotes = required_votes total', vs_StartTime = t1, vs_VotingDeadline = t2 + VerificationVotingPhase,
      vs_IsFinalized = False, vs_FinalityAchievedAt = zero_time\<rparr> (vm_sessions vm1)\<rparr>"
    using assms(6) by (simp add: StartVotingSession_def Let_def mhas_def)
  have ok: "vote_ok (cast_in env ((st, vm) # cs)) s v vote" "vs_BlockHash s = h"
    using vm_ok_get [OF inv assms(2)] mget_in_set [OF assms(4)] by (auto simp: session_ok_def hex_inj)
  have chk: "state_check (SetState st env) \<lparr>vt_BlockHash = h, vt_ValidatorID = v, vt_Signature = vt_Signature vote,
      vt_Timestamp = t, vt_VoteID = generateVoteID h v\<rparr> = None" for t
    using ok assms(8) state_check_time [of "SetState st env" t vote] by (cases vote) (simp add: vote_ok_def)
  have "\<not> processed vm1 (generateVoteID h v)"
  proof -
    have in1: "(hex h, s) \<in> set (vm_sessions vm)" and in2: "vote \<in> snd ` set (vs_Votes s)"
      using mget_in_set [OF assms(2)] mget_in_set [OF assms(4)] by force+
    have id: "generateVoteID (vt_BlockHash vote) (vt_ValidatorID vote) = generateVoteID h v"
      using ok by (simp add: vote_ok_def)
    have "processed vm1 (generateVoteID h v) \<Longrightarrow> vs_IsFinalized s \<longrightarrow>
        (\<forall>vote \<in> snd ` set (vs_Votes s). generateVoteID h v \<noteq> generateVoteID (vt_BlockHash vote) (vt_ValidatorID vote))"
      using cleanup_processed [OF assms(5) [unfolded CleanupOldVotes_def], of "generateVoteID h v"] in1 by blast
    then show ?thesis using in2 assms(3) id by metis
  qed
  then have np: "\<not> processed vm2 (generateVoteID h v)" by (simp add: vm2 processed_def)
  obtain s2 where s2: "mget (vm_sessions vm2) (hex h) = Some s2" "\<not> vs_IsFinalized s2"
      "vs_VotingDeadline s2 = t2 + VerificationVotingPhase" "vs_Votes s2 = []"
    by (auto simp: vm2 mget_mput)
  show "snd (CastVote (SetState st env) now1 now2 now3 h v (vt_Signature vote) vm2) = Inr ()"
    by (rule cast_accepts [OF s2(1,2) _ _ np chk]) (use assms(7) s2(3,4) in simp_all)
qed

theorem replay_after_cleanup_witness:
  "snd (CastVote demo_venv 0 0 0 [1] ''v1'' (replicate 64 1)
     (fst (StartVotingSession 0 0 [1] 1 (fst (CleanupOldVotes demo_venv 0 1000 demo_vm2))))) = Inr ()"
proof -
  have "voting_run demo_venv (tl demo_run)" using demo_run by (auto simp: demo_run_def elim: voting_run.cases)
  then have run: "voting_run demo_venv ((ve_state demo_venv, demo_vm2) # [(ve_state demo_venv, demo_vm1), (ve_state demo_venv, demo_vm0)])"
    by (simp add: demo_run_def)
  have "state_check demo_venv (demo_vote [1] ''v1'') = None" by (simp add: demo_vote_def demo_check)
  then show ?thesis
    using replay_after_cleanup [OF run demo_vm2_session _ _ prod.collapse [symmetric] prod.collapse [symmetric],
        of "''v1''" "demo_vote [1] ''v1''"]
    by (simp add: VerificationVotingPhase_def second_def demo_set_state) (simp add: demo_vote_def)
qed

text \<open>
  The signature encoding loses signatures: \<open>SignVote\<close> concatenates \<open>r\<close> and \<open>s\<close> without padding
  and \<open>VerifyVote\<close> splits at half the length, so the verifier sees the signer's pair if and only
  if \<open>s\<close> has as many bytes as \<open>r\<close>, or one more. A valid signature whose \<open>s\<close> is shorter than \<open>r\<close>
  is checked as a different pair.
\<close>

theorem vote_signature_roundtrip:
  assumes "sign h = Inr (r, s)" "0 < r" "0 < s" "32 \<le> length (be_bytes r) + length (be_bytes s)"
  shows "\<exists>sg. SignVote sign h = Inr sg \<and>
    (\<exists>r' s'. (\<forall>f vote k. vt_Signature vote = sg \<longrightarrow> VerifyVote f vote k = f k (vt_BlockHash vote) r' s') \<and>
      ((r', s') = (r, s) \<longleftrightarrow> length (be_bytes s) = length (be_bytes r) \<or>
                          length (be_bytes s) = Suc (length (be_bytes r))))"
proof -
  let ?sg = "be_bytes r @ be_bytes s" and ?half = "(length (be_bytes r) + length (be_bytes s)) div 2"
  have "be_val (drop ?half ?sg) = s"
    if "length (be_bytes s) = length (be_bytes r) \<or> length (be_bytes s) = Suc (length (be_bytes r))"
  proof -
    have "?half = length (be_bytes r)" using that by auto
    then show ?thesis by simp
  qed
  then have "(be_val (take ?half ?sg), be_val (drop ?half ?sg)) = (r, s) \<longleftrightarrow>
      length (be_bytes s) = length (be_bytes r) \<or> length (be_bytes s) = Suc (length (be_bytes r))"
    using split_sign [OF assms(2,3)] by blast
  moreover have "\<forall>f vote k. vt_Signature vote = ?sg \<longrightarrow>
      VerifyVote f vote k = f k (vt_BlockHash vote) (be_val (take ?half ?sg)) (be_val (drop ?half ?sg))"
    using assms(4) by (auto simp: VerifyVote_def Let_def)
  moreover have "SignVote sign h = Inr ?sg" using assms(1) by (simp add: SignVote_def)
  ultimately show ?thesis by blast
qed

theorem vote_signature_roundtrip_witness:
  "\<exists>sg. SignVote (\<lambda>_. Inr (256 ^ 31, 1)) [] = Inr sg \<and>
     \<not> VerifyVote (\<lambda>_ _ r s. (r, s) = (256 ^ 31, 1)) (demo_vote [] ''v1''\<lparr>vt_Signature := sg\<rparr>) (0, 0)"
proof -
  have len: "length (be_bytes (256 ^ k)) = Suc k" for k
  proof (induction k)
    case (Suc k)
    have "be_bytes (256 ^ Suc k) = be_bytes (256 ^ k) @ [0]" by (subst be_bytes.simps) simp
    then show ?case using Suc by simp
  qed (simp add: be_bytes.simps)
  define r where "r = (256 :: nat) ^ 31"
  have l: "length (be_bytes r) = 32" "length (be_bytes 1) = 1" "0 < r"
    unfolding r_def using len [of 31] len [of 0] by simp_all
  have "\<not> (length (be_bytes 1) = length (be_bytes r) \<or> length (be_bytes 1) = Suc (length (be_bytes r)))"
      "32 \<le> length (be_bytes r) + length (be_bytes 1)" using l by simp_all
  then obtain sg r' s' where sg: "SignVote (\<lambda>_. Inr (r, 1)) [] = Inr sg" "(r', s') \<noteq> (r, 1)"
      "\<forall>f vote k. vt_Signature vote = sg \<longrightarrow> VerifyVote f vote k = f k (vt_BlockHash vote) r' s'"
    using vote_signature_roundtrip [OF refl l(3) zero_less_one, of "[]"] by metis
  then have "\<not> VerifyVote (\<lambda>_ _ a b. (a, b) = (r, 1)) (demo_vote [] ''v1''\<lparr>vt_Signature := sg\<rparr>) (0, 0)"
    by (simp add: sg(3))
  with sg(1) show ?thesis unfolding r_def by blast
qed

text \<open>
  Vote IDs bind block and validator: for block hashes of one length, equal IDs come from the
  same block and validator or exhibit a SHA-256 collision of the two hashed strings. The length
  matters: the two parts are concatenated without a separator, so a hash that ends in the
  bytes of \<open>a\<close> and the validator \<open>b\<close> share their ID with the shorter hash and the validator \<open>ab\<close>.
\<close>

theorem vote_id_binding:
  "(length h = length h' \<and> generateVoteID h v = generateVoteID h' v' \<longrightarrow>
     (h = h' \<and> v = v') \<or> sha256_collision (h @ bytes_of v) (h' @ bytes_of v')) \<and>
   generateVoteID (h @ bytes_of a) b = generateVoteID h (a @ b)"
  by (auto simp: generateVoteID_def hex_inj sha256_collision_def bytes_of_inj)

theorem vote_id_binding_witness:
  "([1] = [1 :: byte] \<and> ''v'' = ''v'') \<or> sha256_collision ([1] @ bytes_of ''v'') ([1] @ bytes_of ''v'')"
  using vote_id_binding [THEN conjunct1, of "[1]" "[1]" "''v''" "''v''"] by simp

text \<open>
  Replay protection survives a restart: if a vote was persisted without error, a voting
  manager created afresh on the resulting database has the vote marked as processed, under the
  ID it was stored with and under the deterministic ID of its block and validator.
\<close>

theorem votes_survive_restart:
  assumes "kv_laws (ve_ldb env)" "json_ok (ve_enc env) (ve_dec env) vote"
    "PersistVote env vote vm = (vm', Inr ())" "vm_db vm' = Some d" "db_iter_err (ve_ldb env) d ''vote_'' = None"
  shows "processed (NewVotingManager env (Some d)) (vt_VoteID vote) \<and>
    IsVoteProcessed (vt_BlockHash vote) (vt_ValidatorID vote) (NewVotingManager env (Some d))"
proof -
  obtain d0 bs where enc: "ve_enc env vote = Inr bs"
    and put: "db_put (ve_ldb env) (vote_key (vt_VoteID vote)) bs d0 = (d, None)"
    using assms(3,4) by (auto simp: PersistVote_def split: option.splits sum.splits prod.splits)
  have "(vote_key (vt_VoteID vote), bs) \<in> set (db_iter (ve_ldb env) d ''vote_'')"
    using kv_iter [OF assms(1,5)] kv_put [OF assms(1) put] by (simp add: vote_key_def)
  moreover obtain pv d' where l: "load_loop env (db_iter (ve_ldb env) d ''vote_'') ([], d) = (pv, d')"
    by (cases "load_loop env (db_iter (ve_ldb env) d ''vote_'') ([], d)")
  ultimately have "mget pv (vt_VoteID vote) = Some True \<and>
      mget pv (generateVoteID (vt_BlockHash vote) (vt_ValidatorID vote)) = Some True"
    using load_loop_marks [OF l _ json_okD [OF assms(2) enc]] by (simp only:)
  then show ?thesis
    by (simp add: NewVotingManager_def LoadProcessedVotes_def Let_def l processed_def IsVoteProcessed_def)
qed

theorem votes_survive_restart_witness:
  "IsVoteProcessed [1] ''v1'' (NewVotingManager demo_venv
     (vm_db (fst (PersistVote demo_venv (demo_vote [1] ''v1'') (demo_vm0\<lparr>vm_db := Some []\<rparr>)))))"
proof -
  let ?d = "[(vote_key (generateVoteID [1] ''v1''), [0])] :: memdb"
  have "PersistVote demo_venv (demo_vote [1] ''v1'') (demo_vm0\<lparr>vm_db := Some []\<rparr>) =
      (demo_vm0\<lparr>vm_db := Some ?d\<rparr>, Inr ())"
    by (simp add: PersistVote_def demo_venv_def memdb_ops_def demo_vote_def)
  moreover from this have "IsVoteProcessed [1] ''v1'' (NewVotingManager demo_venv (Some ?d))"
    using votes_survive_restart [of demo_venv "demo_vote [1] ''v1''" "demo_vm0\<lparr>vm_db := Some []\<rparr>" "demo_vm0\<lparr>vm_db := Some ?d\<rparr>" ?d]
      memdb_laws by (simp add: demo_venv_def json_ok_def memdb_ops_def) (simp add: demo_vote_def)
  ultimately show ?thesis by simp
qed

end
