(* ===== verification/Registry.thy ===== *)
theory Registry
  imports Voting
begin

text \<open>
  The validator registry (\<open>pkg/consensus/validator_registry.go\<close>): the life cycle of a validator
  from observer to exit, the entry fee, and suspension.

  The type \<open>blockchain.State\<close> is not in the repository. The calls made on it are the record
  \<open>state_ops\<close> over a type of states; \<open>state_laws\<close> says that what is stored is what is read.
  \<open>mem_state\<close> is an instance.
\<close>

section \<open>The validator and account state\<close>

record 'st state_ops =
  so_validator :: "'st \<Rightarrow> string \<Rightarrow> ValidatorInfo res"
  so_put_validator :: "ValidatorInfo \<Rightarrow> 'st \<Rightarrow> 'st"
  so_active :: "'st \<Rightarrow> string list"
  so_account :: "'st \<Rightarrow> string \<Rightarrow> Account option res"
  so_put_account :: "Account \<Rightarrow> 'st \<Rightarrow> 'st"

definition state_laws :: "'st state_ops \<Rightarrow> bool" where
  "state_laws so = (
     (\<forall>v st i. so_validator so (so_put_validator so v st) i =
        (if i = v_ID v then Inr v else so_validator so st i)) \<and>
     (\<forall>v st i. so_account so (so_put_validator so v st) i = so_account so st i) \<and>
     (\<forall>a st i. so_account so (so_put_account so a st) i =
        (if i = a_Address a then Inr (Some a) else so_account so st i)) \<and>
     (\<forall>a st i. so_validator so (so_put_account so a st) i = so_validator so st i) \<and>
     (\<forall>st i v. so_validator so st i = Inr v \<longrightarrow> v_ID v = i) \<and>
     (\<forall>st i a. so_account so st i = Inr (Some a) \<longrightarrow> a_Address a = i))"

lemma state_put_validator: "state_laws so \<Longrightarrow>
    so_validator so (so_put_validator so v st) i = (if i = v_ID v then Inr v else so_validator so st i)"
  by (simp add: state_laws_def)

lemma state_put_account: "state_laws so \<Longrightarrow>
    so_account so (so_put_account so a st) i = (if i = a_Address a then Inr (Some a) else so_account so st i)"
  by (simp add: state_laws_def)

lemma state_validator_account: "state_laws so \<Longrightarrow> so_validator so (so_put_account so a st) i = so_validator so st i"
    "state_laws so \<Longrightarrow> so_account so (so_put_validator so v st) i = so_account so st i"
  by (simp_all add: state_laws_def)

lemma state_ids: "state_laws so \<Longrightarrow> so_validator so st i = Inr v \<Longrightarrow> v_ID v = i"
    "state_laws so \<Longrightarrow> so_account so st i = Inr (Some a) \<Longrightarrow> a_Address a = i"
  by (simp_all add: state_laws_def)

record mem_state =
  mst_validators :: "(string, ValidatorInfo) gomap"
  mst_accounts :: "(string, Account) gomap"

definition mem_state_ops :: "mem_state state_ops" where
  "mem_state_ops = \<lparr>
     so_validator = (\<lambda>st i. case mget (mst_validators st) i of
        Some v \<Rightarrow> Inr (v\<lparr>v_ID := i\<rparr>) | None \<Rightarrow> Inl (Error ''validator not found'')),
     so_put_validator = (\<lambda>v st. st\<lparr>mst_validators := mput (v_ID v) v (mst_validators st)\<rparr>),
     so_active = (\<lambda>st. map fst (mkeep (\<lambda>_ v. v_IsActive v) (mst_validators st))),
     so_account = (\<lambda>st i. Inr (map_option (\<lambda>a. a\<lparr>a_Address := i\<rparr>) (mget (mst_accounts st) i))),
     so_put_account = (\<lambda>a st. st\<lparr>mst_accounts := mput (a_Address a) a (mst_accounts st)\<rparr>)\<rparr>"

lemma mem_state_laws: "state_laws mem_state_ops"
  by (auto simp: state_laws_def mem_state_ops_def mget_mput split: option.splits)

section \<open>The registry\<close>

datatype ValidatorStatus = StatusPending | StatusActive | StatusInactive | StatusSlashed | StatusExiting

record ValidatorRegistration =
  vg_ValidatorID :: string
  vg_PublicKey :: bytes
  vg_Status :: ValidatorStatus
  vg_RegistrationTime :: gotime
  vg_ObserverStartTime :: gotime
  vg_ActivationTime :: gotime
  vg_ExitTime :: gotime
  vg_RewardAddress :: string

record 'st ValidatorRegistry =
  vr_state :: 'st
  vr_validators :: "(string, ValidatorRegistration) gomap"
  vr_activationDelay :: duration
  vr_exitDelay :: duration

record RegistrationTx =
  rt_ValidatorID :: string
  rt_PublicKey :: bytes
  rt_RewardAddress :: string
  rt_Signature :: bytes

definition NewValidatorRegistry :: "'st \<Rightarrow> 'st ValidatorRegistry" where
  "NewValidatorRegistry st = \<lparr>vr_state = st, vr_validators = [],
     vr_activationDelay = 10 * second, vr_exitDelay = 200 * second\<rparr>"

text \<open>\<open>time.Duration(f)\<close> and \<open>d.Hours()\<close> of package \<open>time\<close>.\<close>

definition f_duration :: "f64 \<Rightarrow> duration" where
  "f_duration x = (case f_to_int x of Some n \<Rightarrow> n | None \<Rightarrow> min_duration)"

definition duration_hours :: "duration \<Rightarrow> f64" where
  "duration_hours d = (let h = trunc_rat (of_int d / of_int hour); nsec = d - h * hour
     in f_add (f_of_int h) (f_div (f_of_int nsec) (f_of_int hour)))"

definition calculateObserverDuration :: "int \<Rightarrow> duration" where
  "calculateObserverDuration activeValidatorCount =
     (if activeValidatorCount < 100 then f_duration (f_mul (f_lit 6) (f_of_int hour))
      else if activeValidatorCount \<ge> 1000 then f_duration (f_mul (f_lit 24) (f_of_int hour))
      else let progress = f_div (f_of_int (activeValidatorCount - 100)) (f_of_int (1000 - 100));
               durationHours = f_add (f_lit 6) (f_mul progress (f_lit (24 - 6)))
           in f_duration (f_mul durationHours (f_of_int hour)))"

definition calculateDynamicEntryFee :: "int \<Rightarrow> duration \<Rightarrow> int" where
  "calculateDynamicEntryFee activeValidatorCount observerDuration =
     (let durationHours = duration_hours observerDuration;
          totalMBTransmitted = f_mul (f_mul (f_lit 7) durationHours) (f_lit 3600);
          entryFeeMBHours = f_mul totalMBTransmitted (f_lit 100000000)
      in f_duration entryFeeMBHours)"

text \<open>
  \<open>RegisterValidator\<close>. The fee is charged only if the account is found; the log line after the
  charge slices the validator ID and panics for IDs shorter than 12 characters.
\<close>

definition new_registration :: "gotime \<Rightarrow> RegistrationTx \<Rightarrow> ValidatorRegistration" where
  "new_registration now tx = \<lparr>vg_ValidatorID = rt_ValidatorID tx, vg_PublicKey = rt_PublicKey tx,
     vg_Status = StatusPending, vg_RegistrationTime = now, vg_ObserverStartTime = now,
     vg_ActivationTime = zero_time, vg_ExitTime = zero_time, vg_RewardAddress = rt_RewardAddress tx\<rparr>"

definition observer_info :: "gotime \<Rightarrow> duration \<Rightarrow> RegistrationTx \<Rightarrow> ValidatorInfo" where
  "observer_info now d tx = \<lparr>v_ID = rt_ValidatorID tx, v_PublicKey = rt_PublicKey tx, v_VRFPublicKey = [],
     v_PoBScore = f_of_int 0, v_UploadBandwidth = f_of_int 0, v_Latency = f_of_int 0, v_PacketLoss = f_of_int 0,
     v_Reputation = 100, v_LastPoBTest = zero_time, v_IsActive = False, v_RewardAddress = rt_RewardAddress tx,
     v_NetworkASN = ''unknown'', v_IPAddress = [], v_IsSuspended = False, v_SuspensionEndTime = zero_time,
     v_SuspensionReason = [], v_IsObserver = True, v_ObserverStartTime = now, v_ObserverDuration = d\<rparr>"

definition enroll :: "'st state_ops \<Rightarrow> gotime \<Rightarrow> duration \<Rightarrow> RegistrationTx \<Rightarrow> 'st ValidatorRegistry \<Rightarrow> 'st ValidatorRegistry" where
  "enroll so now d tx vr =
     vr\<lparr>vr_validators := mput (rt_ValidatorID tx) (new_registration now tx) (vr_validators vr),
        vr_state := so_put_validator so (observer_info now d tx) (vr_state vr)\<rparr>"

definition RegisterValidator ::
  "'st state_ops \<Rightarrow> gotime \<Rightarrow> RegistrationTx \<Rightarrow> 'st ValidatorRegistry \<Rightarrow> 'st ValidatorRegistry \<times> unit res" where
  "RegisterValidator so now tx vr =
     (if mhas (vr_validators vr) (rt_ValidatorID tx) then (vr, Inl (Error ''validator already registered''))
      else
        let n = int (length (so_active so (vr_state vr)));
            observerDuration = calculateObserverDuration n;
            entryFee = calculateDynamicEntryFee n observerDuration
        in case so_account so (vr_state vr) (rt_ValidatorID tx) of
             Inr (Some account) \<Rightarrow>
               if a_Balance account < entryFee then (vr, Inl (Error ''insufficient balance for entry fee''))
               else let vr1 = vr\<lparr>vr_state := so_put_account so
                          (account\<lparr>a_Balance := a_Balance account - entryFee\<rparr>) (vr_state vr)\<rparr>
                 in (case slice_to 12 (rt_ValidatorID tx) of
                       Inl e \<Rightarrow> (vr1, Inl e)
                     | Inr _ \<Rightarrow> (enroll so now observerDuration tx vr1, Inr ()))
           | _ \<Rightarrow> (enroll so now observerDuration tx vr, Inr ()))"

definition may_activate :: "gotime \<Rightarrow> ValidatorInfo \<Rightarrow> bool" where
  "may_activate now info = (v_IsObserver info \<and>
     time_sub now (v_ObserverStartTime info) \<ge> v_ObserverDuration info \<and> f_le MinPoBScore (v_PoBScore info))"

fun activate_loop ::
  "'st state_ops \<Rightarrow> gotime \<Rightarrow> (string \<times> ValidatorRegistration) list \<Rightarrow> 'st ValidatorRegistry \<Rightarrow> 'st ValidatorRegistry" where
  "activate_loop so now [] vr = vr"
| "activate_loop so now ((i, registration) # rest) vr =
     activate_loop so now rest
       (if vg_Status registration = StatusPending then
          (case so_validator so (vr_state vr) i of
             Inl _ \<Rightarrow> vr
           | Inr info \<Rightarrow>
               if may_activate now info then
                 vr\<lparr>vr_validators := mput i (registration\<lparr>vg_Status := StatusActive, vg_ActivationTime := now\<rparr>) (vr_validators vr),
                    vr_state := so_put_validator so (info\<lparr>v_IsActive := True, v_IsObserver := False\<rparr>) (vr_state vr)\<rparr>
               else vr)
        else vr)"

definition ActivatePendingValidators :: "'st state_ops \<Rightarrow> gotime \<Rightarrow> 'st ValidatorRegistry \<Rightarrow> 'st ValidatorRegistry" where
  "ActivatePendingValidators so now vr = activate_loop so now (vr_validators vr) vr"

definition RequestExit ::
  "'st state_ops \<Rightarrow> gotime \<Rightarrow> string \<Rightarrow> 'st ValidatorRegistry \<Rightarrow> 'st ValidatorRegistry \<times> unit res" where
  "RequestExit so now validatorID vr =
     (case mget (vr_validators vr) validatorID of
        None \<Rightarrow> (vr, Inl (Error ''validator not found''))
      | Some registration \<Rightarrow>
          if vg_Status registration \<noteq> StatusActive then (vr, Inl (Error ''validator not active''))
          else let vr1 = vr\<lparr>vr_validators := mput validatorID
                   (registration\<lparr>vg_Status := StatusExiting, vg_ExitTime := now\<rparr>) (vr_validators vr)\<rparr>
            in (case so_validator so (vr_state vr1) validatorID of
                  Inl _ \<Rightarrow> (vr1, Inr ())
                | Inr info \<Rightarrow> (vr1\<lparr>vr_state := so_put_validator so (info\<lparr>v_IsActive := False\<rparr>) (vr_state vr1)\<rparr>, Inr ())))"

definition ProcessExits :: "gotime \<Rightarrow> 'st ValidatorRegistry \<Rightarrow> 'st ValidatorRegistry" where
  "ProcessExits now vr = vr\<lparr>vr_validators := mkeep (\<lambda>_ r. \<not> (vg_Status r = StatusExiting \<and>
     time_sub now (vg_ExitTime r) \<ge> vr_exitDelay vr)) (vr_validators vr)\<rparr>"

definition SuspendValidator ::
  "'st state_ops \<Rightarrow> string \<Rightarrow> gotime \<Rightarrow> string \<Rightarrow> 'st ValidatorRegistry \<Rightarrow> 'st ValidatorRegistry \<times> unit res" where
  "SuspendValidator so validatorID suspensionEndTime reason vr =
     (case so_validator so (vr_state vr) validatorID of
        Inl _ \<Rightarrow> (vr, Inl (Error ''validator not found''))
      | Inr info \<Rightarrow>
          (vr\<lparr>vr_state := so_put_validator so (info\<lparr>v_IsSuspended := True,
               v_SuspensionEndTime := suspensionEndTime, v_SuspensionReason := reason\<rparr>) (vr_state vr)\<rparr>, Inr ()))"

definition ClearSuspension :: "'st state_ops \<Rightarrow> string \<Rightarrow> 'st ValidatorRegistry \<Rightarrow> 'st ValidatorRegistry \<times> unit res" where
  "ClearSuspension so validatorID vr =
     (case so_validator so (vr_state vr) validatorID of
        Inl _ \<Rightarrow> (vr, Inl (Error ''validator not found''))
      | Inr info \<Rightarrow>
          (vr\<lparr>vr_state := so_put_validator so (info\<lparr>v_IsSuspended := False,
               v_SuspensionEndTime := zero_time, v_SuspensionReason := []\<rparr>) (vr_state vr)\<rparr>, Inr ()))"

definition GetAllValidators :: "'st state_ops \<Rightarrow> 'st ValidatorRegistry \<Rightarrow> ValidatorInfo list" where
  "GetAllValidators so vr = List.map_filter
     (\<lambda>(i, _). case so_validator so (vr_state vr) i of Inl _ \<Rightarrow> None | Inr v \<Rightarrow> Some v) (vr_validators vr)"

definition GetActiveValidators :: "'st ValidatorRegistry \<Rightarrow> string list" where
  "GetActiveValidators vr = map fst (filter (\<lambda>(_, r). vg_Status r = StatusActive) (vr_validators vr))"

definition GetValidatorInfo :: "string \<Rightarrow> 'st ValidatorRegistry \<Rightarrow> ValidatorRegistration res" where
  "GetValidatorInfo validatorID vr = (case mget (vr_validators vr) validatorID of
       None \<Rightarrow> Inl (Error ''validator not found'') | Some r \<Rightarrow> Inr r)"

definition GetActiveValidatorCount :: "'st ValidatorRegistry \<Rightarrow> nat" where
  "GetActiveValidatorCount vr = length (filter (\<lambda>(_, r). vg_Status r = StatusActive) (vr_validators vr))"

text \<open>
  The signed registration request: the JSON of the request without its signature is passed to
  \<open>SignVote\<close> as it is, not hashed. The codecs are the arguments \<open>enc\<close> and \<open>dec\<close>.
\<close>

definition RegistrationTx_Marshal :: "RegistrationTx encoder \<Rightarrow> RegistrationTx \<Rightarrow> bytes res" where
  "RegistrationTx_Marshal enc tx = enc tx"

definition UnmarshalRegistrationTx :: "RegistrationTx decoder \<Rightarrow> bytes \<Rightarrow> RegistrationTx res" where
  "UnmarshalRegistrationTx dec data = dec data"

definition RegistrationTx_Sign ::
  "(string \<times> bytes \<times> string) encoder \<Rightarrow> (bytes \<Rightarrow> (nat \<times> nat) res) \<Rightarrow> RegistrationTx \<Rightarrow> RegistrationTx \<times> unit res" where
  "RegistrationTx_Sign enc sign tx =
     (case enc (rt_ValidatorID tx, rt_PublicKey tx, rt_RewardAddress tx) of
        Inl e \<Rightarrow> (tx, Inl e)
      | Inr data \<Rightarrow>
          (case SignVote sign data of
             Inl e \<Rightarrow> (tx, Inl e)
           | Inr signature \<Rightarrow> (tx\<lparr>rt_Signature := signature\<rparr>, Inr ())))"

section \<open>Observer period and entry fee\<close>

definition observer_hours :: "int \<Rightarrow> rat" where
  "observer_hours n = rnd_val (6 + rnd_val (rnd_val (of_int (n - 100) / 900) * 18))"

lemma small_int_rnd: "rnd 6 = Fin 6" "rnd 18 = Fin 18" "rnd 24 = Fin 24" "rnd 7 = Fin 7" "rnd 3600 = Fin 3600"
    "rnd 100000000 = Fin 100000000" "rnd 900 = Fin 900" "rnd 3600000000000 = Fin 3600000000000"
    "rnd 21600000000000 = Fin 21600000000000" "rnd 86400000000000 = Fin 86400000000000"
  using rnd_int [of 6] rnd_int [of 18] rnd_int [of 24] rnd_int [of 7] rnd_int [of 3600] rnd_int [of 100000000]
    rnd_int [of 900] rnd_int [of 3600000000000] rnd_int [of 21600000000000] rnd_int [of 86400000000000]
  by simp_all

lemma observer_steps:
  assumes "100 \<le> n" "n \<le> 1000"
  shows "rnd (of_int (n - 100) / 900) = Fin (rnd_val (of_int (n - 100) / 900))"
    and "rnd (rnd_val (of_int (n - 100) / 900) * 18) = Fin (rnd_val (rnd_val (of_int (n - 100) / 900) * 18))"
    and "rnd (6 + rnd_val (rnd_val (of_int (n - 100) / 900) * 18)) = Fin (observer_hours n)"
    and "rnd (observer_hours n * 3600000000000) = Fin (rnd_val (observer_hours n * 3600000000000))"
    and "6 \<le> observer_hours n" "observer_hours n \<le> 24"
proof -
  have x: "(of_int 0 :: rat) \<le> of_int (n - 100) / 900" "of_int (n - 100) / 900 \<le> (of_int 1 :: rat)"
    using assms by simp_all
  note p = rnd_between [OF _ _ x, simplified]
  have y: "(of_int 0 :: rat) \<le> rnd_val (of_int (n - 100) / 900) * 18" "rnd_val (of_int (n - 100) / 900) * 18 \<le> of_int 18"
    using p(2,3) by simp_all
  note m = rnd_between [OF _ _ y, simplified]
  have z: "(of_int 6 :: rat) \<le> 6 + rnd_val (rnd_val (of_int (n - 100) / 900) * 18)"
    "6 + rnd_val (rnd_val (of_int (n - 100) / 900) * 18) \<le> of_int 24"
    using m(2,3) by simp_all
  note h = rnd_between [OF _ _ z, simplified, folded observer_hours_def]
  have w: "(of_int 21600000000000 :: rat) \<le> observer_hours n * 3600000000000"
    "observer_hours n * 3600000000000 \<le> of_int 86400000000000"
    using h(2,3) by (simp_all add: observer_hours_def)
  show "rnd (of_int (n - 100) / 900) = Fin (rnd_val (of_int (n - 100) / 900))"
    "rnd (rnd_val (of_int (n - 100) / 900) * 18) = Fin (rnd_val (rnd_val (of_int (n - 100) / 900) * 18))"
    "rnd (6 + rnd_val (rnd_val (of_int (n - 100) / 900) * 18)) = Fin (observer_hours n)"
    "6 \<le> observer_hours n" "observer_hours n \<le> 24"
    "rnd (observer_hours n * 3600000000000) = Fin (rnd_val (observer_hours n * 3600000000000))"
    using p(1) m(1) h rnd_between(1) [OF _ _ w] by (simp_all add: observer_hours_def)
qed

lemma observer_duration_middle:
  assumes "100 \<le> n" "n < 1000"
  shows "calculateObserverDuration n = \<lfloor>rnd_val (observer_hours n * 3600000000000)\<rfloor>"
    and "21600000000000 \<le> rnd_val (observer_hours n * 3600000000000)"
    and "rnd_val (observer_hours n * 3600000000000) \<le> 86400000000000"
proof -
  note st = observer_steps [of n]
  have w: "(of_int 21600000000000 :: rat) \<le> observer_hours n * 3600000000000"
    "observer_hours n * 3600000000000 \<le> of_int 86400000000000"
    using st(5,6) assms by simp_all
  note d = rnd_between [OF _ _ w, simplified]
  show "21600000000000 \<le> rnd_val (observer_hours n * 3600000000000)"
    "rnd_val (observer_hours n * 3600000000000) \<le> 86400000000000"
    using d by simp_all
  then have "f_to_int (Fin (rnd_val (observer_hours n * 3600000000000))) =
      Some \<lfloor>rnd_val (observer_hours n * 3600000000000)\<rfloor>"
    by (intro f_to_int_range) simp_all
  moreover have "rnd (of_int n - 100) = Fin (of_int n - 100)"
    using f_of_int_exact [of "n - 100"] assms by (simp add: f_of_int_def)
  ultimately show "calculateObserverDuration n = \<lfloor>rnd_val (observer_hours n * 3600000000000)\<rfloor>"
    using assms st(1-4)
    by (simp add: calculateObserverDuration_def f_duration_def small_int_rnd f_of_int_def hour_def
        minute_def second_def Let_def del: f_to_int.simps)
qed

lemma observer_duration_ends:
  "n < 100 \<Longrightarrow> calculateObserverDuration n = 6 * hour"
  "1000 \<le> n \<Longrightarrow> calculateObserverDuration n = 24 * hour"
  by (simp_all add: calculateObserverDuration_def f_duration_def small_int_rnd f_of_int_def hour_def
        minute_def second_def Let_def trunc_rat_def)

lemma observer_duration_bounds: "6 * hour \<le> calculateObserverDuration n \<and> calculateObserverDuration n \<le> 24 * hour"
proof (cases "100 \<le> n \<and> n < 1000")
  case True
  with observer_duration_middle [of n] show ?thesis
    by (simp add: duration_values le_floor_iff floor_le_iff)
next
  case False
  then show ?thesis using observer_duration_ends [of n] by (cases "n < 100") (simp_all add: duration_values)
qed

lemma observer_hours_mono: "100 \<le> m \<Longrightarrow> m \<le> n \<Longrightarrow> observer_hours m \<le> observer_hours n"
  unfolding observer_hours_def
  by (intro rnd_val_mono add_left_mono mult_right_mono add_nonneg_nonneg mult_nonneg_nonneg rnd_val_nonneg divide_right_mono)
    simp_all

lemma observer_duration_mono: "m \<le> n \<Longrightarrow> calculateObserverDuration m \<le> calculateObserverDuration n"
proof -
  assume le: "m \<le> n"
  consider "m < 100" | "1000 \<le> n" | "100 \<le> m" "n < 1000" by linarith
  then show ?thesis
  proof cases
    case 3
    have "rnd_val (observer_hours m * 3600000000000) \<le> rnd_val (observer_hours n * 3600000000000)"
      using observer_hours_mono [OF 3(1) le] observer_steps(5) [of m] 3 le
      by (intro rnd_val_mono) simp_all
    then show ?thesis
      using 3 le observer_duration_middle(1) [of m] observer_duration_middle(1) [of n] by (simp add: floor_mono)
  qed (use observer_duration_bounds observer_duration_ends in auto)
qed

lemma duration_hours_range:
  assumes "6 * hour \<le> d" "d \<le> 24 * hour"
  obtains x where "duration_hours d = Fin x" "6 \<le> x" "x \<le> 24"
proof -
  define h where "h = d div hour"
  have hour: "0 < hour" by (simp add: duration_values)
  have tr: "trunc_rat (of_int d / of_int hour) = h"
    using assms hour by (simp add: trunc_rat_def h_def floor_divide_of_int_eq divide_less_0_iff)
  have split: "d - h * hour = d mod hour" by (simp add: h_def minus_div_mult_eq_mod)
  have h: "6 \<le> h" "h \<le> 24" using assms hour zdiv_mono1 [of "6 * hour" d hour] zdiv_mono1 [of d "24 * hour" hour]
    by (simp_all add: h_def)
  have m: "0 \<le> d mod hour" "d mod hour < hour" using hour by simp_all
  have ints: "rnd (of_int h) = Fin (of_int h)" "rnd (of_int (d mod hour)) = Fin (of_int (d mod hour))"
    "rnd (of_int hour) = Fin (of_int hour)"
    using h m f_of_int_exact [of h] f_of_int_exact [of "d mod hour"] f_of_int_exact [of hour]
    by (simp_all add: f_of_int_def duration_values)
  have q: "(of_int 0 :: rat) \<le> of_int (d mod hour) / of_int hour" "of_int (d mod hour) / of_int hour \<le> (of_int 1 :: rat)"
    using m less_imp_le [OF m(2)] hour by (simp_all add: divide_le_eq)
  note qb = rnd_between [OF _ _ q, simplified]
  have s: "(of_int 6 :: rat) \<le> of_int h + rnd_val (of_int (d mod hour) / of_int hour)"
    "of_int h + rnd_val (of_int (d mod hour) / of_int hour) \<le> of_int 24"
  proof -
    show "(of_int 6 :: rat) \<le> of_int h + rnd_val (of_int (d mod hour) / of_int hour)"
      using h qb(2) by (simp add: add_increasing2)
    show "of_int h + rnd_val (of_int (d mod hour) / of_int hour) \<le> of_int 24"
    proof (cases "h = 24")
      case True
      have "d mod hour = 0" using assms(2) split [unfolded True] m(1) by linarith
      then show ?thesis using True by (simp add: rnd_val_def round_even_def)
    next
      case False
      then have "(of_int h :: rat) \<le> of_int 23" using h by (simp only: of_int_le_iff)
      then show ?thesis using qb(3) by simp
    qed
  qed
  note sb = rnd_between [OF _ _ s, simplified]
  have "duration_hours d = Fin (rnd_val (of_int h + rnd_val (of_int (d mod hour) / of_int hour)))"
    using sb(1) qb(1) ints hour arg_cong [OF split, of rat_of_int]
    by (simp add: duration_hours_def tr f_of_int_def Let_def)
  with sb show ?thesis by (intro that) simp_all
qed

lemma entry_fee_range:
  assumes "6 * hour \<le> d" "d \<le> 24 * hour"
  shows "15120000000000 \<le> calculateDynamicEntryFee n d \<and> calculateDynamicEntryFee n d \<le> 60480000000000"
proof -
  obtain x where x: "duration_hours d = Fin x" "6 \<le> x" "x \<le> 24" using duration_hours_range [OF assms] .
  have a: "(of_int 42 :: rat) \<le> 7 * x" "7 * x \<le> of_int 168" using x by simp_all
  note ab = rnd_between [OF _ _ a, simplified]
  have b: "(of_int 151200 :: rat) \<le> rnd_val (7 * x) * 3600" "rnd_val (7 * x) * 3600 \<le> of_int 604800" using ab by simp_all
  note bb = rnd_between [OF _ _ b, simplified]
  have c: "(of_int 15120000000000 :: rat) \<le> rnd_val (rnd_val (7 * x) * 3600) * 100000000"
    "rnd_val (rnd_val (7 * x) * 3600) * 100000000 \<le> of_int 60480000000000" using bb by simp_all
  note cb = rnd_between [OF _ _ c, simplified]
  have "f_to_int (Fin (rnd_val (rnd_val (rnd_val (7 * x) * 3600) * 100000000))) =
      Some \<lfloor>rnd_val (rnd_val (rnd_val (7 * x) * 3600) * 100000000)\<rfloor>"
    using cb by (intro f_to_int_range) simp_all
  then have "calculateDynamicEntryFee n d = \<lfloor>rnd_val (rnd_val (rnd_val (7 * x) * 3600) * 100000000)\<rfloor>"
    using ab(1) bb(1) cb(1)
    by (simp add: calculateDynamicEntryFee_def f_duration_def x small_int_rnd Let_def del: f_to_int.simps)
  then show ?thesis using cb by (simp add: le_floor_iff floor_le_iff)
qed

section \<open>Reachable registries\<close>

text \<open>
  The operations of the registry, and the changes other parts of the node make to the shared
  state: they update accounts, and validators without touching the observer fields.
\<close>

inductive reg_step :: "'st state_ops \<Rightarrow> 'st ValidatorRegistry \<Rightarrow> 'st ValidatorRegistry \<Rightarrow> bool" for so where
  reg_register: "RegisterValidator so now tx vr = (vr', r) \<Longrightarrow> reg_step so vr vr'"
| reg_activate: "reg_step so vr (ActivatePendingValidators so now vr)"
| reg_exit: "RequestExit so now i vr = (vr', r) \<Longrightarrow> reg_step so vr vr'"
| reg_process: "reg_step so vr (ProcessExits now vr)"
| reg_suspend: "SuspendValidator so i t reason vr = (vr', r) \<Longrightarrow> reg_step so vr vr'"
| reg_clear: "ClearSuspension so i vr = (vr', r) \<Longrightarrow> reg_step so vr vr'"
| reg_account: "reg_step so vr (vr\<lparr>vr_state := so_put_account so a (vr_state vr)\<rparr>)"
| reg_update: "so_validator so (vr_state vr) (v_ID info) = Inr old \<Longrightarrow> v_IsObserver info = v_IsObserver old \<Longrightarrow>
    v_ObserverStartTime info = v_ObserverStartTime old \<Longrightarrow> v_ObserverDuration info = v_ObserverDuration old \<Longrightarrow>
    reg_step so vr (vr\<lparr>vr_state := so_put_validator so info (vr_state vr)\<rparr>)"

inductive registry_reachable :: "'st state_ops \<Rightarrow> 'st ValidatorRegistry \<Rightarrow> bool" for so where
  registry_init: "registry_reachable so (NewValidatorRegistry st)"
| registry_next: "registry_reachable so vr \<Longrightarrow> reg_step so vr vr' \<Longrightarrow> registry_reachable so vr'"

inductive_cases reg_stepE: "reg_step so vr vr'"

definition observing :: "ValidatorRegistration \<Rightarrow> ValidatorInfo \<Rightarrow> bool" where
  "observing r info = (v_IsObserver info \<and> v_ObserverStartTime info = vg_RegistrationTime r \<and>
     6 * hour \<le> v_ObserverDuration info \<and> v_ObserverDuration info \<le> 24 * hour)"

definition registration_ok :: "'st state_ops \<Rightarrow> 'st \<Rightarrow> string \<Rightarrow> ValidatorRegistration \<Rightarrow> bool" where
  "registration_ok so st i r = (vg_ValidatorID r = i \<and>
     (vg_Status r = StatusPending \<and> (\<exists>info. so_validator so st i = Inr info \<and> observing r info) \<or>
      (vg_Status r = StatusActive \<or> vg_Status r = StatusExiting) \<and>
      6 * hour \<le> vg_ActivationTime r - vg_RegistrationTime r))"

definition reg_inv :: "'st state_ops \<Rightarrow> 'st ValidatorRegistry \<Rightarrow> bool" where
  "reg_inv so vr = (wf_map (vr_validators vr) \<and>
     (\<forall>(i, r) \<in> set (vr_validators vr). registration_ok so (vr_state vr) i r))"

lemma reg_inv_get: "reg_inv so vr \<Longrightarrow> mget (vr_validators vr) i = Some r \<Longrightarrow> registration_ok so (vr_state vr) i r"
  by (auto simp: reg_inv_def dest!: mget_in_set)

lemma registration_ok_state:
  "so_validator so st' i = so_validator so st i \<Longrightarrow> registration_ok so st' i r = registration_ok so st i r"
  by (simp add: registration_ok_def)

lemma registration_ok_update:
  "state_laws so \<Longrightarrow> registration_ok so st i r \<Longrightarrow> so_validator so st (v_ID info) = Inr old \<Longrightarrow>
   v_IsObserver info = v_IsObserver old \<Longrightarrow> v_ObserverStartTime info = v_ObserverStartTime old \<Longrightarrow>
   v_ObserverDuration info = v_ObserverDuration old \<Longrightarrow> registration_ok so (so_put_validator so info st) i r"
  by (auto simp: registration_ok_def state_put_validator observing_def)

lemma reg_inv_update:
  "state_laws so \<Longrightarrow> reg_inv so vr \<Longrightarrow> so_validator so (vr_state vr) (v_ID info) = Inr old \<Longrightarrow>
   v_IsObserver info = v_IsObserver old \<Longrightarrow> v_ObserverStartTime info = v_ObserverStartTime old \<Longrightarrow>
   v_ObserverDuration info = v_ObserverDuration old \<Longrightarrow>
   reg_inv so (vr\<lparr>vr_state := so_put_validator so info (vr_state vr)\<rparr>)"
  by (auto simp: reg_inv_def intro: registration_ok_update)

lemma reg_inv_account: "state_laws so \<Longrightarrow> reg_inv so (vr\<lparr>vr_state := so_put_account so a (vr_state vr)\<rparr>) = reg_inv so vr"
  by (simp add: reg_inv_def registration_ok_def state_validator_account)

lemma reg_inv_put:
  assumes "state_laws so" "reg_inv so vr" "v_ID info = i"
    and ok: "registration_ok so (so_put_validator so info (vr_state vr)) i r"
  shows "reg_inv so (vr\<lparr>vr_validators := mput i r (vr_validators vr), vr_state := so_put_validator so info (vr_state vr)\<rparr>)"
proof -
  have wf: "wf_map (vr_validators vr)" using assms by (simp add: reg_inv_def)
  have "registration_ok so (so_put_validator so info (vr_state vr)) k q"
    if "(k, q) \<in> set (mput i r (vr_validators vr))" for k q
  proof (cases "k = i")
    case True
    then show ?thesis using in_set_mput [OF wf that] ok by auto
  next
    case False
    then have "(k, q) \<in> set (vr_validators vr)" using in_set_mput [OF wf that] by auto
    then have "registration_ok so (vr_state vr) k q" using assms(2) by (auto simp: reg_inv_def)
    then show ?thesis
      using registration_ok_state [of so "so_put_validator so info (vr_state vr)" k "vr_state vr"] False assms(1,3)
      by (simp add: state_put_validator)
  qed
  with wf show ?thesis by (auto simp: reg_inv_def wf_mput)
qed

lemma reg_inv_mput:
  "reg_inv so vr \<Longrightarrow> registration_ok so (vr_state vr) i r \<Longrightarrow>
   reg_inv so (vr\<lparr>vr_validators := mput i r (vr_validators vr)\<rparr>)"
  using set_mput_subset [of i r "vr_validators vr"] by (auto simp: reg_inv_def wf_mput)

lemma enroll_inv: "state_laws so \<Longrightarrow> reg_inv so vr \<Longrightarrow>
    reg_inv so (enroll so now (calculateObserverDuration n) tx vr)"
  unfolding enroll_def using observer_duration_bounds [of n]
  by (intro reg_inv_put)
    (simp_all add: registration_ok_def observing_def new_registration_def observer_info_def state_put_validator)

lemma register_inv:
  assumes "state_laws so" "reg_inv so vr" "RegisterValidator so now tx vr = (vr', r)"
  shows "reg_inv so vr'"
  using assms reg_inv_account [OF assms(1)] enroll_inv [OF assms(1)]
  by (auto simp: RegisterValidator_def Let_def split: if_splits sum.splits option.splits)

lemma activated_ok:
  assumes "registration_ok so st i r" "vg_Status r = StatusPending"
    "so_validator so st i = Inr info" "may_activate now info"
  shows "registration_ok so st' i (r\<lparr>vg_Status := StatusActive, vg_ActivationTime := now\<rparr>)"
proof -
  have o: "observing r info" "vg_ValidatorID r = i" using assms by (auto simp: registration_ok_def)
  then have "v_ObserverDuration info \<le> now - vg_RegistrationTime r"
    using assms(4) time_sub_ge [of "v_ObserverDuration info" now "vg_RegistrationTime r"]
    by (simp add: may_activate_def observing_def duration_values max_duration_def)
  with o show ?thesis by (simp add: registration_ok_def observing_def)
qed

lemma activate_loop_inv:
  "state_laws so \<Longrightarrow> reg_inv so vr \<Longrightarrow> wf_map rest \<Longrightarrow>
   (\<forall>(i, r) \<in> set rest. registration_ok so (vr_state vr) i r) \<Longrightarrow> reg_inv so (activate_loop so now rest vr)"
proof (induction so now rest vr rule: activate_loop.induct)
  case (2 so now i r rest vr)
  let ?vr = "if vg_Status r = StatusPending then (case so_validator so (vr_state vr) i of
             Inl _ \<Rightarrow> vr
           | Inr info \<Rightarrow>
               if may_activate now info then
                 vr\<lparr>vr_validators := mput i (r\<lparr>vg_Status := StatusActive, vg_ActivationTime := now\<rparr>) (vr_validators vr),
                    vr_state := so_put_validator so (info\<lparr>v_IsActive := True, v_IsObserver := False\<rparr>) (vr_state vr)\<rparr>
               else vr) else vr"
  have r: "registration_ok so (vr_state vr) i r" using "2.prems" by simp
  have inv: "reg_inv so ?vr"
    using "2.prems"(1,2) activated_ok [OF r] state_ids(1) [OF "2.prems"(1)]
    by (auto intro!: reg_inv_put split: sum.splits)
  have same: "so_validator so (vr_state ?vr) k = so_validator so (vr_state vr) k" if "k \<noteq> i" for k
    using that state_ids(1) [OF "2.prems"(1), of "vr_state vr" i] by (auto simp: state_put_validator [OF "2.prems"(1)] split: sum.splits)
  have "\<forall>(k, q) \<in> set rest. registration_ok so (vr_state ?vr) k q"
    using "2.prems"(3,4) same registration_ok_state by (fastforce simp: image_iff)
  then show ?case using "2.IH" [OF "2.prems"(1) inv] "2.prems"(3) by simp
qed simp

lemma exit_inv:
  assumes "state_laws so" "reg_inv so vr" "RequestExit so now i vr = (vr', r)"
  shows "reg_inv so vr'"
proof (cases "mget (vr_validators vr) i")
  case None
  then show ?thesis using assms by (simp add: RequestExit_def)
next
  case (Some q)
  note ok = reg_inv_get [OF assms(2) Some]
  show ?thesis
  proof (cases "vg_Status q = StatusActive")
    case True
    then have ok': "registration_ok so st i (q\<lparr>vg_Status := StatusExiting, vg_ExitTime := now\<rparr>)" for st
      using ok by (simp add: registration_ok_def)
    show ?thesis
      using assms Some True ok' state_ids(1) [OF assms(1)]
      by (auto simp: RequestExit_def Let_def intro!: reg_inv_put reg_inv_mput split: sum.splits)
  qed (use assms Some in \<open>simp add: RequestExit_def\<close>)
qed

lemma reg_step_inv: "state_laws so \<Longrightarrow> reg_inv so vr \<Longrightarrow> reg_step so vr vr' \<Longrightarrow> reg_inv so vr'"
proof (elim reg_stepE)
  fix now show "state_laws so \<Longrightarrow> reg_inv so vr \<Longrightarrow> vr' = ActivatePendingValidators so now vr \<Longrightarrow> reg_inv so vr'"
    using activate_loop_inv [of so vr "vr_validators vr" now] by (simp add: ActivatePendingValidators_def reg_inv_def)
  fix now show "state_laws so \<Longrightarrow> reg_inv so vr \<Longrightarrow> vr' = ProcessExits now vr \<Longrightarrow> reg_inv so vr'"
    by (auto simp: ProcessExits_def reg_inv_def wf_mkeep)
next
  fix i t reason r
  show "state_laws so \<Longrightarrow> reg_inv so vr \<Longrightarrow> SuspendValidator so i t reason vr = (vr', r) \<Longrightarrow> reg_inv so vr'"
    using state_ids(1) [of so "vr_state vr" i]
    by (auto simp: SuspendValidator_def split: sum.splits intro!: reg_inv_update)
next
  fix i r
  show "state_laws so \<Longrightarrow> reg_inv so vr \<Longrightarrow> ClearSuspension so i vr = (vr', r) \<Longrightarrow> reg_inv so vr'"
    using state_ids(1) [of so "vr_state vr" i]
    by (auto simp: ClearSuspension_def split: sum.splits intro!: reg_inv_update)
qed (auto intro: register_inv exit_inv reg_inv_update simp: reg_inv_account)

lemma registry_invariant: "state_laws so \<Longrightarrow> registry_reachable so vr \<Longrightarrow> reg_inv so vr"
  by (rotate_tac, induction rule: registry_reachable.induct)
    (auto simp: NewValidatorRegistry_def reg_inv_def [of so "\<lparr>vr_state = st, vr_validators = [], vr_activationDelay = d, vr_exitDelay = e\<rparr>" for st d e]
      intro: reg_step_inv)

section \<open>The life cycle of a validator\<close>

definition demo_reg_tx :: RegistrationTx where
  "demo_reg_tx = \<lparr>rt_ValidatorID = ''validator-001'', rt_PublicKey = [], rt_RewardAddress = [], rt_Signature = []\<rparr>"

definition demo_new_registry :: "mem_state ValidatorRegistry" where
  "demo_new_registry = NewValidatorRegistry \<lparr>mst_validators = [], mst_accounts = []\<rparr>"

definition demo_active_registry :: "mem_state ValidatorRegistry" where
  "demo_active_registry = demo_new_registry\<lparr>
     vr_state := \<lparr>mst_validators = [(''validator-001'', demo_info\<lparr>v_ID := ''validator-001'', v_IsSuspended := True\<rparr>)],
       mst_accounts = []\<rparr>,
     vr_validators := [(''validator-001'', (new_registration 0 demo_reg_tx)\<lparr>vg_Status := StatusActive\<rparr>)]\<rparr>"

text \<open>
  C30: In every reachable registry a validator is pending, active or exiting, a pending one
  is an observer since its registration, and none has become active before at least six hours had
  passed since its registration, whatever other parts of the node write to the shared state.
\<close>

theorem activation_after_observation:
  assumes "state_laws so" "registry_reachable so vr" "mget (vr_validators vr) i = Some r"
  shows "(vg_Status r = StatusPending \<and> (\<exists>info. so_validator so (vr_state vr) i = Inr info \<and> v_IsObserver info \<and>
            v_ObserverStartTime info = vg_RegistrationTime r)) \<or>
         ((vg_Status r = StatusActive \<or> vg_Status r = StatusExiting) \<and>
            6 * hour \<le> vg_ActivationTime r - vg_RegistrationTime r)"
  using reg_inv_get [OF registry_invariant [OF assms(1,2)] assms(3)]
  by (auto simp: registration_ok_def observing_def)

theorem activation_after_observation_witness:
  "mget (vr_validators (fst (RegisterValidator mem_state_ops 5 demo_reg_tx demo_new_registry))) ''validator-001'' =
     Some (new_registration 5 demo_reg_tx) \<and> vg_RegistrationTime (new_registration 5 demo_reg_tx) = 5 \<and>
   vg_Status (new_registration 5 demo_reg_tx) = StatusPending"
proof -
  let ?vr = "fst (RegisterValidator mem_state_ops 5 demo_reg_tx demo_new_registry)"
  have reach: "registry_reachable mem_state_ops ?vr"
    unfolding demo_new_registry_def
    by (rule registry_next [OF registry_init reg_register [OF prod.collapse [symmetric]]])
  have get: "mget (vr_validators ?vr) ''validator-001'' = Some (new_registration 5 demo_reg_tx)"
    by (simp add: RegisterValidator_def demo_new_registry_def NewValidatorRegistry_def mem_state_ops_def demo_reg_tx_def
        enroll_def mhas_def Let_def)
  from activation_after_observation [OF mem_state_laws reach get] get show ?thesis
    by (auto simp: new_registration_def)
qed

text \<open>
  The observer period is between 6 and 24 hours and does not decrease with the number of
  active validators; it is 6 hours below 100 and 24 hours from 1000 on. The entry fee for it is
  between \<open>7 * 6 * 3600 * 10^8\<close> and four times that.
\<close>

theorem observer_period_and_fee:
  "6 * hour \<le> calculateObserverDuration n \<and> calculateObserverDuration n \<le> 24 * hour \<and>
   calculateObserverDuration (min n 99) = 6 * hour \<and> calculateObserverDuration (max n 1000) = 24 * hour \<and>
   calculateObserverDuration (n - int k) \<le> calculateObserverDuration n \<and>
   7 * 6 * 3600 * 10 ^ 8 \<le> calculateDynamicEntryFee n (calculateObserverDuration n) \<and>
   calculateDynamicEntryFee n (calculateObserverDuration n) \<le> 7 * 24 * 3600 * 10 ^ 8"
  using observer_duration_bounds [of n] entry_fee_range [of "calculateObserverDuration n" n]
    observer_duration_mono [of "n - int k" n] observer_duration_ends [of "min n 99"] observer_duration_ends [of "max n 1000"]
  by simp

text \<open>
  What RegisterValidator does with an unregistered ID. With an account, the balance
  decides; a charged account whose ID is shorter than 12 characters pays and the call panics before
  anything is registered. Without an account the validator is registered for free.
\<close>

theorem register_effect:
  assumes laws: "state_laws so" and new: "\<not> mhas (vr_validators vr) (rt_ValidatorID tx)"
    and reg: "RegisterValidator so now tx vr = (vr', r)"
  shows "case so_account so (vr_state vr) (rt_ValidatorID tx) of
      Inr (Some account) \<Rightarrow>
        (\<exists>fee. 0 < fee \<and>
          (a_Balance account < fee \<and> vr' = vr \<and> r = Inl (Error ''insufficient balance for entry fee'') \<or>
           fee \<le> a_Balance account \<and>
           so_account so (vr_state vr') (rt_ValidatorID tx) = Inr (Some (account\<lparr>a_Balance := a_Balance account - fee\<rparr>)) \<and>
           is_panic r = (length (rt_ValidatorID tx) < 12) \<and>
           mhas (vr_validators vr') (rt_ValidatorID tx) = (r = Inr ()) \<and> (r = Inr ()) = (12 \<le> length (rt_ValidatorID tx))))
    | _ \<Rightarrow> r = Inr () \<and> mget (vr_validators vr') (rt_ValidatorID tx) = Some (new_registration now tx) \<and>
        so_account so (vr_state vr') = so_account so (vr_state vr)"
proof (cases "so_account so (vr_state vr) (rt_ValidatorID tx)")
  case (Inl e)
  then show ?thesis
    using reg new laws
    by (auto simp: RegisterValidator_def enroll_def mget_mput state_validator_account fun_eq_iff Let_def)
next
  case (Inr acc)
  show ?thesis
  proof (cases acc)
    case None
    then show ?thesis
      using reg new laws Inr
      by (auto simp: RegisterValidator_def enroll_def mget_mput state_validator_account fun_eq_iff Let_def)
  next
    case (Some account)
    let ?n = "int (length (so_active so (vr_state vr)))"
    let ?fee = "calculateDynamicEntryFee ?n (calculateObserverDuration ?n)"
    have fee: "0 < ?fee" using observer_duration_bounds [of ?n] entry_fee_range [of "calculateObserverDuration ?n" ?n] by simp
    have addr: "a_Address account = rt_ValidatorID tx" using state_ids(2) [OF laws] Inr Some by simp
    consider "a_Balance account < ?fee" | "?fee \<le> a_Balance account" "length (rt_ValidatorID tx) < 12"
      | "?fee \<le> a_Balance account" "12 \<le> length (rt_ValidatorID tx)" by linarith
    then show ?thesis
    proof cases
      case 1
      then show ?thesis using fee reg new Inr Some by (auto simp: RegisterValidator_def Let_def)
    next
      case 2
      then show ?thesis using fee reg new Inr Some addr laws
        by (auto simp: RegisterValidator_def Let_def slice_to_def state_put_account mhas_def intro!: exI [of _ ?fee])
    next
      case 3
      then show ?thesis using fee reg new Inr Some addr laws
        by (auto simp: RegisterValidator_def Let_def slice_to_def state_put_account state_validator_account
            enroll_def mhas_def mget_mput intro!: exI [of _ ?fee])
    qed
  qed
qed

theorem register_effect_witness:
  "snd (RegisterValidator mem_state_ops 5 demo_reg_tx demo_new_registry) = Inr ()"
proof -
  have "\<not> mhas (vr_validators demo_new_registry) (rt_ValidatorID demo_reg_tx)"
    by (simp add: demo_new_registry_def NewValidatorRegistry_def mhas_def)
  from register_effect [OF mem_state_laws this prod.collapse [symmetric]] show ?thesis
    by (simp add: demo_new_registry_def NewValidatorRegistry_def mem_state_ops_def)
qed

text \<open>
  A suspended validator can leave and come back without the suspension: the exit does not
  look at it, and the new registration overwrites the validator's record. It is then an observer
  whose suspension flag is off, whatever end the suspension had.
\<close>

theorem reregistration_clears_suspension:
  assumes laws: "state_laws so" and wf: "wf_map (vr_validators vr)"
    and active: "mget (vr_validators vr) v = Some q" "vg_Status q = StatusActive"
    and suspended: "so_validator so (vr_state vr) v = Inr info" "v_IsSuspended info"
    and exit: "RequestExit so t1 v vr = (vr1, r1)" and wait: "vr_exitDelay vr \<le> time_sub t2 t1"
    and again: "rt_ValidatorID tx = v" "RegisterValidator so t3 tx (ProcessExits t2 vr1) = (vr3, Inr ())"
  shows "(\<exists>info1. so_validator so (vr_state vr1) v = Inr info1 \<and> v_IsSuspended info1) \<and>
    (\<exists>info3. so_validator so (vr_state vr3) v = Inr info3 \<and> v_IsObserver info3 \<and> \<not> v_IsSuspended info3)"
proof -
  have id: "v_ID info = v" using state_ids(1) [OF laws suspended(1)] .
  have vr1: "vr1 = vr\<lparr>vr_validators := mput v (q\<lparr>vg_Status := StatusExiting, vg_ExitTime := t1\<rparr>) (vr_validators vr),
      vr_state := so_put_validator so (info\<lparr>v_IsActive := False\<rparr>) (vr_state vr)\<rparr>"
    using exit active suspended by (simp add: RequestExit_def Let_def)
  have "mget (vr_validators (ProcessExits t2 vr1)) v = None"
    using wf wait by (simp add: vr1 ProcessExits_def mget_mkeep wf_mput mget_mput)
  then have "\<not> mhas (vr_validators (ProcessExits t2 vr1)) v" by (simp add: mhas_def)
  then have "\<exists>info3. so_validator so (vr_state vr3) v = Inr info3 \<and> v_IsObserver info3 \<and> \<not> v_IsSuspended info3"
    using again laws
    by (auto simp: RegisterValidator_def enroll_def observer_info_def state_put_validator Let_def
        split: sum.splits option.splits if_splits)
  then show ?thesis using suspended id laws by (simp add: vr1 state_put_validator)
qed

theorem reregistration_clears_suspension_witness:
  "\<exists>info. so_validator mem_state_ops (vr_state (fst (RegisterValidator mem_state_ops (300 * second) demo_reg_tx
     (ProcessExits (200 * second) (fst (RequestExit mem_state_ops 0 ''validator-001'' demo_active_registry))))))
     ''validator-001'' = Inr info \<and> \<not> v_IsSuspended info"
proof -
  let ?vr1 = "RequestExit mem_state_ops 0 ''validator-001'' demo_active_registry"
  let ?vr2 = "ProcessExits (200 * second) (fst ?vr1)"
  let ?vr3 = "RegisterValidator mem_state_ops (300 * second) demo_reg_tx ?vr2"
  have vr2: "vr_validators ?vr2 = []"
    by (simp add: RequestExit_def demo_active_registry_def demo_new_registry_def NewValidatorRegistry_def
        new_registration_def mem_state_ops_def ProcessExits_def mkeep_def time_sub_def second_def max_duration_def
        demo_reg_tx_def Let_def mput_def)
  have accts: "mst_accounts (vr_state ?vr2) = []"
    by (simp add: RequestExit_def demo_active_registry_def demo_new_registry_def NewValidatorRegistry_def
        new_registration_def mem_state_ops_def ProcessExits_def demo_reg_tx_def Let_def)
  have "snd ?vr3 = Inr ()"
    using vr2 accts by (simp add: RegisterValidator_def mhas_def mem_state_ops_def Let_def)
  then have again: "?vr3 = (fst ?vr3, Inr ())" by (simp add: prod_eq_iff)
  have wf: "wf_map (vr_validators demo_active_registry)" by (simp add: demo_active_registry_def)
  have active: "mget (vr_validators demo_active_registry) ''validator-001'' =
      Some ((new_registration 0 demo_reg_tx)\<lparr>vg_Status := StatusActive\<rparr>)" by (simp add: demo_active_registry_def)
  have susp: "so_validator mem_state_ops (vr_state demo_active_registry) ''validator-001'' =
      Inr (demo_info\<lparr>v_ID := ''validator-001'', v_IsSuspended := True\<rparr>)"
    by (simp add: demo_active_registry_def mem_state_ops_def)
  have "vr_exitDelay demo_active_registry \<le> time_sub (200 * second) 0"
    by (simp add: demo_active_registry_def demo_new_registry_def NewValidatorRegistry_def time_sub_def second_def
        max_duration_def)
  from reregistration_clears_suspension [OF mem_state_laws wf active _ susp _ prod.collapse [symmetric] this _ again]
  show ?thesis by (auto simp: demo_reg_tx_def)
qed

end
