(* ===== verification/Slashing.thy ===== *)
theory Slashing
  imports Voting Registry
begin

text \<open>
  Slashing (\<open>pkg/consensus/slashing.go\<close>): detection of double votes and downtime, suspension of
  the validator through the registry, the log of slashing events and its persistence.

  Parameters (\<open>slashing_env\<close>): the database, the JSON codec of events, \<open>Time.String\<close> and the
  validator state of \<open>Registry\<close>. The manager shares the registry with the rest of the node; its
  current value is a field of the state. Byte slices are values: the evidence of a double vote is
  the concatenation, whatever spare capacity the first slice has.
\<close>

section \<open>State\<close>

type_synonym SlashingReason = string

definition ReasonDoubleVoting :: SlashingReason where "ReasonDoubleVoting = ''double_voting''"
definition ReasonDowntime :: SlashingReason where "ReasonDowntime = ''downtime''"
definition ReasonInvalidBlock :: SlashingReason where "ReasonInvalidBlock = ''invalid_block''"
definition ReasonInvalidVote :: SlashingReason where "ReasonInvalidVote = ''invalid_vote''"
definition ReasonMaliciousBehavior :: SlashingReason where "ReasonMaliciousBehavior = ''malicious_behavior''"

record SlashingEvent =
  se_ValidatorID :: string
  se_Reason :: SlashingReason
  se_SuspensionDuration :: duration
  se_SuspensionEndTime :: gotime
  se_Evidence :: bytes
  se_Timestamp :: gotime
  se_BlockHeight :: u64

record ('db, 'st) SlashingManager =
  sm_db :: 'db
  sm_registry :: "'st ValidatorRegistry"
  sm_events :: "SlashingEvent list"
  sm_doubleVoteTracker :: "(string, (u64, bytes) gomap) gomap"
  sm_suspensionDurations :: "(SlashingReason, duration) gomap"

record ('db, 'st) slashing_env =
  sl_ldb :: "'db leveldb"
  sl_enc :: "SlashingEvent encoder"
  sl_dec :: "SlashingEvent decoder"
  sl_show_time :: "gotime \<Rightarrow> string"
  sl_state :: "'st state_ops"

definition initializeSuspensionDurations :: "(SlashingReason, duration) gomap \<Rightarrow> (SlashingReason, duration) gomap" where
  "initializeSuspensionDurations m =
     mput ReasonMaliciousBehavior (24 * hour) (mput ReasonInvalidVote (1 * hour)
       (mput ReasonInvalidBlock (24 * hour) (mput ReasonDowntime (6 * hour)
         (mput ReasonDoubleVoting (24 * hour) m))))"

text \<open>The prefix test compares a slice of eight characters with a literal of nine.\<close>

fun load_events_loop :: "SlashingEvent decoder \<Rightarrow> (string \<times> bytes) list \<Rightarrow> SlashingEvent list \<Rightarrow> SlashingEvent list" where
  "load_events_loop dec [] events = events"
| "load_events_loop dec ((k, v) # entries) events =
     (if length k > 8 \<and> take 8 k = ''slashing_'' then
        (case dec v of
           Inl _ \<Rightarrow> load_events_loop dec entries events
         | Inr event \<Rightarrow> load_events_loop dec entries (events @ [event]))
      else load_events_loop dec entries events)"

definition loadSlashingEvents :: "('db, 'st) slashing_env \<Rightarrow> ('db, 'st) SlashingManager \<Rightarrow> ('db, 'st) SlashingManager" where
  "loadSlashingEvents env sm =
     sm\<lparr>sm_events := load_events_loop (sl_dec env) (db_iter (sl_ldb env) (sm_db sm) []) (sm_events sm)\<rparr>"

definition NewSlashingManager ::
  "('db, 'st) slashing_env \<Rightarrow> 'db \<Rightarrow> 'st ValidatorRegistry \<Rightarrow> ('db, 'st) SlashingManager" where
  "NewSlashingManager env db registry = loadSlashingEvents env
     \<lparr>sm_db = db, sm_registry = registry, sm_events = [], sm_doubleVoteTracker = [],
      sm_suspensionDurations = initializeSuspensionDurations []\<rparr>"

section \<open>Operations\<close>

definition slashing_key :: "string \<Rightarrow> u64 \<Rightarrow> string" where
  "slashing_key validatorID blockHeight = ''slashing_'' @ validatorID @ ''_'' @ dec_u64 blockHeight"

text \<open>Two readings of the clock: for the end of the suspension and for the time of the event.\<close>

definition slashValidator ::
  "('db, 'st) slashing_env \<Rightarrow> gotime \<Rightarrow> gotime \<Rightarrow> string \<Rightarrow> SlashingReason \<Rightarrow> bytes \<Rightarrow> u64
    \<Rightarrow> ('db, 'st) SlashingManager \<Rightarrow> ('db, 'st) SlashingManager \<times> unit res" where
  "slashValidator env now1 now2 validatorID reason evidence blockHeight sm =
     (let duration = (case mget (sm_suspensionDurations sm) reason of None \<Rightarrow> 1 * hour | Some d \<Rightarrow> d);
          suspensionEndTime = now1 + duration
      in case SuspendValidator (sl_state env) validatorID suspensionEndTime reason (sm_registry sm) of
           (registry, Inl (Panic p)) \<Rightarrow> (sm\<lparr>sm_registry := registry\<rparr>, Inl (Panic p))
         | (registry, Inl (Error _)) \<Rightarrow> (sm\<lparr>sm_registry := registry\<rparr>, Inl (Error ''failed to suspend validator''))
         | (registry, Inr _) \<Rightarrow>
             (let event = \<lparr>se_ValidatorID = validatorID, se_Reason = reason, se_SuspensionDuration = duration,
                    se_SuspensionEndTime = suspensionEndTime, se_Evidence = evidence,
                    se_Timestamp = now2, se_BlockHeight = blockHeight\<rparr>;
                  sm1 = sm\<lparr>sm_registry := registry, sm_events := sm_events sm @ [event]\<rparr>
              in case sl_enc env event of
                   Inl e \<Rightarrow> (sm1, Inl e)
                 | Inr eventBytes \<Rightarrow>
                     (case db_put (sl_ldb env) (slashing_key validatorID blockHeight) eventBytes (sm_db sm) of
                        (d, Some e) \<Rightarrow> (sm1\<lparr>sm_db := d\<rparr>, Inl e)
                      | (d, None) \<Rightarrow> (sm1\<lparr>sm_db := d\<rparr>, Inr ()))))"

definition DetectDoubleVoting ::
  "('db, 'st) slashing_env \<Rightarrow> gotime \<Rightarrow> gotime \<Rightarrow> string \<Rightarrow> u64 \<Rightarrow> bytes
    \<Rightarrow> ('db, 'st) SlashingManager \<Rightarrow> ('db, 'st) SlashingManager \<times> unit res" where
  "DetectDoubleVoting env now1 now2 validatorID blockHeight blockHash sm =
     (let tracker = (if mhas (sm_doubleVoteTracker sm) validatorID then sm_doubleVoteTracker sm
                     else mput validatorID [] (sm_doubleVoteTracker sm));
          heights = (case mget tracker validatorID of None \<Rightarrow> [] | Some hs \<Rightarrow> hs);
          sm1 = sm\<lparr>sm_doubleVoteTracker := tracker\<rparr>
      in case mget heights blockHeight of
           Some previousVote \<Rightarrow>
             (if previousVote \<noteq> blockHash
              then slashValidator env now1 now2 validatorID ReasonDoubleVoting (previousVote @ blockHash) blockHeight sm1
              else (sm1, Inr ()))
         | None \<Rightarrow>
             (sm1\<lparr>sm_doubleVoteTracker := mput validatorID (mput blockHeight blockHash heights) tracker\<rparr>, Inr ()))"

definition CheckDowntime ::
  "('db, 'st) slashing_env \<Rightarrow> gotime \<Rightarrow> gotime \<Rightarrow> gotime \<Rightarrow> string \<Rightarrow> gotime \<Rightarrow> u64
    \<Rightarrow> ('db, 'st) SlashingManager \<Rightarrow> ('db, 'st) SlashingManager \<times> unit res" where
  "CheckDowntime env now now1 now2 validatorID lastSeen blockHeight sm =
     (if time_sub now lastSeen > 1 * hour
      then slashValidator env now1 now2 validatorID ReasonDowntime
             (bytes_of (''Last seen: '' @ sl_show_time env lastSeen)) blockHeight sm
      else (sm, Inr ()))"

definition SlashForInvalidBlock ::
  "('db, 'st) slashing_env \<Rightarrow> gotime \<Rightarrow> gotime \<Rightarrow> string \<Rightarrow> bytes \<Rightarrow> u64
    \<Rightarrow> ('db, 'st) SlashingManager \<Rightarrow> ('db, 'st) SlashingManager \<times> unit res" where
  "SlashForInvalidBlock env now1 now2 validatorID evidence blockHeight sm =
     slashValidator env now1 now2 validatorID ReasonInvalidBlock evidence blockHeight sm"

definition GetSlashingHistory :: "string \<Rightarrow> ('db, 'st) SlashingManager \<Rightarrow> SlashingEvent list" where
  "GetSlashingHistory validatorID sm = filter (\<lambda>event. se_ValidatorID event = validatorID) (sm_events sm)"

fun clear_loop :: "'st state_ops \<Rightarrow> gotime \<Rightarrow> ValidatorInfo list \<Rightarrow> 'st ValidatorRegistry \<times> nat \<Rightarrow> 'st ValidatorRegistry \<times> nat" where
  "clear_loop so now [] (vr, cleared) = (vr, cleared)"
| "clear_loop so now (validator # validators) (vr, cleared) =
     (if v_IsSuspended validator \<and> now > v_SuspensionEndTime validator then
        (case ClearSuspension so (v_ID validator) vr of
           (vr', Inr _) \<Rightarrow> clear_loop so now validators (vr', cleared + 1)
         | (vr', Inl _) \<Rightarrow> clear_loop so now validators (vr', cleared))
      else clear_loop so now validators (vr, cleared))"

definition CheckAndClearExpiredSuspensions ::
  "('db, 'st) slashing_env \<Rightarrow> gotime \<Rightarrow> ('db, 'st) SlashingManager \<Rightarrow> ('db, 'st) SlashingManager \<times> nat" where
  "CheckAndClearExpiredSuspensions env now sm =
     (case clear_loop (sl_state env) now (GetAllValidators (sl_state env) (sm_registry sm)) (sm_registry sm, 0) of
        (vr, cleared) \<Rightarrow> (sm\<lparr>sm_registry := vr\<rparr>, cleared))"

definition CleanupOldTracking :: "gotime \<Rightarrow> duration \<Rightarrow> ('db, 'st) SlashingManager \<Rightarrow> ('db, 'st) SlashingManager" where
  "CleanupOldTracking now maxAge sm =
     sm\<lparr>sm_events := filter (\<lambda>event. se_Timestamp event > now - maxAge) (sm_events sm)\<rparr>"

section \<open>What is tracked\<close>

text \<open>The hash recorded for a validator at a height: the first one that was reported.\<close>

definition tracked :: "('db, 'st) SlashingManager \<Rightarrow> string \<Rightarrow> u64 \<Rightarrow> bytes option" where
  "tracked sm v h = Option.bind (mget (sm_doubleVoteTracker sm) v) (\<lambda>hs. mget hs h)"

definition status_of :: "('db, 'st) slashing_env \<Rightarrow> ('db, 'st) SlashingManager \<Rightarrow> string \<Rightarrow> ValidatorInfo res" where
  "status_of env sm v = so_validator (sl_state env) (vr_state (sm_registry sm)) v"

definition suspended_info :: "gotime \<Rightarrow> SlashingReason \<Rightarrow> ValidatorInfo \<Rightarrow> ValidatorInfo" where
  "suspended_info t reason info = info\<lparr>v_IsSuspended := True, v_SuspensionEndTime := t, v_SuspensionReason := reason\<rparr>"

lemma suspend_status:
  "state_laws so \<Longrightarrow> SuspendValidator so v t reason vr = (vr', r) \<Longrightarrow> so_validator so (vr_state vr) v = Inr info \<Longrightarrow>
   r = Inr () \<and> vr_validators vr' = vr_validators vr \<and>
   (\<forall>i. so_validator so (vr_state vr') i = (if i = v then Inr (suspended_info t reason info) else so_validator so (vr_state vr) i))"
  using state_ids(1) [of so "vr_state vr" v info]
  by (auto simp: SuspendValidator_def suspended_info_def state_put_validator)

lemma suspend_unknown: "so_validator so (vr_state vr) v = Inl e \<Longrightarrow>
   SuspendValidator so v t reason vr = (vr, Inl (Error ''validator not found''))"
  by (simp add: SuspendValidator_def)

lemma slash_keeps:
  "slashValidator env now1 now2 v reason evidence h sm = (sm', r) \<Longrightarrow>
   sm_doubleVoteTracker sm' = sm_doubleVoteTracker sm \<and> sm_suspensionDurations sm' = sm_suspensionDurations sm"
  by (auto simp: slashValidator_def Let_def split: prod.splits sum.splits option.splits fail.splits)

lemma slash_tracked: "slashValidator env now1 now2 v reason evidence h sm = (sm', r) \<Longrightarrow> tracked sm' = tracked sm"
  using slash_keeps [of env now1 now2 v reason evidence h sm sm' r] by (simp add: tracked_def fun_eq_iff)

lemma slash_effect:
  assumes laws: "state_laws (sl_state env)" and known: "status_of env sm v = Inr info"
    and dur: "mget (sm_suspensionDurations sm) reason = Some d"
    and slash: "slashValidator env now1 now2 v reason evidence h sm = (sm', r)"
  shows "(\<forall>i. status_of env sm' i =
            (if i = v then Inr (suspended_info (now1 + d) reason info) else status_of env sm i)) \<and>
         sm_events sm' = sm_events sm @ [\<lparr>se_ValidatorID = v, se_Reason = reason, se_SuspensionDuration = d,
            se_SuspensionEndTime = now1 + d, se_Evidence = evidence, se_Timestamp = now2, se_BlockHeight = h\<rparr>]"
proof -
  obtain vr' r' where susp: "SuspendValidator (sl_state env) v (now1 + d) reason (sm_registry sm) = (vr', r')"
    by (cases "SuspendValidator (sl_state env) v (now1 + d) reason (sm_registry sm)")
  note eff = suspend_status [OF laws susp known [unfolded status_of_def]]
  then show ?thesis
    using slash susp dur
    by (auto simp: slashValidator_def status_of_def Let_def split: sum.splits option.splits prod.splits)
qed

lemma slash_registrations:
  "slashValidator env now1 now2 v reason evidence h sm = (sm', r) \<Longrightarrow>
   vr_validators (sm_registry sm') = vr_validators (sm_registry sm)"
  by (auto simp: slashValidator_def SuspendValidator_def Let_def split: prod.splits sum.splits option.splits fail.splits if_splits)

lemma detect_cases:
  "DetectDoubleVoting env now1 now2 v h hash sm =
     (let sm1 = sm\<lparr>sm_doubleVoteTracker := (if mhas (sm_doubleVoteTracker sm) v then sm_doubleVoteTracker sm
                     else mput v [] (sm_doubleVoteTracker sm))\<rparr>
      in case tracked sm v h of
           Some previous \<Rightarrow> if previous \<noteq> hash
              then slashValidator env now1 now2 v ReasonDoubleVoting (previous @ hash) h sm1 else (sm1, Inr ())
         | None \<Rightarrow> (sm1\<lparr>sm_doubleVoteTracker := mput v (mput h hash
              (case mget (sm_doubleVoteTracker sm) v of None \<Rightarrow> [] | Some hs \<Rightarrow> hs)) (sm_doubleVoteTracker sm1)\<rparr>, Inr ()))"
  by (auto simp: DetectDoubleVoting_def tracked_def mhas_def mget_mput Let_def split: option.splits)

lemma detect_tracked:
  "DetectDoubleVoting env now1 now2 v h hash sm = (sm', r) \<Longrightarrow>
   tracked sm' i k = (if i = v \<and> k = h \<and> tracked sm v h = None then Some hash else tracked sm i k)"
proof (cases "tracked sm v h")
  case None
  then show "DetectDoubleVoting env now1 now2 v h hash sm = (sm', r) \<Longrightarrow> ?thesis"
    by (auto simp: detect_cases tracked_def mhas_def mget_mput Let_def split: option.splits)
next
  case (Some previous)
  let ?sm1 = "sm\<lparr>sm_doubleVoteTracker := (if mhas (sm_doubleVoteTracker sm) v then sm_doubleVoteTracker sm
                     else mput v [] (sm_doubleVoteTracker sm))\<rparr>"
  have "tracked ?sm1 = tracked sm"
    by (auto simp: tracked_def mhas_def mget_mput fun_eq_iff)
  then show "DetectDoubleVoting env now1 now2 v h hash sm = (sm', r) \<Longrightarrow> ?thesis"
    using Some slash_tracked [of env now1 now2 v ReasonDoubleVoting "previous @ hash" h ?sm1 sm' r]
    by (auto simp: detect_cases Let_def split: if_splits)
qed

section \<open>Runs of the manager\<close>

text \<open>
  The operations of the manager, and any change that the rest of the node makes to the registry
  it shares.
\<close>

inductive slash_step :: "('db, 'st) slashing_env \<Rightarrow> ('db, 'st) SlashingManager \<Rightarrow> ('db, 'st) SlashingManager \<Rightarrow> bool"
  for env where
  step_detect: "DetectDoubleVoting env now1 now2 v h hash sm = (sm', r) \<Longrightarrow> slash_step env sm sm'"
| step_downtime: "CheckDowntime env now now1 now2 v lastSeen h sm = (sm', r) \<Longrightarrow> slash_step env sm sm'"
| step_invalid: "SlashForInvalidBlock env now1 now2 v evidence h sm = (sm', r) \<Longrightarrow> slash_step env sm sm'"
| step_clear: "CheckAndClearExpiredSuspensions env now sm = (sm', n) \<Longrightarrow> slash_step env sm sm'"
| step_cleanup: "slash_step env sm (CleanupOldTracking now maxAge sm)"
| step_registry: "slash_step env sm (sm\<lparr>sm_registry := vr\<rparr>)"

lemma detect_durations:
  "DetectDoubleVoting env now1 now2 v h hash sm = (sm', r) \<Longrightarrow> sm_suspensionDurations sm' = sm_suspensionDurations sm"
  by (auto simp: detect_cases Let_def dest!: slash_keeps split: option.splits if_splits)

inductive_cases slash_stepE: "slash_step env sm sm'"

lemma step_durations: "slash_step env sm sm' \<Longrightarrow> sm_suspensionDurations sm' = sm_suspensionDurations sm"
  by (elim slash_stepE; force simp: CheckDowntime_def SlashForInvalidBlock_def CheckAndClearExpiredSuspensions_def
      CleanupOldTracking_def dest: slash_keeps detect_durations split: if_splits prod.splits)

lemma tracked_other [simp]:
  "tracked (sm\<lparr>sm_registry := vr\<rparr>) = tracked sm" "tracked (sm\<lparr>sm_events := es\<rparr>) = tracked sm"
  by (simp_all add: tracked_def fun_eq_iff)

lemma step_tracked: "slash_step env sm sm' \<Longrightarrow> tracked sm v h = Some hash \<Longrightarrow> tracked sm' v h = Some hash"
  by (elim slash_stepE; force simp: CheckDowntime_def SlashForInvalidBlock_def CheckAndClearExpiredSuspensions_def
      CleanupOldTracking_def detect_tracked dest: slash_tracked split: if_splits prod.splits)

lemma run_keeps:
  "(slash_step env)\<^sup>*\<^sup>* sm sm' \<Longrightarrow> sm_suspensionDurations sm' = sm_suspensionDurations sm \<and>
    (tracked sm v h = Some hash \<longrightarrow> tracked sm' v h = Some hash)"
proof (induction rule: rtranclp_induct)
  case (step y z)
  then show ?case using step_durations step_tracked by metis
qed simp

lemma new_durations:
  "mget (sm_suspensionDurations (NewSlashingManager env db vr)) ReasonDoubleVoting = Some (24 * hour)"
  "mget (sm_suspensionDurations (NewSlashingManager env db vr)) ReasonDowntime = Some (6 * hour)"
  by (simp_all add: NewSlashingManager_def loadSlashingEvents_def initializeSuspensionDurations_def mget_mput
      ReasonMaliciousBehavior_def ReasonInvalidVote_def ReasonInvalidBlock_def ReasonDowntime_def ReasonDoubleVoting_def)

definition view_of :: "'st state_ops \<Rightarrow> 'st \<Rightarrow> state_view" where
  "view_of so st = \<lparr>sv_active = so_active so st, sv_validator = so_validator so st\<rparr>"

text \<open>A validator that the shared state reports as suspended gets no vote through.\<close>

lemma suspended_cannot_vote:
  assumes "ve_state venv = Some (view_of so st)" "so_validator so st v = Inr info" "v_IsSuspended info"
  shows "snd (CastVote venv n1 n2 n3 blockHash v signature vm) \<noteq> Inr ()"
  using assms
  by (auto simp: CastVote_def state_check_def view_of_def Let_def split: option.splits sum.splits)

definition demo_validator :: ValidatorInfo where
  "demo_validator = demo_info\<lparr>v_ID := ''validator-one'', v_IsSuspended := False\<rparr>"

definition demo_registry :: "mem_state ValidatorRegistry" where
  "demo_registry = NewValidatorRegistry
     \<lparr>mst_validators = [(''validator-one'', demo_validator)], mst_accounts = []\<rparr>"

definition demo_slash_env :: "(memdb, mem_state) slashing_env" where
  "demo_slash_env = \<lparr>sl_ldb = memdb_ops, sl_enc = (\<lambda>_. Inr [1]), sl_dec = (\<lambda>_. Inl (Error [])),
     sl_show_time = (\<lambda>_. []), sl_state = mem_state_ops\<rparr>"

definition demo_slasher :: "(memdb, mem_state) SlashingManager" where
  "demo_slasher = NewSlashingManager demo_slash_env [] demo_registry"

lemma demo_slash_laws: "state_laws (sl_state demo_slash_env)"
  by (simp add: demo_slash_env_def mem_state_laws)

lemma demo_status: "status_of demo_slash_env demo_slasher ''validator-one'' = Inr demo_validator"
  by (simp add: status_of_def demo_slasher_def NewSlashingManager_def loadSlashingEvents_def demo_registry_def
      NewValidatorRegistry_def demo_slash_env_def mem_state_ops_def demo_validator_def)

lemma demo_untracked: "tracked demo_slasher v h = None"
  by (simp add: demo_slasher_def tracked_def NewSlashingManager_def loadSlashingEvents_def)

section \<open>Double votes\<close>

text \<open>
  C31: Whatever the node does in between, two different hashes reported for one validator
  at one height suspend the validator for 24 hours from the second report, leave every other
  validator alone, put both hashes into the slashing history, and no vote of the validator is
  accepted in the resulting state. (A failure to persist the event changes none of this.)
\<close>

theorem double_vote_slashed:
  assumes laws: "state_laws (sl_state env)"
    and run: "(slash_step env)\<^sup>*\<^sup>* (NewSlashingManager env db vr) sm0"
    and fresh: "tracked sm0 v h = None"
    and first: "DetectDoubleVoting env t1 t2 v h A sm0 = (sm1, r1)"
    and between: "(slash_step env)\<^sup>*\<^sup>* sm1 sm2"
    and second: "DetectDoubleVoting env t3 t4 v h B sm2 = (sm3, r2)" and "A \<noteq> B"
    and known: "status_of env sm2 v = Inr info"
  shows "status_of env sm3 v = Inr (suspended_info (t3 + 24 * hour) ReasonDoubleVoting info) \<and>
    (\<forall>i. i \<noteq> v \<longrightarrow> status_of env sm3 i = status_of env sm2 i) \<and>
    map se_Evidence (GetSlashingHistory v sm3) = map se_Evidence (GetSlashingHistory v sm2) @ [A @ B] \<and>
    (\<forall>(venv :: 'x voting_env) n1 n2 n3 blockHash signature vm.
       ve_state venv = Some (view_of (sl_state env) (vr_state (sm_registry sm3))) \<longrightarrow>
       snd (CastVote venv n1 n2 n3 blockHash v signature vm) \<noteq> Inr ())"
proof -
  have "tracked sm1 v h = Some A" using detect_tracked [OF first] fresh by simp
  then have A: "tracked sm2 v h = Some A" using run_keeps [OF between] by blast
  have "(slash_step env)\<^sup>*\<^sup>* (NewSlashingManager env db vr) sm2"
    using run between first by (meson converse_rtranclp_into_rtranclp rtranclp_trans step_detect)
  then have dur: "mget (sm_suspensionDurations sm2) ReasonDoubleVoting = Some (24 * hour)"
    using run_keeps new_durations by metis
  let ?sm = "sm2\<lparr>sm_doubleVoteTracker := (if mhas (sm_doubleVoteTracker sm2) v then sm_doubleVoteTracker sm2
                     else mput v [] (sm_doubleVoteTracker sm2))\<rparr>"
  have slash: "slashValidator env t3 t4 v ReasonDoubleVoting (A @ B) h ?sm = (sm3, r2)"
    using second A \<open>A \<noteq> B\<close> by (simp add: detect_cases Let_def)
  have st: "status_of env ?sm = status_of env sm2" by (simp add: status_of_def fun_eq_iff)
  note eff = slash_effect [OF laws _ _ slash, unfolded st, OF known]
  then have sm3: "status_of env sm3 v = Inr (suspended_info (t3 + 24 * hour) ReasonDoubleVoting info)"
    and "\<forall>i. i \<noteq> v \<longrightarrow> status_of env sm3 i = status_of env sm2 i"
    and "map se_Evidence (GetSlashingHistory v sm3) = map se_Evidence (GetSlashingHistory v sm2) @ [A @ B]"
    using dur by (simp_all add: GetSlashingHistory_def)
  moreover have "snd (CastVote venv n1 n2 n3 blockHash v signature vm) \<noteq> Inr ()"
    if "ve_state venv = Some (view_of (sl_state env) (vr_state (sm_registry sm3)))"
    for venv :: "'x voting_env" and n1 n2 n3 blockHash signature vm
    using suspended_cannot_vote [OF that sm3 [unfolded status_of_def]] by (simp add: suspended_info_def)
  ultimately show ?thesis by blast
qed

theorem double_vote_slashed_witness:
  "status_of demo_slash_env (fst (DetectDoubleVoting demo_slash_env 3 4 ''validator-one'' 7 [2]
      (fst (DetectDoubleVoting demo_slash_env 1 2 ''validator-one'' 7 [1] demo_slasher)))) ''validator-one'' =
    Inr (suspended_info (3 + 24 * hour) ReasonDoubleVoting demo_validator)"
proof -
  let ?sm1 = "DetectDoubleVoting demo_slash_env 1 2 ''validator-one'' 7 [1] demo_slasher"
  have st: "status_of demo_slash_env (fst ?sm1) ''validator-one'' = Inr demo_validator"
    using demo_status by (simp add: detect_cases demo_untracked Let_def status_of_def)
  have ne: "([1] :: bytes) \<noteq> [2]" by simp
  show ?thesis
    using double_vote_slashed [OF demo_slash_laws rtranclp.rtrancl_refl demo_untracked [unfolded demo_slasher_def]
        prod.collapse [symmetric] rtranclp.rtrancl_refl prod.collapse [symmetric] ne st [unfolded demo_slasher_def],
        where ?t3.0 = 3 and ?t4.0 = 4, THEN conjunct1]
    unfolding demo_slasher_def .
qed

text \<open>
  A later and lighter offence replaces the end of the suspension. A validator suspended
  for a double vote at \<open>t3\<close> that is then reported down before \<open>t3\<close> plus 18 hours is free again before
  the 24 hours have passed.
\<close>

theorem downtime_shortens_suspension:
  assumes laws: "state_laws (sl_state env)"
    and run: "(slash_step env)\<^sup>*\<^sup>* (NewSlashingManager env db vr) sm"
    and status: "status_of env sm v = Inr (suspended_info (t3 + 24 * hour) ReasonDoubleVoting info)"
    and down: "hour < now - lastSeen" and early: "now1 < t3 + 18 * hour"
    and check: "CheckDowntime env now now1 now2 v lastSeen h sm = (sm', r)"
  shows "status_of env sm' v = Inr (suspended_info (now1 + 6 * hour) ReasonDowntime info) \<and>
    now1 + 6 * hour < t3 + 24 * hour"
proof -
  have dur: "mget (sm_suspensionDurations sm) ReasonDowntime = Some (6 * hour)"
    using run_keeps [OF run] new_durations by metis
  have "1 * hour < time_sub now lastSeen"
    using down by (simp add: time_sub_def hour_def minute_def second_def max_duration_def)
  then have "slashValidator env now1 now2 v ReasonDowntime
      (bytes_of (''Last seen: '' @ sl_show_time env lastSeen)) h sm = (sm', r)"
    using check by (simp add: CheckDowntime_def)
  from slash_effect [OF laws status dur this] early show ?thesis
    by (simp add: suspended_info_def)
qed

theorem downtime_shortens_suspension_witness:
  "status_of demo_slash_env (fst (CheckDowntime demo_slash_env (2 * hour) (2 * hour) (2 * hour) ''validator-one'' 0 7
      (demo_slasher\<lparr>sm_registry := demo_registry\<lparr>vr_state := so_put_validator mem_state_ops
        (suspended_info (24 * hour) ReasonDoubleVoting demo_validator) (vr_state demo_registry)\<rparr>\<rparr>))) ''validator-one'' =
    Inr (suspended_info (8 * hour) ReasonDowntime demo_validator)"
proof -
  let ?sm = "demo_slasher\<lparr>sm_registry := demo_registry\<lparr>vr_state := so_put_validator mem_state_ops
        (suspended_info (24 * hour) ReasonDoubleVoting demo_validator) (vr_state demo_registry)\<rparr>\<rparr>"
  have "slash_step demo_slash_env demo_slasher ?sm" by (rule step_registry)
  then have run: "(slash_step demo_slash_env)\<^sup>*\<^sup>* (NewSlashingManager demo_slash_env [] demo_registry) ?sm"
    unfolding demo_slasher_def by simp
  have "status_of demo_slash_env ?sm ''validator-one'' =
      Inr (suspended_info (0 + 24 * hour) ReasonDoubleVoting demo_validator)"
    by (simp add: status_of_def demo_slash_env_def state_put_validator [OF mem_state_laws]
        suspended_info_def demo_validator_def)
  from downtime_shortens_suspension [OF demo_slash_laws run this _ _ prod.collapse [symmetric],
      where now = "2 * hour" and ?now1.0 = "2 * hour" and ?now2.0 = "2 * hour" and lastSeen = 0 and h = 7]
  show ?thesis by (simp add: hour_def minute_def second_def)
qed

section \<open>The end of suspensions\<close>

definition expired :: "gotime \<Rightarrow> ValidatorInfo \<Rightarrow> bool" where
  "expired now info = (v_IsSuspended info \<and> v_SuspensionEndTime info < now)"

definition cleared_info :: "ValidatorInfo \<Rightarrow> ValidatorInfo" where
  "cleared_info info = info\<lparr>v_IsSuspended := False, v_SuspensionEndTime := zero_time, v_SuspensionReason := []\<rparr>"

lemma clear_status:
  "state_laws so \<Longrightarrow> so_validator so (vr_state vr) v = Inr info \<Longrightarrow>
   ClearSuspension so v vr = (vr\<lparr>vr_state := so_put_validator so (cleared_info info) (vr_state vr)\<rparr>, Inr ()) \<and>
   so_validator so (so_put_validator so (cleared_info info) (vr_state vr)) i =
     (if i = v then Inr (cleared_info info) else so_validator so (vr_state vr) i)"
  using state_ids(1) [of so "vr_state vr" v info]
  by (auto simp: ClearSuspension_def cleared_info_def state_put_validator)

lemma clear_loop_effect:
  assumes "state_laws so" "distinct (map v_ID vs)"
    "\<forall>x \<in> set vs. so_validator so (vr_state vr) (v_ID x) = Inr x"
    "clear_loop so now vs (vr, n) = (vr', n')"
  shows "vr_validators vr' = vr_validators vr \<and> n' = n + length (filter (expired now) vs) \<and>
    so_validator so (vr_state vr') i =
      (if i \<in> v_ID ` set (filter (expired now) vs) then map_sum (\<lambda>x. x) cleared_info (so_validator so (vr_state vr) i)
       else so_validator so (vr_state vr) i)"
  using assms(2-)
proof (induction vs arbitrary: vr n)
  case (Cons x vs)
  show ?case
  proof (cases "expired now x")
    case True
    have x: "so_validator so (vr_state vr) (v_ID x) = Inr x" using Cons.prems by simp
    let ?vr = "vr\<lparr>vr_state := so_put_validator so (cleared_info x) (vr_state vr)\<rparr>"
    note clear = clear_status [OF assms(1) x]
    have loop: "clear_loop so now vs (?vr, n + 1) = (vr', n')"
      using Cons.prems(3) True clear by (simp add: expired_def)
    have stored: "\<forall>y \<in> set vs. so_validator so (vr_state ?vr) (v_ID y) = Inr y"
      using Cons.prems clear by (auto simp: image_iff)
    have ids: "distinct (map v_ID vs)" using Cons.prems(1) by simp
    have ih: "vr_validators vr' = vr_validators ?vr \<and> n' = n + 1 + length (filter (expired now) vs) \<and>
      so_validator so (vr_state vr') i =
      (if i \<in> v_ID ` set (filter (expired now) vs) then map_sum (\<lambda>x. x) cleared_info (so_validator so (vr_state ?vr) i)
       else so_validator so (vr_state ?vr) i)"
      by (rule Cons.IH [OF ids stored loop])
    have "v_ID x \<notin> v_ID ` set (filter (expired now) vs)" using Cons.prems(1) by auto
    with ih True x clear show ?thesis by auto
  next
    case False
    then have loop: "clear_loop so now vs (vr, n) = (vr', n')"
      using Cons.prems(3) by (auto simp: expired_def)
    have "distinct (map v_ID vs)" "\<forall>y \<in> set vs. so_validator so (vr_state vr) (v_ID y) = Inr y"
      using Cons.prems by simp_all
    from Cons.IH [OF this loop] False show ?thesis by simp
  qed
qed simp

lemma all_validators_ids:
  "state_laws so \<Longrightarrow> wf_map (vr_validators vr) \<Longrightarrow> distinct (map v_ID (GetAllValidators so vr))"
proof -
  assume laws: "state_laws so" and wf: "wf_map (vr_validators vr)"
  have "distinct (map v_ID (List.map_filter (\<lambda>(i, _).
      case so_validator so (vr_state vr) i of Inl _ \<Rightarrow> None | Inr v \<Rightarrow> Some v) m)) \<and>
    v_ID ` set (List.map_filter (\<lambda>(i, _). case so_validator so (vr_state vr) i of Inl _ \<Rightarrow> None | Inr v \<Rightarrow> Some v) m)
      \<subseteq> fst ` set m" if "wf_map m" for m :: "(string \<times> ValidatorRegistration) list"
    using that
  proof (induction m)
    case (Cons a m)
    then show ?case
      using state_ids(1) [OF laws, of "vr_state vr" "fst a"]
      by (cases a; cases "so_validator so (vr_state vr) (fst a)") (auto simp: List.map_filter_simps)
  qed (simp add: List.map_filter_simps)
  with wf show ?thesis by (auto simp: GetAllValidators_def)
qed

lemma all_validators_set:
  "state_laws so \<Longrightarrow> x \<in> set (GetAllValidators so vr) \<longleftrightarrow>
    mhas (vr_validators vr) (v_ID x) \<and> so_validator so (vr_state vr) (v_ID x) = Inr x"
  using state_ids(1) [of so "vr_state vr"]
  by (force simp: GetAllValidators_def List.map_filter_def mhas_iff split: sum.splits option.splits)

text \<open>
  The periodic check lifts exactly the suspensions of registered validators that have
  expired, leaves everyone else as they are, and returns how many it lifted.
\<close>

theorem expired_suspensions_cleared:
  assumes laws: "state_laws (sl_state env)" and wf: "wf_map (vr_validators (sm_registry sm))"
    and check: "CheckAndClearExpiredSuspensions env now sm = (sm', n)"
  shows "status_of env sm' v = (case status_of env sm v of
      Inr info \<Rightarrow> if mhas (vr_validators (sm_registry sm)) v \<and> expired now info then Inr (cleared_info info) else Inr info
    | Inl e \<Rightarrow> Inl e) \<and>
    n = card {i \<in> fst ` set (vr_validators (sm_registry sm)). \<exists>info. status_of env sm i = Inr info \<and> expired now info}"
proof -
  let ?vs = "GetAllValidators (sl_state env) (sm_registry sm)"
  obtain vr' where loop: "clear_loop (sl_state env) now ?vs (sm_registry sm, 0) = (vr', n)"
    and sm': "sm' = sm\<lparr>sm_registry := vr'\<rparr>"
    using check by (auto simp: CheckAndClearExpiredSuspensions_def split: prod.splits)
  note ids = all_validators_ids [OF laws wf] and elems = all_validators_set [OF laws, of _ "sm_registry sm"]
  note eff = clear_loop_effect [OF laws ids _ loop]
  let ?exp = "{i \<in> fst ` set (vr_validators (sm_registry sm)). \<exists>info. status_of env sm i = Inr info \<and> expired now info}"
  have member: "i \<in> v_ID ` set (filter (expired now) ?vs) \<longleftrightarrow> i \<in> ?exp" for i
  proof
    assume "i \<in> v_ID ` set (filter (expired now) ?vs)"
    then obtain x where "x \<in> set ?vs" "expired now x" "i = v_ID x" by auto
    then show "i \<in> ?exp" using elems by (auto simp: status_of_def mhas_iff)
  next
    assume "i \<in> ?exp"
    then obtain info where i: "mhas (vr_validators (sm_registry sm)) i" "status_of env sm i = Inr info" "expired now info"
      by (auto simp: mhas_iff)
    then have "v_ID info = i" using state_ids(1) [OF laws] by (auto simp: status_of_def)
    then show "i \<in> v_ID ` set (filter (expired now) ?vs)" using i elems [of info] by (force simp: status_of_def)
  qed
  then have set: "v_ID ` set (filter (expired now) ?vs) = ?exp" by blast
  have "n = length (filter (expired now) ?vs)" using eff elems by simp
  also have "\<dots> = card (set (map v_ID (filter (expired now) ?vs)))"
    using ids by (subst distinct_card) (auto simp: distinct_map inj_on_def)
  finally have "n = card ?exp" using set by simp
  moreover have "status_of env sm' v = (if v \<in> ?exp then map_sum (\<lambda>x. x) cleared_info (status_of env sm v) else status_of env sm v)"
    using eff [of v] elems unfolding set by (auto simp: status_of_def sm' simp del: set_filter)
  ultimately show ?thesis by (cases "status_of env sm v") (simp_all add: mhas_iff)
qed

theorem expired_suspensions_cleared_witness:
  "snd (CheckAndClearExpiredSuspensions demo_slash_env 5 demo_slasher) =
     card {i \<in> fst ` set (vr_validators (sm_registry demo_slasher)).
       \<exists>info. status_of demo_slash_env demo_slasher i = Inr info \<and> expired 5 info}"
proof -
  have "wf_map (vr_validators (sm_registry demo_slasher))"
    by (simp add: demo_slasher_def NewSlashingManager_def loadSlashingEvents_def demo_registry_def NewValidatorRegistry_def)
  from expired_suspensions_cleared [OF demo_slash_laws this prod.collapse [symmetric]] show ?thesis by blast
qed

lemma load_events_nothing: "load_events_loop dec entries events = events"
proof (induction dec entries events rule: load_events_loop.induct)
  case (2 dec k v entries events)
  have "length (take 8 k) \<noteq> length ''slashing_''" by simp
  then have "take 8 k \<noteq> ''slashing_''" by (rule contrapos_nn) (rule arg_cong)
  with 2 show ?case by simp
qed simp

lemma new_manager_events: "sm_events (NewSlashingManager env db vr) = []"
  by (simp add: NewSlashingManager_def loadSlashingEvents_def load_events_nothing)

text \<open>
  An event that slashValidator has persisted is in the database, and a manager started
  on that database has no history at all.
\<close>

theorem slashing_history_lost:
  assumes "kv_laws (sl_ldb env)" and "state_laws (sl_state env)"
    and "status_of env sm v = Inr info" and "mget (sm_suspensionDurations sm) reason = Some d"
    and "slashValidator env now1 now2 v reason evidence h sm = (sm', Inr ())"
  shows "(\<exists>event. GetSlashingHistory v sm' = GetSlashingHistory v sm @ [event] \<and>
      Some (sl_enc env event) = map_option Inr (db_get (sl_ldb env) (sm_db sm') (slashing_key v h))) \<and>
    GetSlashingHistory v (NewSlashingManager env (sm_db sm') vr) = []"
  using assms kv_put [OF assms(1)]
  by (auto simp: GetSlashingHistory_def new_manager_events slashValidator_def SuspendValidator_def status_of_def Let_def
      split: sum.splits prod.splits option.splits)

theorem slashing_history_lost_witness:
  "GetSlashingHistory ''validator-one'' (NewSlashingManager demo_slash_env
     (sm_db (fst (slashValidator demo_slash_env 1 2 ''validator-one'' ReasonDowntime [] 7 demo_slasher))) demo_registry) = []"
proof -
  let ?r = "slashValidator demo_slash_env 1 2 ''validator-one'' ReasonDowntime [] 7 demo_slasher"
  have kv: "kv_laws (sl_ldb demo_slash_env)" by (simp add: demo_slash_env_def memdb_laws)
  have "snd ?r = Inr ()"
    using demo_status
    by (simp add: slashValidator_def SuspendValidator_def status_of_def demo_slash_env_def memdb_ops_def Let_def)
  then have "?r = (fst ?r, Inr ())" by (simp add: prod_eq_iff)
  from slashing_history_lost [OF kv demo_slash_laws demo_status new_durations(2) [of demo_slash_env "[]" demo_registry,
      folded demo_slasher_def] this]
  show ?thesis by blast
qed

end
