(* ===== verification/Merkle.thy ===== *)
theory Merkle
  imports Core_Types
begin

text \<open>
  The four Merkle-root routines of the node: \<open>ComputeMerkleRoot\<close>
  (\<open>pkg/blockchain/blockchain.go\<close>), \<open>computeMerkleTree\<close>
  (\<open>pkg/consensus/concurrent_validation.go\<close>), \<open>calculateMerkleRoot\<close>
  (\<open>pkg/consensus/pob_testing.go\<close>) and \<open>calculateMerkleRootFromHashes\<close>
  (\<open>pkg/consensus/pob_speedtest.go\<close>). The locale states what they rely on, a node hash of
  two children; inside it are the lemmas on levels and on the binding of the leaves.
\<close>

section \<open>The routines\<close>

text \<open>
  One pass of the pairing loop \<open>for i := 0; i < len(hashes); i += 2\<close>: neighbours are
  hashed together, an odd last hash is promoted unchanged.
\<close>

fun merkle_level :: "bytes list \<Rightarrow> bytes list" where
  "merkle_level (a # b # rest) = sha256 (a @ b) # merkle_level rest"
| "merkle_level [a] = [a]"
| "merkle_level [] = []"

lemma length_merkle_level: "length (merkle_level hs) = (length hs + 1) div 2"
  by (induction hs rule: merkle_level.induct) auto

lemma half_less: "hs \<noteq> [] \<Longrightarrow> length hs \<noteq> Suc 0 \<Longrightarrow> Suc (length hs) div 2 < length hs"
  by (cases hs; cases "tl hs") auto

function ComputeMerkleRoot :: "bytes list \<Rightarrow> bytes" where
  "ComputeMerkleRoot hs =
     (if length hs = 0 then [] else if length hs = 1 then hs ! 0
      else ComputeMerkleRoot (merkle_level hs))"
  by pat_completeness auto
termination
  by (relation "measure length") (auto simp: length_merkle_level intro: half_less)

declare ComputeMerkleRoot.simps [simp del]

function computeMerkleTree :: "bytes list \<Rightarrow> bytes" where
  "computeMerkleTree hs =
     (if length hs = 0 then [] else if length hs = 1 then hs ! 0
      else computeMerkleTree (merkle_level hs))"
  by pat_completeness auto
termination
  by (relation "measure length") (auto simp: length_merkle_level intro: half_less)

declare computeMerkleTree.simps [simp del]

text \<open>The loop \<open>for len(hashes) > 1 { ...; hashes = newHashes }\<close> of the two PoB routines.\<close>

function merkle_loop :: "bytes list \<Rightarrow> bytes list" where
  "merkle_loop hs = (if 1 < length hs then merkle_loop (merkle_level hs) else hs)"
  by pat_completeness auto
termination
  by (relation "measure length") (auto simp: length_merkle_level intro: half_less)

declare merkle_loop.simps [simp del]

definition calculateMerkleRoot :: "bytes \<Rightarrow> string" where
  "calculateMerkleRoot data =
     (case merkle_loop (map sha256 (chunks 1024 data)) of [] \<Rightarrow> [] | h # _ \<Rightarrow> hex h)"

text \<open>
  \<open>calculateMerkleRootFromHashes\<close> first decodes its hexadecimal arguments;
  \<open>hex.DecodeString\<close> is the argument \<open>dec\<close>.
\<close>

definition calculateMerkleRootFromHashes :: "(string \<Rightarrow> bytes) \<Rightarrow> string list \<Rightarrow> string" where
  "calculateMerkleRootFromHashes dec chunkHashes =
     (if chunkHashes = [] then [] else hex (merkle_loop (map dec chunkHashes) ! 0))"

section \<open>Trees over a node hash\<close>

text \<open>
  What the routines share: a function that combines two children into a parent of a fixed
  width. \<open>clash p q\<close> says that the parents of the pairs \<open>p\<close> and \<open>q\<close> collide; equal parents
  of children of that width have equal children, or clash.
\<close>

locale node_hash =
  fixes node :: "bytes \<Rightarrow> bytes \<Rightarrow> bytes"
    and width :: nat
    and clash :: "bytes \<times> bytes \<Rightarrow> bytes \<times> bytes \<Rightarrow> bool"
  assumes node_width: "length (node a b) = width"
    and node_binding: "length a = width \<Longrightarrow> length a' = width \<Longrightarrow> node a b = node a' b' \<Longrightarrow>
      (a = a' \<and> b = b') \<or> clash (a, b) (a', b')"
begin

fun level :: "bytes list \<Rightarrow> bytes list" where
  "level (a # b # rest) = node a b # level rest"
| "level [a] = [a]"
| "level [] = []"

fun pairs :: "bytes list \<Rightarrow> (bytes \<times> bytes) list" where
  "pairs (a # b # rest) = (a, b) # pairs rest"
| "pairs [a] = []"
| "pairs [] = []"

definition clashes :: "(bytes \<times> bytes) list \<Rightarrow> (bytes \<times> bytes) list \<Rightarrow> bool" where
  "clashes ps qs = (\<exists>p \<in> set ps. \<exists>q \<in> set qs. clash p q)"

lemma clashes_Cons: "clash p q \<Longrightarrow> clashes (p # ps) (q # qs)"
    "clashes ps qs \<Longrightarrow> clashes (p # ps) (q # qs)"
  by (auto simp: clashes_def)

lemma clashes_append: "clashes ps qs \<Longrightarrow> clashes (ps @ rs) (qs @ us)"
    "clashes ps qs \<Longrightarrow> clashes (rs @ ps) (us @ qs)"
  by (auto simp: clashes_def)

definition wide :: "bytes list \<Rightarrow> bool" where
  "wide hs = (\<forall>h \<in> set hs. length h = width)"

lemma wide_simps [simp]: "wide []" "wide (h # hs) \<longleftrightarrow> length h = width \<and> wide hs"
  by (auto simp: wide_def)

lemma length_level: "length (level hs) = (length hs + 1) div 2"
  by (induction hs rule: level.induct) auto

lemma wide_level: "wide hs \<Longrightarrow> wide (level hs)"
  by (induction hs rule: level.induct) (auto simp: node_width)

lemma level_binding:
  "length hs = length hs' \<Longrightarrow> wide hs \<Longrightarrow> wide hs' \<Longrightarrow> level hs = level hs' \<Longrightarrow>
   hs = hs' \<or> clashes (pairs hs) (pairs hs')"
proof (induction hs arbitrary: hs' rule: level.induct)
  case (1 a b rest)
  from "1.prems"(1) obtain a' b' rest' where hs': "hs' = a' # b' # rest'"
    by (metis Suc_length_conv)
  have "node a b = node a' b'" "level rest = level rest'"
    using "1.prems"(4) hs' by simp_all
  moreover have "rest = rest' \<or> clashes (pairs rest) (pairs rest')"
    using "1.prems" hs' by (intro "1.IH") auto
  ultimately show ?case
    using node_binding [of a a' b b'] "1.prems" hs' by (auto intro: clashes_Cons)
next
  case (2 a)
  from "2.prems"(1) obtain a' where "hs' = [a']"
    by (metis length_0_conv length_Suc_conv)
  with 2 show ?case by simp
next
  case 3
  then show ?case by simp
qed

end

definition sha_clash :: "bytes \<times> bytes \<Rightarrow> bytes \<times> bytes \<Rightarrow> bool" where
  "sha_clash p q = sha256_collision (fst p @ snd p) (fst q @ snd q)"

interpretation sha: node_hash "\<lambda>a b. sha256 (a @ b)" 32 sha_clash
  by unfold_locales (auto simp: sha_clash_def sha256_collision_def)

text \<open>The pairs of hashes that \<open>ComputeMerkleRoot\<close> hashes together, over all its levels.\<close>

function hashed_pairs :: "bytes list \<Rightarrow> (bytes \<times> bytes) list" where
  "hashed_pairs hs =
     (if length hs \<le> 1 then [] else sha.pairs hs @ hashed_pairs (merkle_level hs))"
  by pat_completeness auto
termination
  by (relation "measure length") (auto simp: length_merkle_level intro: half_less)

declare hashed_pairs.simps [simp del]

lemma merkle_level_sha: "merkle_level hs = sha.level hs"
  by (induction hs rule: merkle_level.induct) auto

lemma ComputeMerkleRoot_Nil [simp]: "ComputeMerkleRoot [] = []"
  by (simp add: ComputeMerkleRoot.simps)

lemma merkle_loop_root: "hs \<noteq> [] \<Longrightarrow> merkle_loop hs = [ComputeMerkleRoot hs]"
proof (induction hs rule: merkle_loop.induct)
  case (1 hs)
  show ?case
  proof (cases "1 < length hs")
    case True
    then have "merkle_level hs \<noteq> []"
      using length_merkle_level [of hs] by (cases "merkle_level hs") auto
    with True "1.IH" show ?thesis
      using "1.prems" by (simp add: merkle_loop.simps [of hs] ComputeMerkleRoot.simps [of hs])
  next
    case False
    with "1.prems" obtain h where "hs = [h]" by (cases hs) auto
    then show ?thesis by (simp add: merkle_loop.simps ComputeMerkleRoot.simps)
  qed
qed

lemma merkle_loop_Nil [simp]: "merkle_loop [] = []"
  by (simp add: merkle_loop.simps)

lemma chunks_Nil [simp]: "chunks n [] = []"
  by (simp add: chunks.simps)

lemma chunks_Nil_iff: "chunks 1024 xs = [] \<longleftrightarrow> xs = []"
  by (simp add: chunks.simps)

lemma computeMerkleTree_eq: "computeMerkleTree hs = ComputeMerkleRoot hs"
  by (induction hs rule: computeMerkleTree.induct)
    (simp add: computeMerkleTree.simps ComputeMerkleRoot.simps)

lemma root_binding:
  "length hs = length hs' \<Longrightarrow> sha.wide hs \<Longrightarrow> sha.wide hs' \<Longrightarrow>
   ComputeMerkleRoot hs = ComputeMerkleRoot hs' \<Longrightarrow>
   hs = hs' \<or> sha.clashes (hashed_pairs hs) (hashed_pairs hs')"
proof (induction hs arbitrary: hs' rule: ComputeMerkleRoot.induct)
  case (1 hs)
  show ?case
  proof (cases "1 < length hs")
    case True
    then have ne: "hs \<noteq> []" "hs' \<noteq> []" "length hs' \<noteq> 1" "length hs \<noteq> 1" "1 < length hs'"
      using "1.prems"(1) by auto
    have "ComputeMerkleRoot (merkle_level hs) = ComputeMerkleRoot (merkle_level hs')"
      using "1.prems"(4) ne by (simp add: ComputeMerkleRoot.simps [of hs] ComputeMerkleRoot.simps [of hs'])
    then have "merkle_level hs = merkle_level hs' \<or>
        sha.clashes (hashed_pairs (merkle_level hs)) (hashed_pairs (merkle_level hs'))"
      using "1.prems" ne by (intro "1.IH") (auto simp: merkle_level_sha sha.length_level sha.wide_level)
    then show ?thesis
      using sha.level_binding [of hs hs'] "1.prems" True ne
      by (auto simp: merkle_level_sha hashed_pairs.simps [of hs] hashed_pairs.simps [of hs']
          intro: sha.clashes_append)
  next
    case False
    then have "hs = [] \<and> hs' = [] \<or> (\<exists>h h'. hs = [h] \<and> hs' = [h'])"
      using "1.prems"(1) by (cases hs; cases hs') auto
    with "1.prems"(4) show ?thesis by (auto simp: ComputeMerkleRoot.simps)
  qed
qed

section \<open>Properties\<close>

text \<open>
  C25: The Merkle root binds the leaves of a block: if two lists of the same number of 32-byte
  hashes have the same root, the lists are equal, or two of the pairs that the routine hashed
  on the way, one from each list, are a SHA-256 collision.
\<close>

theorem merkle_root_binding:
  assumes "length hs = length hs'" "\<forall>h \<in> set hs. length h = 32" "\<forall>h \<in> set hs'. length h = 32"
    "ComputeMerkleRoot hs = ComputeMerkleRoot hs'"
  shows "hs = hs' \<or> (\<exists>(a, b) \<in> set (hashed_pairs hs). \<exists>(a', b') \<in> set (hashed_pairs hs').
      sha256_collision (a @ b) (a' @ b'))"
  using root_binding [of hs hs'] assms
  by (simp add: sha.wide_def sha.clashes_def sha_clash_def case_prod_beta)

theorem merkle_root_binding_witness:
  "[sha256 [1], sha256 [2]] = [sha256 [1], sha256 [2]] \<or>
   (\<exists>(a, b) \<in> set (hashed_pairs [sha256 [1], sha256 [2]]).
    \<exists>(a', b') \<in> set (hashed_pairs [sha256 [1], sha256 [2]]). sha256_collision (a @ b) (a' @ b'))"
  by (rule merkle_root_binding) simp_all

text \<open>
  The four Merkle-root routines of the node compute the same tree: the sequential and the
  concurrent block root agree on every list of hashes, and the two speed-test roots are the
  hexadecimal text of that root.
\<close>

theorem merkle_routines_agree:
  "computeMerkleTree hs = ComputeMerkleRoot hs \<and>
   calculateMerkleRoot data =
     (if data = [] then [] else hex (ComputeMerkleRoot (map sha256 (chunks 1024 data)))) \<and>
   calculateMerkleRootFromHashes dec strs =
     (if strs = [] then [] else hex (ComputeMerkleRoot (map dec strs)))"
  by (simp add: computeMerkleTree_eq calculateMerkleRoot_def calculateMerkleRootFromHashes_def
      merkle_loop_root chunks_Nil_iff)

end
