(* ===== verification/Concurrent_Validation.thy ===== *)
theory Concurrent_Validation
  imports Merkle "HOL-Library.Multiset"
begin

text \<open>
  Concurrent validation of transactions and blocks (\<open>pkg/consensus/concurrent_validation.go\<close>).

  A group of goroutines that is started in a loop and joined by a \<open>WaitGroup\<close> is run in the order
  of a schedule, any permutation of their indices: each of them does its work on its own slot of
  the result slice, and a channel receives in the order of the schedule. The theorems hold for
  every schedule. A panic in a goroutine ends the program, which is the result \<open>Inl (Panic _)\<close>.
  The account state is the argument \<open>get\<close>, with \<open>Inr None\<close> for a nil account without an error.
\<close>

section \<open>Schedules\<close>

definition schedule :: "nat \<Rightarrow> nat list \<Rightarrow> bool" where
  "schedule n js = (mset js = mset [0..<n])"

text \<open>Goroutine \<open>i\<close> stores \<open>f i\<close> in slot \<open>i\<close>.\<close>

fun run_slots :: "(nat \<Rightarrow> 'a res) \<Rightarrow> nat list \<Rightarrow> 'a list \<Rightarrow> 'a list res" where
  "run_slots f [] slots = Inr slots"
| "run_slots f (i # js) slots = (case f i of Inl e \<Rightarrow> Inl e | Inr x \<Rightarrow> run_slots f js (slots[i := x]))"

section \<open>Transactions\<close>

record ValidationResult =
  vres_TxID :: string
  vres_Valid :: bool
  vres_Error :: "fail option"

definition validate_transaction :: "(string \<Rightarrow> Account option res) \<Rightarrow> Transaction \<Rightarrow> ValidationResult res" where
  "validate_transaction get transaction =
     (let bad = (\<lambda>msg. Inr \<lparr>vres_TxID = tx_ID transaction, vres_Valid = False, vres_Error = Some (Error msg)\<rparr>)
      in case get (tx_From transaction) of
           Inl (Panic p) \<Rightarrow> Inl (Panic p)
         | Inl (Error _) \<Rightarrow> bad ''failed to get sender account''
         | Inr None \<Rightarrow> Inl (Panic ''nil pointer dereference'')
         | Inr (Some sender) \<Rightarrow>
             (if a_Balance sender < tx_Amount transaction then bad ''insufficient balance''
              else if a_Nonce sender \<ge> tx_Nonce transaction then bad ''invalid nonce''
              else Inr \<lparr>vres_TxID = tx_ID transaction, vres_Valid = True, vres_Error = None\<rparr>))"

definition no_result :: ValidationResult where
  "no_result = \<lparr>vres_TxID = [], vres_Valid = False, vres_Error = None\<rparr>"

definition ValidateTransactionsConcurrently ::
  "nat list \<Rightarrow> Transaction list \<Rightarrow> (string \<Rightarrow> Account option res) \<Rightarrow> ValidationResult list res" where
  "ValidateTransactionsConcurrently js txs get =
     run_slots (\<lambda>i. validate_transaction get (txs ! i)) js (replicate (length txs) no_result)"

fun filter_valid :: "Transaction list \<Rightarrow> nat \<Rightarrow> ValidationResult list \<Rightarrow> Transaction list \<Rightarrow> Transaction list res" where
  "filter_valid txs i [] validTxs = Inr validTxs"
| "filter_valid txs i (result # results) validTxs =
     (if vres_Valid result then
        (if i < length txs then filter_valid txs (i + 1) results (validTxs @ [txs ! i])
         else Inl (Panic ''index out of range''))
      else filter_valid txs (i + 1) results validTxs)"

definition FilterValidTransactions :: "Transaction list \<Rightarrow> ValidationResult list \<Rightarrow> Transaction list res" where
  "FilterValidTransactions txs results = filter_valid txs 0 results []"

section \<open>Merkle roots\<close>

text \<open>A hash that fails goes to the error channel, in the order of the schedule; its slot stays empty.\<close>

fun hash_slots :: "(nat \<Rightarrow> bytes res) \<Rightarrow> nat list \<Rightarrow> bytes list \<times> fail list \<Rightarrow> bytes list \<times> fail list" where
  "hash_slots f [] (slots, errors) = (slots, errors)"
| "hash_slots f (i # js) (slots, errors) =
     (case f i of Inl e \<Rightarrow> hash_slots f js (slots, errors @ [e]) | Inr h \<Rightarrow> hash_slots f js (slots[i := h], errors))"

definition ComputeMerkleRootConcurrent :: "Transaction encoder \<Rightarrow> nat list \<Rightarrow> Transaction list \<Rightarrow> bytes res" where
  "ComputeMerkleRootConcurrent enc js txs =
     (if txs = [] then Inr []
      else case hash_slots (\<lambda>i. Transaction_Hash enc (txs ! i)) js (replicate (length txs) [], []) of
             (_, e # _) \<Rightarrow> Inl e
           | (hashes, []) \<Rightarrow> Inr (computeMerkleTree hashes))"

section \<open>Blocks\<close>

text \<open>The three checks, each of which sends at most one error; \<open>order\<close> is a schedule of the three.\<close>

fun first_invalid :: "ValidationResult list \<Rightarrow> fail option" where
  "first_invalid [] = None"
| "first_invalid (result # results) =
     (if vres_Valid result then first_invalid results else Some (Error ''invalid transaction''))"

definition block_check ::
  "nat list \<Rightarrow> Block \<Rightarrow> (string \<Rightarrow> Account option res) \<Rightarrow> (bytes \<Rightarrow> bool) \<Rightarrow> bytes \<Rightarrow> nat \<Rightarrow> fail option res" where
  "block_check js block get pohVerifier prevBlockHash k =
     (if k = 0 then
        Inr (if h_Height (b_Header block) = 0 then None
             else if h_PrevBlockHash (b_Header block) \<noteq> prevBlockHash then Some (Error ''invalid previous block hash'')
             else None)
      else if k = 1 then
        Inr (if pohVerifier (b_PoHSequence block) then None else Some (Error ''invalid PoH sequence''))
      else map_sum (\<lambda>e. e) first_invalid (ValidateTransactionsConcurrently js (b_Transactions block) get))"

fun collect_errors :: "(nat \<Rightarrow> fail option res) \<Rightarrow> nat list \<Rightarrow> fail list \<Rightarrow> fail list res" where
  "collect_errors f [] errors = Inr errors"
| "collect_errors f (k # ks) errors =
     (case f k of
        Inl p \<Rightarrow> Inl p
      | Inr None \<Rightarrow> collect_errors f ks errors
      | Inr (Some e) \<Rightarrow> collect_errors f ks (errors @ [e]))"

definition NewParallelBlockValidator :: "int \<Rightarrow> int" where
  "NewParallelBlockValidator workers = (if workers \<le> 0 then 4 else workers)"

definition ValidateBlockParallel ::
  "nat list \<Rightarrow> nat list \<Rightarrow> Block \<Rightarrow> (string \<Rightarrow> Account option res) \<Rightarrow> (bytes \<Rightarrow> bool) \<Rightarrow> bytes \<Rightarrow> unit res" where
  "ValidateBlockParallel order js block get pohVerifier prevBlockHash =
     (case collect_errors (block_check js block get pohVerifier prevBlockHash) order [] of
        Inl p \<Rightarrow> Inl p
      | Inr [] \<Rightarrow> Inr ()
      | Inr (e # _) \<Rightarrow> Inl e)"

section \<open>Every schedule gives the sequential result\<close>

lemma run_slots_result:
  "\<forall>i \<in> set js. is_ok (f i) \<Longrightarrow> distinct js \<Longrightarrow> \<forall>i \<in> set js. i < length slots \<Longrightarrow>
   \<exists>slots'. run_slots f js slots = Inr slots' \<and> length slots' = length slots \<and>
     (\<forall>i < length slots. slots' ! i = (if i \<in> set js then projr (f i) else slots ! i))"
proof (induction js arbitrary: slots)
  case (Cons i js)
  obtain x where x: "f i = Inr x" using Cons.prems(1) by (auto elim: is_okE)
  obtain slots' where "run_slots f js (slots[i := x]) = Inr slots'" "length slots' = length slots"
    "\<forall>k < length slots. slots' ! k = (if k \<in> set js then projr (f k) else slots[i := x] ! k)"
    using Cons.IH [of "slots[i := x]"] Cons.prems by auto
  then show ?case using x Cons.prems(2,3) by (auto simp: nth_list_update)
qed simp

lemma run_slots_panic: "i \<in> set js \<Longrightarrow> f i = Inl e \<Longrightarrow> \<exists>e'. run_slots f js slots = Inl e' \<and> (\<exists>k \<in> set js. f k = Inl e')"
  by (induction js arbitrary: slots) (auto split: sum.splits)

lemma scheduleD: "schedule n js \<Longrightarrow> distinct js \<and> set js = {0..<n}"
proof -
  assume "schedule n js"
  then have m: "mset js = mset [0..<n]" by (simp add: schedule_def)
  then have "distinct js" by (metis distinct_upt mset_eq_imp_distinct_iff)
  moreover have "set js = {0..<n}" using m by (metis set_mset_mset set_upt)
  ultimately show ?thesis by blast
qed

lemma run_slots_map:
  assumes "schedule (length xs) js" "\<forall>x \<in> set xs. is_ok (g x)" "length slots = length xs"
  shows "run_slots (\<lambda>i. g (xs ! i)) js slots = Inr (map (\<lambda>x. projr (g x)) xs)"
proof -
  note js = scheduleD [OF assms(1)]
  obtain slots' where "run_slots (\<lambda>i. g (xs ! i)) js slots = Inr slots'" "length slots' = length xs"
    "\<forall>i < length xs. slots' ! i = projr (g (xs ! i))"
    using run_slots_result [of js "\<lambda>i. g (xs ! i)" slots] js assms(2,3) by auto
  then show ?thesis by (auto simp: list_eq_iff_nth_eq)
qed

lemma hash_slots_run:
  "\<forall>i \<in> set js. is_ok (f i) \<Longrightarrow> hash_slots f js (slots, errors) = (projr (run_slots f js slots), errors)"
  by (induction js arbitrary: slots) (auto elim!: is_okE)

lemma hash_slots_errors:
  "snd (hash_slots f js (slots, errors)) = errors @ map projl (filter (\<lambda>r. \<not> is_ok r) (map f js))"
  by (induction js arbitrary: slots errors) (auto simp: is_ok_def split: sum.splits)

lemma filter_valid_map:
  "filter_valid (pre @ txs) (length pre) (map g txs) acc = Inr (acc @ filter (\<lambda>tx. vres_Valid (g tx)) txs)"
proof (induction txs arbitrary: pre acc)
  case (Cons tx txs)
  then show ?case using Cons.IH [of "pre @ [tx]"] by (simp add: nth_append)
qed simp

text \<open>A transaction passes: its sender exists, can pay the amount, and has used smaller nonces only.\<close>

definition passes :: "(string \<Rightarrow> Account option res) \<Rightarrow> Transaction \<Rightarrow> bool" where
  "passes get tx = (case get (tx_From tx) of
       Inr (Some sender) \<Rightarrow> tx_Amount tx \<le> a_Balance sender \<and> a_Nonce sender < tx_Nonce tx
     | _ \<Rightarrow> False)"

definition no_panics :: "(string \<Rightarrow> Account option res) \<Rightarrow> Transaction list \<Rightarrow> bool" where
  "no_panics get txs = (\<forall>tx \<in> set txs. is_ok (validate_transaction get tx))"

lemma validate_passes: "validate_transaction get tx = Inr r \<Longrightarrow> vres_Valid r = passes get tx \<and> vres_TxID r = tx_ID tx"
  by (auto simp: validate_transaction_def passes_def Let_def split: sum.splits option.splits if_splits fail.splits)

lemma validate_all:
  assumes "schedule (length txs) js" "no_panics get txs"
  shows "ValidateTransactionsConcurrently js txs get = Inr (map (\<lambda>tx. projr (validate_transaction get tx)) txs)"
  using run_slots_map [OF assms(1), of "validate_transaction get"] assms(2)
  by (simp add: ValidateTransactionsConcurrently_def no_panics_def)

lemma projr_passes: "no_panics get txs \<Longrightarrow> tx \<in> set txs \<Longrightarrow>
    vres_Valid (projr (validate_transaction get tx)) = passes get tx"
  using validate_passes by (auto simp: no_panics_def elim!: is_okE)

text \<open>
  C20: Whatever the order in which the goroutines run, the results are those of validating the
  transactions one after the other against the same state, in the order of the block, and
  FilterValidTransactions keeps exactly the transactions that pass.
\<close>

theorem concurrent_validation_sequential:
  assumes "schedule (length txs) js" "no_panics get txs"
  shows "ValidateTransactionsConcurrently js txs get = Inr (map (\<lambda>tx. projr (validate_transaction get tx)) txs) \<and>
    FilterValidTransactions txs (map (\<lambda>tx. projr (validate_transaction get tx)) txs) = Inr (filter (passes get) txs)"
proof -
  have "filter (\<lambda>tx. vres_Valid (projr (validate_transaction get tx))) txs = filter (passes get) txs"
    using projr_passes [OF assms(2)] by (intro filter_cong) auto
  then show ?thesis
    using validate_all [OF assms] filter_valid_map [of "[]" txs] by (simp add: FilterValidTransactions_def)
qed

definition demo_tx :: "string \<Rightarrow> int \<Rightarrow> u64 \<Rightarrow> Transaction" where
  "demo_tx from amount nonce = \<lparr>tx_ID = [], tx_From = from, tx_To = ''bob'', tx_Amount = amount, tx_Timestamp = 0,
     tx_Nonce = nonce, tx_Fee = 0, tx_Signature = [], tx_Data = []\<rparr>"

definition demo_get :: "string \<Rightarrow> Account option res" where
  "demo_get a = (if a = ''alice'' then Inr (Some \<lparr>a_Address = a, a_Balance = 100, a_Nonce = 0, a_CodeHash = []\<rparr>)
     else Inl (Error ''account not found''))"

lemma demo_no_panics: "no_panics demo_get txs"
  by (auto simp: no_panics_def validate_transaction_def demo_get_def Let_def)

lemma demo_schedule: "schedule 2 [1, 0]"
  by (simp add: schedule_def numeral_2_eq_2 add_mset_commute)

theorem concurrent_validation_sequential_witness:
  "FilterValidTransactions [demo_tx ''eve'' 1 1, demo_tx ''alice'' 100 1]
     (map (\<lambda>tx. projr (validate_transaction demo_get tx)) [demo_tx ''eve'' 1 1, demo_tx ''alice'' 100 1]) =
   Inr [demo_tx ''alice'' 100 1]"
  using concurrent_validation_sequential [of "[demo_tx ''eve'' 1 1, demo_tx ''alice'' 100 1]" "[1, 0]" demo_get]
    demo_no_panics demo_schedule
  by (simp add: passes_def demo_get_def demo_tx_def numeral_2_eq_2)

lemma first_invalid_iff: "first_invalid rs = None \<longleftrightarrow> (\<forall>r \<in> set rs. vres_Valid r)"
  by (induction rs) auto

lemma collect_errors_none:
  "\<forall>k \<in> set ks. is_ok (f k) \<Longrightarrow>
   \<exists>es. collect_errors f ks errors = Inr (errors @ es) \<and> (es = [] \<longleftrightarrow> (\<forall>k \<in> set ks. f k = Inr None))"
proof (induction ks arbitrary: errors)
  case (Cons k ks)
  obtain e where e: "f k = Inr e" using Cons.prems by (auto elim: is_okE)
  show ?case
  proof (cases e)
    case None
    then show ?thesis using Cons e by auto
  next
    case (Some x)
    then show ?thesis using Cons.IH [of "errors @ [x]"] Cons.prems e by auto
  qed
qed simp

lemma block_accepted_iff:
  assumes "schedule 3 order" "schedule (length (b_Transactions block)) js" "no_panics get (b_Transactions block)"
  shows "ValidateBlockParallel order js block get poh prev = Inr () \<longleftrightarrow>
    (h_Height (b_Header block) = 0 \<or> h_PrevBlockHash (b_Header block) = prev) \<and> poh (b_PoHSequence block) \<and>
    (\<forall>tx \<in> set (b_Transactions block). passes get tx)"
proof -
  let ?f = "block_check js block get poh prev"
  note val = validate_all [OF assms(2,3)]
  have f: "?f 0 = Inr None \<longleftrightarrow> h_Height (b_Header block) = 0 \<or> h_PrevBlockHash (b_Header block) = prev"
    "?f 1 = Inr None \<longleftrightarrow> poh (b_PoHSequence block)"
    "?f 2 = Inr None \<longleftrightarrow> (\<forall>tx \<in> set (b_Transactions block). passes get tx)"
    using projr_passes [OF assms(3)] by (simp_all add: block_check_def val first_invalid_iff)
  have ok: "is_ok (?f k)" for k by (simp add: block_check_def val)
  have "{0 ..< (3 :: nat)} = {0, 1, 2}" by auto
  then have order: "set order = {0, 1, 2}" using scheduleD [OF assms(1)] by simp
  obtain es where es: "collect_errors ?f order [] = Inr es" "es = [] \<longleftrightarrow> (\<forall>k \<in> set order. ?f k = Inr None)"
    using collect_errors_none [of order ?f "[]"] ok by auto
  have "ValidateBlockParallel order js block get poh prev = Inr () \<longleftrightarrow> es = []"
    using es(1) by (cases es) (simp_all add: ValidateBlockParallel_def)
  also have "\<dots> \<longleftrightarrow> ?f 0 = Inr None \<and> ?f 1 = Inr None \<and> ?f 2 = Inr None" unfolding es(2) order by blast
  finally show ?thesis unfolding f by blast
qed

text \<open>
  Whatever the schedules, a block is accepted exactly if it is linked (or at height 0),
  its PoH sequence verifies and every transaction passes on its own; so an accepted block that
  repeats one of its transactions is accepted as well, even when the sender cannot pay twice.
\<close>

theorem block_acceptance:
  assumes "schedule 3 order" "schedule (length (b_Transactions block)) js" "no_panics get (b_Transactions block)"
    and "schedule 3 order'" "schedule (Suc (length (b_Transactions block))) js'"
  shows "(ValidateBlockParallel order js block get poh prev = Inr () \<longleftrightarrow>
      (h_Height (b_Header block) = 0 \<or> h_PrevBlockHash (b_Header block) = prev) \<and> poh (b_PoHSequence block) \<and>
      (\<forall>tx \<in> set (b_Transactions block). passes get tx)) \<and>
    (ValidateBlockParallel order js block get poh prev = Inr () \<and> tx \<in> set (b_Transactions block) \<longrightarrow>
      ValidateBlockParallel order' js' (block\<lparr>b_Transactions := b_Transactions block @ [tx]\<rparr>) get poh prev = Inr ())"
proof -
  note iff = block_accepted_iff [OF assms(1-3), of poh prev]
  let ?block = "block\<lparr>b_Transactions := b_Transactions block @ [tx]\<rparr>"
  have "ValidateBlockParallel order' js' ?block get poh prev = Inr ()"
    if acc: "ValidateBlockParallel order js block get poh prev = Inr ()" and tx: "tx \<in> set (b_Transactions block)"
  proof -
    have "no_panics get (b_Transactions ?block)" using assms(3) tx by (auto simp: no_panics_def)
    then show ?thesis
      using block_accepted_iff [OF assms(4), of ?block js' get poh prev] assms(5) acc iff tx by auto
  qed
  with iff show ?thesis by blast
qed

definition demo_block :: Block where
  "demo_block = \<lparr>b_Header = \<lparr>h_Version = 1, h_PrevBlockHash = [], h_MerkleRoot = [], h_Timestamp = 0, h_Nonce = 0,
     h_Difficulty = 1, h_Height = 1, h_PoBScore = Fin 1, h_PoBWeight = 0, h_VRFProof = [], h_VRFOutput = None\<rparr>,
     b_Transactions = [demo_tx ''alice'' 100 1], b_ProposerID = [], b_PoHSequence = [], b_Signature = [], b_VRFProof = []\<rparr>"

theorem block_acceptance_witness:
  "ValidateBlockParallel [0, 1, 2] [1, 0] (demo_block\<lparr>b_Transactions := [demo_tx ''alice'' 100 1, demo_tx ''alice'' 100 1]\<rparr>)
     demo_get (\<lambda>_. True) [] = Inr ()"
proof -
  have s: "schedule 3 [0, 1, 2]" "schedule (length (b_Transactions demo_block)) [0]"
    "schedule (Suc (length (b_Transactions demo_block))) [1, 0]"
    using demo_schedule by (simp_all add: schedule_def demo_block_def numeral_3_eq_3 numeral_2_eq_2)
  from block_acceptance [OF s(1,2) demo_no_panics s(1,3), of "\<lambda>_. True" "[]" "demo_tx ''alice'' 100 1"]
  show ?thesis by (simp add: demo_block_def passes_def demo_get_def demo_tx_def)
qed

text \<open>
  The concurrent Merkle root of a block is the sequential one for every schedule when all
  transactions can be hashed, and otherwise an error of one of those that cannot.
\<close>

theorem concurrent_merkle_root:
  assumes "schedule (length txs) js"
  shows "if \<forall>tx \<in> set txs. is_ok (Transaction_Hash enc tx)
    then ComputeMerkleRootConcurrent enc js txs = Inr (computeMerkleTree (map (\<lambda>tx. projr (Transaction_Hash enc tx)) txs))
    else \<exists>tx \<in> set txs. \<exists>e. Transaction_Hash enc tx = Inl e \<and> ComputeMerkleRootConcurrent enc js txs = Inl e"
proof (cases "\<forall>tx \<in> set txs. is_ok (Transaction_Hash enc tx)")
  case True
  have "run_slots (\<lambda>i. Transaction_Hash enc (txs ! i)) js (replicate (length txs) []) =
      Inr (map (\<lambda>tx. projr (Transaction_Hash enc tx)) txs)"
    by (rule run_slots_map [OF assms True]) simp
  moreover have "\<forall>i \<in> set js. is_ok (Transaction_Hash enc (txs ! i))" using True scheduleD [OF assms] by simp
  ultimately have "hash_slots (\<lambda>i. Transaction_Hash enc (txs ! i)) js (replicate (length txs) [], []) =
      (map (\<lambda>tx. projr (Transaction_Hash enc tx)) txs, [])"
    by (simp add: hash_slots_run)
  then show ?thesis using True
    by (cases "txs = []") (simp_all add: ComputeMerkleRootConcurrent_def computeMerkleTree.simps)
next
  case False
  let ?f = "\<lambda>i. Transaction_Hash enc (txs ! i)"
  let ?bad = "filter (\<lambda>r. \<not> is_ok r) (map ?f js)"
  from False obtain i where i: "i < length txs" "\<not> is_ok (?f i)" by (auto simp: in_set_conv_nth)
  then have "?f i \<in> set ?bad" using scheduleD [OF assms] by auto
  then obtain r rs where bad: "?bad = r # rs" by (cases ?bad) auto
  then have "r \<in> set ?bad" by simp
  then obtain k where k: "k \<in> set js" "r = ?f k" "\<not> is_ok r" by auto
  then obtain e where e: "?f k = Inl e" by (cases "?f k") auto
  obtain slots errs where run: "hash_slots ?f js (replicate (length txs) [], []) = (slots, errs)"
    by (cases "hash_slots ?f js (replicate (length txs) [], [])")
  then have "errs = projl r # map projl rs" using hash_slots_errors [of ?f js "replicate (length txs) []" "[]"] bad by simp
  then have "ComputeMerkleRootConcurrent enc js txs = Inl e"
    using run i(1) k e by (auto simp: ComputeMerkleRootConcurrent_def)
  moreover have "txs ! k \<in> set txs" using k(1) scheduleD [OF assms] by simp
  ultimately show ?thesis using False e by auto
qed

theorem concurrent_merkle_root_witness:
  "ComputeMerkleRootConcurrent (\<lambda>_. Inl (Error [])) [1, 0] [demo_tx ''a'' 1 1, demo_tx ''b'' 1 1] = Inl (Error [])"
proof -
  have s: "schedule (length [demo_tx ''a'' 1 1, demo_tx ''b'' 1 1]) [1, 0]" using demo_schedule by (simp add: numeral_2_eq_2)
  have h: "Transaction_Hash (\<lambda>_. Inl (Error [])) tx = Inl (Error [])" for tx by (simp add: Transaction_Hash_def)
  then have "\<not> (\<forall>tx \<in> set [demo_tx ''a'' 1 1, demo_tx ''b'' 1 1]. is_ok (Transaction_Hash (\<lambda>_. Inl (Error [])) tx))"
    by auto
  from concurrent_merkle_root [OF s, of "\<lambda>_. Inl (Error [])", unfolded if_not_P [OF this]] show ?thesis
    unfolding h by blast
qed

end
