(* ===== verification/Atomic_State.thy ===== *)
theory Atomic_State
  imports Store
begin

text \<open>
  Atomic state updates (\<open>pkg/blockchain/atomic_state.go\<close>): a \<open>StateTransaction\<close> stages account and
  validator records in a LevelDB batch and in two caches; \<open>Commit\<close> writes the batch and then
  publishes the caches in the memory of the state.

  Accounts are Go pointers, and the code writes through the pointers that \<open>GetAccount\<close> returns
  before anything is committed. The model therefore keeps an explicit heap of account records, and
  the caches and maps hold references into it. The type \<open>State\<close> is not in the repository, only
  this file uses its fields; \<open>GetAccount\<close> is the parameter \<open>ac_get\<close>. \<open>ac_laws\<close> states what every
  version of it must do; the two possible answers to the question whether it returns the cached record
  itself or a copy are \<open>ac_shared\<close> and \<open>ac_copying\<close>, and both have an instance.
  The database and the JSON codec are parameters as in \<open>Store\<close>.
\<close>

section \<open>State\<close>

type_synonym ref = nat

record 'db State =
  st_db :: 'db
  st_heap :: "(ref, Account) gomap"
  st_accounts :: "(string, ref) gomap"
  st_validators :: "(string, ValidatorInfo) gomap"

record StateTransaction =
  stx_batch :: "batchop list"
  stx_accountCache :: "(string, ref) gomap"
  stx_validatorCache :: "(string, ValidatorInfo) gomap"

record 'db atomic_env =
  ae_ldb :: "'db leveldb"
  ae_enc :: "Account encoder"
  ae_venc :: "ValidatorInfo encoder"
  ac_get :: "'db State \<Rightarrow> string \<Rightarrow> 'db State \<times> ref res"

definition account_key :: "string \<Rightarrow> string" where
  "account_key addr = ''account_'' @ addr"

definition validator_key :: "string \<Rightarrow> string" where
  "validator_key i = ''validator_'' @ i"

text \<open>A nil pointer is a reference without a record; reading through it panics.\<close>

definition deref :: "'db State \<Rightarrow> ref \<Rightarrow> Account res" where
  "deref st p = (case mget (st_heap st) p of None \<Rightarrow> Inl (Panic ''nil pointer dereference'') | Some a \<Rightarrow> Inr a)"

definition assign :: "ref \<Rightarrow> Account \<Rightarrow> 'db State \<Rightarrow> 'db State" where
  "assign p a st = st\<lparr>st_heap := mput p a (st_heap st)\<rparr>"

section \<open>Transactions\<close>

definition BeginTransaction :: StateTransaction where
  "BeginTransaction = \<lparr>stx_batch = [], stx_accountCache = [], stx_validatorCache = []\<rparr>"

definition UpdateAccountAtomic ::
  "'db atomic_env \<Rightarrow> 'db State \<Rightarrow> ref \<Rightarrow> StateTransaction \<Rightarrow> StateTransaction \<times> unit res" where
  "UpdateAccountAtomic env st p tx =
     (case deref st p of
        Inl e \<Rightarrow> (tx, Inl e)
      | Inr account \<Rightarrow>
          (case ae_enc env account of
             Inl _ \<Rightarrow> (tx, Inl (Error ''failed to marshal account''))
           | Inr accountBytes \<Rightarrow>
               (tx\<lparr>stx_batch := stx_batch tx @ [BPut (account_key (a_Address account)) accountBytes],
                   stx_accountCache := mput (a_Address account) p (stx_accountCache tx)\<rparr>, Inr ())))"

definition UpdateValidatorAtomic ::
  "'db atomic_env \<Rightarrow> ValidatorInfo \<Rightarrow> StateTransaction \<Rightarrow> StateTransaction \<times> unit res" where
  "UpdateValidatorAtomic env validator tx =
     (case ae_venc env validator of
        Inl _ \<Rightarrow> (tx, Inl (Error ''failed to marshal validator''))
      | Inr validatorBytes \<Rightarrow>
          (tx\<lparr>stx_batch := stx_batch tx @ [BPut (validator_key (v_ID validator)) validatorBytes],
              stx_validatorCache := mput (v_ID validator) validator (stx_validatorCache tx)\<rparr>, Inr ()))"

text \<open>\<open>for k, v := range cache { m[k] = v }\<close>\<close>

fun publish :: "('k \<times> 'v) list \<Rightarrow> ('k, 'v) gomap \<Rightarrow> ('k, 'v) gomap" where
  "publish [] m = m"
| "publish ((k, v) # kvs) m = publish kvs (mput k v m)"

definition Commit :: "'db atomic_env \<Rightarrow> StateTransaction \<Rightarrow> 'db State \<Rightarrow> 'db State \<times> unit res" where
  "Commit env tx st =
     (case db_write (ae_ldb env) (stx_batch tx) (st_db st) of
        (d, Some _) \<Rightarrow> (st\<lparr>st_db := d\<rparr>, Inl (Error ''failed to commit transaction to LevelDB''))
      | (d, None) \<Rightarrow> (st\<lparr>st_db := d, st_accounts := publish (stx_accountCache tx) (st_accounts st),
            st_validators := publish (stx_validatorCache tx) (st_validators st)\<rparr>, Inr ()))"

definition Rollback :: "StateTransaction \<Rightarrow> StateTransaction" where
  "Rollback tx = tx\<lparr>stx_batch := [], stx_accountCache := [], stx_validatorCache := []\<rparr>"

text \<open>
  \<open>ApplyTransactionAtomic\<close>. The three assignments go through the pointers, the third one reads
  \<open>recipient\<close> after the first two. \<open>transfer_step\<close> is that part of the body, \<open>settle\<close> the rest.
\<close>

definition transfer_step :: "Transaction \<Rightarrow> ref \<Rightarrow> ref \<Rightarrow> 'db State \<Rightarrow> 'db State \<times> unit res" where
  "transfer_step tx sender recipient st =
     (case deref st sender of
        Inl e \<Rightarrow> (st, Inl e)
      | Inr s \<Rightarrow>
          let st1 = assign sender (s\<lparr>a_Balance := a_Balance s - tx_Amount tx, a_Nonce := a_Nonce s + 1\<rparr>) st
          in case deref st1 recipient of
               Inl e \<Rightarrow> (st1, Inl e)
             | Inr r \<Rightarrow> (assign recipient (r\<lparr>a_Balance := a_Balance r + tx_Amount tx\<rparr>) st1, Inr ()))"

definition settle :: "'db atomic_env \<Rightarrow> ref \<Rightarrow> ref \<Rightarrow> 'db State \<Rightarrow> 'db State \<times> unit res" where
  "settle env sender recipient st =
     (case UpdateAccountAtomic env st sender BeginTransaction of
        (_, Inl e) \<Rightarrow> (st, Inl e)
      | (stx1, Inr _) \<Rightarrow>
          (case UpdateAccountAtomic env st recipient stx1 of
             (_, Inl e) \<Rightarrow> (st, Inl e)
           | (stx2, Inr _) \<Rightarrow>
               (case Commit env stx2 st of
                  (st', Inl _) \<Rightarrow> (st', Inl (Error ''transaction commit failed''))
                | (st', Inr _) \<Rightarrow> (st', Inr ()))))"

definition ApplyTransactionAtomic :: "'db atomic_env \<Rightarrow> Transaction \<Rightarrow> 'db State \<Rightarrow> 'db State \<times> unit res" where
  "ApplyTransactionAtomic env tx st =
     (case ac_get env st (tx_From tx) of
        (st1, Inl _) \<Rightarrow> (st1, Inl (Error ''failed to get sender account''))
      | (st1, Inr sender) \<Rightarrow>
          (case deref st1 sender of
             Inl e \<Rightarrow> (st1, Inl e)
           | Inr s \<Rightarrow>
               if a_Balance s < tx_Amount tx then (st1, Inl (Error ''insufficient balance''))
               else if a_Nonce s \<noteq> tx_Nonce tx then (st1, Inl (Error ''invalid nonce''))
               else (case ac_get env st1 (tx_To tx) of
                       (st2, Inl _) \<Rightarrow> (st2, Inl (Error ''failed to get recipient account''))
                     | (st2, Inr recipient) \<Rightarrow>
                         (case transfer_step tx sender recipient st2 of
                            (st3, Inl e) \<Rightarrow> (st3, Inl e)
                          | (st3, Inr _) \<Rightarrow> settle env sender recipient st3))))"

fun stage_accounts :: "'db atomic_env \<Rightarrow> 'db State \<Rightarrow> ref list \<Rightarrow> StateTransaction \<Rightarrow> StateTransaction \<times> unit res" where
  "stage_accounts env st [] tx = (tx, Inr ())"
| "stage_accounts env st (p # ps) tx =
     (case UpdateAccountAtomic env st p tx of
        (tx', Inl e) \<Rightarrow> (Rollback tx', Inl e)
      | (tx', Inr _) \<Rightarrow> stage_accounts env st ps tx')"

definition BatchUpdateAccountsAtomic :: "'db atomic_env \<Rightarrow> ref list \<Rightarrow> 'db State \<Rightarrow> 'db State \<times> unit res" where
  "BatchUpdateAccountsAtomic env accounts st =
     (case stage_accounts env st accounts BeginTransaction of
        (_, Inl e) \<Rightarrow> (st, Inl e)
      | (tx, Inr _) \<Rightarrow> Commit env tx st)"

fun stage_validators :: "'db atomic_env \<Rightarrow> ValidatorInfo list \<Rightarrow> StateTransaction \<Rightarrow> StateTransaction \<times> unit res" where
  "stage_validators env [] tx = (tx, Inr ())"
| "stage_validators env (v # vs) tx =
     (case UpdateValidatorAtomic env v tx of
        (tx', Inl e) \<Rightarrow> (Rollback tx', Inl e)
      | (tx', Inr _) \<Rightarrow> stage_validators env vs tx')"

definition BatchUpdateValidatorsAtomic :: "'db atomic_env \<Rightarrow> ValidatorInfo list \<Rightarrow> 'db State \<Rightarrow> 'db State \<times> unit res" where
  "BatchUpdateValidatorsAtomic env validators st =
     (case stage_validators env validators BeginTransaction of
        (_, Inl e) \<Rightarrow> (st, Inl e)
      | (tx, Inr _) \<Rightarrow> Commit env tx st)"

section \<open>The account store behind GetAccount\<close>

text \<open>The record the state holds for an address.\<close>

definition account_of :: "'db State \<Rightarrow> string \<Rightarrow> Account option" where
  "account_of st a = Option.bind (mget (st_accounts st) a) (mget (st_heap st))"

definition st_wf :: "'db State \<Rightarrow> bool" where
  "st_wf st = (\<forall>a p. mget (st_accounts st) a = Some p \<longrightarrow> (\<exists>x. mget (st_heap st) p = Some x \<and> a_Address x = a))"

text \<open>
  A successful \<open>GetAccount\<close> returns a record of the requested address, with the contents the
  state holds for it; it changes no record that exists and no entry that is cached.
\<close>

definition ac_laws :: "'db atomic_env \<Rightarrow> bool" where
  "ac_laws env = (\<forall>st a st' p. ac_get env st a = (st', Inr p) \<longrightarrow>
     (\<exists>x. mget (st_heap st') p = Some x \<and> a_Address x = a \<and> (\<forall>y. account_of st a = Some y \<longrightarrow> x = y)) \<and>
     (\<forall>q y. mget (st_heap st) q = Some y \<longrightarrow> mget (st_heap st') q = Some y) \<and>
     (\<forall>b q. mget (st_accounts st) b = Some q \<longrightarrow> mget (st_accounts st') b = Some q) \<and>
     (\<forall>b q. mget (st_accounts st') b = Some q \<longrightarrow> mget (st_accounts st) b = Some q \<or> b = a \<and> q = p) \<and>
     st_db st' = st_db st \<and> st_validators st' = st_validators st)"

text \<open>It returns the cached record itself, or else a fresh copy.\<close>

definition ac_shared :: "'db atomic_env \<Rightarrow> bool" where
  "ac_shared env = (\<forall>st a st' p. ac_get env st a = (st', Inr p) \<longrightarrow> mget (st_accounts st') a = Some p)"

definition ac_copying :: "'db atomic_env \<Rightarrow> bool" where
  "ac_copying env = (\<forall>st a st' p. ac_get env st a = (st', Inr p) \<longrightarrow>
     mget (st_heap st) p = None \<and> st_accounts st' = st_accounts st)"

definition shared_get :: "'db State \<Rightarrow> string \<Rightarrow> 'db State \<times> ref res" where
  "shared_get st a = (case mget (st_accounts st) a of
       Some p \<Rightarrow> (case mget (st_heap st) p of
           Some x \<Rightarrow> if a_Address x = a then (st, Inr p) else (st, Inl (Error ''account not found''))
         | None \<Rightarrow> (st, Inl (Error ''account not found'')))
     | None \<Rightarrow> (st, Inl (Error ''account not found'')))"

definition fresh_ref :: "(ref, Account) gomap \<Rightarrow> ref" where
  "fresh_ref h = Suc (sum_list (map fst h))"

definition copying_get :: "'db State \<Rightarrow> string \<Rightarrow> 'db State \<times> ref res" where
  "copying_get st a = (case account_of st a of
       Some x \<Rightarrow> if a_Address x = a then (st\<lparr>st_heap := mput (fresh_ref (st_heap st)) x (st_heap st)\<rparr>, Inr (fresh_ref (st_heap st)))
         else (st, Inl (Error ''account not found''))
     | None \<Rightarrow> (st, Inl (Error ''account not found'')))"

lemma fresh_ref: "mget h (fresh_ref h) = None"
  using member_le_sum_list [of _ "map fst h"] by (force simp: mget_None_iff fresh_ref_def)

lemma shared_get_laws: "ac_get env = shared_get \<Longrightarrow> ac_laws env \<and> ac_shared env"
  by (auto simp: ac_laws_def ac_shared_def shared_get_def account_of_def split: option.splits if_splits)

lemma copying_get_laws: "ac_get env = copying_get \<Longrightarrow> ac_laws env \<and> ac_copying env"
  using fresh_ref by (fastforce simp: ac_laws_def ac_copying_def copying_get_def mget_mput split: option.splits if_splits)

lemma ac_lawsD:
  assumes "ac_laws env" "ac_get env st a = (st', Inr p)"
  shows "\<exists>x. mget (st_heap st') p = Some x \<and> a_Address x = a \<and> (\<forall>y. account_of st a = Some y \<longrightarrow> x = y)"
    and "mget (st_heap st) q = Some y \<Longrightarrow> mget (st_heap st') q = Some y"
    and "mget (st_accounts st) b = Some q \<Longrightarrow> mget (st_accounts st') b = Some q"
    and "mget (st_accounts st') b = Some q \<Longrightarrow> mget (st_accounts st) b = Some q \<or> b = a \<and> q = p"
    and "st_db st' = st_db st" "st_validators st' = st_validators st"
  using assms unfolding ac_laws_def by blast+

lemma ac_get_wf: "ac_laws env \<Longrightarrow> ac_get env st a = (st', Inr p) \<Longrightarrow> st_wf st \<Longrightarrow> st_wf st'"
  unfolding st_wf_def using ac_lawsD [of env st a st' p] by metis

lemma ac_get_account: "ac_laws env \<Longrightarrow> ac_get env st a = (st', Inr p) \<Longrightarrow> account_of st b = Some y \<Longrightarrow> account_of st' b = Some y"
  unfolding account_of_def using ac_lawsD(2,3) [of env st a st' p] by (auto simp: bind_eq_Some_conv)

section \<open>Transfers\<close>

definition debited :: "Transaction \<Rightarrow> Account \<Rightarrow> Account" where
  "debited tx s = s\<lparr>a_Balance := a_Balance s - tx_Amount tx, a_Nonce := a_Nonce s + 1\<rparr>"

definition credited :: "Transaction \<Rightarrow> Account \<Rightarrow> Account" where
  "credited tx r = r\<lparr>a_Balance := a_Balance r + tx_Amount tx\<rparr>"

text \<open>Memory after the assignments through two different pointers, before the commit.\<close>

definition moved :: "Transaction \<Rightarrow> ref \<Rightarrow> ref \<Rightarrow> Account \<Rightarrow> Account \<Rightarrow> 'db State \<Rightarrow> 'db State" where
  "moved tx p q s r st = assign q (credited tx r) (assign p (debited tx s) st)"

lemma moved_heap: "mget (st_heap (moved tx p q s r st)) k =
    (if k = q then Some (credited tx r) else if k = p then Some (debited tx s) else mget (st_heap st) k)"
  by (simp add: moved_def assign_def mget_mput)

lemma moved_simps [simp]: "st_accounts (moved tx p q s r st) = st_accounts st" "st_db (moved tx p q s r st) = st_db st"
    "a_Address (debited tx s) = a_Address s" "a_Address (credited tx r) = a_Address r"
  by (simp_all add: moved_def assign_def debited_def credited_def)

lemma apply_reaches_settle:
  assumes laws: "ac_laws env" and get: "ac_get env st (tx_From tx) = (st1, Inr p)" "ac_get env st1 (tx_To tx) = (st2, Inr q)"
    and s: "account_of st (tx_From tx) = Some s" and r: "account_of st (tx_To tx) = Some r"
    and ne: "tx_From tx \<noteq> tx_To tx" and ok: "tx_Amount tx \<le> a_Balance s" "a_Nonce s = tx_Nonce tx"
  shows "ApplyTransactionAtomic env tx st = settle env p q (moved tx p q s r st2)"
    and "p \<noteq> q" and "a_Address s = tx_From tx" "a_Address r = tx_To tx"
    and "mget (st_heap st2) p = Some s" "mget (st_heap st2) q = Some r"
proof -
  have sp: "mget (st_heap st1) p = Some s" "a_Address s = tx_From tx"
    using ac_lawsD(1) [OF laws get(1)] s by auto
  then have sp2: "mget (st_heap st2) p = Some s" using ac_lawsD(2) [OF laws get(2)] by blast
  have rq: "mget (st_heap st2) q = Some r" "a_Address r = tx_To tx"
    using ac_lawsD(1) [OF laws get(2)] ac_get_account [OF laws get(1) r] by auto
  show pq: "p \<noteq> q" using sp sp2 rq ne by auto
  show "ApplyTransactionAtomic env tx st = settle env p q (moved tx p q s r st2)"
    using get ok sp sp2 rq pq
    by (simp add: ApplyTransactionAtomic_def deref_def transfer_step_def assign_def mget_mput moved_def
        debited_def credited_def Let_def)
  show "a_Address s = tx_From tx" "a_Address r = tx_To tx" "mget (st_heap st2) p = Some s" "mget (st_heap st2) q = Some r"
    using sp sp2 rq by auto
qed

text \<open>The four ways a transfer between two known accounts can end after its checks.\<close>

lemma settle_cases:
  assumes heap: "mget (st_heap st) p = Some x" "mget (st_heap st) q = Some y" and ne: "a_Address x \<noteq> a_Address y"
    and settle: "settle env p q st = (st', res)"
  shows "(st' = st \<and> (\<exists>e. res = Inl e) \<and> \<not> (is_ok (ae_enc env x) \<and> is_ok (ae_enc env y))) \<or>
    (\<exists>b c d err. ae_enc env x = Inr b \<and> ae_enc env y = Inr c \<and>
       db_write (ae_ldb env) [BPut (account_key (a_Address x)) b, BPut (account_key (a_Address y)) c] (st_db st) = (d, err) \<and>
       (if err = None then res = Inr () \<and> st' = st\<lparr>st_db := d,
             st_accounts := mput (a_Address y) q (mput (a_Address x) p (st_accounts st))\<rparr>
        else res = Inl (Error ''transaction commit failed'') \<and> st' = st\<lparr>st_db := d\<rparr>))"
proof (cases "ae_enc env x")
  case (Inl e)
  then show ?thesis using heap settle by (auto simp: settle_def UpdateAccountAtomic_def deref_def)
next
  case b: (Inr b)
  show ?thesis
  proof (cases "ae_enc env y")
    case (Inl e)
    then show ?thesis using heap settle b by (auto simp: settle_def UpdateAccountAtomic_def deref_def)
  next
    case (Inr c)
    let ?batch = "[BPut (account_key (a_Address x)) b, BPut (account_key (a_Address y)) c]"
    have "UpdateAccountAtomic env st p BeginTransaction =
        (\<lparr>stx_batch = [BPut (account_key (a_Address x)) b], stx_accountCache = [(a_Address x, p)], stx_validatorCache = []\<rparr>, Inr ())"
      using heap b by (simp add: UpdateAccountAtomic_def deref_def BeginTransaction_def)
    moreover have "UpdateAccountAtomic env st q
        \<lparr>stx_batch = [BPut (account_key (a_Address x)) b], stx_accountCache = [(a_Address x, p)], stx_validatorCache = []\<rparr> =
        (\<lparr>stx_batch = ?batch, stx_accountCache = [(a_Address x, p), (a_Address y, q)], stx_validatorCache = []\<rparr>, Inr ())"
      using heap Inr ne by (simp add: UpdateAccountAtomic_def deref_def mput_def)
    ultimately show ?thesis
      using settle b Inr
      by (cases "db_write (ae_ldb env) ?batch (st_db st)"; cases "snd (db_write (ae_ldb env) ?batch (st_db st))")
        (auto simp: settle_def Commit_def)
  qed
qed

lemma transfer_step_error: "transfer_step tx p q st = (st', Inl e) \<Longrightarrow> \<exists>m. e = Panic m"
  by (auto simp: transfer_step_def deref_def Let_def split: option.splits)

lemma apply_checks:
  assumes laws: "ac_laws env" and s: "account_of st (tx_From tx) = Some s"
    and run: "ApplyTransactionAtomic env tx st = (st', res)"
    and res: "res = Inr () \<or> res = Inl (Error ''transaction commit failed'')"
  obtains st1 p st2 q st3 where "ac_get env st (tx_From tx) = (st1, Inr p)" "ac_get env st1 (tx_To tx) = (st2, Inr q)"
    "tx_Amount tx \<le> a_Balance s" "a_Nonce s = tx_Nonce tx"
    "transfer_step tx p q st2 = (st3, Inr ())" "settle env p q st3 = (st', res)"
proof -
  obtain st1 p where get: "ac_get env st (tx_From tx) = (st1, Inr p)"
    using run res by (auto simp: ApplyTransactionAtomic_def split: prod.splits sum.splits)
  have sp: "mget (st_heap st1) p = Some s" using ac_lawsD(1) [OF laws get] s by auto
  have ok: "tx_Amount tx \<le> a_Balance s" "a_Nonce s = tx_Nonce tx"
    using run res get sp by (auto simp: ApplyTransactionAtomic_def deref_def split: if_splits)
  obtain st2 q where get2: "ac_get env st1 (tx_To tx) = (st2, Inr q)"
    using run res get sp ok by (auto simp: ApplyTransactionAtomic_def deref_def split: prod.splits sum.splits)
  obtain st3 r3 where step: "transfer_step tx p q st2 = (st3, r3)" by (cases "transfer_step tx p q st2")
  have "r3 = Inr () \<and> settle env p q st3 = (st', res)"
    using run res get sp ok get2 step transfer_step_error [of tx p q st2 st3]
    by (cases r3) (auto simp: ApplyTransactionAtomic_def deref_def)
  then show thesis using that get get2 ok step by blast
qed

lemma account_key_inj: "account_key a = account_key b \<longleftrightarrow> a = b"
  by (simp add: account_key_def)

lemma moved_other:
  assumes "ac_laws env" "ac_get env st f = (st1, Inr p)" "ac_get env st1 t = (st2, Inr q)" "st_wf st"
    "account_of st a = Some x" "a \<noteq> f" "a \<noteq> t" "f \<noteq> t"
    "mget (st_heap st2) p = Some s" "a_Address s = f" "mget (st_heap st2) q = Some r" "a_Address r = t"
  shows "\<exists>k. mget (st_accounts st2) a = Some k \<and> k \<noteq> p \<and> k \<noteq> q \<and> mget (st_heap st2) k = Some x"
proof -
  obtain k where k: "mget (st_accounts st) a = Some k" "mget (st_heap st) k = Some x"
    using assms(5) by (auto simp: account_of_def bind_eq_Some_conv)
  then have "a_Address x = a" using assms(4) unfolding st_wf_def by fastforce
  moreover have "mget (st_accounts st2) a = Some k" "mget (st_heap st2) k = Some x"
    using k ac_lawsD(2,3) [OF assms(1,2)] ac_lawsD(2,3) [OF assms(1,3)] by blast+
  ultimately show ?thesis using assms(6-12) by auto
qed

text \<open>
  C17: A transfer between two different accounts that succeeds had the balance and the nonce it
  needs, debits the sender once, credits the recipient with the same amount, leaves every other
  account alone, so money is conserved, and both new records are in the database.
\<close>

theorem transfer_effect:
  assumes laws: "ac_laws env" and kv: "kv_laws (ae_ldb env)" and wf: "st_wf st" and ne: "tx_From tx \<noteq> tx_To tx"
    and s: "account_of st (tx_From tx) = Some s" and r: "account_of st (tx_To tx) = Some r"
    and run: "ApplyTransactionAtomic env tx st = (st', Inr ())"
  shows "tx_Amount tx \<le> a_Balance s \<and> a_Nonce s = tx_Nonce tx \<and>
    account_of st' (tx_From tx) = Some (debited tx s) \<and> account_of st' (tx_To tx) = Some (credited tx r) \<and>
    a_Balance (debited tx s) + a_Balance (credited tx r) = a_Balance s + a_Balance r \<and>
    (\<forall>a x. a \<noteq> tx_From tx \<and> a \<noteq> tx_To tx \<and> account_of st a = Some x \<longrightarrow> account_of st' a = Some x) \<and>
    map_option Inr (db_get (ae_ldb env) (st_db st') (account_key (tx_From tx))) = Some (ae_enc env (debited tx s)) \<and>
    map_option Inr (db_get (ae_ldb env) (st_db st') (account_key (tx_To tx))) = Some (ae_enc env (credited tx r))"
proof -
  obtain st1 p st2 q where get: "ac_get env st (tx_From tx) = (st1, Inr p)" "ac_get env st1 (tx_To tx) = (st2, Inr q)"
    and ok: "tx_Amount tx \<le> a_Balance s" "a_Nonce s = tx_Nonce tx"
    by (rule apply_checks [OF laws s run disjI1 [OF refl]])
  note m = apply_reaches_settle [OF laws get s r ne ok]
  let ?m = "moved tx p q s r st2"
  have heap: "mget (st_heap ?m) p = Some (debited tx s)" "mget (st_heap ?m) q = Some (credited tx r)"
    using m(2) by (simp_all add: moved_heap)
  have "settle env p q ?m = (st', Inr ())" using run m(1) by simp
  from settle_cases [OF heap _ this] obtain b c d where
    enc: "ae_enc env (debited tx s) = Inr b" "ae_enc env (credited tx r) = Inr c"
    and wr: "db_write (ae_ldb env) [BPut (account_key (tx_From tx)) b, BPut (account_key (tx_To tx)) c] (st_db st2) = (d, None)"
    and st': "st' = ?m\<lparr>st_db := d, st_accounts := mput (tx_To tx) q (mput (tx_From tx) p (st_accounts st2))\<rparr>"
    using m(3,4) ne by (auto split: if_splits)
  have other: "account_of st' a = Some x" if "a \<noteq> tx_From tx" "a \<noteq> tx_To tx" "account_of st a = Some x" for a x
    using moved_other [OF laws get wf that(3,1,2) ne m(5,3,6,4)] that st'
    by (auto simp: account_of_def mget_mput moved_heap)
  show ?thesis
    using ok m heap other ne kv_write [OF kv wr] enc st'
    by (auto simp: account_of_def mget_mput account_key_inj debited_def credited_def)
qed

text \<open>
  When the commit fails, the call reports an error and the database is as the failed write
  left it. If GetAccount returns the cached record, the in-memory accounts have changed all the same
  and stay changed; if it returns copies, they are unchanged.
\<close>

theorem failed_commit:
  assumes laws: "ac_laws env" and wf: "st_wf st" and ne: "tx_From tx \<noteq> tx_To tx"
    and s: "account_of st (tx_From tx) = Some s" and r: "account_of st (tx_To tx) = Some r"
    and run: "ApplyTransactionAtomic env tx st = (st', Inl (Error ''transaction commit failed''))"
  shows "(ac_shared env \<longrightarrow> account_of st' (tx_From tx) = Some (debited tx s) \<and> account_of st' (tx_To tx) = Some (credited tx r)) \<and>
    (ac_copying env \<longrightarrow> (\<forall>a x. account_of st a = Some x \<longrightarrow> account_of st' a = Some x))"
proof -
  obtain st1 p st2 q where get: "ac_get env st (tx_From tx) = (st1, Inr p)" "ac_get env st1 (tx_To tx) = (st2, Inr q)"
    and ok: "tx_Amount tx \<le> a_Balance s" "a_Nonce s = tx_Nonce tx"
    by (rule apply_checks [OF laws s run disjI2 [OF refl]])
  note m = apply_reaches_settle [OF laws get s r ne ok]
  let ?m = "moved tx p q s r st2"
  have heap: "mget (st_heap ?m) p = Some (debited tx s)" "mget (st_heap ?m) q = Some (credited tx r)"
    using m(2) by (simp_all add: moved_heap)
  have settle: "settle env p q ?m = (st', Inl (Error ''transaction commit failed''))" using run m(1) by simp
  have same: "st_heap st' = st_heap ?m" "st_accounts st' = st_accounts st2"
  proof -
    from settle_cases [OF heap _ settle] m(3,4) ne
    have "st' = ?m \<or> (\<exists>d. st' = ?m\<lparr>st_db := d\<rparr>)" by (auto split: if_splits)
    then show "st_heap st' = st_heap ?m" "st_accounts st' = st_accounts st2" by auto
  qed
  have "account_of st' (tx_From tx) = Some (debited tx s) \<and> account_of st' (tx_To tx) = Some (credited tx r)"
    if sh: "ac_shared env"
  proof -
    have "mget (st_accounts st1) (tx_From tx) = Some p" "mget (st_accounts st2) (tx_To tx) = Some q"
      using sh get unfolding ac_shared_def by blast+
    then have "mget (st_accounts st2) (tx_From tx) = Some p" "mget (st_accounts st2) (tx_To tx) = Some q"
      using ac_lawsD(3) [OF laws get(2)] by blast+
    then show ?thesis using heap by (simp add: account_of_def same)
  qed
  moreover have "account_of st' a = Some x" if cp: "ac_copying env" and a: "account_of st a = Some x" for a x
  proof -
    have acc: "mget (st_heap st) p = None" "mget (st_heap st1) q = None" "st_accounts st2 = st_accounts st"
      using cp get unfolding ac_copying_def by metis+
    obtain k where k: "mget (st_accounts st) a = Some k" "mget (st_heap st) k = Some x"
      using a by (auto simp: account_of_def bind_eq_Some_conv)
    then have "mget (st_heap st1) k = Some x" "mget (st_heap st2) k = Some x"
      using ac_lawsD(2) [OF laws get(1)] ac_lawsD(2) [OF laws get(2)] by blast+
    then show ?thesis using k acc by (auto simp: account_of_def same moved_heap)
  qed
  ultimately show ?thesis by blast
qed

text \<open>
  A transfer of an account to itself. If GetAccount returns the cached record, the balance
  is what it was and the nonce is used up; if it returns copies, the amount is created out of
  nothing and the nonce is not used up.
\<close>

theorem self_transfer:
  assumes laws: "ac_laws env" and self: "tx_From tx = tx_To tx" and s: "account_of st (tx_From tx) = Some s"
    and run: "ApplyTransactionAtomic env tx st = (st', Inr ())"
  shows "(ac_shared env \<longrightarrow> account_of st' (tx_From tx) = Some (s\<lparr>a_Nonce := a_Nonce s + 1\<rparr>)) \<and>
    (ac_copying env \<longrightarrow> account_of st' (tx_From tx) = Some (s\<lparr>a_Balance := a_Balance s + tx_Amount tx\<rparr>))"
proof -
  obtain st1 p st2 q st3 where get: "ac_get env st (tx_From tx) = (st1, Inr p)" "ac_get env st1 (tx_To tx) = (st2, Inr q)"
    and step: "transfer_step tx p q st2 = (st3, Inr ())" and settle: "settle env p q st3 = (st', Inr ())"
    by (rule apply_checks [OF laws s run disjI1 [OF refl]])
  have sp: "mget (st_heap st1) p = Some s" "mget (st_heap st2) p = Some s" "a_Address s = tx_From tx"
    using ac_lawsD(1) [OF laws get(1)] ac_lawsD(2) [OF laws get(2)] s by auto
  have sq: "mget (st_heap st2) q = Some s"
    using ac_lawsD(1) [OF laws get(2)] ac_get_account [OF laws get(1) s] self by auto
  have final: "account_of st' (tx_From tx) = mget (st_heap st3) q"
    if x: "mget (st_heap st3) p = Some x" "a_Address x = tx_From tx" and y: "mget (st_heap st3) q = Some y" "a_Address y = tx_From tx"
    for x y
    using settle that
    by (auto simp: settle_def UpdateAccountAtomic_def deref_def BeginTransaction_def Commit_def account_of_def mput_def mget_def
        update_conv' split: sum.splits prod.splits option.splits)
  show ?thesis
  proof (intro conjI impI)
    assume "ac_shared env"
    then have "mget (st_accounts st1) (tx_From tx) = Some p" "mget (st_accounts st2) (tx_To tx) = Some q"
      using get unfolding ac_shared_def by blast+
    then have "p = q" using ac_lawsD(3) [OF laws get(2)] self by force
    then have "mget (st_heap st3) q = Some (s\<lparr>a_Nonce := a_Nonce s + 1\<rparr>)"
      using step sp by (auto simp: transfer_step_def deref_def assign_def mget_mput)
    then show "account_of st' (tx_From tx) = Some (s\<lparr>a_Nonce := a_Nonce s + 1\<rparr>)"
      using final \<open>p = q\<close> sp by simp
  next
    assume "ac_copying env"
    then have "mget (st_heap st1) q = None" using get unfolding ac_copying_def by metis
    then have "p \<noteq> q" using sp by auto
    then have "mget (st_heap st3) q = Some (credited tx s)" "mget (st_heap st3) p = Some (debited tx s)"
      using step sp sq by (auto simp: transfer_step_def deref_def assign_def mget_mput credited_def debited_def)
    then show "account_of st' (tx_From tx) = Some (s\<lparr>a_Balance := a_Balance s + tx_Amount tx\<rparr>)"
      using final sp by (simp add: credited_def)
  qed
qed

section \<open>Two account stores\<close>

definition demo_account :: "string \<Rightarrow> int \<Rightarrow> Account" where
  "demo_account a n = \<lparr>a_Address = a, a_Balance = n, a_Nonce = 0, a_CodeHash = []\<rparr>"

definition demo_state :: "memdb State" where
  "demo_state = \<lparr>st_db = [], st_heap = [(1, demo_account ''alice'' 100), (2, demo_account ''bob'' 5)],
     st_accounts = [(''alice'', 1), (''bob'', 2)], st_validators = []\<rparr>"

definition demo_atomic_env :: "(memdb State \<Rightarrow> string \<Rightarrow> memdb State \<times> ref res) \<Rightarrow> memdb leveldb \<Rightarrow> memdb atomic_env" where
  "demo_atomic_env get ldb = \<lparr>ae_ldb = ldb, ae_enc = (\<lambda>_. Inr [1]), ae_venc = (\<lambda>_. Inr [1]), ac_get = get\<rparr>"

definition full_disk :: "memdb leveldb" where
  "full_disk = memdb_ops\<lparr>db_write := (\<lambda>ops d. (d, Some (Error ''no space left on device'')))\<rparr>"

definition demo_transfer :: "string \<Rightarrow> string \<Rightarrow> int \<Rightarrow> Transaction" where
  "demo_transfer f t amount = \<lparr>tx_ID = [], tx_From = f, tx_To = t, tx_Amount = amount, tx_Timestamp = 0, tx_Nonce = 0,
     tx_Fee = 0, tx_Signature = [], tx_Data = []\<rparr>"

lemmas demo_atomic_defs = demo_atomic_env_def demo_state_def demo_transfer_def demo_account_def

lemma demo_accounts: "account_of demo_state ''alice'' = Some (demo_account ''alice'' 100)"
    "account_of demo_state ''bob'' = Some (demo_account ''bob'' 5)" "st_wf demo_state"
  by (auto simp: account_of_def demo_state_def st_wf_def demo_account_def)

lemma demo_env_laws: "ac_laws (demo_atomic_env shared_get ldb)" "ac_shared (demo_atomic_env shared_get ldb)"
    "ac_laws (demo_atomic_env copying_get ldb)" "ac_copying (demo_atomic_env copying_get ldb)"
  using shared_get_laws [of "demo_atomic_env shared_get ldb"] copying_get_laws [of "demo_atomic_env copying_get ldb"]
  by (simp_all add: demo_atomic_env_def)

lemma demo_transfer_runs:
  "snd (ApplyTransactionAtomic (demo_atomic_env shared_get memdb_ops) (demo_transfer ''alice'' ''bob'' 30) demo_state) = Inr ()"
  "snd (ApplyTransactionAtomic (demo_atomic_env shared_get full_disk) (demo_transfer ''alice'' ''bob'' 30) demo_state) =
     Inl (Error ''transaction commit failed'')"
  "snd (ApplyTransactionAtomic (demo_atomic_env copying_get memdb_ops) (demo_transfer ''alice'' ''alice'' 30) demo_state) = Inr ()"
  by (simp_all add: ApplyTransactionAtomic_def demo_atomic_defs shared_get_def copying_get_def account_of_def deref_def
      transfer_step_def assign_def settle_def UpdateAccountAtomic_def BeginTransaction_def Commit_def memdb_ops_def
      full_disk_def fresh_ref_def mget_mput)

theorem transfer_effect_witness:
  "account_of (fst (ApplyTransactionAtomic (demo_atomic_env shared_get memdb_ops) (demo_transfer ''alice'' ''bob'' 30) demo_state)) ''bob'' =
     Some (demo_account ''bob'' 35)"
proof -
  let ?env = "demo_atomic_env shared_get memdb_ops" and ?tx = "demo_transfer ''alice'' ''bob'' 30"
  have kv: "kv_laws (ae_ldb ?env)" by (simp add: demo_atomic_env_def memdb_laws)
  have run: "ApplyTransactionAtomic ?env ?tx demo_state = (fst (ApplyTransactionAtomic ?env ?tx demo_state), Inr ())"
    using demo_transfer_runs(1) by (simp add: prod_eq_iff)
  from transfer_effect [OF demo_env_laws(1) kv demo_accounts(3) _ _ _ run, of "demo_account ''alice'' 100" "demo_account ''bob'' 5"]
  show ?thesis using demo_accounts by (simp add: demo_transfer_def credited_def demo_account_def)
qed

theorem failed_commit_witness:
  "account_of (fst (ApplyTransactionAtomic (demo_atomic_env shared_get full_disk) (demo_transfer ''alice'' ''bob'' 30) demo_state)) ''bob'' =
     Some (demo_account ''bob'' 35)"
proof -
  let ?env = "demo_atomic_env shared_get full_disk" and ?tx = "demo_transfer ''alice'' ''bob'' 30"
  have run: "ApplyTransactionAtomic ?env ?tx demo_state =
      (fst (ApplyTransactionAtomic ?env ?tx demo_state), Inl (Error ''transaction commit failed''))"
    using demo_transfer_runs(2) by (simp add: prod_eq_iff)
  from failed_commit [OF demo_env_laws(1) demo_accounts(3) _ _ _ run, of "demo_account ''alice'' 100" "demo_account ''bob'' 5"]
  show ?thesis using demo_accounts demo_env_laws(2) by (simp add: demo_transfer_def credited_def demo_account_def)
qed

theorem self_transfer_witness:
  "account_of (fst (ApplyTransactionAtomic (demo_atomic_env copying_get memdb_ops) (demo_transfer ''alice'' ''alice'' 30) demo_state)) ''alice'' =
     Some (demo_account ''alice'' 130)"
proof -
  let ?env = "demo_atomic_env copying_get memdb_ops" and ?tx = "demo_transfer ''alice'' ''alice'' 30"
  have run: "ApplyTransactionAtomic ?env ?tx demo_state = (fst (ApplyTransactionAtomic ?env ?tx demo_state), Inr ())"
    using demo_transfer_runs(3) by (simp add: prod_eq_iff)
  from self_transfer [OF demo_env_laws(3) _ _ run, of "demo_account ''alice'' 100"]
  show ?thesis using demo_accounts demo_env_laws(4) by (simp add: demo_transfer_def demo_account_def)
qed

end
