(* ===== verification/Anti_DDoS.thy ===== *)
theory Anti_DDoS
  imports Core_Types
begin

text \<open>
  Protection of the bandwidth tests (\<open>pkg/consensus/anti_ddos.go\<close>): challenges with a nonce, and a
  limit on the requests of a tester per hour. Each reading of the clock is an argument; \<open>rand.Read\<close>
  is the argument \<open>nonce\<close>. Challenges are shared pointers that only this manager changes.
\<close>

section \<open>State\<close>

record Challenge =
  ch_ChallengeID :: string
  ch_CandidateID :: string
  ch_TesterID :: string
  ch_Nonce :: bytes
  ch_ExpectedHash :: string
  ch_CreatedAt :: gotime
  ch_ExpiresAt :: gotime
  ch_Completed :: bool

record RateLimit =
  rl_ValidatorID :: string
  rl_RequestCount :: int
  rl_WindowStart :: gotime
  rl_LastRequestAt :: gotime

record AntiDRDoSManager =
  ad_activeChallenges :: "(string, Challenge) gomap"
  ad_testRequestLimits :: "(string, RateLimit) gomap"
  ad_maxRequestsPerHour :: int
  ad_challengeTTL :: duration
  ad_minReputation :: f64

definition NewAntiDRDoSManager :: AntiDRDoSManager where
  "NewAntiDRDoSManager = \<lparr>ad_activeChallenges = [], ad_testRequestLimits = [], ad_maxRequestsPerHour = 10,
     ad_challengeTTL = 5 * minute, ad_minReputation = f_lit (1 / 2)\<rparr>"

section \<open>The rate limit\<close>

text \<open>\<open>checkRateLimit\<close> resets an expired window through the pointer; the map is updated in place.\<close>

definition checkRateLimit :: "gotime \<Rightarrow> string \<Rightarrow> AntiDRDoSManager \<Rightarrow> AntiDRDoSManager \<times> bool" where
  "checkRateLimit now testerID ad =
     (case mget (ad_testRequestLimits ad) testerID of
        None \<Rightarrow> (ad, True)
      | Some limit \<Rightarrow>
          if time_sub now (rl_WindowStart limit) > hour then
            (ad\<lparr>ad_testRequestLimits := mput testerID (limit\<lparr>rl_RequestCount := 0, rl_WindowStart := now\<rparr>)
                 (ad_testRequestLimits ad)\<rparr>, True)
          else if rl_RequestCount limit \<ge> ad_maxRequestsPerHour ad then (ad, False)
          else (ad, True))"

definition updateRateLimit :: "gotime \<Rightarrow> string \<Rightarrow> AntiDRDoSManager \<Rightarrow> AntiDRDoSManager" where
  "updateRateLimit now testerID ad =
     ad\<lparr>ad_testRequestLimits := mput testerID
        (case mget (ad_testRequestLimits ad) testerID of
           None \<Rightarrow> \<lparr>rl_ValidatorID = testerID, rl_RequestCount = 1, rl_WindowStart = now, rl_LastRequestAt = now\<rparr>
         | Some limit \<Rightarrow>
             (if time_sub now (rl_WindowStart limit) > hour
              then limit\<lparr>rl_RequestCount := 1, rl_WindowStart := now, rl_LastRequestAt := now\<rparr>
              else limit\<lparr>rl_RequestCount := rl_RequestCount limit + 1, rl_LastRequestAt := now\<rparr>))
        (ad_testRequestLimits ad)\<rparr>"

section \<open>Challenges\<close>

definition ComputeChallengeResponse :: "string \<Rightarrow> string \<Rightarrow> bytes \<Rightarrow> string" where
  "ComputeChallengeResponse candidateID testerID nonce = hex (sha256 (bytes_of candidateID @ nonce @ bytes_of testerID))"

record challenge_clock =
  cc_check :: gotime
  cc_id :: gotime
  cc_created :: gotime
  cc_expires :: gotime
  cc_update :: gotime

definition GenerateChallenge ::
  "challenge_clock \<Rightarrow> bytes res \<Rightarrow> string \<Rightarrow> string \<Rightarrow> AntiDRDoSManager \<Rightarrow> AntiDRDoSManager \<times> Challenge res" where
  "GenerateChallenge cc nonce candidateID testerID ad =
     (case checkRateLimit (cc_check cc) testerID ad of
        (ad1, False) \<Rightarrow> (ad1, Inl (Error ''rate limit exceeded''))
      | (ad1, True) \<Rightarrow>
          (case nonce of
             Inl (Panic p) \<Rightarrow> (ad1, Inl (Panic p))
           | Inl (Error _) \<Rightarrow> (ad1, Inl (Error ''failed to generate nonce''))
           | Inr n \<Rightarrow>
               (let challengeID = candidateID @ ''-'' @ testerID @ ''-'' @ dec_int (cc_id cc);
                    challenge = \<lparr>ch_ChallengeID = challengeID, ch_CandidateID = candidateID, ch_TesterID = testerID,
                      ch_Nonce = n, ch_ExpectedHash = hex (sha256 (bytes_of candidateID @ n @ bytes_of testerID)),
                      ch_CreatedAt = cc_created cc, ch_ExpiresAt = cc_expires cc + ad_challengeTTL ad1, ch_Completed = False\<rparr>
                in (updateRateLimit (cc_update cc) testerID
                      (ad1\<lparr>ad_activeChallenges := mput challengeID challenge (ad_activeChallenges ad1)\<rparr>), Inr challenge))))"

text \<open>
  \<open>VerifyChallenge\<close> releases its lock between the lookup and the final write. \<open>verify_read\<close> is the
  part up to the comparison (with the deletion of an expired challenge), \<open>verify_write\<close> the
  locked write at the end; the operation is the two in sequence.
\<close>

definition verify_read :: "gotime \<Rightarrow> string \<Rightarrow> string \<Rightarrow> AntiDRDoSManager \<Rightarrow> AntiDRDoSManager \<times> unit res" where
  "verify_read now challengeID responseHash ad =
     (case mget (ad_activeChallenges ad) challengeID of
        None \<Rightarrow> (ad, Inl (Error ''challenge not found''))
      | Some challenge \<Rightarrow>
          if ch_Completed challenge then (ad, Inl (Error ''challenge already completed''))
          else if now > ch_ExpiresAt challenge then
            (ad\<lparr>ad_activeChallenges := mdel challengeID (ad_activeChallenges ad)\<rparr>, Inl (Error ''challenge expired''))
          else if ch_ExpectedHash challenge \<noteq> responseHash then (ad, Inl (Error ''invalid response hash''))
          else (ad, Inr ()))"

definition verify_write :: "string \<Rightarrow> AntiDRDoSManager \<Rightarrow> AntiDRDoSManager" where
  "verify_write challengeID ad =
     (case mget (ad_activeChallenges ad) challengeID of
        None \<Rightarrow> ad
      | Some challenge \<Rightarrow> ad\<lparr>ad_activeChallenges := mput challengeID (challenge\<lparr>ch_Completed := True\<rparr>) (ad_activeChallenges ad)\<rparr>)"

definition VerifyChallenge :: "gotime \<Rightarrow> string \<Rightarrow> string \<Rightarrow> AntiDRDoSManager \<Rightarrow> AntiDRDoSManager \<times> bool res" where
  "VerifyChallenge now challengeID responseHash ad =
     (case verify_read now challengeID responseHash ad of
        (ad1, Inl e) \<Rightarrow> (ad1, Inl e)
      | (ad1, Inr _) \<Rightarrow> (verify_write challengeID ad1, Inr True))"

section \<open>Configuration and maintenance\<close>

definition CheckReputationThreshold :: "AntiDRDoSManager \<Rightarrow> f64 \<Rightarrow> bool" where
  "CheckReputationThreshold ad validatorReputation = f_le (ad_minReputation ad) validatorReputation"

definition GetRemainingTests :: "gotime \<Rightarrow> string \<Rightarrow> AntiDRDoSManager \<Rightarrow> int" where
  "GetRemainingTests now testerID ad =
     (case mget (ad_testRequestLimits ad) testerID of
        None \<Rightarrow> ad_maxRequestsPerHour ad
      | Some limit \<Rightarrow>
          if time_sub now (rl_WindowStart limit) > hour then ad_maxRequestsPerHour ad
          else (let remaining = ad_maxRequestsPerHour ad - rl_RequestCount limit in
                if remaining < 0 then 0 else remaining))"

definition CleanupExpiredChallenges :: "gotime \<Rightarrow> AntiDRDoSManager \<Rightarrow> AntiDRDoSManager \<times> nat" where
  "CleanupExpiredChallenges now ad =
     (let kept = mkeep (\<lambda>_ c. \<not> (now > ch_ExpiresAt c \<or> ch_Completed c)) (ad_activeChallenges ad)
      in (ad\<lparr>ad_activeChallenges := kept\<rparr>, mlen (ad_activeChallenges ad) - mlen kept))"

definition SetRateLimit :: "int \<Rightarrow> AntiDRDoSManager \<Rightarrow> AntiDRDoSManager" where
  "SetRateLimit maxRequestsPerHour ad = ad\<lparr>ad_maxRequestsPerHour := maxRequestsPerHour\<rparr>"

definition SetChallengeTTL :: "duration \<Rightarrow> AntiDRDoSManager \<Rightarrow> AntiDRDoSManager" where
  "SetChallengeTTL ttl ad = ad\<lparr>ad_challengeTTL := ttl\<rparr>"

definition SetMinReputation :: "f64 \<Rightarrow> AntiDRDoSManager \<Rightarrow> AntiDRDoSManager" where
  "SetMinReputation minRep ad = ad\<lparr>ad_minReputation := minRep\<rparr>"

section \<open>The number of granted challenges\<close>

text \<open>A sequence of requests: the clock, the nonce, the candidate and the tester of each.\<close>

type_synonym challenge_request = "challenge_clock \<times> bytes res \<times> string \<times> string"

fun run_requests :: "challenge_request list \<Rightarrow> AntiDRDoSManager \<Rightarrow> (string \<times> Challenge res) list" where
  "run_requests [] ad = []"
| "run_requests ((cc, nonce, candidateID, testerID) # reqs) ad =
     (case GenerateChallenge cc nonce candidateID testerID ad of
        (ad', r) \<Rightarrow> (testerID, r) # run_requests reqs ad')"

definition granted :: "string \<Rightarrow> (string \<times> Challenge res) list \<Rightarrow> nat" where
  "granted testerID rs = length (filter (\<lambda>(t, r). t = testerID \<and> is_ok r) rs)"

text \<open>How many more requests a tester can have while its window lasts.\<close>

definition allowance :: "AntiDRDoSManager \<Rightarrow> string \<Rightarrow> int" where
  "allowance ad t = (case mget (ad_testRequestLimits ad) t of
       None \<Rightarrow> max 1 (ad_maxRequestsPerHour ad)
     | Some limit \<Rightarrow> max 0 (ad_maxRequestsPerHour ad - rl_RequestCount limit))"

definition window_from :: "gotime \<Rightarrow> AntiDRDoSManager \<Rightarrow> string \<Rightarrow> bool" where
  "window_from t0 ad t = (case mget (ad_testRequestLimits ad) t of None \<Rightarrow> True | Some limit \<Rightarrow> t0 \<le> rl_WindowStart limit \<and> 0 \<le> rl_RequestCount limit)"

definition clock_in :: "gotime \<Rightarrow> challenge_clock \<Rightarrow> bool" where
  "clock_in t0 cc = (t0 \<le> cc_check cc \<and> cc_check cc \<le> t0 + hour \<and> t0 \<le> cc_update cc \<and> cc_update cc \<le> t0 + hour)"

lemma not_expired: "t0 \<le> w \<Longrightarrow> now \<le> t0 + hour \<Longrightarrow> \<not> time_sub now w > hour"
  by (simp add: time_sub_gt duration_values max_duration_def)

lemma generate_other:
  assumes "GenerateChallenge cc nonce c v ad = (ad', r)" "v \<noteq> t"
  shows "mget (ad_testRequestLimits ad') t = mget (ad_testRequestLimits ad) t \<and>
    ad_maxRequestsPerHour ad' = ad_maxRequestsPerHour ad"
  using assms by (auto simp: GenerateChallenge_def checkRateLimit_def updateRateLimit_def mget_mput Let_def
      split: sum.splits fail.splits option.splits if_splits)

lemma generate_step:
  assumes gen: "GenerateChallenge cc nonce c v ad = (ad', r)" and clock: "clock_in t0 cc" and win: "window_from t0 ad t"
  shows "window_from t0 ad' t \<and> ad_maxRequestsPerHour ad' = ad_maxRequestsPerHour ad \<and>
    (if v = t \<and> is_ok r then allowance ad' t < allowance ad t \<and> 0 \<le> allowance ad' t else allowance ad' t = allowance ad t)"
proof (cases "v = t")
  case False
  then show ?thesis using generate_other [OF gen False] win by (auto simp: window_from_def allowance_def split: option.splits)
next
  case vt: True
  show ?thesis
  proof (cases "mget (ad_testRequestLimits ad) t")
    case None
    then show ?thesis
      using gen clock vt by (auto simp: GenerateChallenge_def checkRateLimit_def updateRateLimit_def window_from_def
          allowance_def clock_in_def mget_mput Let_def split: sum.splits fail.splits option.splits)
  next
    case (Some limit)
    then have "\<not> time_sub (cc_check cc) (rl_WindowStart limit) > hour" "\<not> time_sub (cc_update cc) (rl_WindowStart limit) > hour"
      using clock win not_expired by (auto simp: window_from_def clock_in_def)
    then show ?thesis
      using gen win vt Some by (auto simp: GenerateChallenge_def checkRateLimit_def updateRateLimit_def window_from_def
          allowance_def mget_mput Let_def split: sum.splits fail.splits option.splits if_splits)
  qed
qed

lemma granted_Cons: "granted t ((v, r) # rs) = (if v = t \<and> is_ok r then Suc (granted t rs) else granted t rs)"
  by (simp add: granted_def)

lemma granted_le_allowance:
  "\<forall>req \<in> set reqs. clock_in t0 (fst req) \<Longrightarrow> window_from t0 ad t \<Longrightarrow> int (granted t (run_requests reqs ad)) \<le> allowance ad t"
proof (induction reqs ad rule: run_requests.induct)
  case (1 ad)
  then show ?case by (auto simp: granted_def allowance_def split: option.splits)
next
  case (2 cc nonce c v reqs ad)
  obtain ad' r where gen: "GenerateChallenge cc nonce c v ad = (ad', r)" by (cases "GenerateChallenge cc nonce c v ad")
  have "clock_in t0 cc" using "2.prems"(1) by simp
  note step = generate_step [OF gen this "2.prems"(2)]
  have "int (granted t (run_requests reqs ad')) \<le> allowance ad' t"
    using "2.IH" [OF gen [symmetric]] "2.prems"(1) step by auto
  then show ?case using step gen by (auto simp: granted_Cons split: if_splits)
qed

text \<open>
  In any sequence of requests of any testers whose clock readings lie within one hour, a
  tester without an older window is granted at most the configured number of challenges, or one
  if that number is not positive.
\<close>

theorem challenge_rate_limit:
  assumes "\<forall>req \<in> set reqs. clock_in t0 (fst req)" "window_from t0 ad t"
  shows "int (granted t (run_requests reqs ad)) \<le> max 1 (ad_maxRequestsPerHour ad)"
proof -
  have "allowance ad t \<le> max 1 (ad_maxRequestsPerHour ad)"
    using assms(2) by (auto simp: allowance_def window_from_def split: option.splits)
  then show ?thesis using granted_le_allowance [OF assms] by linarith
qed

definition demo_clock :: challenge_clock where
  "demo_clock = \<lparr>cc_check = 0, cc_id = 0, cc_created = 0, cc_expires = 0, cc_update = 0\<rparr>"

theorem challenge_rate_limit_witness:
  "int (granted ''t'' (run_requests [(demo_clock, Inr [], ''c'', ''t''), (demo_clock, Inr [], ''c'', ''t'')]
     (SetRateLimit 1 NewAntiDRDoSManager))) \<le> max 1 (ad_maxRequestsPerHour (SetRateLimit 1 NewAntiDRDoSManager))"
  by (rule challenge_rate_limit [where ?t0.0 = 0])
    (auto simp: demo_clock_def clock_in_def window_from_def SetRateLimit_def NewAntiDRDoSManager_def duration_values)

section \<open>A challenge is used once\<close>

lemma verify_read_ok:
  "verify_read now i h ad = (ad', Inr ()) \<longleftrightarrow> ad' = ad \<and> (\<exists>c. mget (ad_activeChallenges ad) i = Some c \<and>
     \<not> ch_Completed c \<and> now \<le> ch_ExpiresAt c \<and> ch_ExpectedHash c = h)"
  by (auto simp: verify_read_def split: option.splits if_splits)

lemma verify_ok:
  "VerifyChallenge now i h ad = (ad', Inr b) \<longleftrightarrow> b \<and> ad' = verify_write i ad \<and> snd (verify_read now i h ad) = Inr ()"
  by (auto simp: VerifyChallenge_def verify_read_def split: option.splits if_splits sum.splits prod.splits)

lemma generated_challenge:
  "GenerateChallenge cc nonce c v ad = (ad', Inr ch) \<Longrightarrow>
   mget (ad_activeChallenges ad') (ch_ChallengeID ch) = Some ch \<and> \<not> ch_Completed ch \<and>
   ch_ExpectedHash ch = ComputeChallengeResponse c v (ch_Nonce ch) \<and> ch_ExpiresAt ch = cc_expires cc + ad_challengeTTL ad"
  by (auto simp: GenerateChallenge_def checkRateLimit_def updateRateLimit_def ComputeChallengeResponse_def mget_mput Let_def
      split: sum.splits fail.splits option.splits if_splits)

text \<open>Two calls that both read before either of them writes.\<close>

definition racing_verify ::
  "gotime \<Rightarrow> gotime \<Rightarrow> string \<Rightarrow> string \<Rightarrow> AntiDRDoSManager \<Rightarrow> AntiDRDoSManager \<times> unit res \<times> unit res" where
  "racing_verify now1 now2 challengeID h ad =
     (let (ad1, r1) = verify_read now1 challengeID h ad;
          (ad2, r2) = verify_read now2 challengeID h ad1;
          ad3 = (if is_ok r1 then verify_write challengeID ad2 else ad2);
          ad4 = (if is_ok r2 then verify_write challengeID ad3 else ad3)
      in (ad4, r1, r2))"

text \<open>
  The computed response to a fresh challenge is accepted until the challenge expires; after
  that one success every answer to the challenge is refused, when the calls run one after the
  other. But the lock is released between the check and the write: of two calls that both read
  before either writes, both succeed.
\<close>

theorem challenge_single_use:
  assumes gen: "GenerateChallenge cc nonce candidateID testerID ad = (ad1, Inr ch)"
    and time: "now \<le> cc_expires cc + ad_challengeTTL ad" "later \<le> cc_expires cc + ad_challengeTTL ad"
  shows "(\<exists>ad2. VerifyChallenge now (ch_ChallengeID ch) (ComputeChallengeResponse candidateID testerID (ch_Nonce ch)) ad1 = (ad2, Inr True) \<and>
      (\<forall>now' h. VerifyChallenge now' (ch_ChallengeID ch) h ad2 = (ad2, Inl (Error ''challenge already completed'')))) \<and>
    snd (racing_verify now later (ch_ChallengeID ch) (ComputeChallengeResponse candidateID testerID (ch_Nonce ch)) ad1) = (Inr (), Inr ())"
proof -
  let ?i = "ch_ChallengeID ch" and ?h = "ComputeChallengeResponse candidateID testerID (ch_Nonce ch)"
  note c = generated_challenge [OF gen]
  have rd: "verify_read t ?i ?h ad1 = (ad1, Inr ())" if "t \<le> cc_expires cc + ad_challengeTTL ad" for t
    using c that by (simp add: verify_read_ok)
  have v: "VerifyChallenge now ?i ?h ad1 = (verify_write ?i ad1, Inr True)" by (simp add: VerifyChallenge_def rd [OF time(1)])
  have used: "mget (ad_activeChallenges (verify_write ?i ad1)) ?i = Some (ch\<lparr>ch_Completed := True\<rparr>)"
    using c by (simp add: verify_write_def mget_mput)
  then have "VerifyChallenge now' ?i h (verify_write ?i ad1) = (verify_write ?i ad1, Inl (Error ''challenge already completed''))" for now' h
    by (simp add: VerifyChallenge_def verify_read_def)
  with v show ?thesis by (auto simp: racing_verify_def rd [OF time(1)] rd [OF time(2)])
qed

theorem challenge_single_use_witness:
  "\<exists>ad1 ch. GenerateChallenge demo_clock (Inr [7]) ''c'' ''t'' NewAntiDRDoSManager = (ad1, Inr ch) \<and>
     snd (racing_verify 1 2 (ch_ChallengeID ch) (ComputeChallengeResponse ''c'' ''t'' (ch_Nonce ch)) ad1) = (Inr (), Inr ())"
proof -
  have "\<exists>ad1 ch. GenerateChallenge demo_clock (Inr [7]) ''c'' ''t'' NewAntiDRDoSManager = (ad1, Inr ch)"
    by (simp add: GenerateChallenge_def checkRateLimit_def NewAntiDRDoSManager_def Let_def)
  then obtain ad1 ch where gen: "GenerateChallenge demo_clock (Inr [7]) ''c'' ''t'' NewAntiDRDoSManager = (ad1, Inr ch)" by blast
  have t: "x \<le> cc_expires demo_clock + ad_challengeTTL NewAntiDRDoSManager" if "x \<le> 300000000000" for x
    using that by (simp add: demo_clock_def NewAntiDRDoSManager_def duration_values)
  have "snd (racing_verify 1 2 (ch_ChallengeID ch) (ComputeChallengeResponse ''c'' ''t'' (ch_Nonce ch)) ad1) = (Inr (), Inr ())"
    by (rule challenge_single_use [OF gen, THEN conjunct2]) (simp_all add: t)
  with gen show ?thesis by blast
qed

end
