(* ===== verification/Rate_Limiter.thy ===== *)
theory Rate_Limiter
  imports Core_Types
begin

text \<open>
  The token bucket per peer (\<open>pkg/network/p2p_ratelimit.go\<close>). \<open>peer.ID\<close> is a type of libp2p; its
  \<open>String\<close> method is the argument \<open>show_peer\<close>, and the messages slice it to eight characters, which
  panics for shorter ones. \<open>PeerLimit\<close> is updated in place. Each reading of the clock is an
  argument. Byte counts are \<open>int64\<close> and wrap around.
\<close>

section \<open>State\<close>

record 'p PeerLimit =
  pl_PeerID :: 'p
  pl_Tokens :: int
  pl_LastRefill :: gotime
  pl_BytesThisSecond :: int
  pl_LastByteReset :: gotime
  pl_ViolationCount :: int
  pl_LastViolation :: gotime
  pl_IsBanned :: bool
  pl_BanExpiry :: gotime

record 'p RateLimiter =
  rm_limits :: "('p, 'p PeerLimit) gomap"
  rm_maxRequestsPerMinute :: int
  rm_maxBytesPerSecond :: int
  rm_burstSize :: int

definition NewRateLimiter :: "int \<Rightarrow> int \<Rightarrow> int \<Rightarrow> 'p RateLimiter" where
  "NewRateLimiter maxRequestsPerMinute burstSize maxBytesPerSecond = \<lparr>rm_limits = [],
     rm_maxRequestsPerMinute = maxRequestsPerMinute, rm_maxBytesPerSecond = maxBytesPerSecond, rm_burstSize = burstSize\<rparr>"

definition put_limit :: "'p \<Rightarrow> 'p PeerLimit \<Rightarrow> 'p RateLimiter \<Rightarrow> 'p RateLimiter" where
  "put_limit p l rl = rl\<lparr>rm_limits := mput p l (rm_limits rl)\<rparr>"

definition wrap64 :: "int \<Rightarrow> int" where
  "wrap64 n = (n + 2 ^ 63) mod 2 ^ 64 - 2 ^ 63"

definition new_limit :: "gotime \<Rightarrow> gotime \<Rightarrow> 'p \<Rightarrow> int \<Rightarrow> 'p PeerLimit" where
  "new_limit now1 now2 p burst = \<lparr>pl_PeerID = p, pl_Tokens = burst, pl_LastRefill = now1, pl_BytesThisSecond = 0,
     pl_LastByteReset = now2, pl_ViolationCount = 0, pl_LastViolation = zero_time, pl_IsBanned = False, pl_BanExpiry = zero_time\<rparr>"

text \<open>The message names the peer by the first eight characters of its string.\<close>

definition refuse :: "('p \<Rightarrow> string) \<Rightarrow> 'p \<Rightarrow> string \<Rightarrow> bool res" where
  "refuse show_peer p msg = (case slice_to 8 (show_peer p) of Inl e \<Rightarrow> Inl e | Inr _ \<Rightarrow> Inl (Error msg))"

section \<open>Requests\<close>

text \<open>\<open>d.Minutes()\<close> of package \<open>time\<close>, and the conversion to \<open>int\<close>.\<close>

definition duration_minutes :: "duration \<Rightarrow> f64" where
  "duration_minutes d = (let m = trunc_rat (of_int d / of_int minute); nsec = d - m * minute
     in f_add (f_of_int m) (f_div (f_of_int nsec) (f_of_int minute)))"

definition tokens_due :: "gotime \<Rightarrow> 'p RateLimiter \<Rightarrow> 'p PeerLimit \<Rightarrow> int" where
  "tokens_due now rl l =
     f_int (f_mul (duration_minutes (time_sub now (pl_LastRefill l))) (f_of_int (rm_maxRequestsPerMinute rl)))"

definition refill :: "gotime \<Rightarrow> 'p RateLimiter \<Rightarrow> 'p PeerLimit \<Rightarrow> 'p PeerLimit" where
  "refill now rl l = (let tokensToAdd = tokens_due now rl l in
     if tokensToAdd > 0 then
       l\<lparr>pl_Tokens := (if pl_Tokens l + tokensToAdd > rm_burstSize rl then rm_burstSize rl else pl_Tokens l + tokensToAdd),
         pl_LastRefill := now\<rparr>
     else l)"

record request_clock =
  rc_init :: gotime
  rc_byte :: gotime
  rc_ban :: gotime
  rc_now :: gotime

definition AllowRequest ::
  "('p \<Rightarrow> string) \<Rightarrow> request_clock \<Rightarrow> 'p \<Rightarrow> 'p RateLimiter \<Rightarrow> 'p RateLimiter \<times> bool res" where
  "AllowRequest show_peer rc p rl =
     (let (l0, rl0) = (case mget (rm_limits rl) p of
            Some l \<Rightarrow> (l, rl)
          | None \<Rightarrow> (let l = new_limit (rc_init rc) (rc_byte rc) p (rm_burstSize rl) in (l, put_limit p l rl)))
      in if pl_IsBanned l0 \<and> rc_ban rc < pl_BanExpiry l0 then (rl0, refuse show_peer p ''peer is banned'')
         else
           let l1 = (if pl_IsBanned l0 then l0\<lparr>pl_IsBanned := False, pl_ViolationCount := 0\<rparr> else l0);
               now = rc_now rc;
               l2 = refill now rl0 l1
           in if pl_Tokens l2 \<le> 0 then
                (let l3 = l2\<lparr>pl_ViolationCount := pl_ViolationCount l2 + 1, pl_LastViolation := now\<rparr>
                 in if pl_ViolationCount l3 \<ge> 5 then
                      (put_limit p (l3\<lparr>pl_IsBanned := True, pl_BanExpiry := now + 10 * minute\<rparr>) rl0,
                       refuse show_peer p ''peer banned for excessive rate limit violations'')
                    else (put_limit p l3 rl0, refuse show_peer p ''rate limit exceeded''))
              else (put_limit p (l2\<lparr>pl_Tokens := pl_Tokens l2 - 1\<rparr>) rl0, Inr True))"

section \<open>Bytes\<close>

definition AllowBytes ::
  "('p \<Rightarrow> string) \<Rightarrow> gotime \<Rightarrow> 'p \<Rightarrow> int \<Rightarrow> 'p RateLimiter \<Rightarrow> 'p RateLimiter \<times> bool res" where
  "AllowBytes show_peer now p n rl =
     (case mget (rm_limits rl) p of
        None \<Rightarrow> (rl, refuse show_peer p ''peer not initialized'')
      | Some l \<Rightarrow>
          let l1 = (if time_sub now (pl_LastByteReset l) > second
                    then l\<lparr>pl_BytesThisSecond := 0, pl_LastByteReset := now\<rparr> else l)
          in if wrap64 (pl_BytesThisSecond l1 + n) > rm_maxBytesPerSecond rl then
               (let l2 = l1\<lparr>pl_ViolationCount := pl_ViolationCount l1 + 1, pl_LastViolation := now\<rparr>
                in if pl_ViolationCount l2 \<ge> 3 then
                     (put_limit p (l2\<lparr>pl_IsBanned := True, pl_BanExpiry := now + 5 * minute\<rparr>) rl,
                      refuse show_peer p ''peer banned for bandwidth abuse'')
                   else (put_limit p l2 rl, refuse show_peer p ''bandwidth limit exceeded''))
             else (put_limit p (l1\<lparr>pl_BytesThisSecond := wrap64 (pl_BytesThisSecond l1 + n)\<rparr>) rl, Inr True))"

section \<open>Administration\<close>

definition GetPeerLimit :: "'p \<Rightarrow> 'p RateLimiter \<Rightarrow> 'p PeerLimit option" where
  "GetPeerLimit p rl = mget (rm_limits rl) p"

definition ResetPeer :: "'p \<Rightarrow> 'p RateLimiter \<Rightarrow> 'p RateLimiter" where
  "ResetPeer p rl = (case mget (rm_limits rl) p of
       None \<Rightarrow> rl
     | Some l \<Rightarrow> put_limit p (l\<lparr>pl_Tokens := rm_burstSize rl, pl_ViolationCount := 0, pl_IsBanned := False\<rparr>) rl)"

definition BanPeer :: "gotime \<Rightarrow> 'p \<Rightarrow> duration \<Rightarrow> 'p RateLimiter \<Rightarrow> 'p RateLimiter" where
  "BanPeer now p d rl =
     (let l = (case mget (rm_limits rl) p of
            Some l \<Rightarrow> l
          | None \<Rightarrow> \<lparr>pl_PeerID = p, pl_Tokens = 0, pl_LastRefill = zero_time, pl_BytesThisSecond = 0,
              pl_LastByteReset = zero_time, pl_ViolationCount = 0, pl_LastViolation = zero_time, pl_IsBanned = False,
              pl_BanExpiry = zero_time\<rparr>)
      in put_limit p (l\<lparr>pl_IsBanned := True, pl_BanExpiry := now + d\<rparr>) rl)"

definition CleanupOldLimits :: "gotime \<Rightarrow> 'p RateLimiter \<Rightarrow> 'p RateLimiter" where
  "CleanupOldLimits now rl = rl\<lparr>rm_limits := mkeep (\<lambda>_ l. \<not> (\<not> pl_IsBanned l \<and>
     time_sub now (pl_LastRefill l) > 10 * minute)) (rm_limits rl)\<rparr>"

definition GetBannedPeers :: "gotime \<Rightarrow> 'p RateLimiter \<Rightarrow> 'p list" where
  "GetBannedPeers now rl = map fst (filter (\<lambda>(_, l). pl_IsBanned l \<and> now < pl_BanExpiry l) (rm_limits rl))"

section \<open>The bucket\<close>

inductive limiter_step :: "('p \<Rightarrow> string) \<Rightarrow> 'p RateLimiter \<Rightarrow> 'p RateLimiter \<Rightarrow> bool" for show_peer where
  lim_request: "AllowRequest show_peer rc p rl = (rl', r) \<Longrightarrow> limiter_step show_peer rl rl'"
| lim_bytes: "AllowBytes show_peer now p n rl = (rl', r) \<Longrightarrow> limiter_step show_peer rl rl'"
| lim_reset: "limiter_step show_peer rl (ResetPeer p rl)"
| lim_ban: "limiter_step show_peer rl (BanPeer now p d rl)"
| lim_cleanup: "limiter_step show_peer rl (CleanupOldLimits now rl)"

inductive_cases limiter_stepE: "limiter_step show_peer rl rl'"

definition bucket_ok :: "'p RateLimiter \<Rightarrow> bool" where
  "bucket_ok rl = (wf_map (rm_limits rl) \<and> (\<forall>p l. mget (rm_limits rl) p = Some l \<longrightarrow> 0 \<le> pl_Tokens l \<and> pl_Tokens l \<le> rm_burstSize rl))"

lemma put_limit_simps [simp]: "mget (rm_limits (put_limit p l rl)) q = (if q = p then Some l else mget (rm_limits rl) q)"
    "rm_burstSize (put_limit p l rl) = rm_burstSize rl" "rm_maxBytesPerSecond (put_limit p l rl) = rm_maxBytesPerSecond rl"
    "rm_maxRequestsPerMinute (put_limit p l rl) = rm_maxRequestsPerMinute rl"
  by (simp_all add: put_limit_def mget_mput)

lemma bucket_put: "bucket_ok rl \<Longrightarrow> 0 \<le> pl_Tokens l \<Longrightarrow> pl_Tokens l \<le> rm_burstSize rl \<Longrightarrow> bucket_ok (put_limit p l rl)"
  by (auto simp: bucket_ok_def put_limit_def wf_mput mget_mput)

lemma refill_tokens: "0 \<le> pl_Tokens l \<Longrightarrow> pl_Tokens l \<le> rm_burstSize rl \<Longrightarrow>
    pl_Tokens l \<le> pl_Tokens (refill now rl l) \<and> pl_Tokens (refill now rl l) \<le> rm_burstSize rl"
  by (simp add: refill_def Let_def)

lemma bucket_get: "bucket_ok rl \<Longrightarrow> mget (rm_limits rl) p = Some l \<Longrightarrow> 0 \<le> pl_Tokens l \<and> pl_Tokens l \<le> rm_burstSize rl"
  by (auto simp: bucket_ok_def)

lemma request_bucket:
  assumes inv: "bucket_ok rl" "0 \<le> rm_burstSize rl" and req: "AllowRequest show_peer rc p rl = (rl', r)"
  shows "bucket_ok rl' \<and> rm_burstSize rl' = rm_burstSize rl"
proof -
  obtain l0 rl0 where l0: "(case mget (rm_limits rl) p of Some l \<Rightarrow> (l, rl)
      | None \<Rightarrow> (let l = new_limit (rc_init rc) (rc_byte rc) p (rm_burstSize rl) in (l, put_limit p l rl))) = (l0, rl0)"
    by (meson prod.exhaust)
  have inv0: "bucket_ok rl0" "rm_burstSize rl0 = rm_burstSize rl" "0 \<le> pl_Tokens l0" "pl_Tokens l0 \<le> rm_burstSize rl0"
    using l0 inv bucket_get [OF inv(1), of p] bucket_put [OF inv(1), of "new_limit (rc_init rc) (rc_byte rc) p (rm_burstSize rl)" p]
    by (auto simp: new_limit_def Let_def split: option.splits)
  have ref: "0 \<le> pl_Tokens (refill t rl0 l)" "pl_Tokens (refill t rl0 l) \<le> rm_burstSize rl"
    "pl_Tokens (refill t rl0 l) - 1 \<le> rm_burstSize rl"
    if "pl_Tokens l = pl_Tokens l0" for t l
    using refill_tokens [of l rl0 t] inv0 that by auto
  show ?thesis
    using req inv0 unfolding AllowRequest_def l0
    by (auto simp: Let_def ref intro!: bucket_put split: if_splits)
qed

lemma bytes_bucket:
  assumes "bucket_ok rl" "AllowBytes show_peer now p n rl = (rl', r)"
  shows "bucket_ok rl' \<and> rm_burstSize rl' = rm_burstSize rl"
  using assms bucket_get [OF assms(1), of p]
  by (auto simp: AllowBytes_def Let_def intro!: bucket_put split: option.splits if_splits)

lemma cleanup_bucket: "bucket_ok rl \<Longrightarrow> bucket_ok (CleanupOldLimits now rl)"
  by (auto simp: CleanupOldLimits_def bucket_ok_def wf_mkeep mget_mkeep split: option.splits if_splits)

lemma reset_bucket: "bucket_ok rl \<Longrightarrow> 0 \<le> rm_burstSize rl \<Longrightarrow> bucket_ok (ResetPeer p rl)"
  by (cases "mget (rm_limits rl) p") (simp_all add: ResetPeer_def bucket_put)

lemma ban_bucket: "bucket_ok rl \<Longrightarrow> 0 \<le> rm_burstSize rl \<Longrightarrow> bucket_ok (BanPeer now p d rl)"
  by (cases "mget (rm_limits rl) p") (simp_all add: BanPeer_def bucket_put bucket_get)

lemma burst_constant [simp]: "rm_burstSize (CleanupOldLimits now rl) = rm_burstSize rl"
    "rm_burstSize (ResetPeer p rl) = rm_burstSize rl" "rm_burstSize (BanPeer now p d rl) = rm_burstSize rl"
  by (simp_all add: CleanupOldLimits_def ResetPeer_def BanPeer_def split: option.splits)

lemma limiter_step_bucket:
  assumes "limiter_step show_peer rl rl'" "bucket_ok rl" "0 \<le> rm_burstSize rl"
  shows "bucket_ok rl' \<and> rm_burstSize rl' = rm_burstSize rl"
  using assms(1)
  by (rule limiter_stepE)
    (simp_all add: request_bucket [OF assms(2,3)] bytes_bucket [OF assms(2)] cleanup_bucket [OF assms(2)]
      reset_bucket [OF assms(2,3)] ban_bucket [OF assms(2,3)])

text \<open>
  In every reachable limiter no peer has more tokens than the burst size or fewer than none.
\<close>

theorem token_bucket_bounds:
  assumes "0 \<le> burst" "(limiter_step show_peer)\<^sup>*\<^sup>* (NewRateLimiter rpm burst bps) rl" "GetPeerLimit p rl = Some l"
  shows "0 \<le> pl_Tokens l \<and> pl_Tokens l \<le> burst"
proof -
  have "bucket_ok rl \<and> rm_burstSize rl = burst"
    using assms(2)
  proof (induction rule: rtranclp_induct)
    case base
    then show ?case by (simp add: bucket_ok_def NewRateLimiter_def)
  next
    case (step y z)
    then show ?case using limiter_step_bucket assms(1) by metis
  qed
  then show ?thesis using assms(3) by (auto simp: bucket_ok_def GetPeerLimit_def)
qed

definition demo_limiter :: "nat RateLimiter" where
  "demo_limiter = BanPeer 5 1 (10 * minute) (NewRateLimiter 60 10 1000)"

lemma demo_limiter_limit: "\<exists>l. GetPeerLimit 1 demo_limiter = Some l \<and> pl_IsBanned l \<and> pl_BanExpiry l = 5 + 10 * minute \<and>
    pl_LastByteReset l = zero_time"
  by (simp add: demo_limiter_def BanPeer_def GetPeerLimit_def put_limit_def NewRateLimiter_def Let_def)

theorem token_bucket_bounds_witness: "\<exists>l. GetPeerLimit 1 demo_limiter = Some l \<and> 0 \<le> pl_Tokens l \<and> pl_Tokens l \<le> 10"
proof -
  obtain l where l: "GetPeerLimit 1 demo_limiter = Some l" using demo_limiter_limit by blast
  have "(limiter_step (\<lambda>_. [])) (NewRateLimiter 60 10 1000) demo_limiter" unfolding demo_limiter_def by (rule lim_ban)
  then have "(limiter_step (\<lambda>_. []))\<^sup>*\<^sup>* (NewRateLimiter 60 10 1000) demo_limiter" by blast
  from token_bucket_bounds [OF _ this l] l show ?thesis by simp
qed

lemma wrap64_small: "- (2 ^ 63) \<le> n \<Longrightarrow> n < 2 ^ 63 \<Longrightarrow> wrap64 n = n"
  by (simp add: wrap64_def)

text \<open>
  While a ban lasts, every request of the peer is refused and nothing changes; but the byte
  check does not look at the ban: in a new second the banned peer may send up to the full rate.
\<close>

theorem ban_enforcement:
  assumes l: "GetPeerLimit p rl = Some l" "pl_IsBanned l" and rate: "rm_maxBytesPerSecond rl < 2 ^ 63"
  shows "(rc_ban rc < pl_BanExpiry l \<longrightarrow>
      fst (AllowRequest show_peer rc p rl) = rl \<and> \<not> is_ok (snd (AllowRequest show_peer rc p rl))) \<and>
    (second < time_sub now (pl_LastByteReset l) \<and> 0 \<le> n \<and> n \<le> rm_maxBytesPerSecond rl \<longrightarrow>
      snd (AllowBytes show_peer now p n rl) = Inr True)"
  using assms
  by (auto simp: AllowRequest_def AllowBytes_def GetPeerLimit_def refuse_def wrap64_small Let_def is_ok_def split: sum.splits)

theorem ban_enforcement_witness:
  "snd (AllowBytes (\<lambda>_. ''peer-one'') 6 1 1000 demo_limiter) = Inr True"
proof -
  obtain l where l: "GetPeerLimit 1 demo_limiter = Some l" "pl_IsBanned l" "pl_LastByteReset l = zero_time"
    using demo_limiter_limit by blast
  have rate: "rm_maxBytesPerSecond demo_limiter = 1000"
    by (simp add: demo_limiter_def BanPeer_def NewRateLimiter_def Let_def)
  have "second < time_sub 6 zero_time"
    by (simp add: time_sub_def zero_time_def second_def max_duration_def min_duration_def)
  with ban_enforcement [OF l(1,2), of "\<lparr>rc_init = 0, rc_byte = 0, rc_ban = 0, rc_now = 0\<rparr>" "\<lambda>_. ''peer-one''" 6 1000] l rate show ?thesis by simp
qed

end
