(* ===== verification/Recovery.thy ===== *)
theory Recovery
  imports Core_Types
begin

text \<open>
  Error recovery (\<open>pkg/utils/errors.go\<close>): retries with back-off and the circuit breaker.

  An operation of the caller is a function of the attempt or call that gives its outcome,
  \<open>None\<close> for success. A handler is a function on errors; its answer \<open>None\<close> means handled.
  The delays that are slept are part of the result. Go shifts and multiplies \<open>int64\<close> durations;
  the delay of an attempt is computed with that wrap-around.
\<close>

section \<open>Retries\<close>

datatype ErrorSeverity = SeverityLow | SeverityMedium | SeverityHigh | SeverityCritical

fun SeverityString :: "ErrorSeverity \<Rightarrow> string" where
  "SeverityString SeverityLow = ''LOW''"
| "SeverityString SeverityMedium = ''MEDIUM''"
| "SeverityString SeverityHigh = ''HIGH''"
| "SeverityString SeverityCritical = ''CRITICAL''"

record RecoverableError =
  re_Err :: fail
  re_Severity :: ErrorSeverity
  re_Component :: string
  re_Timestamp :: gotime
  re_Retryable :: bool

definition NewRecoverableError :: "gotime \<Rightarrow> fail \<Rightarrow> ErrorSeverity \<Rightarrow> string \<Rightarrow> bool \<Rightarrow> RecoverableError" where
  "NewRecoverableError now err severity component retryable =
     \<lparr>re_Err = err, re_Severity = severity, re_Component = component, re_Timestamp = now, re_Retryable = retryable\<rparr>"

fun fail_text :: "fail \<Rightarrow> string" where
  "fail_text (Error s) = s"
| "fail_text (Panic s) = s"

definition RecoverableError_Error :: "RecoverableError \<Rightarrow> string" where
  "RecoverableError_Error e = ''['' @ re_Component e @ ''] '' @ SeverityString (re_Severity e) @ '': '' @ fail_text (re_Err e)"

record ErrorRecovery =
  er_maxRetries :: int
  er_retryDelay :: duration
  er_errorHandlers :: "(string, fail \<Rightarrow> fail option) gomap"

definition NewErrorRecovery :: "int \<Rightarrow> duration \<Rightarrow> ErrorRecovery" where
  "NewErrorRecovery maxRetries retryDelay = \<lparr>er_maxRetries = maxRetries, er_retryDelay = retryDelay, er_errorHandlers = []\<rparr>"

definition RegisterHandler :: "string \<Rightarrow> (fail \<Rightarrow> fail option) \<Rightarrow> ErrorRecovery \<Rightarrow> ErrorRecovery" where
  "RegisterHandler component handler er = er\<lparr>er_errorHandlers := mput component handler (er_errorHandlers er)\<rparr>"

definition wrap_int64 :: "int \<Rightarrow> int" where
  "wrap_int64 n = (n + 2 ^ 63) mod 2 ^ 64 - 2 ^ 63"

text \<open>\<open>retryDelay * time.Duration(1<<uint(attempt-1))\<close>, at most 30 seconds.\<close>

definition backoff :: "duration \<Rightarrow> nat \<Rightarrow> duration" where
  "backoff retryDelay attempt =
     (let delay = wrap_int64 (retryDelay * wrap_int64 (2 ^ (attempt - 1)))
      in if delay > 30 * second then 30 * second else delay)"

text \<open>
  The loop. The result is the error of the call, if any, with the number of the attempts made and
  the delays slept. \<open>lastErr\<close> is wrapped into the final error; it is nil only if the loop body never called.
\<close>

record retry_outcome =
  ro_error :: "fail option"
  ro_attempts :: nat
  ro_delays :: "duration list"

function retry_loop ::
  "ErrorRecovery \<Rightarrow> string \<Rightarrow> (nat \<Rightarrow> fail option) \<Rightarrow> nat \<Rightarrow> fail option \<Rightarrow> duration list \<Rightarrow> retry_outcome" where
  "retry_loop er component operation attempt lastErr delays =
     (if int attempt \<le> er_maxRetries er then
        (let delays' = (if attempt > 0 then delays @ [backoff (er_retryDelay er) attempt] else delays)
         in case operation attempt of
              None \<Rightarrow> \<lparr>ro_error = None, ro_attempts = Suc attempt, ro_delays = delays'\<rparr>
            | Some err \<Rightarrow>
                (case mget (er_errorHandlers er) component of
                   Some handler \<Rightarrow>
                     if handler err = None then \<lparr>ro_error = None, ro_attempts = Suc attempt, ro_delays = delays'\<rparr>
                     else retry_loop er component operation (Suc attempt) (Some err) delays'
                 | None \<Rightarrow> retry_loop er component operation (Suc attempt) (Some err) delays'))
      else \<lparr>ro_error = Some (Error ''operation failed after retries''), ro_attempts = attempt, ro_delays = delays\<rparr>)"
  by pat_completeness auto
termination
  by (relation "measure (\<lambda>(er, _, _, attempt, _, _). nat (er_maxRetries er + 1 - int attempt))") auto

declare retry_loop.simps [simp del]

definition RetryWithBackoff :: "ErrorRecovery \<Rightarrow> (nat \<Rightarrow> fail option) \<Rightarrow> string \<Rightarrow> retry_outcome" where
  "RetryWithBackoff er operation component = retry_loop er component operation 0 None []"

text \<open>An attempt that ends the call: it succeeds, or the handler of the component takes its error.\<close>

definition settles :: "ErrorRecovery \<Rightarrow> string \<Rightarrow> fail option \<Rightarrow> bool" where
  "settles er component outcome = (case outcome of
       None \<Rightarrow> True
     | Some err \<Rightarrow> (case mget (er_errorHandlers er) component of Some handler \<Rightarrow> handler err = None | None \<Rightarrow> False))"

lemma retry_loop_result:
  "retry_loop er component operation attempt lastErr (map (backoff (er_retryDelay er)) [1..<attempt]) =
     (if \<exists>k. attempt \<le> k \<and> int k \<le> er_maxRetries er \<and> settles er component (operation k)
      then let k = LEAST k. attempt \<le> k \<and> settles er component (operation k)
           in \<lparr>ro_error = None, ro_attempts = Suc k, ro_delays = map (backoff (er_retryDelay er)) [1..<Suc k]\<rparr>
      else let n = max attempt (nat (er_maxRetries er + 1))
           in \<lparr>ro_error = Some (Error ''operation failed after retries''), ro_attempts = n,
               ro_delays = map (backoff (er_retryDelay er)) [1..<n]\<rparr>)"
proof (induction "nat (er_maxRetries er + 1 - int attempt)" arbitrary: attempt lastErr rule: less_induct)
  case less
  let ?d = "\<lambda>n. map (backoff (er_retryDelay er)) [1..<n]"
  show ?case
  proof (cases "int attempt \<le> er_maxRetries er")
    case False
    then have none: "\<not> (\<exists>k. attempt \<le> k \<and> int k \<le> er_maxRetries er \<and> settles er component (operation k))" by auto
    have "max attempt (nat (er_maxRetries er + 1)) = attempt" using False by simp
    then show ?thesis unfolding if_not_P [OF none] using False by (simp add: retry_loop.simps [of er])
  next
    case True
    have d: "(if attempt > 0 then ?d attempt @ [backoff (er_retryDelay er) attempt] else ?d attempt) = ?d (Suc attempt)"
      by (cases attempt) auto
    show ?thesis
    proof (cases "settles er component (operation attempt)")
      case settled: True
      have "(LEAST k. attempt \<le> k \<and> settles er component (operation k)) = attempt"
        using settled by (intro Least_equality) auto
      moreover have "retry_loop er component operation attempt lastErr (?d attempt) =
          \<lparr>ro_error = None, ro_attempts = Suc attempt, ro_delays = ?d (Suc attempt)\<rparr>"
        using True settled
        by (subst retry_loop.simps) (simp add: d settles_def Let_def del: upt_Suc split: option.splits)
      ultimately show ?thesis using True settled by (auto simp del: upt_Suc)
    next
      case unsettled: False
      have "retry_loop er component operation attempt lastErr (?d attempt) =
          retry_loop er component operation (Suc attempt) (operation attempt) (?d (Suc attempt))"
        using True unsettled
        by (subst retry_loop.simps) (auto simp add: d settles_def Let_def simp del: upt_Suc split: option.splits)
      also note less.hyps [of "Suc attempt" "operation attempt"]
      finally have ih: "retry_loop er component operation attempt lastErr (?d attempt) = (if \<exists>k. Suc attempt \<le> k \<and> int k \<le> er_maxRetries er \<and> settles er component (operation k)
      then let k = LEAST k. Suc attempt \<le> k \<and> settles er component (operation k)
           in \<lparr>ro_error = None, ro_attempts = Suc k, ro_delays = ?d (Suc k)\<rparr>
      else let n = max (Suc attempt) (nat (er_maxRetries er + 1))
           in \<lparr>ro_error = Some (Error ''operation failed after retries''), ro_attempts = n, ro_delays = ?d n\<rparr>)"
        using True by (simp del: upt_Suc)
      have from_next: "attempt \<le> k \<and> P k \<and> settles er component (operation k) \<longleftrightarrow> Suc attempt \<le> k \<and> P k \<and> settles er component (operation k)" for k P
        using unsettled by (metis Suc_leD Suc_leI le_neq_implies_less)
      have least: "attempt \<le> k \<and> settles er component (operation k) \<longleftrightarrow> Suc attempt \<le> k \<and> settles er component (operation k)" for k
        using from_next [of k "\<lambda>_. True"] by simp
      have m: "max (Suc attempt) (nat (er_maxRetries er + 1)) = max attempt (nat (er_maxRetries er + 1))" using True by simp
      show ?thesis unfolding ih m from_next [of _ "\<lambda>k. int k \<le> er_maxRetries er"] least ..
    qed
  qed
qed

text \<open>
  C40: A retried operation is called until the first attempt that succeeds or whose error the
  handler takes, at most \<open>maxRetries + 1\<close> times (never for a negative number); the call succeeds
  exactly if there is such an attempt, and it sleeps once before every further attempt.
\<close>

theorem retry_first_success:
  "RetryWithBackoff er operation component =
     (if \<exists>k. int k \<le> er_maxRetries er \<and> settles er component (operation k)
      then let k = LEAST k. settles er component (operation k)
           in \<lparr>ro_error = None, ro_attempts = Suc k, ro_delays = map (backoff (er_retryDelay er)) [1..<Suc k]\<rparr>
      else \<lparr>ro_error = Some (Error ''operation failed after retries''), ro_attempts = nat (er_maxRetries er + 1),
             ro_delays = map (backoff (er_retryDelay er)) [1..<nat (er_maxRetries er + 1)]\<rparr>)"
  using retry_loop_result [of er component operation 0 None] by (simp add: RetryWithBackoff_def Let_def del: upt_Suc)

section \<open>The circuit breaker\<close>

datatype breaker_state = Closed | Open | HalfOpen

record CircuitBreaker =
  cb_name :: string
  cb_maxFailures :: int
  cb_resetTimeout :: duration
  cb_failures :: int
  cb_lastFailTime :: gotime
  cb_state :: breaker_state
  cb_halfOpenMax :: int
  cb_halfOpenTries :: int

definition NewCircuitBreaker :: "string \<Rightarrow> int \<Rightarrow> duration \<Rightarrow> CircuitBreaker" where
  "NewCircuitBreaker name maxFailures resetTimeout = \<lparr>cb_name = name, cb_maxFailures = maxFailures,
     cb_resetTimeout = resetTimeout, cb_failures = 0, cb_lastFailTime = zero_time, cb_state = Closed, cb_halfOpenMax = 3,
     cb_halfOpenTries = 0\<rparr>"

text \<open>The outcome of a call: \<open>None\<close> when the breaker did not let the operation run.\<close>

definition Breaker_Call ::
  "gotime \<Rightarrow> gotime \<Rightarrow> fail option \<Rightarrow> CircuitBreaker \<Rightarrow> CircuitBreaker \<times> fail option \<times> bool" where
  "Breaker_Call now fail_time outcome cb =
     (if cb_state cb = Open \<and> \<not> time_sub now (cb_lastFailTime cb) > cb_resetTimeout cb
      then (cb, Some (Error ''circuit breaker is OPEN''), False)
      else
        let cb1 = (if cb_state cb = Open then cb\<lparr>cb_state := HalfOpen, cb_halfOpenTries := 0\<rparr> else cb)
        in case outcome of
             Some err \<Rightarrow>
               (let cb2 = cb1\<lparr>cb_failures := cb_failures cb1 + 1, cb_lastFailTime := fail_time\<rparr>
                in if cb_state cb2 = HalfOpen then (cb2\<lparr>cb_state := Open\<rparr>, Some (Error ''circuit breaker reopened''), True)
                   else if cb_failures cb2 \<ge> cb_maxFailures cb2 then (cb2\<lparr>cb_state := Open\<rparr>, Some err, True)
                   else (cb2, Some err, True))
           | None \<Rightarrow>
               (if cb_state cb1 = HalfOpen then
                  (let cb2 = cb1\<lparr>cb_halfOpenTries := cb_halfOpenTries cb1 + 1\<rparr>
                   in if cb_halfOpenTries cb2 \<ge> cb_halfOpenMax cb2 then (cb2\<lparr>cb_state := Closed, cb_failures := 0\<rparr>, None, True)
                      else (cb2, None, True))
                else if cb_state cb1 = Closed then (cb1\<lparr>cb_failures := 0\<rparr>, None, True)
                else (cb1, None, True)))"

definition Breaker_GetState :: "CircuitBreaker \<Rightarrow> breaker_state" where
  "Breaker_GetState cb = cb_state cb"

definition Breaker_Reset :: "CircuitBreaker \<Rightarrow> CircuitBreaker" where
  "Breaker_Reset cb = cb\<lparr>cb_state := Closed, cb_failures := 0, cb_halfOpenTries := 0\<rparr>"

inductive breaker_step :: "CircuitBreaker \<Rightarrow> CircuitBreaker \<Rightarrow> bool" where
  br_call: "Breaker_Call now fail_time outcome cb = (cb', e, called) \<Longrightarrow> breaker_step cb cb'"
| br_reset: "breaker_step cb (Breaker_Reset cb)"

definition breaker_inv :: "int \<Rightarrow> CircuitBreaker \<Rightarrow> bool" where
  "breaker_inv m cb = (cb_maxFailures cb = m \<and> cb_halfOpenMax cb = 3 \<and> 0 \<le> cb_failures cb \<and>
     (case cb_state cb of
        Closed \<Rightarrow> cb_failures cb < max 1 m
      | Open \<Rightarrow> m \<le> cb_failures cb \<and> 0 < cb_failures cb
      | HalfOpen \<Rightarrow> m \<le> cb_failures cb \<and> 0 < cb_failures cb \<and> 0 \<le> cb_halfOpenTries cb \<and> cb_halfOpenTries cb < 3))"

lemma breaker_call_inv: "breaker_inv m cb \<Longrightarrow> Breaker_Call now ft outcome cb = (cb', e, called) \<Longrightarrow> breaker_inv m cb'"
  by (cases "cb_state cb"; cases outcome) (auto simp: Breaker_Call_def breaker_inv_def Let_def split: if_splits)

lemma breaker_reset_inv: "breaker_inv m cb \<Longrightarrow> breaker_inv m (Breaker_Reset cb)"
  by (auto simp: Breaker_Reset_def breaker_inv_def)

lemma breaker_run_inv:
  assumes "breaker_step\<^sup>*\<^sup>* (NewCircuitBreaker name m timeout) cb"
  shows "breaker_inv m cb"
  using assms
proof (induction rule: rtranclp_induct)
  case base
  then show ?case by (simp add: NewCircuitBreaker_def breaker_inv_def)
next
  case (step y z)
  from step.hyps(2) step.IH show ?case
    by (cases rule: breaker_step.cases) (blast intro: breaker_call_inv, simp add: breaker_reset_inv)
qed

text \<open>
  In every reachable breaker: it is closed only with fewer failures than its limit; an open
  one refuses every call until its timeout has passed since the last failure and is unchanged by
  them; and a half-open one is opened by one failure and closed after three successes.
\<close>

theorem breaker_states:
  assumes "breaker_step\<^sup>*\<^sup>* (NewCircuitBreaker name m timeout) cb" "1 \<le> m"
    and "Breaker_Call now ft outcome cb = (cb', e, called)"
  shows "(cb_state cb = Closed \<longrightarrow> cb_failures cb < m \<and> called \<and> e = outcome \<and>
      (cb_state cb' = Open \<longleftrightarrow> outcome \<noteq> None \<and> cb_failures cb = m - 1)) \<and>
    (cb_state cb = Open \<longrightarrow> (called \<longleftrightarrow> cb_resetTimeout cb < time_sub now (cb_lastFailTime cb)) \<and> (\<not> called \<longrightarrow> cb' = cb \<and> e \<noteq> None)) \<and>
    (called \<and> cb_state cb \<noteq> Closed \<longrightarrow> (outcome \<noteq> None \<longleftrightarrow> cb_state cb' = Open) \<and>
      (cb_state cb' = Closed \<longleftrightarrow> outcome = None \<and> cb_state cb = HalfOpen \<and> cb_halfOpenTries cb = 2))"
  using breaker_run_inv [OF assms(1)] assms(2,3)
  by (cases "cb_state cb"; cases outcome) (auto simp: Breaker_Call_def breaker_inv_def Let_def split: if_splits)

theorem breaker_states_witness:
  "cb_state (fst (Breaker_Call 0 0 (Some (Error [])) (NewCircuitBreaker [] 1 5))) = Open"
proof -
  have "Breaker_Call 0 0 (Some (Error [])) (NewCircuitBreaker [] 1 5) =
      (fst (Breaker_Call 0 0 (Some (Error [])) (NewCircuitBreaker [] 1 5)), fst (snd (Breaker_Call 0 0 (Some (Error [])) (NewCircuitBreaker [] 1 5))),
       snd (snd (Breaker_Call 0 0 (Some (Error [])) (NewCircuitBreaker [] 1 5))))" by simp
  from breaker_states [OF rtranclp.rtrancl_refl _ this] show ?thesis by (simp add: NewCircuitBreaker_def)
qed

end
