(* ===== verification/Byzantine.thy ===== *)
theory Byzantine
  imports Core_Types
begin

text \<open>
  Detection of Byzantine validators (\<open>pkg/consensus/byzantine_detection.go\<close>): evidence, trust
  scores and bans. Each reading of the clock is an argument; a detection reads it for the evidence,
  for the last misbehaviour and for the ban. \<open>ValidatorBehavior\<close> is updated in place.
\<close>

section \<open>State\<close>

record ByzantineEvidence =
  be_ValidatorID :: string
  be_EvidenceType :: string
  be_Timestamp :: gotime
  be_Proof :: bytes
  be_Severity :: int
  be_Description :: string
  be_Verified :: bool

record ValidatorBehavior =
  vb_ValidatorID :: string
  vb_TotalBlocks :: int
  vb_InvalidBlocks :: int
  vb_DoubleVotes :: int
  vb_VRFFailures :: int
  vb_CensorshipAttempts :: int
  vb_SpeedTestCheats :: int
  vb_LastMisbehavior :: gotime
  vb_MisbehaviorCount :: int
  vb_TrustScore :: int
  vb_IsUnderInvestigation :: bool
  vb_IsBanned :: bool
  vb_BanUntil :: gotime

record ByzantineDetector =
  bd_validators :: "(string, ValidatorBehavior) gomap"
  bd_evidenceLog :: "ByzantineEvidence list"
  bd_doubleVoteThreshold :: int
  bd_vrfFailureThreshold :: int
  bd_censorshipThreshold :: int
  bd_speedTestCheatThreshold :: int
  bd_initialTrustScore :: int
  bd_minimumTrustScore :: int
  bd_banDuration :: duration

definition NewByzantineDetector :: ByzantineDetector where
  "NewByzantineDetector = \<lparr>bd_validators = [], bd_evidenceLog = [], bd_doubleVoteThreshold = 3,
     bd_vrfFailureThreshold = 5, bd_censorshipThreshold = 10, bd_speedTestCheatThreshold = 2,
     bd_initialTrustScore = 100, bd_minimumTrustScore = 30, bd_banDuration = 7 * 24 * hour\<rparr>"

record detect_clock =
  dt_evidence :: gotime
  dt_last :: gotime
  dt_ban :: gotime

section \<open>Detections\<close>

definition new_behavior :: "int \<Rightarrow> string \<Rightarrow> ValidatorBehavior" where
  "new_behavior trust i = \<lparr>vb_ValidatorID = i, vb_TotalBlocks = 0, vb_InvalidBlocks = 0, vb_DoubleVotes = 0,
     vb_VRFFailures = 0, vb_CensorshipAttempts = 0, vb_SpeedTestCheats = 0, vb_LastMisbehavior = zero_time,
     vb_MisbehaviorCount = 0, vb_TrustScore = trust, vb_IsUnderInvestigation = False, vb_IsBanned = False,
     vb_BanUntil = zero_time\<rparr>"

definition getOrCreateValidator :: "string \<Rightarrow> ByzantineDetector \<Rightarrow> ValidatorBehavior" where
  "getOrCreateValidator i bd = (case mget (bd_validators bd) i of
       None \<Rightarrow> new_behavior (bd_initialTrustScore bd) i | Some v \<Rightarrow> v)"

definition createDoubleVoteProof :: "u64 \<Rightarrow> bytes \<Rightarrow> bytes \<Rightarrow> bytes" where
  "createDoubleVoteProof height vote1 vote2 =
     sha256 (bytes_of (''double_vote_'' @ dec_u64 height @ ''_'' @ hex vote1 @ ''_'' @ hex vote2))"

definition createConflictingBlockProof :: "u64 \<Rightarrow> bytes \<Rightarrow> bytes \<Rightarrow> bytes" where
  "createConflictingBlockProof height block1 block2 =
     sha256 (bytes_of (''conflicting_'' @ dec_u64 height @ ''_'' @ hex block1 @ ''_'' @ hex block2))"

text \<open>
  The shape the detections share: log the evidence, charge the validator (\<open>charge\<close> counts the
  offence, the trust falls by \<open>penalty\<close>), and ban it until \<open>until\<close> if \<open>banned\<close> says so.
\<close>

definition convict ::
  "string \<Rightarrow> ByzantineEvidence \<Rightarrow> (ValidatorBehavior \<Rightarrow> ValidatorBehavior) \<Rightarrow> int \<Rightarrow> gotime \<Rightarrow> gotime
    \<Rightarrow> (ValidatorBehavior \<Rightarrow> bool) \<Rightarrow> string \<Rightarrow> string \<Rightarrow> ByzantineDetector \<Rightarrow> ByzantineDetector \<times> fail" where
  "convict i evidence charge penalty lastm until banned ban_msg msg bd =
     (let v1 = charge (getOrCreateValidator i bd);
          v2 = v1\<lparr>vb_MisbehaviorCount := vb_MisbehaviorCount v1 + 1, vb_LastMisbehavior := lastm,
                 vb_TrustScore := vb_TrustScore v1 - penalty\<rparr>;
          v3 = (if banned v2 then v2\<lparr>vb_IsBanned := True, vb_BanUntil := until\<rparr> else v2)
      in (bd\<lparr>bd_validators := mput i v3 (bd_validators bd), bd_evidenceLog := bd_evidenceLog bd @ [evidence]\<rparr>,
          Error (if banned v2 then ban_msg else msg)))"

definition DetectDoubleVote ::
  "detect_clock \<Rightarrow> string \<Rightarrow> u64 \<Rightarrow> bytes \<Rightarrow> bytes \<Rightarrow> ByzantineDetector \<Rightarrow> ByzantineDetector \<times> fail" where
  "DetectDoubleVote dt i blockHeight vote1Hash vote2Hash bd =
     convict i \<lparr>be_ValidatorID = i, be_EvidenceType = ''double_vote'', be_Timestamp = dt_evidence dt,
         be_Proof = createDoubleVoteProof blockHeight vote1Hash vote2Hash, be_Severity = 10,
         be_Description = ''Double vote at height '' @ dec_u64 blockHeight, be_Verified = True\<rparr>
       (\<lambda>v. v\<lparr>vb_DoubleVotes := vb_DoubleVotes v + 1\<rparr>) 30 (dt_last dt) (dt_ban dt + bd_banDuration bd)
       (\<lambda>v. vb_DoubleVotes v \<ge> bd_doubleVoteThreshold bd \<or> vb_TrustScore v < bd_minimumTrustScore bd)
       ''BANNED for double voting'' ''double vote detected'' bd"

definition DetectInvalidVRF ::
  "detect_clock \<Rightarrow> string \<Rightarrow> bytes \<Rightarrow> bytes \<Rightarrow> bytes \<Rightarrow> ByzantineDetector \<Rightarrow> ByzantineDetector \<times> fail" where
  "DetectInvalidVRF dt i vrfInput claimedOutput proof bd =
     convict i \<lparr>be_ValidatorID = i, be_EvidenceType = ''invalid_vrf'', be_Timestamp = dt_evidence dt,
         be_Proof = proof, be_Severity = 9, be_Description = ''VRF verification failed - possible manipulation'',
         be_Verified = True\<rparr>
       (\<lambda>v. v\<lparr>vb_VRFFailures := vb_VRFFailures v + 1\<rparr>) 20 (dt_last dt) (dt_ban dt + bd_banDuration bd)
       (\<lambda>v. vb_VRFFailures v \<ge> bd_vrfFailureThreshold bd \<or> vb_TrustScore v < bd_minimumTrustScore bd)
       ''BANNED for VRF manipulation'' ''invalid VRF detected'' bd"

definition DetectConflictingBlocks ::
  "detect_clock \<Rightarrow> string \<Rightarrow> u64 \<Rightarrow> bytes \<Rightarrow> bytes \<Rightarrow> ByzantineDetector \<Rightarrow> ByzantineDetector \<times> fail" where
  "DetectConflictingBlocks dt i height block1Hash block2Hash bd =
     convict i \<lparr>be_ValidatorID = i, be_EvidenceType = ''conflicting_block'', be_Timestamp = dt_evidence dt,
         be_Proof = createConflictingBlockProof height block1Hash block2Hash, be_Severity = 10,
         be_Description = ''Conflicting blocks at height '' @ dec_u64 height, be_Verified = True\<rparr>
       (\<lambda>v. v\<lparr>vb_InvalidBlocks := vb_InvalidBlocks v + 1\<rparr>) 35 (dt_last dt) (dt_ban dt + bd_banDuration bd * 2)
       (\<lambda>_. True) ''BANNED for conflicting blocks'' ''BANNED for conflicting blocks'' bd"

definition DetectSpeedTestCheat ::
  "detect_clock \<Rightarrow> string \<Rightarrow> string \<Rightarrow> bytes \<Rightarrow> ByzantineDetector \<Rightarrow> ByzantineDetector \<times> fail" where
  "DetectSpeedTestCheat dt i cheatType evidence bd =
     convict i \<lparr>be_ValidatorID = i, be_EvidenceType = ''speedtest_cheat'', be_Timestamp = dt_evidence dt,
         be_Proof = evidence, be_Severity = 8, be_Description = ''Speed test cheat: '' @ cheatType, be_Verified = True\<rparr>
       (\<lambda>v. v\<lparr>vb_SpeedTestCheats := vb_SpeedTestCheats v + 1\<rparr>) 25 (dt_last dt) (dt_ban dt + bd_banDuration bd)
       (\<lambda>v. vb_SpeedTestCheats v \<ge> bd_speedTestCheatThreshold bd \<or> vb_TrustScore v < bd_minimumTrustScore bd)
       ''BANNED for speed test cheating'' ''speed test cheat detected'' bd"

section \<open>Trust\<close>

definition IsValidatorTrusted :: "gotime \<Rightarrow> string \<Rightarrow> ByzantineDetector \<Rightarrow> ByzantineDetector \<times> bool" where
  "IsValidatorTrusted now i bd =
     (case mget (bd_validators bd) i of
        None \<Rightarrow> (bd, True)
      | Some v \<Rightarrow>
          if vb_IsBanned v \<and> now < vb_BanUntil v then (bd, False)
          else (let v1 = (if vb_IsBanned v then v\<lparr>vb_IsBanned := False, vb_TrustScore := bd_minimumTrustScore bd + 10\<rparr> else v)
                in (bd\<lparr>bd_validators := mput i v1 (bd_validators bd)\<rparr>, vb_TrustScore v1 \<ge> bd_minimumTrustScore bd)))"

definition GetValidatorTrustScore :: "string \<Rightarrow> ByzantineDetector \<Rightarrow> int" where
  "GetValidatorTrustScore i bd = (case mget (bd_validators bd) i of None \<Rightarrow> bd_initialTrustScore bd | Some v \<Rightarrow> vb_TrustScore v)"

definition RecordGoodBehavior :: "string \<Rightarrow> ByzantineDetector \<Rightarrow> ByzantineDetector" where
  "RecordGoodBehavior i bd =
     (let v = getOrCreateValidator i bd;
          v1 = v\<lparr>vb_TotalBlocks := vb_TotalBlocks v + 1\<rparr>;
          v2 = (if vb_TrustScore v1 < bd_initialTrustScore bd then v1\<lparr>vb_TrustScore := vb_TrustScore v1 + 1\<rparr> else v1)
      in bd\<lparr>bd_validators := mput i v2 (bd_validators bd)\<rparr>)"

definition GetByzantineEvidence :: "string \<Rightarrow> ByzantineDetector \<Rightarrow> ByzantineEvidence list" where
  "GetByzantineEvidence i bd = filter (\<lambda>ev. be_ValidatorID ev = i) (bd_evidenceLog bd)"

section \<open>Bans and trust in reachable states\<close>

inductive byz_step :: "ByzantineDetector \<Rightarrow> ByzantineDetector \<Rightarrow> bool" where
  byz_double: "byz_step bd (fst (DetectDoubleVote dt i h a b bd))"
| byz_vrf: "byz_step bd (fst (DetectInvalidVRF dt i x y z bd))"
| byz_blocks: "byz_step bd (fst (DetectConflictingBlocks dt i h a b bd))"
| byz_cheat: "byz_step bd (fst (DetectSpeedTestCheat dt i c e bd))"
| byz_trusted: "byz_step bd (fst (IsValidatorTrusted now i bd))"
| byz_good: "byz_step bd (RecordGoodBehavior i bd)"

definition behavior_ok :: "ValidatorBehavior \<Rightarrow> bool" where
  "behavior_ok v = (vb_TrustScore v \<le> 100 \<and> (vb_IsBanned v \<or> 30 \<le> vb_TrustScore v))"

definition byz_inv :: "ByzantineDetector \<Rightarrow> bool" where
  "byz_inv bd = ((\<forall>i v. mget (bd_validators bd) i = Some v \<longrightarrow> behavior_ok v) \<and> bd_doubleVoteThreshold bd = 3 \<and>
     bd_initialTrustScore bd = 100 \<and> bd_minimumTrustScore bd = 30 \<and> bd_banDuration bd = 7 * 24 * hour)"

lemma byz_created: "byz_inv bd \<Longrightarrow> behavior_ok (getOrCreateValidator i bd)"
  by (auto simp: byz_inv_def getOrCreateValidator_def new_behavior_def behavior_ok_def split: option.splits)

lemma byz_put: "byz_inv bd \<Longrightarrow> behavior_ok v \<Longrightarrow> byz_inv (bd\<lparr>bd_validators := mput i v (bd_validators bd), bd_evidenceLog := evs\<rparr>)"
    "byz_inv bd \<Longrightarrow> behavior_ok v \<Longrightarrow> byz_inv (bd\<lparr>bd_validators := mput i v (bd_validators bd)\<rparr>)"
  by (auto simp: byz_inv_def mget_mput)

lemma convict_inv:
  assumes inv: "byz_inv bd" and charge: "\<And>v. vb_TrustScore (charge v) = vb_TrustScore v \<and> vb_IsBanned (charge v) = vb_IsBanned v"
    and "0 \<le> penalty" and ban: "\<And>v. \<not> banned v \<Longrightarrow> 30 \<le> vb_TrustScore v"
  shows "byz_inv (fst (convict i ev charge penalty lastm until banned m1 m2 bd))"
proof -
  note v = byz_created [OF inv, of i]
  let ?v2 = "(charge (getOrCreateValidator i bd))\<lparr>vb_MisbehaviorCount := vb_MisbehaviorCount (charge (getOrCreateValidator i bd)) + 1,
      vb_LastMisbehavior := lastm, vb_TrustScore := vb_TrustScore (charge (getOrCreateValidator i bd)) - penalty\<rparr>"
  have "behavior_ok (if banned ?v2 then ?v2\<lparr>vb_IsBanned := True, vb_BanUntil := until\<rparr> else ?v2)"
    using v charge [of "getOrCreateValidator i bd"] ban [of ?v2] assms(3) by (auto simp: behavior_ok_def)
  then show ?thesis unfolding convict_def Let_def fst_conv by (rule byz_put(1) [OF inv])
qed

lemma byz_minimum: "byz_inv bd \<Longrightarrow> bd_minimumTrustScore bd = 30 \<and> bd_initialTrustScore bd = 100"
  by (simp add: byz_inv_def)

lemma detections_inv:
  assumes "byz_inv bd"
  shows "byz_inv (fst (DetectDoubleVote dt i h a b bd))" "byz_inv (fst (DetectInvalidVRF dt i x y z bd))"
    "byz_inv (fst (DetectConflictingBlocks dt i h a b bd))" "byz_inv (fst (DetectSpeedTestCheat dt i c e bd))"
  unfolding DetectDoubleVote_def DetectInvalidVRF_def DetectConflictingBlocks_def DetectSpeedTestCheat_def
  by (rule convict_inv [OF assms]; simp add: byz_minimum [OF assms])+

lemma trusted_inv: "byz_inv bd \<Longrightarrow> byz_inv (fst (IsValidatorTrusted now i bd))"
proof (cases "mget (bd_validators bd) i")
  case (Some v)
  assume inv: "byz_inv bd"
  then have "behavior_ok v" using Some by (auto simp: byz_inv_def)
  then show ?thesis
    using inv Some byz_minimum [OF inv] by (auto simp: IsValidatorTrusted_def Let_def behavior_ok_def intro!: byz_put(2))
qed (simp add: IsValidatorTrusted_def)

lemma good_inv: "byz_inv bd \<Longrightarrow> byz_inv (RecordGoodBehavior i bd)"
  using byz_created [of bd i] byz_minimum [of bd]
  by (auto simp: RecordGoodBehavior_def Let_def behavior_ok_def intro!: byz_put(2))

lemma byz_step_inv: "byz_step bd bd' \<Longrightarrow> byz_inv bd \<Longrightarrow> byz_inv bd'"
  by (induction rule: byz_step.induct) (simp_all add: detections_inv trusted_inv good_inv)

lemma byz_run_inv: "byz_step\<^sup>*\<^sup>* NewByzantineDetector bd \<Longrightarrow> byz_inv bd"
proof (induction rule: rtranclp_induct)
  case base
  then show ?case by (simp add: byz_inv_def NewByzantineDetector_def)
next
  case (step y z)
  then show ?case using byz_step_inv by blast
qed

text \<open>
  In every reachable detector the trust of a validator that is not banned is between the
  minimum and the initial score, so a validator is distrusted exactly while a ban of it lasts; and
  every double vote lowers the trust by 30 and bans from the third one on or below the minimum.
\<close>

theorem trust_and_bans:
  assumes run: "byz_step\<^sup>*\<^sup>* NewByzantineDetector bd"
  shows "(snd (IsValidatorTrusted now i bd) \<longleftrightarrow>
      \<not> (\<exists>v. mget (bd_validators bd) i = Some v \<and> vb_IsBanned v \<and> now < vb_BanUntil v)) \<and>
    (\<exists>v'. mget (bd_validators (fst (DetectDoubleVote dt i h a b bd))) i = Some v' \<and>
      vb_TrustScore v' = GetValidatorTrustScore i bd - 30 \<and>
      (vb_DoubleVotes v' \<ge> 3 \<or> vb_TrustScore v' < 30 \<longrightarrow> vb_IsBanned v' \<and> vb_BanUntil v' = dt_ban dt + 7 * 24 * hour))"
proof (intro conjI)
  note inv = byz_run_inv [OF run]
  show "snd (IsValidatorTrusted now i bd) \<longleftrightarrow>
      \<not> (\<exists>v. mget (bd_validators bd) i = Some v \<and> vb_IsBanned v \<and> now < vb_BanUntil v)"
  proof (cases "mget (bd_validators bd) i")
    case (Some v)
    then have "behavior_ok v" using inv by (auto simp: byz_inv_def)
    then show ?thesis using Some byz_minimum [OF inv] by (auto simp: IsValidatorTrusted_def Let_def behavior_ok_def)
  qed (simp add: IsValidatorTrusted_def)
  have "bd_doubleVoteThreshold bd = 3" "bd_banDuration bd = 7 * 24 * hour" "bd_minimumTrustScore bd = 30"
    using inv by (simp_all add: byz_inv_def)
  then show "\<exists>v'. mget (bd_validators (fst (DetectDoubleVote dt i h a b bd))) i = Some v' \<and>
      vb_TrustScore v' = GetValidatorTrustScore i bd - 30 \<and>
      (vb_DoubleVotes v' \<ge> 3 \<or> vb_TrustScore v' < 30 \<longrightarrow> vb_IsBanned v' \<and> vb_BanUntil v' = dt_ban dt + 7 * 24 * hour)"
    by (auto simp: DetectDoubleVote_def convict_def mget_mput GetValidatorTrustScore_def getOrCreateValidator_def
        new_behavior_def Let_def split: option.splits)
qed

theorem trust_and_bans_witness: "snd (IsValidatorTrusted 0 ''v'' NewByzantineDetector)"
  using trust_and_bans [OF rtranclp.rtrancl_refl, where now = 0 and i = "''v''"]
  by (simp add: NewByzantineDetector_def)

end
