(* ===== verification/PoB_Score.thy ===== *)
theory PoB_Score
  imports Core_Types Exchange_Sort
begin

text \<open>
  The arithmetic of proof of bandwidth: test results, thresholds, scores and the median
  (\<open>pkg/consensus/pob_testing.go\<close>, \<open>pkg/consensus/pob_speedtest.go\<close>), in binary64.
\<close>

section \<open>Results and scores\<close>

record PoBTestResult =
  pt_CandidateID :: string
  pt_TesterID :: string
  pt_UploadBandwidth :: f64
  pt_Latency :: f64
  pt_PacketLoss :: f64
  pt_TestDataHash :: string
  pt_MerkleRoot :: string
  pt_TransmissionTime :: u64
  pt_Timestamp :: gotime
  pt_Passed :: bool
  pt_ZKProof :: bytes

definition evaluatePoBResult :: "PoBTestResult \<Rightarrow> bool" where
  "evaluatePoBResult result =
     (if f_lt (pt_UploadBandwidth result) MinUploadBandwidth then False
      else if f_lt TargetLatency (pt_Latency result) then False
      else if f_lt TargetPacketLoss (pt_PacketLoss result) then False
      else True)"

fun sum_passed :: "PoBTestResult list \<Rightarrow> f64 \<times> f64 \<times> f64 \<times> int \<Rightarrow> f64 \<times> f64 \<times> f64 \<times> int" where
  "sum_passed [] acc = acc"
| "sum_passed (result # results) (u, l, p, n) =
     (if pt_Passed result then
        sum_passed results (f_add u (pt_UploadBandwidth result), f_add l (pt_Latency result),
          f_add p (pt_PacketLoss result), n + 1)
      else sum_passed results (u, l, p, n))"

text \<open>The scores of three metrics and their average, with the thresholds \<open>mu\<close>, \<open>tlat\<close>, \<open>tloss\<close>.\<close>

definition cap_at_one :: "f64 \<Rightarrow> f64" where
  "cap_at_one x = (if f_lt (Fin 1) x then Fin 1 else x)"

definition clamp_unit :: "f64 \<Rightarrow> f64" where
  "clamp_unit x = (let y = (if f_lt x (Fin 0) then Fin 0 else x) in if f_lt (Fin 1) y then Fin 1 else y)"

definition three_scores :: "f64 \<Rightarrow> f64 \<Rightarrow> f64 \<Rightarrow> f64 \<Rightarrow> f64 \<Rightarrow> f64 \<Rightarrow> f64" where
  "three_scores mu tlat tloss upload latency packetLoss =
     (let uploadScore = cap_at_one (f_div upload mu);
          latencyScore = cap_at_one (f_div tlat latency);
          packetLossScore = clamp_unit (f_sub (Fin 1) (f_div packetLoss tloss))
      in f_div (f_add (f_add uploadScore latencyScore) packetLossScore) (Fin 3))"

definition CalculatePoBScore :: "PoBTestResult list \<Rightarrow> f64" where
  "CalculatePoBScore results =
     (if results = [] then Fin 0
      else case sum_passed results (Fin 0, Fin 0, Fin 0, 0) of
             (u, l, p, n) \<Rightarrow>
               if n = 0 then Fin 0
               else three_scores MinUploadBandwidth TargetLatency TargetPacketLoss
                 (f_div u (f_of_int n)) (f_div l (f_of_int n)) (f_div p (f_of_int n)))"

definition calculatePoBScore_median :: "f64 \<Rightarrow> f64 \<Rightarrow> f64 \<Rightarrow> f64" where
  "calculatePoBScore_median upload latency packetLoss =
     three_scores (f_lit 7) (f_lit 100) (f_lit (1 / 10)) upload latency packetLoss"

section \<open>The median\<close>

definition greater :: "f64 \<Rightarrow> f64 \<Rightarrow> bool" where
  "greater a b = f_lt b a"

definition calculateMedian :: "f64 list \<Rightarrow> f64" where
  "calculateMedian samples =
     (case samples of
        [] \<Rightarrow> Fin 0
      | [v] \<Rightarrow> v
      | _ \<Rightarrow>
          let n = length samples; sorted = exchange_sort greater samples
          in if even n then f_div (f_add (sorted ! (n div 2 - 1)) (sorted ! (n div 2))) (Fin 2)
             else sorted ! (n div 2))"

interpretation f64_asc: sort_order greater "\<lambda>x. x \<noteq> NaN"
proof
  fix x y z :: f64
  assume "x \<noteq> NaN" "y \<noteq> NaN" "greater x y"
  then show "\<not> greater y x" by (cases x; cases y) (auto simp: greater_def)
next
  fix x y z :: f64
  assume "x \<noteq> NaN" "y \<noteq> NaN" "z \<noteq> NaN" "\<not> greater x y" "\<not> greater y z"
  then show "\<not> greater x z" by (cases x; cases y; cases z) (auto simp: greater_def)
qed

lemma sorted_values:
  assumes "NaN \<notin> set xs" "i \<le> j" "j < length xs"
  shows "f_le (exchange_sort greater xs ! i) (exchange_sort greater xs ! j)"
proof -
  let ?s = "exchange_sort greater xs"
  have ok: "list_all (\<lambda>x. x \<noteq> NaN) xs" using assms(1) by (auto simp: list_all_iff)
  have nn: "?s ! k \<noteq> NaN" if "k < length xs" for k
    using that assms(1) nth_mem [of k ?s] by (metis length_exchange_sort set_exchange_sort)
  show ?thesis
  proof (cases "i = j")
    case True
    then show ?thesis using nn [of j] assms(3) by (cases "?s ! j") (auto simp: f_le_def)
  next
    case False
    then have "\<not> greater (?s ! i) (?s ! j)"
      using f64_asc.sorted_exchange_sort [OF ok] assms(2,3) by (simp add: sorted_wrt_iff_nth_less)
    then show ?thesis using nn [of i] nn [of j] assms(2,3) by (simp add: greater_def f_lt_le)
  qed
qed

text \<open>
  With an odd number of samples of which more than half lie between two bounds, the median
  lies between them, whatever the others are (short of NaN): a dishonest minority of the testers
  cannot move it out of the range of the honest ones.
\<close>

lemma many_inside:
  assumes nn: "NaN \<notin> set xs" and k: "k < length xs" and "f_le lo hi"
    and out: "\<not> inside lo hi (exchange_sort greater xs ! k)"
  shows "length (filter (inside lo hi) xs) \<le> max k (length xs - 1 - k)"
proof -
  let ?s = "exchange_sort greater xs"
  have len: "length (filter (inside lo hi) xs) = length (filter (inside lo hi) ?s)"
    by (metis mset_exchange_sort mset_filter size_mset)
  have bnn: "lo \<noteq> NaN" "hi \<noteq> NaN" using f_le_not_NaN [OF assms(3)] by auto
  have snn: "?s ! k \<noteq> NaN" using k nn nth_mem [of k ?s] by (metis length_exchange_sort set_exchange_sort)
  have card: "length (filter (inside lo hi) ?s) = card {i. i < length xs \<and> inside lo hi (?s ! i)}"
    by (simp add: length_filter_conv_card)
  consider "f_lt (?s ! k) lo" | "f_lt hi (?s ! k)" using out bnn snn by (auto simp: inside_def f_lt_le)
  then have "{i. i < length xs \<and> inside lo hi (?s ! i)} \<subseteq> {k <..< length xs} \<or> {i. i < length xs \<and> inside lo hi (?s ! i)} \<subseteq> {0 ..< k}"
  proof cases
    case 1
    have "k < i" if "i < length xs" "inside lo hi (?s ! i)" for i
    proof (rule ccontr)
      assume "\<not> k < i"
      then have "f_le (?s ! i) (?s ! k)" using sorted_values [OF nn] k by simp
      then have "f_le lo (?s ! k)" using that(2) f_le_trans by (auto simp: inside_def)
      then show False using 1 bnn snn by (simp add: f_lt_le)
    qed
    then show ?thesis by auto
  next
    case 2
    have "i < k" if "i < length xs" "inside lo hi (?s ! i)" for i
    proof (rule ccontr)
      assume "\<not> i < k"
      then have "f_le (?s ! k) (?s ! i)" using sorted_values [OF nn] that(1) by simp
      then have "f_le (?s ! k) hi" using that(2) f_le_trans by (auto simp: inside_def)
      then show False using 2 bnn snn by (simp add: f_lt_le)
    qed
    then show ?thesis by auto
  qed
  moreover have "card A \<le> length xs - 1 - k" if "A \<subseteq> {k <..< length xs}" for A
    using card_mono [OF _ that] by simp
  moreover have "card A \<le> k" if "A \<subseteq> {0 ..< k}" for A using card_mono [OF _ that] by simp
  ultimately show ?thesis unfolding len card by (auto simp: le_max_iff_disj)
qed

lemma median_inside:
  assumes "odd (length samples)" "NaN \<notin> set samples" "f_le lo hi"
    and "length samples < 2 * length (filter (inside lo hi) samples)"
  shows "inside lo hi (calculateMedian samples)"
proof -
  obtain m where m: "length samples = Suc (2 * m)" using assms(1) by (auto elim: oddE)
  let ?s = "exchange_sort greater samples"
  have med: "calculateMedian samples = ?s ! m"
  proof (cases samples)
    case (Cons v vs)
    then show ?thesis using m by (cases vs) (simp_all add: calculateMedian_def Let_def)
  qed (insert m, simp)
  show ?thesis
  proof (rule ccontr)
    assume "\<not> ?thesis"
    then have "length (filter (inside lo hi) samples) \<le> max m (length samples - 1 - m)"
      using many_inside [OF assms(2) _ assms(3), of m] m med by simp
    then show False using assms(4) m by simp
  qed
qed

section \<open>The range of the score\<close>

definition unit_val :: "f64 \<Rightarrow> bool" where
  "unit_val x = (\<exists>y. x = Fin y \<and> 0 \<le> y \<and> y \<le> 1)"

definition nonneg :: "f64 \<Rightarrow> bool" where
  "nonneg x = (x \<noteq> NaN \<and> \<not> f_lt x (Fin 0))"

lemma rnd_nonneg: "0 \<le> q \<Longrightarrow> nonneg (rnd q)"
  using rnd_val_nonneg [of q] by (auto simp: nonneg_def rnd_eq)

lemma cap_unit: "nonneg x \<Longrightarrow> unit_val (cap_at_one x)"
  by (cases x) (auto simp: nonneg_def cap_at_one_def unit_val_def)

lemma clamp_unit_val: "x \<noteq> NaN \<Longrightarrow> unit_val (clamp_unit x)"
  by (cases x) (auto simp: clamp_unit_def unit_val_def Let_def)

lemma f_div_nonneg: "nonneg a \<Longrightarrow> 0 < b \<Longrightarrow> nonneg (f_div a (Fin b))"
  by (cases a) (auto simp: nonneg_def rnd_nonneg [unfolded nonneg_def])

lemma f_div_by: "0 < b \<Longrightarrow> 0 \<le> l \<Longrightarrow> nonneg (f_div (Fin b) (Fin l))"
  using rnd_nonneg [of "b / l"] by (auto simp: nonneg_def)

lemma f_sub_one: "nonneg x \<Longrightarrow> f_sub (Fin 1) x \<noteq> NaN"
  by (cases x) (auto simp: nonneg_def f_sub_def rnd_eq)

text \<open>The average of three values in the unit interval, with a bound on the third.\<close>

lemma average_bound:
  assumes "unit_val a" "unit_val b" "c = Fin z" "0 \<le> z" "z \<le> w" "w \<le> 1"
  shows "\<exists>y. f_div (f_add (f_add a b) c) (Fin 3) = Fin y \<and> 0 \<le> y \<and> y \<le> 1 \<and> y \<le> rnd_val (rnd_val (2 + w) / 3)"
proof -
  obtain x y where ab: "a = Fin x" "b = Fin y" "0 \<le> x" "x \<le> 1" "0 \<le> y" "y \<le> 1" using assms(1,2) by (auto simp: unit_val_def)
  have s: "(of_int 0 :: rat) \<le> x + y" "x + y \<le> of_int 2" using ab by simp_all
  note sb = rnd_between [OF _ _ s, simplified]
  have t: "(of_int 0 :: rat) \<le> rnd_val (x + y) + z" "rnd_val (x + y) + z \<le> of_int 3" using sb assms by simp_all
  note tb = rnd_between [OF _ _ t, simplified]
  have u: "(of_int 0 :: rat) \<le> rnd_val (rnd_val (x + y) + z) / 3" "rnd_val (rnd_val (x + y) + z) / 3 \<le> of_int 1" using tb by simp_all
  note ub = rnd_between [OF _ _ u, simplified]
  have "rnd_val (rnd_val (x + y) + z) \<le> rnd_val (2 + w)" using sb assms by (intro rnd_val_mono) simp_all
  then have "rnd_val (rnd_val (rnd_val (x + y) + z) / 3) \<le> rnd_val (rnd_val (2 + w) / 3)"
    using tb by (intro rnd_val_mono) (simp_all add: divide_right_mono)
  then show ?thesis using ab sb(1) tb(1) ub assms(3) by simp
qed

lemma three_scores_range:
  assumes "nonneg u" "0 \<le> l" "0 \<le> p" "0 < mu" "0 < tlat" "0 < tloss"
  shows "unit_val (three_scores (Fin mu) (Fin tlat) (Fin tloss) u (Fin l) (Fin p))"
proof -
  have "unit_val (cap_at_one (f_div u (Fin mu)))" "unit_val (cap_at_one (f_div (Fin tlat) (Fin l)))"
    using assms cap_unit f_div_nonneg f_div_by by blast+
  moreover have "nonneg (f_div (Fin p) (Fin tloss))" using assms f_div_nonneg [of "Fin p" tloss] by (simp add: nonneg_def)
  then have "unit_val (clamp_unit (f_sub (Fin 1) (f_div (Fin p) (Fin tloss))))"
    by (intro clamp_unit_val f_sub_one)
  ultimately show ?thesis
    using average_bound [of _ _ _ _ 1] unfolding three_scores_def Let_def unit_val_def by blast
qed

lemma lit_tenth: "rnd (1 / 10) = Fin (7205759403792794 / 2 ^ 56)"
proof -
  have e: "expo (1 / 10) = - 4" by (rule expo_unique) (simp_all add: pow2_def)
  have "rnd (1 / 10) = Fin (of_int 7205759403792794 * pow2 (- 4 - 52))"
    by (rule rnd_lit [OF e]) (auto simp: pow2_def intro!: pow2_lt_1024 [of 0])
  then show ?thesis by (simp add: pow2_def)
qed

lemma lit_twentieth: "rnd (5 / 100) = Fin (7205759403792794 / 2 ^ 57)"
proof -
  have e: "expo (5 / 100) = - 5" by (rule expo_unique) (simp_all add: pow2_def)
  have "rnd (5 / 100) = Fin (of_int 7205759403792794 * pow2 (- 5 - 52))"
    by (rule rnd_lit [OF e]) (auto simp: pow2_def intro!: pow2_lt_1024 [of 0])
  then show ?thesis by (simp add: pow2_def)
qed

text \<open>
  A passed result with 50 ms and a loss of 0.05 per cent scores at most 0.8333, below the
  score 0.85 that activation asks for, whatever its upload rate.
\<close>

lemma rnd_val_five_sixth: "rnd_val (5 / 6) = 7505999378950827 / 2 ^ 53"
proof -
  have e: "expo (5 / 6) = - 1" by (rule expo_unique) (simp_all add: pow2_def)
  have "rnd (5 / 6) = Fin (of_int 7505999378950827 * pow2 (- 1 - 52))"
    by (rule rnd_lit [OF e]) (auto simp: pow2_def intro!: pow2_lt_1024 [of 0])
  then show ?thesis using rnd_between(1) [of 0 1 "5 / 6"] by (simp add: pow2_def)
qed

definition half_tenth :: f64 where
  "half_tenth = Fin (7205759403792794 / 2 ^ 57)"

lemma half_tenth_loss: "clamp_unit (f_sub (Fin 1) (f_div half_tenth TargetPacketLoss)) = Fin (1 / 2)"
proof -
  have q: "(7205759403792794 / 2 ^ 57 :: rat) / (7205759403792794 / 2 ^ 56) = 1 / 2" by simp
  have "f_div half_tenth TargetPacketLoss = Fin (1 / 2)"
    unfolding half_tenth_def TargetPacketLoss_def lit_tenth f_div.simps q by simp
  then show ?thesis by (simp add: clamp_unit_def f_sub_def)
qed

lemma two_and_half: "rnd_val (2 + 1 / 2) = 5 / 2"
  using rnd_between(1) [of 0 3 "5 / 2"] by simp

lemma half_loss_score:
  assumes "nonneg u"
  shows "f_lt (three_scores MinUploadBandwidth TargetLatency TargetPacketLoss u (Fin 50) half_tenth) MinPoBScore"
proof -
  define a where "a = cap_at_one (f_div u MinUploadBandwidth)"
  have a: "unit_val a" using assms unfolding a_def MinUploadBandwidth_def by (intro cap_unit) (simp add: f_div_nonneg)
  have l: "cap_at_one (f_div TargetLatency (Fin 50)) = Fin 1" by (simp add: TargetLatency_def cap_at_one_def)
  obtain y where y: "f_div (f_add (f_add a (Fin 1)) (Fin (1 / 2))) (Fin 3) = Fin y" "y \<le> rnd_val (rnd_val (2 + 1 / 2) / 3)"
    using average_bound [OF a _ refl, of "Fin 1" "1 / 2" "1 / 2"] by (auto simp: unit_val_def)
  have "(5 / 2) / 3 = (5 / 6 :: rat)" by simp
  then have "y \<le> 7505999378950827 / 2 ^ 53" using y(2) unfolding two_and_half by (simp only: rnd_val_five_sixth)
  also have "\<dots> < 7656119366529843 / 2 ^ 53" by simp
  finally have lt: "f_lt (Fin y) (Fin (7656119366529843 / 2 ^ 53))" by (simp only: f_lt.simps)
  have "three_scores MinUploadBandwidth TargetLatency TargetPacketLoss u (Fin 50) half_tenth = Fin y"
    unfolding three_scores_def Let_def half_tenth_loss l a_def [symmetric] by (rule y(1))
  with lt show ?thesis by (simp only: MinPoBScore_def lit_85)
qed

end
