(* ===== verification/Speed_Test.thy ===== *)
theory Speed_Test
  imports PoB_Score Merkle
begin

text \<open>
  The peer-to-peer speed test of the proof of bandwidth (\<open>pkg/consensus/pob_speedtest.go\<close>,
  \<open>pkg/consensus/pob_verification.go\<close>): payloads, committees, sessions and their results.

  The clock, the random reader (\<open>io.ReadFull\<close>) and the AES-CTR key stream are arguments, and so is
  the zero-knowledge proof system, a wrapper of the gnark library. The strings a session collects in
  \<open>Anomalies\<close> are only counted and printed; here they are values that carry what the message prints.
  A session is a pointer shared by the manager and its callers; the model keeps it in the manager.
\<close>

section \<open>Data\<close>

definition PayloadSize :: nat where "PayloadSize = 8 * 1024 * 1024"
definition ChunkSize :: nat where "ChunkSize = 512 * 1024"
definition NumChunks :: nat where "NumChunks = PayloadSize div ChunkSize"
definition CommitteeSize :: int where "CommitteeSize = 3"

datatype anomaly = IncompleteChunks nat | NonMonotonic nat | SuspiciousDelay nat duration

record SpeedTestResult =
  sr_TesterID :: string
  sr_CandidateID :: string
  sr_SessionID :: string
  sr_UploadBandwidth :: f64
  sr_Latency :: f64
  sr_PacketLoss :: f64
  sr_ChunkTimestamps :: "gotime list"
  sr_ReceivedChunks :: int
  sr_VerifiedHashes :: "string list"
  sr_PayloadVerified :: bool
  sr_Timestamp :: gotime
  sr_TesterSignature :: bytes
  sr_Anomalies :: "anomaly list"

datatype SessionStatus = Initiated | Active | Completed

record P2PSpeedTestSession =
  ps_SessionID :: string
  ps_CandidateID :: string
  ps_CommitteeTesters :: "string list"
  ps_PayloadSeed :: bytes
  ps_PayloadRootHash :: string
  ps_TesterMerkleRoots :: "(string, string) gomap"
  ps_TesterChunkHashes :: "(string, string list) gomap"
  ps_TesterResults :: "(string, SpeedTestResult) gomap"
  ps_StartTime :: gotime
  ps_Status :: SessionStatus

record ZKProofSystem =
  zk_prove :: "PoBTestResult \<Rightarrow> f64 \<Rightarrow> bytes res"
  zk_verify :: "bytes \<Rightarrow> string \<Rightarrow> f64 \<Rightarrow> bool \<Rightarrow> bool res"

record P2PSpeedTestManager =
  pm_activeSessions :: "(string, P2PSpeedTestSession) gomap"
  pm_zkSystem :: "ZKProofSystem option"

definition NewP2PSpeedTestManager :: "ZKProofSystem res \<Rightarrow> P2PSpeedTestManager" where
  "NewP2PSpeedTestManager zk = \<lparr>pm_activeSessions = [],
     pm_zkSystem = (case zk of Inl _ \<Rightarrow> None | Inr z \<Rightarrow> Some z)\<rparr>"

section \<open>Payloads\<close>

record CryptographicPayloadGenerator =
  pg_seed :: bytes
  pg_sessionID :: string
  pg_testerID :: string

definition NewCryptographicPayloadGenerator ::
  "bytes res \<Rightarrow> string \<Rightarrow> string \<Rightarrow> CryptographicPayloadGenerator res" where
  "NewCryptographicPayloadGenerator rand sessionID testerID =
     (case rand of
        Inl _ \<Rightarrow> Inl (Error ''failed to generate seed'')
      | Inr seed \<Rightarrow> Inr \<lparr>pg_seed = sha256 (seed @ bytes_of sessionID @ bytes_of testerID),
          pg_sessionID = sessionID, pg_testerID = testerID\<rparr>)"

text \<open>\<open>keystream seed n\<close> is the first \<open>n\<close> bytes of the AES-CTR key stream for the zero vector.\<close>

definition GeneratePayload ::
  "(bytes \<Rightarrow> nat \<Rightarrow> bytes) \<Rightarrow> (string \<Rightarrow> bytes) \<Rightarrow> CryptographicPayloadGenerator \<Rightarrow> bytes \<times> string list \<times> string" where
  "GeneratePayload keystream dec gen =
     (let payload = keystream (pg_seed gen) PayloadSize;
          chunkHashes = map (\<lambda>c. hex (sha256 c)) (chunks ChunkSize payload)
      in (payload, chunkHashes, calculateMerkleRootFromHashes dec chunkHashes))"

section \<open>Committees\<close>

definition generateSessionID :: "string \<Rightarrow> string \<Rightarrow> string" where
  "generateSessionID candidateID now = take 16 (hex (sha256 (bytes_of candidateID @ bytes_of now)))"

text \<open>The loop: \<open>available\<close> shrinks while \<open>i\<close> grows, and both bound it.\<close>

function pick_testers :: "bytes \<Rightarrow> int \<Rightarrow> nat \<Rightarrow> string list \<Rightarrow> string list \<Rightarrow> string list" where
  "pick_testers seed wanted i available selected =
     (if int i < wanted \<and> i < length available then
        (let index = unat (seed ! (i mod length seed)) mod length available
         in pick_testers seed wanted (Suc i) (take index available @ drop (Suc index) available)
              (selected @ [available ! index]))
      else selected)"
  by pat_completeness auto
termination
  by (relation "measure (\<lambda>(_, wanted, i, _, _). nat (wanted - int i))") auto

declare pick_testers.simps [simp del]

definition selectCommitteeTesters :: "string \<Rightarrow> string list \<Rightarrow> int \<Rightarrow> string \<Rightarrow> string list res" where
  "selectCommitteeTesters candidateID allValidators wanted now =
     (let available = filter (\<lambda>v. v \<noteq> candidateID) allValidators in
      if int (length available) < wanted then Inl (Error ''not enough validators'')
      else Inr (pick_testers (sha256 (bytes_of candidateID @ bytes_of now)) wanted 0 available []))"

section \<open>Sessions\<close>

record initiate_input =
  in_id_clock :: string
  in_seed_clock :: string
  in_rand :: "bytes res"
  in_now :: gotime

definition InitiateP2PSpeedTest ::
  "initiate_input \<Rightarrow> string \<Rightarrow> string list \<Rightarrow> P2PSpeedTestManager \<Rightarrow> P2PSpeedTestManager \<times> P2PSpeedTestSession res" where
  "InitiateP2PSpeedTest inp candidateID allValidators psm =
     (let sessionID = generateSessionID candidateID (in_id_clock inp) in
      case selectCommitteeTesters candidateID allValidators CommitteeSize (in_seed_clock inp) of
        Inl _ \<Rightarrow> (psm, Inl (Error ''failed to select committee''))
      | Inr committee \<Rightarrow>
          if int (length committee) < CommitteeSize then (psm, Inl (Error ''insufficient validators for committee''))
          else (case in_rand inp of
              Inl _ \<Rightarrow> (psm, Inl (Error ''failed to generate seed''))
            | Inr seed \<Rightarrow>
                let session = \<lparr>ps_SessionID = sessionID, ps_CandidateID = candidateID, ps_CommitteeTesters = committee,
                      ps_PayloadSeed = seed, ps_PayloadRootHash = [], ps_TesterMerkleRoots = [], ps_TesterChunkHashes = [],
                      ps_TesterResults = [], ps_StartTime = in_now inp, ps_Status = Initiated\<rparr>
                in (psm\<lparr>pm_activeSessions := mput sessionID session (pm_activeSessions psm)\<rparr>, Inr session)))"

definition put_session :: "P2PSpeedTestSession \<Rightarrow> string \<Rightarrow> P2PSpeedTestManager \<Rightarrow> P2PSpeedTestManager" where
  "put_session session sessionID psm = psm\<lparr>pm_activeSessions := mput sessionID session (pm_activeSessions psm)\<rparr>"

definition SubmitTesterResult ::
  "string \<Rightarrow> SpeedTestResult \<Rightarrow> P2PSpeedTestManager \<Rightarrow> P2PSpeedTestManager \<times> unit res" where
  "SubmitTesterResult sessionID result psm =
     (case mget (pm_activeSessions psm) sessionID of
        None \<Rightarrow> (psm, Inl (Error ''session not found''))
      | Some session \<Rightarrow>
          if sr_TesterID result \<notin> set (ps_CommitteeTesters session) then (psm, Inl (Error ''tester not in committee''))
          else let results = mput (sr_TesterID result) result (ps_TesterResults session);
                   status = (if mlen results = length (ps_CommitteeTesters session) then Completed else Active)
               in (put_session (session\<lparr>ps_TesterResults := results, ps_Status := status\<rparr>) sessionID psm, Inr ()))"

definition valid_result :: "SpeedTestResult \<Rightarrow> bool" where
  "valid_result result = (sr_Anomalies result = [] \<and> sr_PayloadVerified result)"

definition AggregateP2PResults :: "gotime \<Rightarrow> string \<Rightarrow> P2PSpeedTestManager \<Rightarrow> PoBTestResult res" where
  "AggregateP2PResults now sessionID psm =
     (case mget (pm_activeSessions psm) sessionID of
        None \<Rightarrow> Inl (Error ''session not found'')
      | Some session \<Rightarrow>
          if ps_TesterResults session = [] then Inl (Error ''no tester results available'')
          else let rs = filter valid_result (map snd (ps_TesterResults session)) in
            if length rs < 2 then Inl (Error ''insufficient valid results'')
            else let medianUpload = calculateMedian (map sr_UploadBandwidth rs);
                     medianLatency = calculateMedian (map sr_Latency rs);
                     medianPacketLoss = calculateMedian (map sr_PacketLoss rs);
                     score = calculatePoBScore_median medianUpload medianLatency medianPacketLoss;
                     testData = bytes_of (ps_CandidateID session @ ''-'' @ dec_int (ps_StartTime session div second));
                     aggregated = \<lparr>pt_CandidateID = ps_CandidateID session, pt_TesterID = [], pt_UploadBandwidth = medianUpload,
                       pt_Latency = medianLatency, pt_PacketLoss = medianPacketLoss, pt_TestDataHash = hex (sha256 testData),
                       pt_MerkleRoot = [], pt_TransmissionTime = 0, pt_Timestamp = now, pt_Passed = False, pt_ZKProof = []\<rparr>;
                     judged = aggregated\<lparr>pt_Passed := evaluatePoBResult aggregated\<rparr>
                 in (case pm_zkSystem psm of
                       None \<Rightarrow> Inr judged
                     | Some zk \<Rightarrow>
                         (case zk_prove zk judged score of
                            Inl (Panic e) \<Rightarrow> Inl (Panic e)
                          | Inl (Error _) \<Rightarrow> Inr judged
                          | Inr proof \<Rightarrow> Inr (judged\<lparr>pt_ZKProof := proof\<rparr>))))"

definition VerifyPoBResultZKProof :: "P2PSpeedTestManager \<Rightarrow> PoBTestResult \<Rightarrow> bool \<times> fail option" where
  "VerifyPoBResultZKProof psm result =
     (case pm_zkSystem psm of
        None \<Rightarrow> (True, None)
      | Some zk \<Rightarrow>
          if pt_ZKProof result = [] then (False, Some (Error ''no ZK proof provided''))
          else (case zk_verify zk (pt_ZKProof result) (pt_TestDataHash result)
                  (calculatePoBScore_median (pt_UploadBandwidth result) (pt_Latency result) (pt_PacketLoss result)) (pt_Passed result) of
              Inl (Panic e) \<Rightarrow> (False, Some (Panic e))
            | Inl (Error _) \<Rightarrow> (False, Some (Error ''ZK proof verification failed''))
            | Inr False \<Rightarrow> (False, Some (Error ''ZK proof is invalid''))
            | Inr True \<Rightarrow> (True, None)))"

text \<open>The loop from chunk \<open>i\<close> on, with the time stamp before it.\<close>

fun sequence_anomalies :: "nat \<Rightarrow> gotime \<Rightarrow> gotime list \<Rightarrow> anomaly list" where
  "sequence_anomalies i prev [] = []"
| "sequence_anomalies i prev (t # ts) =
     (if t < prev then [NonMonotonic i] else []) @
     (let duration = time_sub t prev in if duration > 5 * second then [SuspiciousDelay i duration] else []) @
     sequence_anomalies (Suc i) t ts"

definition VerifyChunkSequence :: "gotime list \<Rightarrow> bool \<times> anomaly list" where
  "VerifyChunkSequence timestamps =
     (if length timestamps \<noteq> NumChunks then (False, [IncompleteChunks (length timestamps)])
      else let anomalies = (case timestamps of [] \<Rightarrow> [] | t # ts \<Rightarrow> sequence_anomalies 1 t ts)
           in (anomalies = [], anomalies))"

section \<open>Verification of tester data (pob_verification.go)\<close>

text \<open>An error that prints the first eight characters of an ID, which panics for a shorter one.\<close>

definition short_error :: "string \<Rightarrow> string \<Rightarrow> 'a res" where
  "short_error i msg = (case slice_to 8 i of Inl e \<Rightarrow> Inl e | Inr _ \<Rightarrow> Inl (Error msg))"

definition VerifyTesterMerkleRoot :: "string \<Rightarrow> string \<Rightarrow> string \<Rightarrow> P2PSpeedTestManager \<Rightarrow> unit res" where
  "VerifyTesterMerkleRoot sessionID testerID submittedRoot psm =
     (case mget (pm_activeSessions psm) sessionID of
        None \<Rightarrow> short_error sessionID ''session not found''
      | Some session \<Rightarrow>
          (case mget (ps_TesterMerkleRoots session) testerID of
             None \<Rightarrow> short_error testerID ''no Merkle root stored for tester''
           | Some storedRoot \<Rightarrow>
               if storedRoot \<noteq> submittedRoot then
                 (case slice_to 8 testerID of Inl e \<Rightarrow> Inl e | Inr _ \<Rightarrow>
                 (case slice_to 16 storedRoot of Inl e \<Rightarrow> Inl e | Inr _ \<Rightarrow>
                 (case slice_to 16 submittedRoot of Inl e \<Rightarrow> Inl e | Inr _ \<Rightarrow>
                   Inl (Error ''Merkle root mismatch - potential payload tampering detected''))))
               else Inr ()))"

definition VerifyTesterChunkHashes :: "string \<Rightarrow> string \<Rightarrow> string list \<Rightarrow> P2PSpeedTestManager \<Rightarrow> unit res" where
  "VerifyTesterChunkHashes sessionID testerID submittedHashes psm =
     (case mget (pm_activeSessions psm) sessionID of
        None \<Rightarrow> short_error sessionID ''session not found''
      | Some session \<Rightarrow>
          (case mget (ps_TesterChunkHashes session) testerID of
             None \<Rightarrow> short_error testerID ''no chunk hashes stored for tester''
           | Some storedHashes \<Rightarrow>
               if length storedHashes \<noteq> length submittedHashes then Inl (Error ''chunk count mismatch'')
               else if \<exists>i < length storedHashes. storedHashes ! i \<noteq> submittedHashes ! i
                 then short_error testerID ''chunk hash mismatch''
               else Inr ()))"

definition GetTesterMerkleRoot :: "string \<Rightarrow> string \<Rightarrow> P2PSpeedTestManager \<Rightarrow> string res" where
  "GetTesterMerkleRoot sessionID testerID psm =
     (case mget (pm_activeSessions psm) sessionID of
        None \<Rightarrow> short_error sessionID ''session not found''
      | Some session \<Rightarrow>
          (case mget (ps_TesterMerkleRoots session) testerID of
             None \<Rightarrow> short_error testerID ''no Merkle root for tester''
           | Some r \<Rightarrow> Inr r))"

section \<open>The wanted of a committee\<close>

lemma pick_testers_result:
  assumes "seed \<noteq> []" "0 \<le> wanted"
  shows "\<exists>p. pick_testers seed wanted i av sel = sel @ p \<and> length p = min (nat wanted - i) ((length av + 1 - i) div 2) \<and> mset p \<subseteq># mset av"
  using assms
proof (induction seed wanted i av sel rule: pick_testers.induct)
  case (1 seed wanted i av sel)
  show ?case
  proof (cases "int i < wanted \<and> i < length av")
    case True
    let ?ix = "unat (seed ! (i mod length seed)) mod length av"
    let ?av = "take ?ix av @ drop (Suc ?ix) av"
    have ix: "?ix < length av" using True by (cases av) auto
    then have len: "length ?av = length av - 1" by simp
    obtain p where p: "pick_testers seed wanted (Suc i) ?av (sel @ [av ! ?ix]) = (sel @ [av ! ?ix]) @ p"
      "length p = min (nat wanted - Suc i) ((length ?av + 1 - Suc i) div 2)" "mset p \<subseteq># mset ?av"
      using "1.IH" True "1.prems" by blast
    have "mset av = add_mset (av ! ?ix) (mset ?av)"
      using ix by (metis id_take_nth_drop mset.simps(2) mset_append union_mset_add_mset_right)
    then have "mset (av ! ?ix # p) \<subseteq># mset av" using p(3) by simp
    moreover have "length (av ! ?ix # p) = min (nat wanted - i) ((length av + 1 - i) div 2)"
    proof -
      have "(Suc (length av) - i) div 2 = Suc ((length av - Suc i) div 2)" using True by arith
      moreover have "nat wanted - i = Suc (nat wanted - Suc i)" using True by auto
      ultimately show ?thesis using p(2) unfolding len by simp
    qed
    ultimately show ?thesis using p(1) True by (subst pick_testers.simps) (auto simp: Let_def)
  next
    case False
    then show ?thesis by (subst pick_testers.simps) auto
  qed
qed


lemma committee_cases:
  assumes "3 \<le> length (filter (\<lambda>v. v \<noteq> c) vs)"
  shows "\<exists>p. selectCommitteeTesters c vs CommitteeSize now = Inr p \<and> mset p \<subseteq># mset (filter (\<lambda>v. v \<noteq> c) vs) \<and>
    length p = min 3 ((length (filter (\<lambda>v. v \<noteq> c) vs) + 1) div 2)"
proof -
  obtain p where "pick_testers (sha256 (bytes_of c @ bytes_of now)) 3 0 (filter (\<lambda>v. v \<noteq> c) vs) [] = [] @ p"
    "length p = min (nat 3 - 0) ((length (filter (\<lambda>v. v \<noteq> c) vs) + 1 - 0) div 2)" "mset p \<subseteq># mset (filter (\<lambda>v. v \<noteq> c) vs)"
    using pick_testers_result [of "sha256 (bytes_of c @ bytes_of now)" 3 0 "filter (\<lambda>v. v \<noteq> c) vs" "[]"] by auto
  then show ?thesis using assms by (simp add: selectCommitteeTesters_def CommitteeSize_def Let_def)
qed

text \<open>
  A speed test needs five validators besides the candidate, although three testers are
  asked for and the message speaks of three: the selection loop stops as soon as it has picked as many
  as are left. With five it opens a session with three testers drawn from the other validators.
\<close>

theorem committee_needs_five:
  assumes "in_rand inp = Inr seed"
  shows "if length (filter (\<lambda>v. v \<noteq> candidateID) vs) < 3
    then InitiateP2PSpeedTest inp candidateID vs psm = (psm, Inl (Error ''failed to select committee''))
    else if length (filter (\<lambda>v. v \<noteq> candidateID) vs) < 5
    then InitiateP2PSpeedTest inp candidateID vs psm = (psm, Inl (Error ''insufficient validators for committee''))
    else \<exists>session psm'. InitiateP2PSpeedTest inp candidateID vs psm = (psm', Inr session) \<and>
      mget (pm_activeSessions psm') (ps_SessionID session) = Some session \<and> length (ps_CommitteeTesters session) = 3 \<and>
      mset (ps_CommitteeTesters session) \<subseteq># mset (filter (\<lambda>v. v \<noteq> candidateID) vs)"
proof (cases "length (filter (\<lambda>v. v \<noteq> candidateID) vs) < 3")
  case True
  then show ?thesis by (simp add: InitiateP2PSpeedTest_def selectCommitteeTesters_def CommitteeSize_def Let_def)
next
  case False
  then obtain p where p: "selectCommitteeTesters candidateID vs CommitteeSize (in_seed_clock inp) = Inr p"
    "mset p \<subseteq># mset (filter (\<lambda>v. v \<noteq> candidateID) vs)" "length p = min 3 ((length (filter (\<lambda>v. v \<noteq> candidateID) vs) + 1) div 2)"
    using committee_cases by (metis not_le)
  then show ?thesis
    using False assms by (auto simp: InitiateP2PSpeedTest_def CommitteeSize_def Let_def mget_mput)
qed

definition demo_input :: initiate_input where
  "demo_input = \<lparr>in_id_clock = ''t0'', in_seed_clock = ''t1'', in_rand = Inr [], in_now = 0\<rparr>"

theorem committee_needs_five_witness:
  "InitiateP2PSpeedTest demo_input ''c'' [''a'', ''b'', ''c'', ''d'', ''e''] (NewP2PSpeedTestManager (Inl (Error []))) =
    (NewP2PSpeedTestManager (Inl (Error [])), Inl (Error ''insufficient validators for committee''))"
  using committee_needs_five [of demo_input "[]" "''c''" "[''a'', ''b'', ''c'', ''d'', ''e'']" "NewP2PSpeedTestManager (Inl (Error []))"]
  by (simp add: demo_input_def)

section \<open>What aggregation accepts\<close>

lemma aggregate_result:
  assumes "AggregateP2PResults now sessionID psm = Inr r"
  obtains session rs where "mget (pm_activeSessions psm) sessionID = Some session"
    "rs = filter valid_result (map snd (ps_TesterResults session))" "2 \<le> length rs"
    "pt_UploadBandwidth r = calculateMedian (map sr_UploadBandwidth rs)" "pt_Latency r = calculateMedian (map sr_Latency rs)"
    "pt_PacketLoss r = calculateMedian (map sr_PacketLoss rs)" "pt_Passed r = evaluatePoBResult r"
proof -
  obtain session where s: "mget (pm_activeSessions psm) sessionID = Some session"
    using assms by (auto simp: AggregateP2PResults_def split: option.splits)
  let ?rs = "filter valid_result (map snd (ps_TesterResults session))"
  have len: "2 \<le> length ?rs"
    using assms s by (auto simp: AggregateP2PResults_def Let_def not_less split: if_splits)
  show thesis
    using assms s len that [OF s refl len]
    by (auto simp: AggregateP2PResults_def Let_def evaluatePoBResult_def not_less split: if_splits option.splits sum.splits fail.splits)
qed

text \<open>
  With three verified results of which two measure an upload between two bounds, the
  aggregated upload lies between them, whatever the third tester reports (short of NaN); results
  with anomalies or an unverified payload do not count.
\<close>

theorem aggregation_resists_one:
  assumes "AggregateP2PResults now sessionID psm = Inr r" "mget (pm_activeSessions psm) sessionID = Some session"
    and "rs = filter valid_result (map snd (ps_TesterResults session))" "length rs = 3"
    and "length (filter (inside lo hi) (map sr_UploadBandwidth rs)) \<ge> 2" "NaN \<notin> set (map sr_UploadBandwidth rs)" "f_le lo hi"
  shows "inside lo hi (pt_UploadBandwidth r)"
proof -
  have "pt_UploadBandwidth r = calculateMedian (map sr_UploadBandwidth rs)"
    by (rule aggregate_result [OF assms(1)]) (use assms(2,3) in simp)
  moreover have "inside lo hi (calculateMedian (map sr_UploadBandwidth rs))"
    using assms(4-7) by (intro median_inside) simp_all
  ultimately show ?thesis by simp
qed


definition demo_result :: "string \<Rightarrow> f64 \<Rightarrow> SpeedTestResult" where
  "demo_result i u = \<lparr>sr_TesterID = i, sr_CandidateID = ''c'', sr_SessionID = ''s'', sr_UploadBandwidth = u, sr_Latency = Fin 50,
     sr_PacketLoss = Fin 0, sr_ChunkTimestamps = [], sr_ReceivedChunks = 16, sr_VerifiedHashes = [], sr_PayloadVerified = True,
     sr_Timestamp = 0, sr_TesterSignature = [], sr_Anomalies = []\<rparr>"

definition demo_session :: P2PSpeedTestSession where
  "demo_session = \<lparr>ps_SessionID = ''s'', ps_CandidateID = ''c'', ps_CommitteeTesters = [''x'', ''y'', ''z''], ps_PayloadSeed = [],
     ps_PayloadRootHash = [], ps_TesterMerkleRoots = [], ps_TesterChunkHashes = [],
     ps_TesterResults = [(''x'', demo_result ''x'' (Fin 8)), (''y'', demo_result ''y'' (Inf False)), (''z'', demo_result ''z'' (Fin 7))],
     ps_StartTime = 0, ps_Status = Completed\<rparr>"

theorem aggregation_resists_one_witness:
  "\<exists>r. AggregateP2PResults 0 ''s'' \<lparr>pm_activeSessions = [(''s'', demo_session)], pm_zkSystem = None\<rparr> = Inr r \<and>
     inside (Fin 7) (Fin 8) (pt_UploadBandwidth r)"
proof -
  let ?psm = "\<lparr>pm_activeSessions = [(''s'', demo_session)], pm_zkSystem = None\<rparr>"
  obtain r where r: "AggregateP2PResults 0 ''s'' ?psm = Inr r"
    by (simp add: AggregateP2PResults_def demo_session_def demo_result_def valid_result_def Let_def)
  have "inside (Fin 7) (Fin 8) (pt_UploadBandwidth r)"
    by (rule aggregation_resists_one [OF r _ refl, of demo_session])
      (simp_all add: demo_session_def demo_result_def valid_result_def inside_def f_le_def)
  with r show ?thesis by blast
qed

end
