(* ===== verification/Speed_Test_Run.thy ===== *)
theory Speed_Test_Run
  imports Speed_Test Registry
begin

text \<open>
  The speed test as the validator service runs it (\<open>pkg/consensus/pob_speedtest_integration.go\<close>): a
  session with a committee, one goroutine per tester, the aggregation, and the entry of the result in
  the validator's record.

  The goroutines, one per distinct tester, write to the session under a lock, each under its own key, so a
  run is given by the list of the testers in the order in which they finish; testers that are not in it did not
  finish before the deadline of 60 seconds. The readings of a tester's clock are its arguments. Every
  goroutine logs the first eight characters of its tester's ID, and a panic of a goroutine ends the process.
\<close>

record tester_run =
  tu_tester :: string
  tu_rand :: "bytes res"
  tu_chunks :: "gotime list"
  tu_uploadTime :: duration
  tu_now :: gotime

definition upload_rate :: "duration \<Rightarrow> f64" where
  "upload_rate uploadTime = f_div (f_div (f_of_int (int PayloadSize)) (f_lit (1024 * 1024))) (duration_seconds uploadTime)"

text \<open>The result a tester reports: latency and packet loss are constants of the code.\<close>

definition tester_result :: "P2PSpeedTestSession \<Rightarrow> tester_run \<Rightarrow> string list \<Rightarrow> SpeedTestResult" where
  "tester_result session u chunkHashes =
     (let (sequenceValid, anomalies) = VerifyChunkSequence (tu_chunks u)
      in \<lparr>sr_TesterID = tu_tester u, sr_CandidateID = ps_CandidateID session, sr_SessionID = ps_SessionID session,
          sr_UploadBandwidth = upload_rate (tu_uploadTime u), sr_Latency = f_lit 50, sr_PacketLoss = f_lit (5 / 100),
          sr_ChunkTimestamps = tu_chunks u, sr_ReceivedChunks = int NumChunks, sr_VerifiedHashes = chunkHashes,
          sr_PayloadVerified = sequenceValid, sr_Timestamp = tu_now u, sr_TesterSignature = [], sr_Anomalies = anomalies\<rparr>)"

text \<open>One goroutine: store the Merkle root and the chunk hashes, then submit the result.\<close>

definition store_payload :: "string \<Rightarrow> string list \<Rightarrow> string \<Rightarrow> P2PSpeedTestSession \<Rightarrow> P2PSpeedTestSession" where
  "store_payload tid chunkHashes merkleRoot session = session\<lparr>
     ps_TesterMerkleRoots := mput tid merkleRoot (ps_TesterMerkleRoots session),
     ps_TesterChunkHashes := mput tid chunkHashes (ps_TesterChunkHashes session),
     ps_PayloadRootHash := (if ps_PayloadRootHash session = [] then merkleRoot else ps_PayloadRootHash session)\<rparr>"

definition run_tester ::
  "(bytes \<Rightarrow> nat \<Rightarrow> bytes) \<Rightarrow> (string \<Rightarrow> bytes) \<Rightarrow> string \<Rightarrow> tester_run \<Rightarrow> P2PSpeedTestManager \<Rightarrow> P2PSpeedTestManager" where
  "run_tester keystream dec sessionID u psm =
     (case (mget (pm_activeSessions psm) sessionID, NewCryptographicPayloadGenerator (tu_rand u) sessionID (tu_tester u)) of
        (Some session, Inr gen) \<Rightarrow>
          (let (payload, chunkHashes, merkleRoot) = GeneratePayload keystream dec gen;
               psm1 = put_session (store_payload (tu_tester u) chunkHashes merkleRoot session) sessionID psm
           in fst (SubmitTesterResult sessionID (tester_result session u chunkHashes) psm1))
      | _ \<Rightarrow> psm)"

definition pob_update :: "PoBTestResult \<Rightarrow> gotime \<Rightarrow> ValidatorInfo \<Rightarrow> ValidatorInfo" where
  "pob_update aggregated now info = info\<lparr>v_PoBScore := CalculatePoBScore [aggregated],
     v_UploadBandwidth := pt_UploadBandwidth aggregated, v_Latency := pt_Latency aggregated,
     v_PacketLoss := pt_PacketLoss aggregated, v_LastPoBTest := now\<rparr>"

definition RunP2PSpeedTest ::
  "'st state_ops \<Rightarrow> (bytes \<Rightarrow> nat \<Rightarrow> bytes) \<Rightarrow> (string \<Rightarrow> bytes) \<Rightarrow> initiate_input \<Rightarrow> tester_run list \<Rightarrow> gotime \<Rightarrow> string
    \<Rightarrow> P2PSpeedTestManager \<Rightarrow> 'st \<Rightarrow> P2PSpeedTestManager \<times> 'st \<times> f64 res" where
  "RunP2PSpeedTest so keystream dec inp runs now candidateID psm st =
     (case InitiateP2PSpeedTest inp candidateID (so_active so st) psm of
        (psm1, Inl e) \<Rightarrow> (psm1, st, Inl (Error ''failed to initiate P2P speed test''))
      | (psm1, Inr session) \<Rightarrow>
          (case slice_to 8 candidateID of
             Inl e \<Rightarrow> (psm1, st, Inl e)
           | Inr _ \<Rightarrow>
               if \<exists>t \<in> set (ps_CommitteeTesters session). length t < 8
               then (psm1, st, Inl (Panic ''slice bounds out of range''))
               else
               let finished = filter (\<lambda>u. tu_tester u \<in> set (ps_CommitteeTesters session)) runs;
                   psm2 = fold (run_tester keystream dec (ps_SessionID session)) finished psm1
               in (case AggregateP2PResults now (ps_SessionID session) psm2 of
                     Inl (Panic e) \<Rightarrow> (psm2, st, Inl (Panic e))
                   | Inl (Error _) \<Rightarrow> (psm2, st, Inl (Error ''failed to aggregate results''))
                   | Inr aggregated \<Rightarrow>
                       let st' = (case so_validator so st candidateID of
                             Inl _ \<Rightarrow> st
                           | Inr info \<Rightarrow> so_put_validator so (pob_update aggregated now info) st)
                       in (psm2, st', Inr (CalculatePoBScore [aggregated])))))"

definition GetP2PSpeedTestSession :: "P2PSpeedTestManager \<Rightarrow> string \<Rightarrow> P2PSpeedTestSession res" where
  "GetP2PSpeedTestSession psm sessionID = (case mget (pm_activeSessions psm) sessionID of
     None \<Rightarrow> Inl (Error ''session not found'') | Some session \<Rightarrow> Inr session)"

section \<open>The score of a run\<close>

lemma rnd_not_NaN [simp]: "rnd q \<noteq> NaN" "NaN \<noteq> rnd q"
  by (auto simp: rnd_eq)

lemma rnd_again: "0 \<le> x \<Longrightarrow> rnd x = Fin y \<Longrightarrow> rnd y = Fin y"
  using rnd_val_idem [of x] rnd_val_nonneg [of x] by (auto simp: rnd_eq split: if_splits)

lemma nonneg_add: "nonneg a \<Longrightarrow> nonneg b \<Longrightarrow> nonneg (f_add a b)"
  by (cases a; cases b) (auto simp: nonneg_def rnd_nonneg [unfolded nonneg_def])

lemma nonneg_div_by: "0 < a \<Longrightarrow> nonneg b \<Longrightarrow> nonneg (f_div (Fin a) b)"
  by (cases b) (auto simp: nonneg_def rnd_nonneg [unfolded nonneg_def])

lemma seconds_nonneg: "0 \<le> d \<Longrightarrow> nonneg (duration_seconds d)"
proof -
  assume d: "0 \<le> d"
  define s where "s = trunc_rat (of_int d / of_int second)"
  have s: "0 \<le> s" "s * second \<le> d"
    using d by (simp_all add: s_def trunc_rat_def second_def floor_divide_of_int_eq [of d 1000000000, simplified])
  then have "nonneg (f_of_int s)" "nonneg (f_of_int (d - s * second))"
    by (simp_all add: f_of_int_def rnd_nonneg del: of_int_diff of_int_mult)
  then show ?thesis
    unfolding duration_seconds_def Let_def s_def [symmetric] by (intro nonneg_add) (simp_all add: f_div_nonneg)
qed

lemma rate_nonneg: "0 \<le> d \<Longrightarrow> nonneg (upload_rate d)"
  unfolding upload_rate_def by (simp add: PayloadSize_def nonneg_div_by seconds_nonneg)

text \<open>What every result of a session has: the constant latency and loss, and an upload that is not negative.\<close>

definition constant_result :: "SpeedTestResult \<Rightarrow> bool" where
  "constant_result r = (sr_Latency r = Fin 50 \<and> sr_PacketLoss r = half_tenth \<and> nonneg (sr_UploadBandwidth r))"

lemma median_closed:
  assumes "samples \<noteq> []" "\<forall>x \<in> set samples. P x" "\<And>a b. P a \<Longrightarrow> P b \<Longrightarrow> P (f_div (f_add a b) (Fin 2))"
  shows "P (calculateMedian samples)"
proof -
  let ?s = "exchange_sort greater samples"
  have nth: "P (?s ! k)" if "k < length samples" for k
    using that assms(2) nth_mem [of k ?s] by simp
  have "length samples div 2 < length samples" using assms(1) by (cases samples) auto
  then have "P (?s ! (length samples div 2))" "P (?s ! (length samples div 2 - 1))" by (simp_all add: nth)
  then show ?thesis
    using assms by (auto simp: calculateMedian_def Let_def split: list.split)
qed

lemma half_tenth_exact: "rnd (7205759403792794 / 2 ^ 57) = Fin (7205759403792794 / 2 ^ 57)"
    "rnd (7205759403792794 / 2 ^ 56) = Fin (7205759403792794 / 2 ^ 56)"
  by (rule rnd_again [OF _ lit_twentieth], simp, rule rnd_again [OF _ lit_tenth], simp)

lemma half_tenth_mean: "f_div (f_add half_tenth half_tenth) (Fin 2) = half_tenth"
proof -
  have "(7205759403792794 / 2 ^ 57 + 7205759403792794 / 2 ^ 57 :: rat) = 7205759403792794 / 2 ^ 56"
    "(7205759403792794 / 2 ^ 56 / 2 :: rat) = 7205759403792794 / 2 ^ 57" by simp_all
  then show ?thesis unfolding half_tenth_def f_add.simps by (simp only: half_tenth_exact f_div.simps) simp
qed

lemma aggregated_score:
  assumes "pt_Latency r = Fin 50" "pt_PacketLoss r = half_tenth" "nonneg (pt_UploadBandwidth r)"
  shows "f_lt (CalculatePoBScore [r]) MinPoBScore"
proof (cases "pt_Passed r")
  case True
  let ?u = "f_div (f_add (Fin 0) (pt_UploadBandwidth r)) (Fin 1)"
  have "nonneg (f_add (Fin 0) (pt_UploadBandwidth r))" using assms(3) by (intro nonneg_add) (simp_all add: nonneg_def)
  then have u: "nonneg ?u" by (intro f_div_nonneg) simp_all
  have l: "f_div (f_add (Fin 0) (Fin 50)) (Fin 1) = Fin 50" by simp
  have "(7205759403792794 / 2 ^ 57 / 1 :: rat) = 7205759403792794 / 2 ^ 57" "(0 + 7205759403792794 / 2 ^ 57 :: rat) = 7205759403792794 / 2 ^ 57" by simp_all
  then have p: "f_div (f_add (Fin 0) half_tenth) (Fin 1) = half_tenth"
    unfolding half_tenth_def f_add.simps by (simp only: half_tenth_exact f_div.simps) simp
  have "CalculatePoBScore [r] = three_scores MinUploadBandwidth TargetLatency TargetPacketLoss ?u (Fin 50) half_tenth"
    using True assms(1,2) by (simp add: CalculatePoBScore_def l [simplified] p [simplified])
  then show ?thesis using half_loss_score [OF u] by simp
next
  case False
  have "f_lt (Fin 0) MinPoBScore" unfolding MinPoBScore_def lit_85 by simp
  then show ?thesis using False by (simp add: CalculatePoBScore_def)
qed

section \<open>Sessions during a run\<close>

text \<open>The session \<open>i\<close> has the committee \<open>c\<close>, results of the testers \<open>k\<close>, and every result satisfies \<open>Q\<close>.\<close>

definition session_holds ::
  "string \<Rightarrow> string list \<Rightarrow> string set \<Rightarrow> (SpeedTestResult \<Rightarrow> bool) \<Rightarrow> P2PSpeedTestManager \<Rightarrow> bool" where
  "session_holds i c k Q psm = (\<exists>session. mget (pm_activeSessions psm) i = Some session \<and> ps_CommitteeTesters session = c \<and>
     wf_map (ps_TesterResults session) \<and> fst ` set (ps_TesterResults session) = k \<and> (\<forall>(t, r) \<in> set (ps_TesterResults session). Q r))"

definition good_run :: "(SpeedTestResult \<Rightarrow> bool) \<Rightarrow> tester_run \<Rightarrow> bool" where
  "good_run Q u = (\<forall>session hs. Q (tester_result session u hs))"

lemma run_tester_holds:
  assumes "session_holds i c k Q psm" "tu_tester u \<in> set c" "good_run Q u"
  shows "session_holds i c (if is_ok (tu_rand u) then insert (tu_tester u) k else k) Q (run_tester keystream dec i u psm)"
proof -
  obtain session where s: "mget (pm_activeSessions psm) i = Some session" "ps_CommitteeTesters session = c"
    "wf_map (ps_TesterResults session)" "fst ` set (ps_TesterResults session) = k" "\<forall>(t, r) \<in> set (ps_TesterResults session). Q r"
    using assms(1) by (auto simp: session_holds_def)
  show ?thesis
  proof (cases "tu_rand u")
    case (Inl e)
    then show ?thesis using assms(1) s by (simp add: run_tester_def NewCryptographicPayloadGenerator_def)
  next
    case (Inr seed)
    let ?gen = "\<lparr>pg_seed = sha256 (seed @ bytes_of i @ bytes_of (tu_tester u)), pg_sessionID = i, pg_testerID = tu_tester u\<rparr>"
    obtain pay hs root where g: "GeneratePayload keystream dec ?gen = (pay, hs, root)" by (metis prod_cases3)
    let ?r = "tester_result session u hs"
    have "Q ?r" using assms(3) by (simp add: good_run_def)
    moreover have "sr_TesterID ?r = tu_tester u" by (simp add: tester_result_def split: prod.split)
    ultimately show ?thesis
      using s assms(2) Inr g set_mput_subset [of "tu_tester u" ?r "ps_TesterResults session"]
      by (auto simp: run_tester_def NewCryptographicPayloadGenerator_def session_holds_def SubmitTesterResult_def put_session_def
          store_payload_def mget_mput Let_def fst_set_mput wf_mput)
  qed
qed

lemma run_testers_hold:
  "session_holds i c k Q psm \<Longrightarrow> \<forall>u \<in> set us. tu_tester u \<in> set c \<and> good_run Q u \<Longrightarrow>
   session_holds i c (k \<union> tu_tester ` {u \<in> set us. is_ok (tu_rand u)}) Q (fold (run_tester keystream dec i) us psm)"
proof (induction us arbitrary: k psm)
  case (Cons u us)
  have "session_holds i c (if is_ok (tu_rand u) then insert (tu_tester u) k else k) Q (run_tester keystream dec i u psm)"
    using Cons.prems by (intro run_tester_holds) simp_all
  moreover have "(if is_ok (tu_rand u) then insert (tu_tester u) k else k) \<union> tu_tester ` {u \<in> set us. is_ok (tu_rand u)} =
    k \<union> tu_tester ` {v \<in> set (u # us). is_ok (tu_rand v)}" by auto
  ultimately show ?case using Cons.IH Cons.prems(2) by fastforce
qed simp

lemma initiated_holds:
  assumes "InitiateP2PSpeedTest inp c vs psm = (psm1, Inr session)"
  shows "session_holds (ps_SessionID session) (ps_CommitteeTesters session) {} Q psm1"
  using assms by (auto simp: InitiateP2PSpeedTest_def session_holds_def mget_mput Let_def split: sum.splits if_splits)

lemma zk_keeps: "fold (run_tester keystream dec i) us psm = psm' \<Longrightarrow> pm_zkSystem psm' = pm_zkSystem psm"
  by (induction us arbitrary: psm)
    (auto simp: run_tester_def SubmitTesterResult_def put_session_def Let_def split: option.splits sum.splits prod.splits)


lemma holds_and:
  "session_holds i c k Q psm \<Longrightarrow> session_holds i c' k' R psm \<Longrightarrow> session_holds i c k (\<lambda>r. Q r \<and> R r) psm"
  by (auto simp: session_holds_def)

lemma aggregate_ok:
  assumes "session_holds i c k valid_result psm" "2 \<le> card k" "pm_zkSystem psm = None"
  shows "\<exists>r. AggregateP2PResults now i psm = Inr r"
proof -
  obtain session where s: "mget (pm_activeSessions psm) i = Some session"
    "wf_map (ps_TesterResults session)" "fst ` set (ps_TesterResults session) = k" "\<forall>(t, r) \<in> set (ps_TesterResults session). valid_result r"
    using assms(1) by (auto simp: session_holds_def)
  have "filter valid_result (map snd (ps_TesterResults session)) = map snd (ps_TesterResults session)"
    using s(4) by (auto simp: filter_id_conv)
  moreover have "length (ps_TesterResults session) = card k" using s(2,3) mlen_dom by (metis mlen_def)
  ultimately show ?thesis using s(1) assms(2,3) by (auto simp: AggregateP2PResults_def Let_def)
qed

lemma aggregate_constant:
  assumes "session_holds i c k constant_result psm" "AggregateP2PResults now i psm = Inr r"
  shows "f_lt (CalculatePoBScore [r]) MinPoBScore"
proof -
  obtain session rs where s: "mget (pm_activeSessions psm) i = Some session"
    "rs = filter valid_result (map snd (ps_TesterResults session))" "2 \<le> length rs"
    "pt_UploadBandwidth r = calculateMedian (map sr_UploadBandwidth rs)" "pt_Latency r = calculateMedian (map sr_Latency rs)"
    "pt_PacketLoss r = calculateMedian (map sr_PacketLoss rs)"
    by (rule aggregate_result [OF assms(2)])
  have ne: "rs \<noteq> []" using s(3) by auto
  have all: "\<forall>x \<in> set rs. constant_result x" using assms(1) s(1,2) by (auto simp: session_holds_def)
  have "pt_Latency r = Fin 50"
    unfolding s(5) using all ne by (intro median_closed [where P = "\<lambda>x. x = Fin 50"]) (auto simp: constant_result_def)
  moreover have "pt_PacketLoss r = half_tenth"
    unfolding s(6) using all ne half_tenth_mean
    by (intro median_closed [where P = "\<lambda>x. x = half_tenth"]) (auto simp: constant_result_def)
  moreover have "nonneg (pt_UploadBandwidth r)"
    unfolding s(4) using all ne by (intro median_closed [where P = nonneg]) (auto simp: constant_result_def intro: f_div_nonneg nonneg_add)
  ultimately show ?thesis by (rule aggregated_score)
qed

lemma good_constant: "0 \<le> tu_uploadTime u \<Longrightarrow> good_run constant_result u"
  using lit_twentieth rate_nonneg [of "tu_uploadTime u"]
  by (simp add: good_run_def tester_result_def constant_result_def half_tenth_def split: prod.split)

text \<open>
  C22: No run of the speed test gives a score of at least 0.85, the score that activation asks for, however
  fast the uploads are: the testers report a constant packet loss of 0.05 per cent, which costs half of
  the third metric. A validator that has been tested is not activated at any time.
\<close>

theorem speed_test_below_minimum:
  assumes laws: "state_laws so" and mono: "\<forall>u \<in> set runs. 0 \<le> tu_uploadTime u"
    and run: "RunP2PSpeedTest so keystream dec inp runs now candidateID psm st = (psm', st', Inr score)"
  shows "f_lt score MinPoBScore \<and>
    (\<forall>info. so_validator so st candidateID = Inr info \<longrightarrow>
      (\<exists>info'. so_validator so st' candidateID = Inr info' \<and> v_PoBScore info' = score \<and> (\<forall>t. \<not> may_activate t info')))"
proof -
  obtain psm1 session where i: "InitiateP2PSpeedTest inp candidateID (so_active so st) psm = (psm1, Inr session)"
    using run by (auto simp: RunP2PSpeedTest_def split: prod.splits sum.splits)
  let ?us = "filter (\<lambda>u. tu_tester u \<in> set (ps_CommitteeTesters session)) runs"
  let ?psm2 = "fold (run_tester keystream dec (ps_SessionID session)) ?us psm1"
  obtain r where r: "AggregateP2PResults now (ps_SessionID session) ?psm2 = Inr r" "score = CalculatePoBScore [r]"
    "st' = (case so_validator so st candidateID of Inl _ \<Rightarrow> st | Inr info \<Rightarrow> so_put_validator so (pob_update r now info) st)"
    using run i by (auto simp: RunP2PSpeedTest_def Let_def split: sum.splits fail.splits if_splits)
  have "session_holds (ps_SessionID session) (ps_CommitteeTesters session) ({} \<union> tu_tester ` {u \<in> set ?us. is_ok (tu_rand u)}) constant_result ?psm2"
    using mono good_constant by (intro run_testers_hold initiated_holds [OF i]) auto
  from aggregate_constant [OF this r(1)] have low: "f_lt score MinPoBScore" by (simp add: r(2))
  then have "\<not> f_le MinPoBScore score" unfolding MinPoBScore_def lit_85 by (cases score) (auto simp: f_le_def)
  then show ?thesis
    using low state_ids(1) [OF laws] by (auto simp: r(3) state_put_validator [OF laws] pob_update_def r(2) may_activate_def)
qed

definition demo_testers :: "string list" where
  "demo_testers = [''tester-01'', ''tester-02'', ''tester-03'', ''tester-04'', ''tester-05'']"

definition demo_run :: "string \<Rightarrow> tester_run" where
  "demo_run t = \<lparr>tu_tester = t, tu_rand = Inr [], tu_chunks = replicate NumChunks 0, tu_uploadTime = second, tu_now = 0\<rparr>"

definition demo_pool :: mem_state where
  "demo_pool = \<lparr>mst_validators = map (\<lambda>t. (t, demo_info\<lparr>v_ID := t\<rparr>)) demo_testers, mst_accounts = []\<rparr>"

lemma same_times_valid: "sequence_anomalies i t (replicate n t) = []"
  by (induction n arbitrary: i) (simp_all add: time_sub_def min_duration_def max_duration_def second_def Let_def)

lemma demo_run_valid: "good_run valid_result (demo_run t)"
proof -
  have "VerifyChunkSequence (replicate NumChunks 0) = (True, [])"
    using same_times_valid [of "Suc 0" 0 15] replicate_Suc [of 15 "0 :: gotime"]
    by (simp add: VerifyChunkSequence_def NumChunks_def PayloadSize_def ChunkSize_def Let_def del: replicate_Suc split: list.split)
  then show ?thesis by (simp add: good_run_def tester_result_def demo_run_def valid_result_def)
qed

lemma distinct_submset:
  assumes "distinct ys" "mset xs \<subseteq># mset ys"
  shows "distinct xs"
proof -
  obtain zs where "mset zs = mset ys - mset xs" by (metis ex_mset)
  then have "mset (xs @ zs) = mset ys" using assms(2) by (simp add: subset_mset.add_diff_inverse)
  then have "distinct (xs @ zs)" using assms(1) mset_eq_imp_distinct_iff by blast
  then show ?thesis by simp
qed

lemma demo_speed_test:
  "\<exists>psm' st' score. RunP2PSpeedTest mem_state_ops keystream dec demo_input (map demo_run demo_testers) 0 ''candidate''
     (NewP2PSpeedTestManager (Inl (Error []))) demo_pool = (psm', st', Inr score)"
proof -
  have act: "so_active mem_state_ops demo_pool = demo_testers"
    by (simp add: mem_state_ops_def demo_pool_def demo_testers_def mkeep_def demo_info_def)
  have others: "filter (\<lambda>v. v \<noteq> ''candidate'') demo_testers = demo_testers" by (simp add: demo_testers_def)
  have len5: "length demo_testers = 5" by (simp add: demo_testers_def)
  obtain p where p: "selectCommitteeTesters ''candidate'' demo_testers CommitteeSize (in_seed_clock demo_input) = Inr p"
    "mset p \<subseteq># mset demo_testers" "length p = 3"
    using committee_cases [of "''candidate''" demo_testers "in_seed_clock demo_input"] len5 unfolding others by auto
  then obtain psm1 session where i: "InitiateP2PSpeedTest demo_input ''candidate'' demo_testers (NewP2PSpeedTestManager (Inl (Error []))) = (psm1, Inr session)"
    "ps_CommitteeTesters session = p" "pm_zkSystem psm1 = None"
    by (auto simp: InitiateP2PSpeedTest_def CommitteeSize_def demo_input_def NewP2PSpeedTestManager_def Let_def)
  let ?us = "filter (\<lambda>u. tu_tester u \<in> set (ps_CommitteeTesters session)) (map demo_run demo_testers)"
  let ?psm2 = "fold (run_tester keystream dec (ps_SessionID session)) ?us psm1"
  have sub: "set p \<subseteq> set demo_testers" using p(2) by (metis mset_subset_eqD set_mset_mset subsetI)
  have "distinct demo_testers" by (simp add: demo_testers_def)
  then have "distinct p" using p(2) by (rule distinct_submset)
  then have "card (set p) = 3" using p(3) by (simp add: distinct_card)
  have keys: "{} \<union> tu_tester ` {u \<in> set ?us. is_ok (tu_rand u)} = set p" using sub i(2) by (force simp: demo_run_def)
  have "session_holds (ps_SessionID session) (ps_CommitteeTesters session) (set p) valid_result ?psm2"
    unfolding keys [symmetric] using demo_run_valid by (intro run_testers_hold initiated_holds [OF i(1)]) auto
  then obtain r where r: "AggregateP2PResults 0 (ps_SessionID session) ?psm2 = Inr r"
    using aggregate_ok [of _ _ "set p" ?psm2] \<open>card (set p) = 3\<close> zk_keeps [OF refl] i(3) by fastforce
  have "\<not> (\<exists>t \<in> set (ps_CommitteeTesters session). length t < 8)" using sub i(2) by (auto simp: demo_testers_def)
  then show ?thesis using i(1) r by (simp add: RunP2PSpeedTest_def act slice_to_def Let_def)
qed

theorem speed_test_below_minimum_witness:
  "\<exists>psm' st' score. RunP2PSpeedTest mem_state_ops (\<lambda>_ _. []) (\<lambda>_. []) demo_input (map demo_run demo_testers) 0 ''candidate''
     (NewP2PSpeedTestManager (Inl (Error []))) demo_pool = (psm', st', Inr score) \<and> f_lt score MinPoBScore"
proof -
  obtain psm' st' score where run: "RunP2PSpeedTest mem_state_ops (\<lambda>_ _. []) (\<lambda>_. []) demo_input (map demo_run demo_testers) 0 ''candidate''
     (NewP2PSpeedTestManager (Inl (Error []))) demo_pool = (psm', st', Inr score)"
    using demo_speed_test by metis
  have "\<forall>u \<in> set (map demo_run demo_testers). 0 \<le> tu_uploadTime u" by (simp add: demo_run_def second_def)
  from speed_test_below_minimum [OF mem_state_laws this run] run show ?thesis by blast
qed

end
