(* ===== verification/Proposer.thy ===== *)
theory Proposer
  imports Core_Types Exchange_Sort
begin

text \<open>
  Proposer and committee selection (\<open>pkg/consensus/vrf.go\<close>, \<open>pkg/consensus/vrf_secure.go\<close>).

  A hash is read as a natural number (\<open>big.Int.SetBytes\<close>). The functions of the VRF package
  \<open>github.com/yahoo/coname/vrf\<close> and the random reader are parameters. The search for the lowest
  value starts, in all three selection functions, from \<open>SetBytes(make([]byte, 32))\<close>, which is 0;
  the loop that is to raise it writes to copies of its empty byte representation. The variable
  \<open>maxPoBScore\<close> of the code is never read and has no counterpart.
\<close>

section \<open>Selection of the proposer\<close>

type_synonym VRFSystem = bytes

definition NewVRFSystem :: "(nat \<Rightarrow> bytes res) \<Rightarrow> VRFSystem res" where
  "NewVRFSystem rand_read = rand_read 32"

definition GenerateVRF :: "VRFSystem \<Rightarrow> bytes \<Rightarrow> nat" where
  "GenerateVRF seed input = be_val (sha256 (seed @ input))"

text \<open>The initial lowest value.\<close>

definition lowest_start :: int where
  "lowest_start = int (be_val (replicate 32 0))"

text \<open>The loop of the three functions; \<open>value v\<close> is what they compute for the validator \<open>v\<close>.\<close>

fun lowest_loop :: "(string \<Rightarrow> int res) \<Rightarrow> string list \<Rightarrow> int \<times> string \<Rightarrow> string res" where
  "lowest_loop value [] (lowest, selected) = Inr selected"
| "lowest_loop value (v # vs) (lowest, selected) =
     (case value v of
        Inl e \<Rightarrow> Inl e
      | Inr x \<Rightarrow> lowest_loop value vs (if x < lowest then (x, v) else (lowest, selected)))"

definition SelectProposerVRF :: "bytes \<Rightarrow> string list \<Rightarrow> VRFSystem \<Rightarrow> string res" where
  "SelectProposerVRF blockHash validators vrfSys =
     (case validators of
        [] \<Rightarrow> Inr []
      | v0 # _ \<Rightarrow> lowest_loop (\<lambda>v. Inr (int (GenerateVRF vrfSys (blockHash @ bytes_of v)))) validators (lowest_start, v0))"

text \<open>A missing key reads as the empty slice, so appending it changes nothing.\<close>

definition proposer_hash :: "bytes \<Rightarrow> (string, bytes) gomap \<Rightarrow> string \<Rightarrow> nat" where
  "proposer_hash seed keys v = be_val (sha256 (seed @ bytes_of v @ (case mget keys v of None \<Rightarrow> [] | Some k \<Rightarrow> k)))"

definition DeterministicSelectProposer :: "bytes \<Rightarrow> string list \<Rightarrow> (string, bytes) gomap \<Rightarrow> string res" where
  "DeterministicSelectProposer seed validators keys =
     (case validators of
        [] \<Rightarrow> Inl (Error ''no validators available'')
      | v0 # _ \<Rightarrow> lowest_loop (\<lambda>v. Inr (int (proposer_hash seed keys v))) validators (lowest_start, v0))"

text \<open>
  \<open>big.Float\<close>: \<open>SetInt\<close> takes the larger of the bit length and 64 as precision, \<open>Mul\<close> rounds to
  nearest even at the larger precision of its arguments, \<open>Int\<close> truncates. \<open>NewFloat\<close> panics on
  NaN, and \<open>Int\<close> of an infinity is nil, which the comparison dereferences.
\<close>

definition round_prec :: "int \<Rightarrow> rat \<Rightarrow> rat" where
  "round_prec p x = (if x = 0 then 0 else let u = pow2 (expo x - p + 1) in of_int (round_even (x / u)) * u)"

definition weighted_hash :: "nat \<Rightarrow> f64 \<Rightarrow> int res" where
  "weighted_hash h w = (case w of
       Fin q \<Rightarrow> Inr (trunc_rat (round_prec (max 64 (ilog2 (int h) + 1)) (of_nat h * q)))
     | _ \<Rightarrow> Inl (Panic ''nil or NaN big.Float''))"

definition effective_score :: "(string, f64) gomap \<Rightarrow> string \<Rightarrow> f64" where
  "effective_score scores v = (let s = (case mget scores v of None \<Rightarrow> Fin 0 | Some s \<Rightarrow> s)
     in if f_eq s (Fin 0) then f_lit (1 / 2) else s)"

definition weight_factor :: "f64 \<Rightarrow> f64" where
  "weight_factor s = (if f_lt s (f_lit (1 / 10)) then f_lit 10 else f_sub (f_lit 2) s)"

definition PoBWeightedSelectProposer ::
  "bytes \<Rightarrow> string list \<Rightarrow> (string, bytes) gomap \<Rightarrow> (string, f64) gomap \<Rightarrow> string res" where
  "PoBWeightedSelectProposer seed validators keys scores =
     (case validators of
        [] \<Rightarrow> Inl (Error ''no validators available'')
      | v0 # _ \<Rightarrow> lowest_loop (\<lambda>v. weighted_hash (proposer_hash seed keys v)
          (weight_factor (effective_score scores v))) validators (lowest_start, v0))"

definition SecureSelectProposer :: "bytes \<Rightarrow> string list \<Rightarrow> (string, bytes) gomap \<Rightarrow> string res" where
  "SecureSelectProposer blockHash validators keys = DeterministicSelectProposer blockHash validators keys"

definition GenerateProposerSeed :: "u64 \<Rightarrow> bytes \<Rightarrow> bytes" where
  "GenerateProposerSeed blockHeight previousBlockHash = previousBlockHash @ put_u64 blockHeight"

section \<open>Test committees\<close>

text \<open>\<open>make\<close> with a negative capacity panics. The loop of \<open>SelectTestCommittee\<close> may not end.\<close>

partial_function (option) committee_loop ::
  "string \<Rightarrow> string list \<Rightarrow> int \<Rightarrow> bytes \<Rightarrow> nat list \<Rightarrow> string list \<Rightarrow> string list option" where
  "committee_loop candidateID validators cnt hash used selected =
     (if int (length selected) < cnt \<and> length selected < length validators then
        (let index = be_val hash mod length validators in
         if index \<notin> set used \<and> validators ! index \<noteq> candidateID
         then committee_loop candidateID validators cnt (sha256 hash) (index # used) (selected @ [validators ! index])
         else committee_loop candidateID validators cnt (sha256 hash) used selected)
      else Some selected)"

definition SelectTestCommittee :: "string \<Rightarrow> bytes \<Rightarrow> string list \<Rightarrow> int \<Rightarrow> string list res option" where
  "SelectTestCommittee candidateID blockHash validators cnt =
     (let cnt' = min cnt (int (length validators)) in
      if cnt' < 0 then Some (Inl (Panic ''makeslice: cap out of range''))
      else map_option Inr
        (committee_loop candidateID validators cnt' (sha256 (blockHash @ bytes_of candidateID)) [] []))"

definition committee_score :: "string \<Rightarrow> bytes \<Rightarrow> string \<Rightarrow> nat" where
  "committee_score candidateID blockHash v = be_val (sha256 (blockHash @ bytes_of (candidateID @ v)))"

definition higher_score :: "string \<times> nat \<Rightarrow> string \<times> nat \<Rightarrow> bool" where
  "higher_score a b = (snd a > snd b)"

definition SecureSelectTestCommittee :: "string \<Rightarrow> bytes \<Rightarrow> string list \<Rightarrow> int \<Rightarrow> string list res" where
  "SecureSelectTestCommittee candidateID blockHash validators cnt =
     (let cnt' = min cnt (int (length validators));
          scores = map (\<lambda>v. (v, committee_score candidateID blockHash v)) (filter (\<lambda>v. v \<noteq> candidateID) validators)
      in if cnt' < 0 then Inl (Panic ''makeslice: cap out of range'')
         else Inr (map fst (take (nat cnt') (exchange_sort higher_score scores))))"

definition GenerateVRFProof :: "bytes \<Rightarrow> string" where
  "GenerateVRFProof input = hex (sha256 input)"

section \<open>The VRF package\<close>

record vrf_lib =
  vrf_generate_key :: "(bytes \<times> bytes) res"
  vrf_prove :: "bytes \<Rightarrow> bytes \<Rightarrow> bytes \<times> bytes"
  vrf_verify :: "bytes \<Rightarrow> bytes \<Rightarrow> bytes \<Rightarrow> bytes \<Rightarrow> bool"

record SecureVRFSystem =
  svs_privateKey :: bytes
  svs_publicKey :: bytes

record VRFOutput =
  vo_Value :: bytes
  vo_Proof :: bytes

definition NewSecureVRFSystem :: "vrf_lib \<Rightarrow> SecureVRFSystem res" where
  "NewSecureVRFSystem lib = (case vrf_generate_key lib of
       Inl (Panic p) \<Rightarrow> Inl (Panic p)
     | Inl (Error _) \<Rightarrow> Inl (Error ''failed to generate VRF keys'')
     | Inr (pubKey, privKey) \<Rightarrow> Inr \<lparr>svs_privateKey = privKey, svs_publicKey = pubKey\<rparr>)"

definition SecureVRF_Generate :: "vrf_lib \<Rightarrow> SecureVRFSystem \<Rightarrow> bytes \<Rightarrow> VRFOutput res" where
  "SecureVRF_Generate lib v input = (case vrf_prove lib input (svs_privateKey v) of
       (vrfOutput, proof) \<Rightarrow> Inr \<lparr>vo_Value = vrfOutput, vo_Proof = proof\<rparr>)"

definition SecureVRF_Verify :: "vrf_lib \<Rightarrow> bytes \<Rightarrow> VRFOutput \<Rightarrow> bytes \<Rightarrow> bool" where
  "SecureVRF_Verify lib input output pubKey = vrf_verify lib pubKey input (vo_Value output) (vo_Proof output)"

definition VerifyVRFWithPublicKey :: "vrf_lib \<Rightarrow> bytes \<Rightarrow> bytes \<Rightarrow> bytes \<Rightarrow> bytes \<Rightarrow> bool" where
  "VerifyVRFWithPublicKey lib input vrfOutput proof pubKey = vrf_verify lib pubKey input vrfOutput proof"

definition GetPublicKey :: "SecureVRFSystem \<Rightarrow> bytes" where
  "GetPublicKey v = svs_publicKey v"

section \<open>The first validator is always the proposer\<close>

lemma lowest_start_0: "lowest_start = 0"
  by (simp add: lowest_start_def)

lemma lowest_loop_first:
  "\<forall>v \<in> set vs. \<exists>x. value v = Inr x \<and> 0 \<le> x \<Longrightarrow> lowest_loop value vs (lowest_start, s) = Inr s"
  by (induction vs) (auto simp: lowest_start_0)

lemma round_prec_nonneg: "0 \<le> x \<Longrightarrow> 0 \<le> round_prec p x"
  by (simp add: round_prec_def Let_def round_even_nonneg)

lemma weighted_hash_nonneg: "0 \<le> q \<Longrightarrow> \<exists>x. weighted_hash h (Fin q) = Inr x \<and> 0 \<le> x"
  using round_prec_nonneg [of "of_nat h * q" "max 64 (ilog2 (int h) + 1)"]
  by (simp add: weighted_hash_def trunc_rat_def)

lemma rnd_unit_interval: "0 \<le> q \<Longrightarrow> q \<le> 2 \<Longrightarrow> \<exists>y. rnd q = Fin y \<and> 0 \<le> y"
  using rnd_between [of 0 2 q] by auto

lemma weight_factor_nonneg: "q \<le> 2 \<Longrightarrow> \<exists>w. weight_factor (Fin q) = Fin w \<and> 0 \<le> w"
proof (cases "f_lt (Fin q) (f_lit (1 / 10))")
  case True
  then show ?thesis using rnd_int [of 10] by (simp add: weight_factor_def)
next
  case False
  moreover assume "q \<le> 2"
  moreover obtain y where "rnd (1 / 10) = Fin y" "0 \<le> y" using rnd_unit_interval [of "1 / 10"] by auto
  ultimately have "0 \<le> 2 - q" "2 - q \<le> 2" by auto
  then show ?thesis using False rnd_unit_interval [of "2 - q"] rnd_int [of 2] by (simp add: weight_factor_def f_sub_def)
qed

definition score_ok :: "(string, f64) gomap \<Rightarrow> string \<Rightarrow> bool" where
  "score_ok scores v = (case mget scores v of None \<Rightarrow> True | Some (Fin q) \<Rightarrow> q \<le> 2 | _ \<Rightarrow> False)"

lemma effective_score_le: "score_ok scores v \<Longrightarrow> \<exists>q. effective_score scores v = Fin q \<and> q \<le> 2"
proof -
  obtain y where "rnd (1 / 2) = Fin y" "y \<le> 1" using rnd_between [of 0 1 "1 / 2"] by auto
  then show "score_ok scores v \<Longrightarrow> \<exists>q. effective_score scores v = Fin q \<and> q \<le> 2"
    by (auto simp: score_ok_def effective_score_def Let_def split: option.splits f64.splits)
qed

lemma weighted_first:
  assumes "\<forall>v \<in> set (v0 # vs). score_ok scores v"
  shows "PoBWeightedSelectProposer seed (v0 # vs) keys scores = Inr v0"
proof -
  have "\<exists>x. weighted_hash h (weight_factor (effective_score scores v)) = Inr x \<and> 0 \<le> x"
    if v: "v \<in> set (v0 # vs)" for h v
  proof -
    obtain q where q: "effective_score scores v = Fin q" "q \<le> 2" using effective_score_le assms v by blast
    obtain w where "weight_factor (Fin q) = Fin w" "0 \<le> w" using weight_factor_nonneg [OF q(2)] by blast
    then show ?thesis using weighted_hash_nonneg q by simp
  qed
  then show ?thesis unfolding PoBWeightedSelectProposer_def list.case by (intro lowest_loop_first) blast
qed

text \<open>
  Whatever the seed, the keys and the scores up to 2, every selection function of the node
  returns the first validator of its list: no hash is below the initial value 0.
\<close>

theorem proposer_is_first:
  assumes "\<forall>v \<in> set (v0 # vs). score_ok scores v"
  shows "SelectProposerVRF blockHash (v0 # vs) vrfSys = Inr v0 \<and>
    DeterministicSelectProposer seed (v0 # vs) keys = Inr v0 \<and>
    SecureSelectProposer seed (v0 # vs) keys = Inr v0 \<and>
    PoBWeightedSelectProposer seed (v0 # vs) keys scores = Inr v0"
proof -
  have "SelectProposerVRF blockHash (v0 # vs) vrfSys = Inr v0"
    "DeterministicSelectProposer seed (v0 # vs) keys = Inr v0"
    unfolding SelectProposerVRF_def DeterministicSelectProposer_def list.case by (intro lowest_loop_first; simp)+
  then show ?thesis using weighted_first [OF assms] by (simp add: SecureSelectProposer_def)
qed

theorem proposer_is_first_witness:
  "PoBWeightedSelectProposer [1] [''b'', ''a''] [] [(''a'', Fin 1)] = Inr ''b''"
  by (rule proposer_is_first [of "''b''" "[''a'']" "[(''a'', Fin 1)]" "[]" "[]" "[1]" "[]", THEN conjunct2, THEN conjunct2, THEN conjunct2])
    (simp add: score_ok_def)

section \<open>Committees\<close>

definition picked :: "string \<Rightarrow> string list \<Rightarrow> nat list \<Rightarrow> string list \<Rightarrow> bool" where
  "picked c vs js sel = (distinct js \<and> (\<forall>i \<in> set js. i < length vs \<and> vs ! i \<noteq> c) \<and> sel = map ((!) vs) (rev js))"

lemma picked_step: "picked c vs js sel \<Longrightarrow> i < length vs \<Longrightarrow> i \<notin> set js \<Longrightarrow> vs ! i \<noteq> c \<Longrightarrow>
   picked c vs (i # js) (sel @ [vs ! i])"
  by (simp add: picked_def)

text \<open>The positions of other validators that the iterated hash ever names, and those it names in the first \<open>m\<close> rounds.\<close>

definition hash_hits :: "string \<Rightarrow> string list \<Rightarrow> bytes \<Rightarrow> nat set" where
  "hash_hits c vs h = {i. i < length vs \<and> vs ! i \<noteq> c \<and> (\<exists>k. i = be_val ((sha256 ^^ k) h) mod length vs)}"

definition hash_hits_in :: "string \<Rightarrow> string list \<Rightarrow> bytes \<Rightarrow> nat \<Rightarrow> nat set" where
  "hash_hits_in c vs h m = {i. i < length vs \<and> vs ! i \<noteq> c \<and> (\<exists>k < m. i = be_val ((sha256 ^^ k) h) mod length vs)}"

lemma hash_hits_step: "hash_hits c vs (sha256 h) \<subseteq> hash_hits c vs h"
proof
  fix i assume i: "i \<in> hash_hits c vs (sha256 h)"
  then obtain k where "i = be_val ((sha256 ^^ k) (sha256 h)) mod length vs" unfolding hash_hits_def by blast
  then have "i = be_val ((sha256 ^^ Suc k) h) mod length vs" by (simp only: funpow_Suc_right comp_apply)
  with i show "i \<in> hash_hits c vs h" unfolding hash_hits_def by blast
qed

lemma hash_hits_now:
  assumes "be_val h mod length vs < length vs" "vs ! (be_val h mod length vs) \<noteq> c" shows "be_val h mod length vs \<in> hash_hits c vs h"
proof -
  have "be_val h mod length vs = be_val ((sha256 ^^ 0) h) mod length vs" by simp
  with assms show ?thesis unfolding hash_hits_def by blast
qed

lemma hash_hits_in_Suc: "hash_hits_in c vs h (Suc m) \<subseteq> hash_hits_in c vs (sha256 h) m \<union>
   {i. i = be_val h mod length vs \<and> vs ! i \<noteq> c}"
proof
  fix i assume i: "i \<in> hash_hits_in c vs h (Suc m)"
  then obtain k where k: "k < Suc m" "i = be_val ((sha256 ^^ k) h) mod length vs" by (auto simp: hash_hits_in_def)
  show "i \<in> hash_hits_in c vs (sha256 h) m \<union> {i. i = be_val h mod length vs \<and> vs ! i \<noteq> c}"
  proof (cases k)
    case (Suc k')
    then have "k' < m" "i = be_val ((sha256 ^^ k') (sha256 h)) mod length vs" using k by (simp_all add: funpow_swap1)
    then have "\<exists>k < m. i = be_val ((sha256 ^^ k) (sha256 h)) mod length vs" by blast
    then show ?thesis using i unfolding hash_hits_in_def by blast
  qed (use i k in \<open>simp add: hash_hits_in_def\<close>)
qed

lemma finite_hash_hits: "finite (hash_hits c vs h)" "finite (hash_hits_in c vs h m)"
  by (simp_all add: hash_hits_def hash_hits_in_def)

lemma hash_hits_bounded: "\<exists>m. hash_hits c vs h \<subseteq> hash_hits_in c vs h m"
proof -
  have "\<forall>i \<in> hash_hits c vs h. \<exists>k. i = be_val ((sha256 ^^ k) h) mod length vs" by (auto simp: hash_hits_def)
  then obtain f where f: "\<forall>i \<in> hash_hits c vs h. i = be_val ((sha256 ^^ f i) h) mod length vs" by metis
  have bound: "f i < Suc (Max (f ` hash_hits c vs h))" if "i \<in> hash_hits c vs h" for i
    using that finite_hash_hits(1) by (simp add: le_imp_less_Suc)
  have "i \<in> hash_hits_in c vs h (Suc (Max (f ` hash_hits c vs h)))" if i: "i \<in> hash_hits c vs h" for i
  proof -
    have "\<exists>k < Suc (Max (f ` hash_hits c vs h)). i = be_val ((sha256 ^^ k) h) mod length vs" using bound [OF i] f i by blast
    then show ?thesis using i unfolding hash_hits_def hash_hits_in_def by blast
  qed
  then show ?thesis by blast
qed

text \<open>The loop returns once the hash has named enough positions, and never returns without.\<close>

lemma committee_loop_returns:
  "picked c vs js sel \<Longrightarrow> n \<le> int (card (set js \<union> hash_hits_in c vs h m)) \<Longrightarrow> \<exists>r. committee_loop c vs n h js sel = Some r"
proof (induction m arbitrary: h js sel)
  case 0
  then have "n \<le> int (length sel)" by (simp add: picked_def hash_hits_in_def distinct_card)
  then show ?case by (subst committee_loop.simps) simp
next
  case (Suc m)
  show ?case
  proof (cases "int (length sel) < n \<and> length sel < length vs")
    case True
    let ?i = "be_val h mod length vs"
    have i: "?i < length vs" using True by (cases vs) auto
    have fin: "finite (set js' \<union> hash_hits_in c vs (sha256 h) m)" for js' by (simp add: finite_hash_hits)
    show ?thesis
    proof (cases "?i \<notin> set js \<and> vs ! ?i \<noteq> c")
      case pick: True
      have sub: "set js \<union> hash_hits_in c vs h (Suc m) \<subseteq> set (?i # js) \<union> hash_hits_in c vs (sha256 h) m" using hash_hits_in_Suc by fastforce
      have "n \<le> int (card (set (?i # js) \<union> hash_hits_in c vs (sha256 h) m))"
        by (rule order_trans [OF Suc.prems(2)]) (use card_mono [OF fin sub] in simp)
      from Suc.IH [OF picked_step [OF Suc.prems(1) i] this] pick show ?thesis
        using True by (subst committee_loop.simps) (simp add: Let_def)
    next
      case False
      then have sub: "set js \<union> hash_hits_in c vs h (Suc m) \<subseteq> set js \<union> hash_hits_in c vs (sha256 h) m" using hash_hits_in_Suc by fastforce
      have "n \<le> int (card (set js \<union> hash_hits_in c vs (sha256 h) m))"
        by (rule order_trans [OF Suc.prems(2)]) (use card_mono [OF fin sub] in simp)
      from Suc.IH [OF Suc.prems(1) this] False show ?thesis
        using True by (subst committee_loop.simps) (auto simp: Let_def)
    qed
  qed (subst committee_loop.simps, simp only: if_False, blast)
qed

definition committee_result :: "string \<Rightarrow> string list \<Rightarrow> int \<Rightarrow> bytes \<Rightarrow> nat list \<Rightarrow> string list \<Rightarrow> string list \<Rightarrow> bool" where
  "committee_result c vs n h js sel r = (picked c vs js sel \<longrightarrow> n \<le> int (length vs) \<longrightarrow>
     (\<exists>js'. picked c vs js' r \<and> n \<le> int (length r) \<and> int (length r) \<le> max n (int (length sel)) \<and> set js' \<subseteq> set js \<union> hash_hits c vs h))"

lemma committee_loop_result:
  assumes "committee_loop c vs n h js sel = Some r"
  shows "committee_result c vs n h js sel r"
proof (rule committee_loop.raw_induct [where P = committee_result, OF _ assms])
  fix loop c vs n h js sel r
  assume IH: "\<And>c vs n h js sel r. loop c vs n h js sel = Some r \<Longrightarrow> committee_result c vs n h js sel r"
    and body: "(if int (length sel) < n \<and> length sel < length vs then
        (let index = be_val h mod length vs in
         if index \<notin> set js \<and> vs ! index \<noteq> c then loop c vs n (sha256 h) (index # js) (sel @ [vs ! index])
         else loop c vs n (sha256 h) js sel)
      else Some sel) = Some r"
  show "committee_result c vs n h js sel r"
  proof (cases "int (length sel) < n \<and> length sel < length vs")
    case True
    let ?i = "be_val h mod length vs"
    have i: "?i < length vs" using True by (cases vs) auto
    show ?thesis
    proof (cases "?i \<notin> set js \<and> vs ! ?i \<noteq> c")
      case pick: True
      have "loop c vs n (sha256 h) (?i # js) (sel @ [vs ! ?i]) = Some r" using body True pick by (simp add: Let_def)
      from IH [OF this] have "picked c vs js sel \<Longrightarrow> n \<le> int (length vs) \<Longrightarrow> \<exists>js'. picked c vs js' r \<and> n \<le> int (length r) \<and>
          int (length r) \<le> max n (int (length (sel @ [vs ! ?i]))) \<and> set js' \<subseteq> set (?i # js) \<union> hash_hits c vs (sha256 h)"
        using picked_step [OF _ i, of c js sel] pick unfolding committee_result_def by blast
      moreover have "set (?i # js) \<union> hash_hits c vs (sha256 h) \<subseteq> set js \<union> hash_hits c vs h" using hash_hits_step hash_hits_now [OF i] pick by fastforce
      moreover have "max n (int (length (sel @ [vs ! ?i]))) \<le> max n (int (length sel))" using True by simp
      ultimately show ?thesis unfolding committee_result_def by (meson order_trans)
    next
      case False
      then have "loop c vs n (sha256 h) js sel = Some r" using body True by (auto simp: Let_def)
      from IH [OF this] show ?thesis using hash_hits_step [of c vs h] unfolding committee_result_def by (meson Un_mono order_refl order_trans)
    qed
  next
    case False
    then have "r = sel" using body unfolding if_not_P [OF False] by simp
    then show ?thesis using False by (auto simp: committee_result_def)
  qed
qed

lemma picked_length:
  assumes "picked c vs js sel"
  shows "length sel \<le> length (filter (\<lambda>v. v \<noteq> c) vs)" and "c \<notin> set sel" and "mset sel \<subseteq># mset (filter (\<lambda>v. v \<noteq> c) vs)"
proof -
  have sub: "set js \<subseteq> {i. i < length vs \<and> vs ! i \<noteq> c}" and d: "distinct js" and sel: "sel = map ((!) vs) (rev js)"
    using assms by (simp_all add: picked_def subset_iff)
  show "c \<notin> set sel" using sub unfolding sel by force
  have "mset_set (set js) \<subseteq># mset_set {i. i < length vs \<and> vs ! i \<noteq> c}"
    using sub by (intro subset_imp_msubset_mset_set) auto
  then have "image_mset ((!) vs) (mset_set (set js)) \<subseteq># image_mset ((!) vs) (mset_set {i. i < length vs \<and> vs ! i \<noteq> c})"
    by (rule image_mset_subseteq_mono)
  moreover have "image_mset ((!) vs) (mset_set (set js)) = mset sel"
    using d sel by (simp add: mset_set_set)
  moreover have "image_mset ((!) vs) (mset_set {i. i < length vs \<and> vs ! i \<noteq> c}) = mset (filter (\<lambda>v. v \<noteq> c) vs)"
  proof -
    have "filter (\<lambda>v. v \<noteq> c) vs = map ((!) vs) (filter (\<lambda>i. vs ! i \<noteq> c) [0..<length vs])"
      using filter_map [of "\<lambda>v. v \<noteq> c" "(!) vs" "[0..<length vs]"] unfolding map_nth comp_def .
    moreover have "mset (filter (\<lambda>i. vs ! i \<noteq> c) [0..<length vs]) = mset_set {i. i < length vs \<and> vs ! i \<noteq> c}"
      using mset_set_set [of "filter (\<lambda>i. vs ! i \<noteq> c) [0..<length vs]"] by (simp add: conj_commute)
    ultimately show ?thesis by simp
  qed
  ultimately show "mset sel \<subseteq># mset (filter (\<lambda>v. v \<noteq> c) vs)" by simp
  then show "length sel \<le> length (filter (\<lambda>v. v \<noteq> c) vs)"
    by (metis size_mset size_mset_mono)
qed

text \<open>
  C32: If SelectTestCommittee returns, it returns as many validators as requested and available (the smaller of the
  requested number and the length of the whole list), none of them the candidate. It returns exactly if the iterated
  hash ever names so many positions of validators other than the candidate. So it never returns when the list
  holds fewer others than that: when the candidate is on the list and the request is for the whole list or more. With a
  candidate that is not on the list a larger request may return the whole list.
\<close>

theorem committee_selection:
  assumes "0 \<le> cnt"
  shows "(case SelectTestCommittee candidateID blockHash validators cnt of
       Some (Inr r) \<Rightarrow> int (length r) = min cnt (int (length validators)) \<and>
         mset r \<subseteq># mset (filter (\<lambda>v. v \<noteq> candidateID) validators)
     | Some (Inl _) \<Rightarrow> False
     | None \<Rightarrow> int (card (hash_hits candidateID validators (sha256 (blockHash @ bytes_of candidateID)))) < min cnt (int (length validators))) \<and>
    (int (card (hash_hits candidateID validators (sha256 (blockHash @ bytes_of candidateID)))) < min cnt (int (length validators)) \<longrightarrow>
       SelectTestCommittee candidateID blockHash validators cnt = None) \<and>
    (length (filter (\<lambda>v. v \<noteq> candidateID) validators) < min (nat cnt) (length validators) \<longrightarrow>
       SelectTestCommittee candidateID blockHash validators cnt = None)"
proof -
  let ?n = "min cnt (int (length validators))" and ?h = "sha256 (blockHash @ bytes_of candidateID)"
  let ?loop = "committee_loop candidateID validators ?n ?h [] []"
  have sel: "SelectTestCommittee candidateID blockHash validators cnt = map_option Inr ?loop"
    using assms by (auto simp: SelectTestCommittee_def Let_def)
  have empty: "picked candidateID validators [] []" by (simp add: picked_def)
  have r: "int (length r) = ?n" "mset r \<subseteq># mset (filter (\<lambda>v. v \<noteq> candidateID) validators)"
      "length r \<le> length (filter (\<lambda>v. v \<noteq> candidateID) validators)" "?n \<le> int (card (hash_hits candidateID validators ?h))"
    if loop: "?loop = Some r" for r
  proof -
    obtain js where js: "picked candidateID validators js r" "?n \<le> int (length r)" "int (length r) \<le> max ?n 0"
      "set js \<subseteq> hash_hits candidateID validators ?h"
      using committee_loop_result [OF loop] empty by (auto simp: committee_result_def)
    show "mset r \<subseteq># mset (filter (\<lambda>v. v \<noteq> candidateID) validators)" "length r \<le> length (filter (\<lambda>v. v \<noteq> candidateID) validators)"
      using picked_length [OF js(1)] by blast+
    show len: "int (length r) = ?n" using js(2,3) assms by (simp add: min_def split: if_splits)
    have "length r = card (set js)" using js(1) by (simp add: picked_def distinct_card)
    then have "length r \<le> card (hash_hits candidateID validators ?h)" using card_mono [OF finite_hash_hits(1) js(4)] by simp
    then show "?n \<le> int (card (hash_hits candidateID validators ?h))" using len by linarith
  qed
  have ends: "int (card (hash_hits candidateID validators ?h)) < ?n" if none: "?loop = None"
  proof (rule ccontr)
    assume enough: "\<not> int (card (hash_hits candidateID validators ?h)) < ?n"
    obtain m where "hash_hits candidateID validators ?h \<subseteq> hash_hits_in candidateID validators ?h m" using hash_hits_bounded by blast
    from card_mono [OF finite_hash_hits(2) this] have "?n \<le> int (card (set [] \<union> hash_hits_in candidateID validators ?h m))"
      using enough unfolding list.set(1) Un_empty_left not_less by (meson of_nat_mono order_trans)
    from committee_loop_returns [OF empty this] none show False by simp
  qed
  show ?thesis
  proof (cases ?loop)
    case (Some r)
    then show ?thesis using r [OF Some] assms by (auto simp: sel)
  qed (use ends in \<open>simp add: sel\<close>)
qed

theorem committee_selection_witness: "SelectTestCommittee ''a'' [] [''b'', ''a''] 2 = None"
  using committee_selection [where cnt = 2 and candidateID = "''a''" and validators = "[''b'', ''a'']" and blockHash = "[]"] by simp

interpretation score_asc: sort_order higher_score "\<lambda>_. True"
  by unfold_locales (auto simp: higher_score_def)

text \<open>
  SecureSelectTestCommittee always returns: as many validators as requested and available,
  never the candidate, and no validator outside the committee has a lower score than one inside.
\<close>

theorem secure_committee:
  assumes "0 \<le> cnt"
  shows "\<exists>r. SecureSelectTestCommittee candidateID blockHash validators cnt = Inr r \<and>
    length r = min (min (nat cnt) (length validators)) (length (filter (\<lambda>v. v \<noteq> candidateID) validators)) \<and>
    mset r \<subseteq># mset (filter (\<lambda>v. v \<noteq> candidateID) validators) \<and>
    (\<forall>a \<in> set r. \<forall>b \<in> set validators - {candidateID} - set r.
       committee_score candidateID blockHash a \<le> committee_score candidateID blockHash b)"
proof -
  let ?f = "\<lambda>v. (v, committee_score candidateID blockHash v)"
  let ?others = "filter (\<lambda>v. v \<noteq> candidateID) validators"
  let ?k = "nat (min cnt (int (length validators)))"
  define sorted where "sorted = exchange_sort higher_score (map ?f ?others)"
  define r where "r = map fst (take ?k sorted)"
  have sel: "SecureSelectTestCommittee candidateID blockHash validators cnt = Inr r"
    using assms by (auto simp: SecureSelectTestCommittee_def r_def sorted_def Let_def)
  have ms: "mset (map fst sorted) = mset ?others"
  proof -
    have "mset (map fst sorted) = image_mset fst (mset (map ?f ?others))"
      unfolding sorted_def mset_map mset_exchange_sort ..
    also have "\<dots> = mset (map fst (map ?f ?others))" unfolding mset_map ..
    also have "map fst (map ?f ?others) = ?others" by (simp add: comp_def)
    finally show ?thesis .
  qed
  have "mset r + mset (map fst (drop ?k sorted)) = mset (map fst sorted)"
    unfolding r_def mset_append [symmetric] map_append [symmetric] append_take_drop_id ..
  then have sub: "mset r \<subseteq># mset ?others" using ms by (metis mset_subset_eq_add_left)
  have "length sorted = length ?others" by (simp add: sorted_def)
  then have len: "length r = min (min (nat cnt) (length validators)) (length ?others)"
    using le_antisym [OF length_filter_le [of "\<lambda>v. v \<noteq> candidateID" validators]] by (auto simp: r_def min_def)
  have best: "committee_score candidateID blockHash a \<le> committee_score candidateID blockHash b"
    if a: "a \<in> set r" and b: "b \<in> set validators - {candidateID} - set r" for a b
  proof -
    have elems: "x = ?f (fst x)" if "x \<in> set sorted" for x using that by (auto simp: sorted_def)
    obtain x where x: "x \<in> set (take ?k sorted)" "fst x = a" using a by (auto simp: r_def)
    have "?f b \<in> set sorted" using b by (auto simp: sorted_def)
    moreover have "?f b \<notin> set (take ?k sorted)" using b by (force simp: r_def)
    ultimately have "?f b \<in> set (drop ?k sorted)" by (metis Un_iff append_take_drop_id set_append)
    then have "\<not> higher_score x (?f b)"
      using score_asc.take_exchange_sort [of "map ?f ?others" x ?k "?f b"] x
      unfolding sorted_def by (simp add: list_all_iff)
    moreover have "x = ?f a" using elems [of x] x in_set_takeD by fastforce
    ultimately show ?thesis by (simp add: higher_score_def)
  qed
  from sel len sub best show ?thesis by blast
qed

theorem secure_committee_witness:
  "\<exists>r. SecureSelectTestCommittee ''a'' [] [''b'', ''a'', ''c''] 2 = Inr r \<and> length r = 2"
  using secure_committee [where cnt = 2 and candidateID = "''a''" and validators = "[''b'', ''a'', ''c'']" and blockHash = "[]"]
  by (auto simp: numeral_2_eq_2)

end
