(* ===== verification/VRF_Check.thy ===== *)
theory VRF_Check
  imports Proposer
begin

text \<open>
  Verification of the VRF proof of a block (\<open>pkg/consensus/vrf_verification.go\<close>): the proof against
  the proposer's key, and the selection of the proposer by the first byte of the VRF output, which
  must fall into the proposer's share of the total score.

  A nil and an empty proof are both the empty list; the functions that tell them apart are only
  called after the length was checked. The messages name the proposer by \<open>ProposerID[:8]\<close>,
  which panics when the ID is shorter; \<open>named\<close> is an error with such a message.
\<close>

definition named :: "string \<Rightarrow> string \<Rightarrow> fail option" where
  "named validatorID msg = (case slice_to 8 validatorID of Inl e \<Rightarrow> Some e | Inr _ \<Rightarrow> Some (Error msg))"

text \<open>A log line that names the proposer, at the end of a successful check.\<close>

definition log_named :: "string \<Rightarrow> fail option" where
  "log_named validatorID = (case slice_to 8 validatorID of Inl e \<Rightarrow> Some e | Inr _ \<Rightarrow> None)"

definition VerifyBlockVRFProof :: "vrf_lib \<Rightarrow> Block \<Rightarrow> bytes \<Rightarrow> bytes \<Rightarrow> bytes \<Rightarrow> fail option" where
  "VerifyBlockVRFProof lib block vrfPublicKey input vrfOutput =
     (if b_VRFProof block = [] then Some (Error ''block missing VRF proof'')
      else if vrfOutput = [] then Some (Error ''block missing VRF output'')
      else if \<not> VerifyVRFWithPublicKey lib input vrfOutput (b_VRFProof block) vrfPublicKey
        then Some (Error ''invalid VRF proof - verification failed'')
      else if h_VRFOutput (b_Header block) \<noteq> None \<and> h_VRFOutput (b_Header block) \<noteq> Some vrfOutput
        then Some (Error ''VRF output mismatch in block header'')
      else log_named (b_ProposerID block))"

definition eligible :: "ValidatorInfo \<Rightarrow> bool" where
  "eligible v = (v_IsActive v \<and> \<not> v_IsSuspended v)"

definition total_weight :: "ValidatorInfo list \<Rightarrow> f64" where
  "total_weight validators = foldl (\<lambda>w v. if eligible v then f_add w (v_PoBScore v) else w) (Fin 0) validators"

text \<open>The range of the proposer: the loop breaks at its first eligible entry.\<close>

fun selection_range :: "string \<Rightarrow> f64 \<Rightarrow> ValidatorInfo list \<Rightarrow> f64 \<Rightarrow> f64 \<times> f64" where
  "selection_range p totalWeight [] cumulativeWeight = (Fin 0, Fin 0)"
| "selection_range p totalWeight (v # vs) cumulativeWeight =
     (if \<not> eligible v then selection_range p totalWeight vs cumulativeWeight
      else let rangeStart = f_div cumulativeWeight totalWeight;
               cumulativeWeight' = f_add cumulativeWeight (v_PoBScore v);
               rangeEnd = f_div cumulativeWeight' totalWeight
           in if v_ID v = p then (rangeStart, rangeEnd)
              else selection_range p totalWeight vs cumulativeWeight')"

definition selection_value :: "byte \<Rightarrow> f64" where
  "selection_value b = f_div (f_of_int (uint b)) (f_lit 256)"

definition VerifyVRFProposerSelection :: "Block \<Rightarrow> ValidatorInfo list \<Rightarrow> fail option" where
  "VerifyVRFProposerSelection block validators =
     (case find (\<lambda>v. v_ID v = b_ProposerID block) validators of
        None \<Rightarrow> named (b_ProposerID block) ''proposer not found in validator set''
      | Some proposer \<Rightarrow>
          if f_lt (v_PoBScore proposer) (f_lit (1 / 2)) then Some (Error ''proposer PoB score too low'')
          else
            (case (case h_VRFOutput (b_Header block) of Some out \<Rightarrow> Inr out | None \<Rightarrow> slice_to 32 (b_VRFProof block)) of
               Inl e \<Rightarrow> Some e
             | Inr [] \<Rightarrow> Some (Panic ''index out of range'')
             | Inr (b0 # _) \<Rightarrow>
                 let selectionValue = selection_value b0;
                     (proposerStart, proposerEnd) = selection_range (b_ProposerID block) (total_weight validators) validators (Fin 0)
                 in if f_lt selectionValue proposerStart \<or> f_le proposerEnd selectionValue
                    then Some (Error ''VRF selection mismatch'')
                    else log_named (b_ProposerID block)))"

definition vrf_input :: "u64 \<Rightarrow> bytes" where
  "vrf_input height = bytes_of (''block_'' @ dec_u64 height)"

definition ValidateVRFProofOnChain :: "vrf_lib \<Rightarrow> Block \<Rightarrow> ValidatorInfo list \<Rightarrow> fail option" where
  "ValidateVRFProofOnChain lib block validators =
     (case find (\<lambda>v. v_ID v = b_ProposerID block) validators of
        None \<Rightarrow> named (b_ProposerID block) ''proposer VRF public key not found''
      | Some v \<Rightarrow>
          if v_VRFPublicKey v = [] then named (b_ProposerID block) ''proposer missing valid VRF public key''
          else
            (case h_VRFOutput (b_Header block) of
               None \<Rightarrow> Some (Error ''block missing VRF output'')
             | Some [] \<Rightarrow> Some (Error ''block missing VRF output'')
             | Some out \<Rightarrow>
                 (case VerifyBlockVRFProof lib block (v_VRFPublicKey v) (vrf_input (h_Height (b_Header block))) out of
                    Some (Panic e) \<Rightarrow> Some (Panic e)
                  | Some (Error _) \<Rightarrow> Some (Error ''VRF proof verification failed'')
                  | None \<Rightarrow>
                      (case VerifyVRFProposerSelection block validators of
                         Some (Panic e) \<Rightarrow> Some (Panic e)
                       | Some (Error _) \<Rightarrow> Some (Error ''VRF proposer selection verification failed'')
                       | None \<Rightarrow> None))))"

section \<open>The share of a validator\<close>

definition weights :: "f64 \<Rightarrow> ValidatorInfo list \<Rightarrow> f64" where
  "weights c vs = foldl (\<lambda>w v. f_add w (v_PoBScore v)) c vs"

lemma total_weight_filter: "total_weight vs = weights (Fin 0) (filter eligible vs)"
proof -
  have "foldl (\<lambda>w v. if eligible v then f_add w (v_PoBScore v) else w) c vs = weights c (filter eligible vs)" for c
    by (induction vs arbitrary: c) (simp_all add: weights_def)
  then show ?thesis by (simp add: total_weight_def)
qed

text \<open>The place of a validator among the eligible ones, if it has one.\<close>

definition place :: "string \<Rightarrow> ValidatorInfo list \<Rightarrow> nat \<Rightarrow> bool" where
  "place p es k = (k < length es \<and> v_ID (es ! k) = p \<and> (\<forall>j < k. v_ID (es ! j) \<noteq> p))"

lemma selection_range_place:
  "(\<exists>k. place p (filter eligible vs) k \<and>
      selection_range p t vs c = (f_div (weights c (take k (filter eligible vs))) t, f_div (weights c (take (Suc k) (filter eligible vs))) t)) \<or>
   p \<notin> v_ID ` set (filter eligible vs) \<and> selection_range p t vs c = (Fin 0, Fin 0)"
proof (induction vs arbitrary: c)
  case (Cons v vs)
  show ?case
  proof (cases "eligible v \<and> v_ID v = p")
    case True
    then have "place p (filter eligible (v # vs)) 0" by (simp add: place_def)
    then show ?thesis using True by (intro disjI1 exI [of _ 0]) (simp add: Let_def weights_def)
  next
    case False
    show ?thesis
    proof (cases "eligible v")
      case el: True
      consider k where "place p (filter eligible vs) k"
          "selection_range p t vs (f_add c (v_PoBScore v)) = (f_div (weights (f_add c (v_PoBScore v)) (take k (filter eligible vs))) t,
            f_div (weights (f_add c (v_PoBScore v)) (take (Suc k) (filter eligible vs))) t)"
        | "p \<notin> v_ID ` set (filter eligible vs)" "selection_range p t vs (f_add c (v_PoBScore v)) = (Fin 0, Fin 0)"
        using Cons.IH [of "f_add c (v_PoBScore v)"] by blast
      then show ?thesis
      proof cases
        case 1
        have "place p (filter eligible (v # vs)) (Suc k)"
          using 1(1) el False by (auto simp: place_def nth_Cons split: nat.split)
        then show ?thesis using 1(2) el False by (intro disjI1 exI [of _ "Suc k"]) (simp add: Let_def weights_def)
      next
        case 2
        then show ?thesis using el False by (simp add: Let_def)
      qed
    next
      case False
      then show ?thesis using Cons.IH [of c] by simp
    qed
  qed
qed simp

definition unit_score :: "ValidatorInfo \<Rightarrow> bool" where
  "unit_score v = (\<exists>q. v_PoBScore v = Fin q \<and> 0 \<le> q \<and> q \<le> 1)"

text \<open>A running sum of scores: a representable value between 0 and the number of scores added.\<close>

definition running :: "nat \<Rightarrow> f64 \<Rightarrow> bool" where
  "running n c = (\<exists>x. c = Fin x \<and> 0 \<le> x \<and> x \<le> of_nat n \<and> rnd_val x = x)"

lemma running_step:
  assumes "running n c" "unit_score v" "n < 2 ^ 52"
  shows "running (Suc n) (f_add c (v_PoBScore v)) \<and> f_le c (f_add c (v_PoBScore v))"
proof -
  obtain x q where x: "c = Fin x" "0 \<le> x" "x \<le> of_nat n" "rnd_val x = x" and q: "v_PoBScore v = Fin q" "0 \<le> q" "q \<le> 1"
    using assms(1,2) by (auto simp: running_def unit_score_def)
  have b: "of_int 0 \<le> x + q" "x + q \<le> of_int (int (Suc n))" using x q by simp_all
  have n: "int (Suc n) \<le> 2 ^ 53" using assms(3) by simp
  note r = rnd_between [OF order_refl n b]
  have "x \<le> rnd_val (x + q)" using rnd_val_mono [of x "x + q"] x q by simp
  then show ?thesis using r rnd_val_idem [of "x + q"] x q by (auto simp: running_def f_le_def)
qed

lemma running_weights:
  "running n c \<Longrightarrow> \<forall>v \<in> set vs. unit_score v \<Longrightarrow> n + length vs \<le> 2 ^ 52 \<Longrightarrow>
   running (n + length vs) (weights c vs) \<and> f_le c (weights c vs)"
proof (induction vs arbitrary: n c)
  case Nil
  then show ?case by (auto simp: weights_def running_def f_le_def)
next
  case (Cons v vs)
  have s: "running (Suc n) (f_add c (v_PoBScore v))" "f_le c (f_add c (v_PoBScore v))"
    using running_step [of n c v] Cons.prems by simp_all
  then show ?case using Cons.IH [OF s(1)] Cons.prems f_le_trans [OF s(2)] by (simp add: weights_def)
qed

lemma weights_take:
  assumes "\<forall>v \<in> set vs. unit_score v" "length vs \<le> 2 ^ 52" "j \<le> k"
  shows "\<exists>x y. weights (Fin 0) (take j vs) = Fin x \<and> weights (Fin 0) (take k vs) = Fin y \<and> 0 \<le> x \<and> x \<le> y"
proof -
  let ?w = "weights (Fin 0) (take j vs)" and ?r = "drop j (take k vs)"
  have u: "\<forall>v \<in> set (take j vs). unit_score v" "\<forall>v \<in> set ?r. unit_score v"
    using assms(1) by (auto dest: in_set_takeD in_set_dropD)
  have "running 0 (Fin 0)" by (simp add: running_def rnd_val_def)
  from running_weights [OF this u(1)] have w: "running (length (take j vs)) ?w" using assms(2) by simp
  have "f_le ?w (weights ?w ?r)"
    using running_weights [OF w u(2)] assms(2) by simp
  moreover have "take k vs = take j vs @ ?r" using assms(3) by (metis append_take_drop_id min.absorb1 take_take)
  then have "weights ?w ?r = weights (Fin 0) (take k vs)" by (metis foldl_append weights_def)
  moreover have "running (length (take j vs) + length ?r) (weights ?w ?r)"
    using running_weights [OF w u(2)] assms(2) by simp
  ultimately show ?thesis using w by (auto simp: running_def f_le_def)
qed

lemma share_order:
  assumes "\<forall>v \<in> set vs. unit_score v" "length vs \<le> 2 ^ 52" "j \<le> k" "k \<le> length vs"
    and "weights (Fin 0) vs = Fin t" "0 < t"
  shows "\<exists>x y. f_div (weights (Fin 0) (take j vs)) (Fin t) = Fin x \<and> f_div (weights (Fin 0) (take k vs)) (Fin t) = Fin y \<and> x \<le> y"
proof -
  obtain x y where xy: "weights (Fin 0) (take j vs) = Fin x" "weights (Fin 0) (take k vs) = Fin y" "0 \<le> x" "x \<le> y"
    using weights_take [OF assms(1-3)] by blast
  have "y \<le> t" using weights_take [OF assms(1,2) assms(4)] assms(5) xy(2) by simp
  then have q: "of_int 0 \<le> x / t" "x / t \<le> y / t" "y / t \<le> of_int 1"
    using xy assms(6) by (simp_all add: divide_right_mono)
  then have "rnd_val (x / t) \<le> rnd_val (y / t)" by (intro rnd_val_mono) simp_all
  moreover have "rnd (x / t) = Fin (rnd_val (x / t))" "rnd (y / t) = Fin (rnd_val (y / t))"
    using q by (auto intro!: rnd_between(1) [of 0 1])
  ultimately show ?thesis using xy assms(6) by simp
qed

lemma byte_fraction: "0 \<le> n \<Longrightarrow> n < 256 \<Longrightarrow> \<exists>s. f_div (f_of_int n) (f_lit 256) = Fin s \<and> 0 \<le> s"
proof -
  assume n: "0 \<le> n" "n < 256"
  then have "of_int 0 \<le> (of_int n / 256 :: rat)" "(of_int n / 256 :: rat) \<le> of_int 1" by simp_all
  from rnd_between [OF _ _ this] n show ?thesis by simp
qed

lemma selection_value_nonneg: "\<exists>s. selection_value b = Fin s \<and> 0 \<le> s"
  unfolding selection_value_def using unsigned_less [of b] by (intro byte_fraction) simp_all

text \<open>What an accepted selection says: the proposer's place, and its range around the value.\<close>

lemma accepted_selection:
  assumes acc: "VerifyVRFProposerSelection block validators = None" and dist: "distinct (map v_ID validators)"
    and out: "h_VRFOutput (b_Header block) = Some (b0 # rest)"
    and unit: "\<forall>v \<in> set (filter eligible validators). unit_score v" and len: "length validators \<le> 2 ^ 52"
  obtains k t s y where "place (b_ProposerID block) (filter eligible validators) k"
    "\<not> f_lt (v_PoBScore (filter eligible validators ! k)) (f_lit (1 / 2))"
    "weights (Fin 0) (filter eligible validators) = Fin t" "0 < t"
    "selection_value b0 = Fin s" "f_le (f_div (weights (Fin 0) (take k (filter eligible validators))) (Fin t)) (Fin s)"
    "f_lt (Fin s) (f_div (weights (Fin 0) (take (Suc k) (filter eligible validators))) (Fin t))"
proof -
  let ?p = "b_ProposerID block" and ?es = "filter eligible validators" and ?t = "total_weight validators"
  obtain s where s: "selection_value b0 = Fin s" "0 \<le> s" using selection_value_nonneg by blast
  obtain v st en where v: "find (\<lambda>v. v_ID v = ?p) validators = Some v" "\<not> f_lt (v_PoBScore v) (f_lit (1 / 2))"
    and range: "selection_range ?p ?t validators (Fin 0) = (st, en)" "\<not> f_lt (Fin s) st" "\<not> f_le en (Fin s)"
    using acc out s by (auto simp: VerifyVRFProposerSelection_def named_def slice_to_def Let_def
        split: option.splits if_splits prod.splits)
  have vin: "v \<in> set validators" "v_ID v = ?p" using v(1) by (auto simp: find_Some_iff)
  from range s have "(st, en) \<noteq> (Fin 0, Fin 0)" by (auto simp: f_le_def)
  then obtain k where k: "place ?p ?es k" "st = f_div (weights (Fin 0) (take k ?es)) ?t" "en = f_div (weights (Fin 0) (take (Suc k) ?es)) ?t"
    using selection_range_place [of ?p validators ?t "Fin 0"] range(1) by auto
  have ev: "?es ! k = v"
  proof -
    have "?es ! k \<in> set validators" "v_ID (?es ! k) = ?p" using k(1) nth_mem [of k ?es] by (auto simp: place_def)
    then show ?thesis using vin dist by (metis distinct_map inj_onD)
  qed
  have lene: "length ?es \<le> 2 ^ 52" using len length_filter_le [of eligible validators] by linarith
  have sk: "Suc k \<le> length ?es" using k(1) by (simp add: place_def)
  obtain x y where w: "weights (Fin 0) (take k ?es) = Fin x" "weights (Fin 0) (take (Suc k) ?es) = Fin y" "0 \<le> x"
    using weights_take [OF unit lene, of k "Suc k"] by auto
  obtain y' t where t: "weights (Fin 0) (take (Suc k) ?es) = Fin y'" "weights (Fin 0) ?es = Fin t" "y' \<le> t"
    using weights_take [OF unit lene sk] by auto
  obtain q where q: "v_PoBScore v = Fin q" "1 / 2 \<le> q" "q \<le> 1"
  proof -
    have "unit_score v" using unit ev sk by (metis Suc_le_lessD nth_mem)
    then show thesis using that v(2) by (auto simp: unit_score_def)
  qed
  have "f_add (Fin x) (Fin q) = Fin y"
    using w sk ev q by (simp add: weights_def take_Suc_conv_app_nth)
  then have "y = rnd_val (x + q)" by (simp add: rnd_eq split: if_splits)
  moreover have "rnd_val (1 / 2) \<le> rnd_val (x + q)" using w(3) q by (intro rnd_val_mono) simp_all
  moreover have "rnd_val (1 / 2) = 1 / 2" using rnd_between(1) [of 0 1 "1 / 2"] rnd_half by simp
  ultimately have pos: "0 < t" using w(2) t by simp
  have tt: "?t = Fin t" using t(2) by (simp add: total_weight_filter)
  obtain a b where ab: "f_div (weights (Fin 0) (take k ?es)) (Fin t) = Fin a" "f_div (weights (Fin 0) (take (Suc k) ?es)) (Fin t) = Fin b"
    using share_order [OF unit lene _ sk t(2) pos, of k] by auto
  have "f_le (Fin a) (Fin s)" "f_lt (Fin s) (Fin b)" using range(2,3) k(2,3) unfolding tt ab by (auto simp: f_lt_le)
  then show thesis using that [OF k(1) _ t(2) pos s(1)] v(2) ev unfolding ab by blast
qed

text \<open>
  C23: For one first byte of the VRF output, the check accepts at most one proposer: an active
  validator that is not suspended and scores at least one half. The shares of the validators do not
  overlap, whatever the rounding of the weights.
\<close>

theorem selection_exclusive:
  assumes "distinct (map v_ID validators)" "\<forall>v \<in> set (filter eligible validators). unit_score v" "length validators \<le> 2 ^ 52"
    and "h_VRFOutput (b_Header b1) = Some (byte0 # r1)" "h_VRFOutput (b_Header b2) = Some (byte0 # r2)"
    and "VerifyVRFProposerSelection b1 validators = None" "VerifyVRFProposerSelection b2 validators = None"
  shows "b_ProposerID b1 = b_ProposerID b2 \<and>
    (\<exists>v \<in> set validators. v_ID v = b_ProposerID b1 \<and> v_IsActive v \<and> \<not> v_IsSuspended v \<and> \<not> f_lt (v_PoBScore v) (f_lit (1 / 2)))"
proof -
  let ?es = "filter eligible validators"
  have lene: "length ?es \<le> 2 ^ 52" using assms(3) length_filter_le [of eligible validators] by linarith
  obtain k t s where 1: "place (b_ProposerID b1) ?es k" "\<not> f_lt (v_PoBScore (?es ! k)) (f_lit (1 / 2))"
    "weights (Fin 0) ?es = Fin t" "0 < t" "selection_value byte0 = Fin s"
    "f_le (f_div (weights (Fin 0) (take k ?es)) (Fin t)) (Fin s)" "f_lt (Fin s) (f_div (weights (Fin 0) (take (Suc k) ?es)) (Fin t))"
    by (rule accepted_selection [OF assms(6,1,4,2,3)])
  obtain k' t' s' where 2: "place (b_ProposerID b2) ?es k'" "weights (Fin 0) ?es = Fin t'" "selection_value byte0 = Fin s'"
    "f_le (f_div (weights (Fin 0) (take k' ?es)) (Fin t')) (Fin s')" "f_lt (Fin s') (f_div (weights (Fin 0) (take (Suc k') ?es)) (Fin t'))"
    by (rule accepted_selection [OF assms(7,1,5,2,3)])
  have same: "t' = t" "s' = s" using 1(3,5) 2(2,3) by simp_all
  have no: False if less: "i < j" "j < length ?es" and i: "f_lt (Fin s) (f_div (weights (Fin 0) (take (Suc i) ?es)) (Fin t))"
    and j: "f_le (f_div (weights (Fin 0) (take j ?es)) (Fin t)) (Fin s)" for i j
    using share_order [OF assms(2) lene _ _ 1(3,4), of "Suc i" j] less i j by (auto simp: f_le_def)
  have "k = k'"
    using no [of k k'] no [of k' k] 1 2 unfolding same by (auto simp: place_def intro: linorder_cases)
  moreover have "?es ! k \<in> set validators" "eligible (?es ! k)" using 1(1) nth_mem [of k ?es] by (auto simp: place_def)
  ultimately show ?thesis using 1(1,2) 2(1) by (auto simp: place_def eligible_def)
qed


definition demo_proposer :: ValidatorInfo where
  "demo_proposer = demo_info\<lparr>v_ID := ''validator-one'', v_PoBScore := Fin 1\<rparr>"

definition demo_vrf_block :: "bytes \<Rightarrow> Block" where
  "demo_vrf_block out = \<lparr>b_Header = \<lparr>h_Version = 1, h_PrevBlockHash = [], h_MerkleRoot = [], h_Timestamp = 0, h_Nonce = 0,
       h_Difficulty = 1, h_Height = 1, h_PoBScore = Fin 1, h_PoBWeight = 1000, h_VRFProof = [1], h_VRFOutput = Some out\<rparr>,
     b_Transactions = [], b_ProposerID = ''validator-one'', b_PoHSequence = [], b_Signature = [], b_VRFProof = [1]\<rparr>"

lemma demo_selected: "VerifyVRFProposerSelection (demo_vrf_block (0 # r)) [demo_proposer] = None"
proof -
  have "f_lt (Fin 1) (f_lit (1 / 2)) = False" by simp
  then show ?thesis
    by (simp add: VerifyVRFProposerSelection_def demo_vrf_block_def demo_proposer_def demo_info_def selection_value_def
        total_weight_def eligible_def Let_def f_le_def log_named_def slice_to_def)
qed

theorem selection_exclusive_witness:
  "b_ProposerID (demo_vrf_block [0]) = b_ProposerID (demo_vrf_block [0, 1]) \<and> \<not> v_IsSuspended demo_proposer"
  using selection_exclusive [where validators = "[demo_proposer]", OF _ _ _ _ _ demo_selected [of "[]"] demo_selected [of "[1]"]]
  by (simp add: demo_vrf_block_def demo_proposer_def demo_info_def unit_score_def eligible_def)

end
