(* ===== verification/Retarget.thy ===== *)
theory Retarget
  imports PoB_Score
begin

text \<open>
  Difficulty retargeting of the proof of bandwidth (\<open>pkg/consensus/pob_retarget.go\<close>): the rolling
  window of validator counts and the thresholds adjusted every 50 blocks. A count is a Go
  \<open>int\<close>; the sum of at most 50 of them is taken not to overflow.
\<close>

record PoBThresholds =
  th_MinUploadBandwidth :: f64
  th_TargetLatency :: f64
  th_TargetPacketLoss :: f64
  th_LastAdjustHeight :: u64
  th_LastAdjustTime :: gotime

record PoBRetargetManager =
  rt_currentThresholds :: PoBThresholds
  rt_validatorHistory :: "int list"

definition RetargetWindow :: nat where "RetargetWindow = 50"
definition MaxAdjustmentFactor :: f64 where "MaxAdjustmentFactor = f_lit (20 / 100)"

definition NewPoBRetargetManager :: "gotime \<Rightarrow> PoBRetargetManager" where
  "NewPoBRetargetManager now = \<lparr>
     rt_currentThresholds = \<lparr>th_MinUploadBandwidth = MinUploadBandwidth, th_TargetLatency = TargetLatency,
       th_TargetPacketLoss = TargetPacketLoss, th_LastAdjustHeight = 0, th_LastAdjustTime = now\<rparr>,
     rt_validatorHistory = []\<rparr>"

definition RecordValidatorCount :: "int \<Rightarrow> PoBRetargetManager \<Rightarrow> PoBRetargetManager" where
  "RecordValidatorCount validatorCount prm =
     (let history = rt_validatorHistory prm @ [validatorCount]
      in prm\<lparr>rt_validatorHistory :=
           (if length history > RetargetWindow then drop (length history - RetargetWindow) history else history)\<rparr>)"

definition calculateAverageValidatorCount :: "PoBRetargetManager \<Rightarrow> int" where
  "calculateAverageValidatorCount prm =
     (if rt_validatorHistory prm = [] then 0
      else (let s = sum_list (rt_validatorHistory prm); n = int (length (rt_validatorHistory prm))
            in sgn s * (\<bar>s\<bar> div n)))"

definition ShouldRetarget :: "u64 \<Rightarrow> bool" where
  "ShouldRetarget blockHeight = (blockHeight > 0 \<and> blockHeight mod of_nat RetargetWindow = 0)"

text \<open>The two bounds checks of one threshold.\<close>

definition clamp_between :: "f64 \<Rightarrow> f64 \<Rightarrow> f64 \<Rightarrow> f64" where
  "clamp_between lo hi x = (let y = (if f_lt x lo then lo else x) in if f_lt hi y then hi else y)"

definition apply_adjustment :: "f64 \<Rightarrow> u64 \<Rightarrow> gotime \<Rightarrow> PoBThresholds \<Rightarrow> PoBThresholds" where
  "apply_adjustment adjustmentFactor blockHeight now th = \<lparr>
     th_MinUploadBandwidth = clamp_between (f_lit 5) (f_lit 10)
       (f_mul (th_MinUploadBandwidth th) (f_add (f_lit 1) adjustmentFactor)),
     th_TargetLatency = clamp_between (f_lit 50) (f_lit 200)
       (f_mul (th_TargetLatency th) (f_sub (f_lit 1) adjustmentFactor)),
     th_TargetPacketLoss = clamp_between (f_lit (5 / 100)) (f_lit (5 / 10))
       (f_mul (th_TargetPacketLoss th) (f_sub (f_lit 1) adjustmentFactor)),
     th_LastAdjustHeight = blockHeight, th_LastAdjustTime = now\<rparr>"

definition AdjustDifficulty :: "gotime \<Rightarrow> u64 \<Rightarrow> PoBRetargetManager \<Rightarrow> PoBRetargetManager" where
  "AdjustDifficulty now blockHeight prm =
     (if \<not> ShouldRetarget blockHeight then prm
      else let avgValidatorCount = calculateAverageValidatorCount prm in
        if avgValidatorCount = 0 then prm
        else if avgValidatorCount < 50 then
          prm\<lparr>rt_currentThresholds := apply_adjustment (f_neg MaxAdjustmentFactor) blockHeight now (rt_currentThresholds prm)\<rparr>
        else if avgValidatorCount > 500 then
          prm\<lparr>rt_currentThresholds := apply_adjustment MaxAdjustmentFactor blockHeight now (rt_currentThresholds prm)\<rparr>
        else prm)"

definition GetCurrentThresholds :: "PoBRetargetManager \<Rightarrow> PoBThresholds" where
  "GetCurrentThresholds prm = rt_currentThresholds prm"

definition EvaluateWithCurrentThresholds :: "PoBRetargetManager \<Rightarrow> PoBTestResult \<Rightarrow> bool" where
  "EvaluateWithCurrentThresholds prm result =
     (let thresholds = GetCurrentThresholds prm in
      if f_lt (pt_UploadBandwidth result) (th_MinUploadBandwidth thresholds) then False
      else if f_lt (th_TargetLatency thresholds) (pt_Latency result) then False
      else if f_lt (th_TargetPacketLoss thresholds) (pt_PacketLoss result) then False
      else True)"

section \<open>The thresholds stay in their ranges\<close>

inductive retarget_step :: "PoBRetargetManager \<Rightarrow> PoBRetargetManager \<Rightarrow> bool" where
  "retarget_step prm (RecordValidatorCount n prm)"
| "retarget_step prm (AdjustDifficulty now h prm)"

inductive_cases retarget_stepE: "retarget_step prm prm'"

definition thresholds_ok :: "PoBThresholds \<Rightarrow> bool" where
  "thresholds_ok th = (inside (f_lit 5) (f_lit 10) (th_MinUploadBandwidth th) \<and>
     inside (f_lit 50) (f_lit 200) (th_TargetLatency th) \<and>
     inside (f_lit (5 / 100)) (f_lit (5 / 10)) (th_TargetPacketLoss th))"

definition retarget_inv :: "PoBRetargetManager \<Rightarrow> bool" where
  "retarget_inv prm = (thresholds_ok (rt_currentThresholds prm) \<and> length (rt_validatorHistory prm) \<le> RetargetWindow)"

lemma f_mul_not_NaN: "f_mul x (Fin q) = NaN \<Longrightarrow> \<not> inside (Fin a) (Fin b) x"
  by (cases x) (auto simp: inside_def f_le_def rnd_eq split: if_splits)

lemma clamp_inside: "a \<le> b \<Longrightarrow> x \<noteq> NaN \<Longrightarrow> inside (Fin a) (Fin b) (clamp_between (Fin a) (Fin b) x)"
  by (cases x) (auto simp: clamp_between_def inside_def f_le_def Let_def)

lemma rnd_fifth: "\<exists>q. rnd (20 / 100) = Fin q \<and> 0 \<le> q \<and> q \<le> 1"
  using rnd_between [of 0 1 "1 / 5"] by simp

lemma rnd_Fin: "0 \<le> q \<Longrightarrow> q \<le> 2 \<Longrightarrow> \<exists>r. rnd q = Fin r"
  using rnd_between [of 0 2 q] by auto

lemma factors_finite:
  assumes "x = MaxAdjustmentFactor \<or> x = f_neg MaxAdjustmentFactor"
  shows "\<exists>q r. f_add (f_lit 1) x = Fin q \<and> f_sub (f_lit 1) x = Fin r"
proof -
  obtain q where q: "MaxAdjustmentFactor = Fin q" "0 \<le> q" "q \<le> 1" using rnd_fifth by (auto simp: MaxAdjustmentFactor_def)
  have "\<exists>r. rnd (1 + q) = Fin r" "\<exists>r. rnd (1 - q) = Fin r" using q by (auto intro!: rnd_Fin)
  then show ?thesis using assms unfolding q(1) by (auto simp: f_sub_def)
qed

lemma loss_range: "\<exists>a b. f_lit (5 / 100) = Fin a \<and> f_lit (5 / 10) = Fin b \<and> a \<le> b"
proof -
  have "f_lit (5 / 10) = Fin (1 / 2)" by simp
  then show ?thesis using lit_twentieth by (intro exI conjI) (assumption, assumption, simp)
qed

lemma adjustment_ok:
  assumes "thresholds_ok th" "x = MaxAdjustmentFactor \<or> x = f_neg MaxAdjustmentFactor"
  shows "thresholds_ok (apply_adjustment x h now th)"
proof -
  obtain q r where f: "f_add (f_lit 1) x = Fin q" "f_sub (f_lit 1) x = Fin r" using factors_finite assms(2) by blast
  obtain a b where l: "f_lit (5 / 100) = Fin a" "f_lit (5 / 10) = Fin b" "a \<le> b" using loss_range by blast
  show ?thesis
    using assms(1) unfolding thresholds_ok_def apply_adjustment_def f l(1,2) select_convs rnd_numeral
    by (auto intro!: clamp_inside l(3) dest: f_mul_not_NaN)
qed

lemma new_manager_ok: "retarget_inv (NewPoBRetargetManager now)"
  using lit_tenth lit_twentieth rnd_half
  by (simp add: retarget_inv_def thresholds_ok_def NewPoBRetargetManager_def MinUploadBandwidth_def TargetLatency_def
      TargetPacketLoss_def inside_def f_le_def)

lemma retarget_step_inv: "retarget_inv prm \<Longrightarrow> retarget_step prm prm' \<Longrightarrow> retarget_inv prm'"
  by (auto simp: retarget_inv_def RecordValidatorCount_def AdjustDifficulty_def Let_def RetargetWindow_def adjustment_ok
      elim!: retarget_stepE)

text \<open>
  Whatever counts are recorded and at whatever heights the difficulty is adjusted, the
  thresholds of a manager stay in their ranges (an upload of 5 to 10 MB/s, a latency of 50 to
  200 ms, a loss of 0.05 to 0.5 per cent), and its window never holds more than 50 counts.
\<close>

theorem retarget_bounds:
  assumes "retarget_step\<^sup>*\<^sup>* (NewPoBRetargetManager now) prm"
  shows "inside (f_lit 5) (f_lit 10) (th_MinUploadBandwidth (GetCurrentThresholds prm)) \<and>
    inside (f_lit 50) (f_lit 200) (th_TargetLatency (GetCurrentThresholds prm)) \<and>
    inside (f_lit (5 / 100)) (f_lit (5 / 10)) (th_TargetPacketLoss (GetCurrentThresholds prm)) \<and>
    length (rt_validatorHistory prm) \<le> 50"
proof -
  from assms have "retarget_inv prm"
    by (induction rule: rtranclp_induct) (auto intro: new_manager_ok retarget_step_inv)
  then show ?thesis by (simp add: retarget_inv_def thresholds_ok_def GetCurrentThresholds_def RetargetWindow_def)
qed

theorem retarget_bounds_witness:
  "inside (f_lit 5) (f_lit 10) (th_MinUploadBandwidth (GetCurrentThresholds
     (AdjustDifficulty 0 50 (RecordValidatorCount 3 (NewPoBRetargetManager 0)))))"
  by (rule retarget_bounds [THEN conjunct1])
    (rule rtranclp.rtrancl_into_rtrancl [OF rtranclp.rtrancl_into_rtrancl [OF rtranclp.rtrancl_refl]]; rule retarget_step.intros)

end
