(* ===== verification/Network_Fairness.thy ===== *)
theory Network_Fairness
  imports Core_Types Exchange_Sort
begin

text \<open>
  Network diversity of the rewards (\<open>pkg/consensus/network_fairness.go\<close>): validators are grouped
  by their announced network or the /24 subnet of their address, and a reward is split evenly
  over the groups and then within each group.

  \<open>net.ParseIP\<close>, \<open>IsLoopback\<close> and \<open>IsPrivate\<close> of the standard library are modelled: an address is
  the list of its 16 bytes. A Go map is iterated in the order of its list; the theorems
  hold for every list of a map.
\<close>

section \<open>Splitting at a separator (strings.Split)\<close>

fun split_at :: "char \<Rightarrow> string \<Rightarrow> string list" where
  "split_at sep [] = [[]]"
| "split_at sep (c # cs) =
     (if c = sep then [] # split_at sep cs
      else (case split_at sep cs of [] \<Rightarrow> [[c]] | p # ps \<Rightarrow> (c # p) # ps))"

section \<open>Addresses (net.ParseIP)\<close>

text \<open>Four decimal fields without leading zeros: the value and the number of digits of the current field, the fields before it.\<close>

fun ip4_fields :: "string \<Rightarrow> nat \<Rightarrow> nat \<Rightarrow> nat list \<Rightarrow> nat list option" where
  "ip4_fields [] val digLen flds = (if length flds = 3 then Some (flds @ [val]) else None)"
| "ip4_fields (c # cs) val digLen flds =
     (if is_digit c then
        (if digLen = 1 \<and> val = 0 then None
         else let val' = val * 10 + digit_value c in
           if val' > 255 then None else ip4_fields cs val' (digLen + 1) flds)
      else if c = CHR ''.'' then
        (if digLen = 0 \<or> cs = [] \<or> length flds = 3 then None
         else ip4_fields cs 0 0 (flds @ [val]))
      else None)"

definition hex_value :: "char \<Rightarrow> nat option" where
  "hex_value c = (let n = of_char c :: nat in
     if 48 \<le> n \<and> n \<le> 57 then Some (n - 48)
     else if 97 \<le> n \<and> n \<le> 102 then Some (n - 87)
     else if 65 \<le> n \<and> n \<le> 70 then Some (n - 55) else None)"

definition hex_number :: "string \<Rightarrow> nat" where
  "hex_number cs = foldl (\<lambda>acc c. acc * 16 + (case hex_value c of Some d \<Rightarrow> d | None \<Rightarrow> 0)) 0 cs"

text \<open>
  The loop over the 16-bit groups of an IPv6 address, with the bytes read so far and the place of the
  ellipsis. It reads two bytes per round; the first argument counts the rounds left.
\<close>

fun ip6_loop :: "nat \<Rightarrow> string \<Rightarrow> nat list \<Rightarrow> nat option \<Rightarrow> (string \<times> nat list \<times> nat option) option" where
  "ip6_loop 0 s ip ellipsis = Some (s, ip, ellipsis)"
| "ip6_loop (Suc rounds) s ip ellipsis =
     (let ds = takeWhile (\<lambda>c. hex_value c \<noteq> None) s; rest = drop (length ds) s in
      if ds = [] \<or> length ds > 4 then None
      else case rest of
        [] \<Rightarrow> Some ([], ip @ [hex_number ds div 256, hex_number ds mod 256], ellipsis)
      | c # cs \<Rightarrow>
          if c = CHR ''.'' then
            (if ellipsis = None \<and> length ip \<noteq> 12 \<or> length ip + 4 > 16 then None
             else map_option (\<lambda>fs. ([], ip @ fs, ellipsis)) (ip4_fields s 0 0 []))
          else let ip' = ip @ [hex_number ds div 256, hex_number ds mod 256] in
            if c \<noteq> CHR '':'' \<or> cs = [] then None
            else if hd cs = CHR '':'' then
              (if ellipsis \<noteq> None then None
               else if tl cs = [] then Some ([], ip', Some (length ip'))
               else ip6_loop rounds (tl cs) ip' (Some (length ip')))
            else ip6_loop rounds cs ip' ellipsis)"

definition parse_ip6 :: "string \<Rightarrow> nat list option" where
  "parse_ip6 s =
     (if CHR ''%'' \<in> set s then None
      else let lead = take 2 s = ''::''; body = (if lead then drop 2 s else s) in
        if lead \<and> body = [] then Some (replicate 16 0)
        else case ip6_loop 8 body [] (if lead then Some 0 else None) of
          None \<Rightarrow> None
        | Some (rest, ip, ellipsis) \<Rightarrow>
            if rest \<noteq> [] then None
            else if length ip < 16 then
              (case ellipsis of
                 None \<Rightarrow> None
               | Some e \<Rightarrow> Some (take e ip @ replicate (16 - length ip) 0 @ drop e ip))
            else if ellipsis \<noteq> None then None else Some ip)"

definition v4_in_v6 :: "nat list \<Rightarrow> nat list" where
  "v4_in_v6 flds = replicate 10 0 @ [255, 255] @ flds"

definition ParseIP :: "string \<Rightarrow> nat list option" where
  "ParseIP s = (case dropWhile (\<lambda>c. c \<notin> {CHR ''.'', CHR '':'', CHR ''%''}) s of
       c # _ \<Rightarrow> if c = CHR ''.'' then map_option v4_in_v6 (ip4_fields s 0 0 [])
                else if c = CHR '':'' then parse_ip6 s else None
     | [] \<Rightarrow> None)"

definition To4 :: "nat list \<Rightarrow> nat list option" where
  "To4 ip = (if take 12 ip = v4_in_v6 [] then Some (drop 12 ip) else None)"

definition IsLoopback :: "nat list \<Rightarrow> bool" where
  "IsLoopback ip = (case To4 ip of Some f \<Rightarrow> f ! 0 = 127 | None \<Rightarrow> ip = replicate 15 0 @ [1])"

definition IsPrivate :: "nat list \<Rightarrow> bool" where
  "IsPrivate ip = (case To4 ip of
       Some f \<Rightarrow> f ! 0 = 10 \<or> f ! 0 = 172 \<and> 16 \<le> f ! 1 \<and> f ! 1 \<le> 31 \<or> f ! 0 = 192 \<and> f ! 1 = 168
     | None \<Rightarrow> ip ! 0 = 252 \<or> ip ! 0 = 253)"

section \<open>Groups\<close>

definition getSubnet24 :: "string \<Rightarrow> string" where
  "getSubnet24 ipAddr = (let parts = split_at (CHR ''.'') ipAddr in
     if length parts \<ge> 3 then parts ! 0 @ ''.'' @ parts ! 1 @ ''.'' @ parts ! 2 @ ''.0/24''
     else ''unknown'')"

definition extractASNFromIP :: "string \<Rightarrow> string" where
  "extractASNFromIP ipAddr =
     (if ipAddr = [] then ''unknown''
      else case ParseIP ipAddr of
        None \<Rightarrow> ''unknown''
      | Some ip \<Rightarrow> if IsLoopback ip then ''local'' else if IsPrivate ip then ''private'' else getSubnet24 ipAddr)"

record NetworkGroup =
  ng_ASN :: string
  ng_Validators :: "string list"
  ng_TotalScore :: f64

text \<open>The name of the group of a validator.\<close>

definition network_of :: "ValidatorInfo \<Rightarrow> string" where
  "network_of validator =
     (let asn = (if v_NetworkASN validator = [] then extractASNFromIP (v_IPAddress validator) else v_NetworkASN validator)
      in if asn = [] then ''unknown'' else asn)"

definition empty_group :: "string \<Rightarrow> NetworkGroup" where
  "empty_group asn = \<lparr>ng_ASN = asn, ng_Validators = [], ng_TotalScore = Fin 0\<rparr>"

definition join_group :: "ValidatorInfo \<Rightarrow> (string, NetworkGroup) gomap \<Rightarrow> (string, NetworkGroup) gomap" where
  "join_group validator groups =
     (let asn = network_of validator;
          g = (case mget groups asn of None \<Rightarrow> empty_group asn | Some g \<Rightarrow> g)
      in mput asn (g\<lparr>ng_Validators := ng_Validators g @ [v_ID validator],
           ng_TotalScore := f_add (ng_TotalScore g) (v_PoBScore validator)\<rparr>) groups)"

definition GroupValidatorsByNetwork :: "(string, ValidatorInfo) gomap \<Rightarrow> (string, NetworkGroup) gomap" where
  "GroupValidatorsByNetwork validators = fold join_group (map snd validators) []"

section \<open>Rewards\<close>

definition credit :: "int \<Rightarrow> string \<Rightarrow> (string, int) gomap \<Rightarrow> (string, int) gomap" where
  "credit sharePerValidator validatorID rewards =
     mput validatorID ((case mget rewards validatorID of None \<Rightarrow> 0 | Some x \<Rightarrow> x) + sharePerValidator) rewards"

definition credit_group :: "int \<Rightarrow> NetworkGroup \<Rightarrow> (string, int) gomap \<Rightarrow> (string, int) gomap" where
  "credit_group sharePerGroup g rewards =
     (if ng_Validators g = [] then rewards
      else fold (credit (sharePerGroup div int (length (ng_Validators g)))) (ng_Validators g) rewards)"

text \<open>The parameter \<open>topCount\<close> is not used by the code.\<close>

definition DistributePoBRewardFairly :: "int \<Rightarrow> (string, NetworkGroup) gomap \<Rightarrow> int \<Rightarrow> (string, int) gomap" where
  "DistributePoBRewardFairly pobReward groups topCount =
     (if groups = [] then []
      else fold (credit_group (pobReward div int (mlen groups))) (map snd groups) [])"

section \<open>Top contributors\<close>

definition lower_average :: "string \<times> f64 \<Rightarrow> string \<times> f64 \<Rightarrow> bool" where
  "lower_average a b = f_lt (snd a) (snd b)"

definition group_scores :: "(string, NetworkGroup) gomap \<Rightarrow> (string \<times> f64) list" where
  "group_scores groups = map (\<lambda>(asn, g). (asn, f_div (ng_TotalScore g) (f_of_int (int (length (ng_Validators g)))))) groups"

definition GetTopPoBContributorsByGroup :: "(string, ValidatorInfo) gomap \<Rightarrow> int \<Rightarrow> string list" where
  "GetTopPoBContributorsByGroup validators maxGroups =
     (let groups = GroupValidatorsByNetwork validators;
          ranked = exchange_sort lower_average (group_scores groups)
      in concat (map (\<lambda>gs. case mget groups (fst gs) of Some g \<Rightarrow> ng_Validators g | None \<Rightarrow> [])
           (take (nat maxGroups) ranked)))"

section \<open>How groups and rewards come out\<close>

lemma mget_join_group:
  "mget (join_group v gs) a = (if a = network_of v
     then (let g = (case mget gs a of None \<Rightarrow> empty_group a | Some g \<Rightarrow> g)
       in Some (g\<lparr>ng_Validators := ng_Validators g @ [v_ID v], ng_TotalScore := f_add (ng_TotalScore g) (v_PoBScore v)\<rparr>))
     else mget gs a)"
  by (auto simp: join_group_def Let_def mget_mput)

lemma wf_join_group: "wf_map gs \<Longrightarrow> wf_map (join_group v gs)"
  by (simp add: join_group_def Let_def wf_mput)

definition members :: "(string, NetworkGroup) gomap \<Rightarrow> string \<Rightarrow> string list" where
  "members gs a = (case mget gs a of None \<Rightarrow> [] | Some g \<Rightarrow> ng_Validators g)"

lemma members_join_group: "members (join_group v gs) a = members gs a @ (if a = network_of v then [v_ID v] else [])"
  by (simp add: members_def mget_join_group Let_def empty_group_def split: option.splits)

lemma fold_join_group:
  "members (fold join_group vs gs) a = members gs a @ map v_ID (filter (\<lambda>v. network_of v = a) vs)"
  "fst ` set (fold join_group vs gs) = fst ` set gs \<union> network_of ` set vs"
  "wf_map gs \<Longrightarrow> wf_map (fold join_group vs gs)"
proof (induction vs arbitrary: gs)
  case (Cons v vs)
  { case 1 show ?case using Cons.IH(1) [of "join_group v gs"] by (auto simp: members_join_group)
  next
    case 2 show ?case using Cons.IH(2) [of "join_group v gs"] by (auto simp: join_group_def Let_def fst_set_mput)
  next
    case 3 then show ?case using Cons.IH(3) [of "join_group v gs"] by (simp add: wf_join_group) }
qed simp_all

text \<open>What a validator holds in a table of rewards, and the sum of the table.\<close>

definition reward_of :: "(string, int) gomap \<Rightarrow> string \<Rightarrow> int" where
  "reward_of rw i = (case mget rw i of None \<Rightarrow> 0 | Some x \<Rightarrow> x)"

definition reward_sum :: "(string, int) gomap \<Rightarrow> int" where
  "reward_sum rw = sum_list (map snd rw)"

lemma reward_of_credit: "reward_of (credit s i rw) j = reward_of rw j + (if i = j then s else 0)"
  by (simp add: reward_of_def credit_def mget_mput)

lemma sum_update: "sum_list (map snd (AList.update k v m)) =
    sum_list (map snd m) + v - (case map_of m k of None \<Rightarrow> 0 | Some x \<Rightarrow> (x :: int))"
  by (induction m) auto

lemma reward_sum_credit: "reward_sum (credit s i rw) = reward_sum rw + s"
  by (simp add: reward_sum_def credit_def mput_def mget_def sum_update split: option.splits)

lemma fold_credit:
  "reward_of (fold (credit s) ids rw) j = reward_of rw j + int (count_list ids j) * s"
  "reward_sum (fold (credit s) ids rw) = reward_sum rw + int (length ids) * s"
  by (induction ids arbitrary: rw) (simp_all add: reward_of_credit reward_sum_credit algebra_simps)

lemma int_div_mult_le: "0 < n \<Longrightarrow> n * (m div n) \<le> (m :: int)"
  using mult_div_mod_eq [of n m] pos_mod_sign [of n m] by linarith

definition group_share :: "int \<Rightarrow> NetworkGroup \<Rightarrow> int" where
  "group_share s g = (if ng_Validators g = [] then 0 else s div int (length (ng_Validators g)))"

lemma credit_group_effect:
  "reward_of (credit_group s g rw) j = reward_of rw j + int (count_list (ng_Validators g) j) * group_share s g"
  "0 \<le> s \<Longrightarrow> reward_sum (credit_group s g rw) \<le> reward_sum rw + s"
  using int_div_mult_le [of "int (length (ng_Validators g))" s] by (auto simp: credit_group_def group_share_def fold_credit)

lemma fold_credit_group:
  "reward_of (fold (credit_group s) gs rw) j = reward_of rw j + (\<Sum>g \<leftarrow> gs. int (count_list (ng_Validators g) j) * group_share s g)"
  "0 \<le> s \<Longrightarrow> reward_sum (fold (credit_group s) gs rw) \<le> reward_sum rw + int (length gs) * s"
proof (induction gs arbitrary: rw)
  case (Cons g gs)
  { case 1 show ?case using Cons.IH(1) [of "credit_group s g rw"] by (simp add: credit_group_effect)
  next
    case 2 then show ?case
      using Cons.IH(2) [of "credit_group s g rw"] credit_group_effect(2) [of s g rw] by (simp add: algebra_simps) }
qed simp_all

lemma distribution_total:
  assumes "0 \<le> pobReward"
  shows "reward_sum (DistributePoBRewardFairly pobReward groups topCount) \<le> pobReward"
proof (cases "groups = []")
  case False
  let ?s = "pobReward div int (mlen groups)"
  have "0 \<le> ?s" using assms False by (simp add: pos_imp_zdiv_nonneg_iff mlen_def)
  from fold_credit_group(2) [OF this, of "map snd groups" "[]"]
  have "reward_sum (DistributePoBRewardFairly pobReward groups topCount) \<le> int (mlen groups) * ?s"
    using False by (simp add: DistributePoBRewardFairly_def reward_sum_def mlen_def)
  also have "\<dots> \<le> pobReward" using False by (simp add: int_div_mult_le mlen_def)
  finally show ?thesis .
qed (simp add: assms DistributePoBRewardFairly_def reward_sum_def)


lemma sum_one_key:
  "distinct (map fst gs) \<Longrightarrow> (k, g) \<in> set gs \<Longrightarrow> (\<Sum>(a, x) \<leftarrow> gs. if a = k then f x else (0 :: int)) = f g"
proof (induction gs)
  case (Cons ax gs)
  have "(\<Sum>(a, x) \<leftarrow> gs. if a = k then f x else 0) = 0" if "k \<notin> fst ` set gs"
    using that by (induction gs) auto
  with Cons show ?case by (cases ax) force
qed simp

definition keyed :: "(string, ValidatorInfo) gomap \<Rightarrow> bool" where
  "keyed validators = (wf_map validators \<and> (\<forall>(i, v) \<in> set validators. v_ID v = i))"

lemma keyed_distinct: "keyed validators \<Longrightarrow> distinct (map v_ID (map snd validators))"
proof -
  assume k: "keyed validators"
  then have "map v_ID (map snd validators) = map fst validators" by (auto simp: keyed_def)
  then show ?thesis using k unfolding keyed_def by argo
qed

lemma group_members:
  assumes "(a, g) \<in> set (GroupValidatorsByNetwork validators)"
  shows "ng_Validators g = map v_ID (filter (\<lambda>v. network_of v = a) (map snd validators))"
proof -
  have "mget (GroupValidatorsByNetwork validators) a = Some g"
    using assms fold_join_group(3) [of "[]"] by (intro mget_of_set) (simp_all add: GroupValidatorsByNetwork_def)
  then have "members (GroupValidatorsByNetwork validators) a = ng_Validators g" by (simp add: members_def)
  then show ?thesis using fold_join_group(1) [of "map snd validators" "[]" a] by (simp add: GroupValidatorsByNetwork_def members_def)
qed

lemma count_list_distinct: "distinct xs \<Longrightarrow> count_list xs x = (if x \<in> set xs then 1 else 0)"
  by (induction xs) auto

lemma count_members:
  assumes "keyed validators" "(i, v) \<in> set validators"
  shows "count_list (map v_ID (filter (\<lambda>u. network_of u = a) (map snd validators))) i = (if a = network_of v then 1 else 0)"
proof -
  let ?vs = "map snd validators" and ?xs = "map v_ID (filter (\<lambda>u. network_of u = a) (map snd validators))"
  have d: "distinct (map v_ID ?vs)" by (rule keyed_distinct [OF assms(1)])
  have v: "v \<in> set ?vs" "v_ID v = i" using assms by (force simp: keyed_def)+
  have inj: "u = v" if "u \<in> set ?vs" "v_ID u = i" for u
    using d v that unfolding distinct_map inj_on_def by blast
  have "distinct ?xs" by (rule distinct_map_filter [OF d])
  moreover have "i \<in> set ?xs \<longleftrightarrow> a = network_of v" using inj v by force
  ultimately show ?thesis by (simp add: count_list_distinct)
qed

text \<open>
  The PoB share of a block never exceeds what is to be distributed, and each validator gets
  the floor of an equal share within the floor of an equal share of its network, so a network earns the
  same however many validators it has.
\<close>

theorem fair_share:
  assumes "0 \<le> pobReward" "keyed validators"
  shows "reward_sum (DistributePoBRewardFairly pobReward (GroupValidatorsByNetwork validators) topCount) \<le> pobReward \<and>
    (\<forall>(i, v) \<in> set validators.
       reward_of (DistributePoBRewardFairly pobReward (GroupValidatorsByNetwork validators) topCount) i =
       pobReward div int (card (network_of ` snd ` set validators))
         div int (length (filter (\<lambda>u. network_of u = network_of v) (map snd validators))))"
proof (rule conjI [OF distribution_total [OF assms(1)]], safe)
  fix i v
  assume iv: "(i, v) \<in> set validators"
  let ?gs = "GroupValidatorsByNetwork validators"
  have keys: "fst ` set ?gs = network_of ` snd ` set validators" and wf: "wf_map ?gs"
    using fold_join_group(2) [of "map snd validators" "[]"] fold_join_group(3) [of "[]" "map snd validators"] by (simp_all add: GroupValidatorsByNetwork_def image_image)
  have len: "mlen ?gs = card (network_of ` snd ` set validators)" using mlen_dom [OF wf] keys by simp
  have ne: "?gs \<noteq> []" using keys iv by force
  obtain g where g: "(network_of v, g) \<in> set ?gs" using keys iv by force
  let ?s = "pobReward div int (mlen ?gs)"
  have "reward_of (DistributePoBRewardFairly pobReward ?gs topCount) i =
      (\<Sum>g \<leftarrow> map snd ?gs. int (count_list (ng_Validators g) i) * group_share ?s g)"
    using ne by (simp add: DistributePoBRewardFairly_def fold_credit_group(1) reward_of_def [of "[]"])
  also have "\<dots> = (\<Sum>(a, x) \<leftarrow> ?gs. if a = network_of v then group_share ?s x else 0)"
    unfolding map_map using group_members count_members [OF assms(2) iv]
    by (intro arg_cong [where f = sum_list] map_cong refl) (auto split: prod.splits)
  also have "\<dots> = group_share ?s g" by (rule sum_one_key [OF wf g])
  also have "\<dots> = ?s div int (length (filter (\<lambda>u. network_of u = network_of v) (map snd validators)))"
    using group_members [OF g] iv by (force simp: group_share_def filter_empty_conv)
  finally show "reward_of (DistributePoBRewardFairly pobReward ?gs topCount) i =
      pobReward div int (card (network_of ` snd ` set validators))
        div int (length (filter (\<lambda>u. network_of u = network_of v) (map snd validators)))" by (simp only: len)
qed

definition demo_validator :: "string \<Rightarrow> string \<Rightarrow> ValidatorInfo" where
  "demo_validator i ip = demo_info\<lparr>v_ID := i, v_IPAddress := ip\<rparr>"

definition demo_validators :: "(string, ValidatorInfo) gomap" where
  "demo_validators = map (\<lambda>(i, ip). (i, demo_validator i ip)) [(''a'', ''8.8.4.1''), (''b'', ''8.8.4.2''), (''c'', ''9.9.9.9'')]"

theorem fair_share_witness:
  "reward_of (DistributePoBRewardFairly 20 (GroupValidatorsByNetwork demo_validators) 20) ''a'' = 5 \<and>
   reward_of (DistributePoBRewardFairly 20 (GroupValidatorsByNetwork demo_validators) 20) ''c'' = 10"
proof -
  have nets: "network_of (demo_validator ''a'' ''8.8.4.1'') = ''8.8.4.0/24''" "network_of (demo_validator ''b'' ''8.8.4.2'') = ''8.8.4.0/24''"
    "network_of (demo_validator ''c'' ''9.9.9.9'') = ''9.9.9.0/24''"
    by code_simp+
  have k: "keyed demo_validators" by (simp add: keyed_def demo_validators_def demo_validator_def)
  show ?thesis
    using fair_share [OF _ k, of 20 20, THEN conjunct2] nets by (simp add: demo_validators_def)
qed

end
