(* ===== verification/Block_Economy.thy ===== *)
theory Block_Economy
  imports Registry Network_Fairness
begin

text \<open>
  What a finalized block does to the accounts (\<open>pkg/consensus/validator_service.go\<close>): the
  validation and the application of transactions, the block reward and its distribution, and the
  dynamic block capacity.

  Accounts are values read from and written back to the state through \<open>state_ops\<close>. The code writes
  through the pointers that \<open>GetAccount\<close> returns; whether it returns the stored record itself or a
  copy is not known, since the type \<open>State\<close> is not in the repository. The argument \<open>shared\<close> is the
  answer to that question: it matters for a transfer of an account to itself and for a panic in
  the middle of a transfer. \<open>GetAccount\<close> has a nil account beside every error.
\<close>

section \<open>Transactions\<close>

record tx_env =
  te_enc :: "Transaction encoder"
  te_verify :: "PublicKey \<Rightarrow> bytes \<Rightarrow> nat \<Rightarrow> nat \<Rightarrow> bool"
  te_modsqrt :: "int \<Rightarrow> nat \<Rightarrow> nat"

definition nil_pointer :: fail where
  "nil_pointer = Panic ''nil pointer dereference''"

text \<open>The part of \<open>validateTransaction\<close> for a transaction with a signature.\<close>

definition signature_valid :: "tx_env \<Rightarrow> 'st state_ops \<Rightarrow> 'st \<Rightarrow> Transaction \<Rightarrow> bool" where
  "signature_valid env so st tx =
     (case Transaction_Hash (te_enc env) tx of
        Inl _ \<Rightarrow> False
      | Inr txHash \<Rightarrow>
          if length (tx_Signature tx) < 32 then False
          else let half = length (tx_Signature tx) div 2;
                   r = be_val (take half (tx_Signature tx)); s = be_val (drop half (tx_Signature tx))
            in (case so_validator so st (tx_From tx) of
                  Inl _ \<Rightarrow> False
                | Inr validatorInfo \<Rightarrow>
                    (case DecodeECDSAPublicKey (te_modsqrt env) (v_PublicKey validatorInfo) of
                       Inl _ \<Rightarrow> False
                     | Inr pubKey \<Rightarrow> te_verify env pubKey txHash r s)))"

definition validateTransaction :: "tx_env \<Rightarrow> 'st state_ops \<Rightarrow> 'st \<Rightarrow> Transaction \<Rightarrow> bool res" where
  "validateTransaction env so st tx =
     (case so_account so st (tx_From tx) of
        Inl _ \<Rightarrow> Inr False
      | Inr None \<Rightarrow> Inl nil_pointer
      | Inr (Some account) \<Rightarrow>
          if a_Nonce account \<noteq> tx_Nonce tx then Inr False
          else if a_Balance account < tx_Amount tx + tx_Fee tx then Inr False
          else if tx_Signature tx \<noteq> [] then Inr (signature_valid env so st tx)
          else Inr True)"

text \<open>
  \<open>sort.Slice\<close> is not stable, so its result on a list is any permutation that is sorted; the
  argument \<open>order\<close> is such a function (\<open>fee_sort\<close>).
\<close>

definition fee_sort :: "(Transaction list \<Rightarrow> Transaction list) \<Rightarrow> bool" where
  "fee_sort order = (\<forall>txs. mset (order txs) = mset txs \<and> sorted_wrt (\<lambda>a b. tx_Fee b \<le> tx_Fee a) (order txs))"

fun select_valid :: "(Transaction \<Rightarrow> bool res) \<Rightarrow> Transaction list \<Rightarrow> Transaction list res" where
  "select_valid valid [] = Inr []"
| "select_valid valid (tx # txs) =
     (case valid tx of
        Inl e \<Rightarrow> Inl e
      | Inr ok \<Rightarrow> (case select_valid valid txs of Inl e \<Rightarrow> Inl e | Inr rest \<Rightarrow> Inr (if ok then tx # rest else rest)))"

definition selectAndValidateTransactions ::
  "tx_env \<Rightarrow> 'st state_ops \<Rightarrow> (Transaction list \<Rightarrow> Transaction list) \<Rightarrow> 'st \<Rightarrow> Transaction list \<Rightarrow> Transaction list res" where
  "selectAndValidateTransactions env so order st txs = select_valid (validateTransaction env so st) (order txs)"

definition base_fee :: "Transaction \<Rightarrow> int" where
  "base_fee tx = tx_Amount tx * 1 div 10000000000"

definition pay :: "Transaction \<Rightarrow> Account \<Rightarrow> Account" where
  "pay tx a = a\<lparr>a_Balance := a_Balance a - (tx_Amount tx + tx_Fee tx), a_Nonce := a_Nonce a + 1\<rparr>"

definition receive :: "Transaction \<Rightarrow> Account \<Rightarrow> Account" where
  "receive tx a = a\<lparr>a_Balance := a_Balance a + tx_Amount tx\<rparr>"

definition applyTransaction :: "bool \<Rightarrow> 'st state_ops \<Rightarrow> Transaction \<Rightarrow> 'st \<Rightarrow> 'st \<times> fail option" where
  "applyTransaction shared so tx st =
     (case so_account so st (tx_From tx) of
        Inr (Some fromAccount) \<Rightarrow>
          (case so_account so st (tx_To tx) of
             Inr (Some toAccount) \<Rightarrow>
               (let from' = pay tx fromAccount;
                    to' = receive tx (if shared \<and> tx_From tx = tx_To tx then from' else toAccount);
                    st' = so_put_account so to' (so_put_account so from' st)
                in if base_fee tx > 0 \<and> length (tx_ID tx) < 16
                   then (if shared then st' else st, Some (Panic ''slice bounds out of range''))
                   else (st', None))
           | _ \<Rightarrow> (if shared then so_put_account so (pay tx fromAccount) st else st, Some nil_pointer))
      | _ \<Rightarrow> (st, Some nil_pointer))"

section \<open>Rewards\<close>

definition calculateBlockReward :: "u64 \<Rightarrow> int" where
  "calculateBlockReward blockHeight =
     (let reductionCount = sint blockHeight div BlockReductionInterval;
          reward = InitialBlockReward - reductionCount * BlockRewardReduction
      in if reward < MinBlockReward then MinBlockReward else reward)"

fun eligible_infos :: "'st state_ops \<Rightarrow> 'st \<Rightarrow> string list \<Rightarrow> (string, ValidatorInfo) gomap \<Rightarrow> (string, ValidatorInfo) gomap" where
  "eligible_infos so st [] infos = infos"
| "eligible_infos so st (vid # vids) infos =
     eligible_infos so st vids
       (case so_validator so st vid of Inr info \<Rightarrow> if v_IsSuspended info then infos else mput vid info infos | Inl _ \<Rightarrow> infos)"

definition add_reward :: "'st state_ops \<Rightarrow> string \<Rightarrow> int \<Rightarrow> 'st \<Rightarrow> 'st \<times> fail option" where
  "add_reward so i reward st =
     (case so_account so st i of
        Inr (Some account) \<Rightarrow> (so_put_account so (account\<lparr>a_Balance := a_Balance account + reward\<rparr>) st, None)
      | _ \<Rightarrow> (st, Some nil_pointer))"

definition suspended_in :: "'st state_ops \<Rightarrow> 'st \<Rightarrow> string \<Rightarrow> bool" where
  "suspended_in so st i = (case so_validator so st i of Inr info \<Rightarrow> v_IsSuspended info | Inl _ \<Rightarrow> False)"

fun pay_rewards :: "'st state_ops \<Rightarrow> (string \<times> int) list \<Rightarrow> 'st \<Rightarrow> 'st \<times> fail option" where
  "pay_rewards so [] st = (st, None)"
| "pay_rewards so ((i, reward) # rest) st =
     (if reward > 0 \<and> \<not> suspended_in so st i then
        (case add_reward so i reward st of
           (st', None) \<Rightarrow> pay_rewards so rest st'
         | (st', Some e) \<Rightarrow> (st', Some e))
      else pay_rewards so rest st)"

definition distributeBlockRewards :: "'st state_ops \<Rightarrow> Block \<Rightarrow> 'st \<Rightarrow> 'st \<times> fail option" where
  "distributeBlockRewards so block st =
     (let blockReward = calculateBlockReward (h_Height (b_Header block));
          proposerReward = blockReward * ProposerRewardPercentage div 100;
          pobReward = blockReward * PoBContributorPercentage div 100
      in case add_reward so (b_ProposerID block) proposerReward st of
           (st1, Some e) \<Rightarrow> (st1, Some e)
         | (st1, None) \<Rightarrow>
             (case slice_to 12 (b_ProposerID block) of
                Inl e \<Rightarrow> (st1, Some e)
              | Inr _ \<Rightarrow>
                  let infos = eligible_infos so st1 (so_active so st1) [];
                      groups = GroupValidatorsByNetwork infos
                  in pay_rewards so (DistributePoBRewardFairly pobReward groups MaxPoBContributors) st1))"

section \<open>Block capacity\<close>

definition DynamicBlockCapacityRatio :: f64 where "DynamicBlockCapacityRatio = f_lit (30 / 100)"

text \<open>\<open>PropagationPhase.Seconds()\<close> is 10.\<close>

definition calculateDynamicBlockCapacity :: "f64 \<Rightarrow> int" where
  "calculateDynamicBlockCapacity uploadBandwidthMBps =
     (let upload = (if f_le uploadBandwidthMBps (Fin 0) then MinUploadBandwidth else uploadBandwidthMBps);
          propagationTimeSeconds = f_lit (of_int (PropagationPhase div second));
          maxCapacityMB = f_mul (f_mul DynamicBlockCapacityRatio upload) propagationTimeSeconds;
          maxCapacityBytes = f_int (f_mul (f_mul maxCapacityMB (f_lit 1024)) (f_lit 1024));
          minCapacityBytes = 5 * 1024 * 1024; limit = 300 * 1024 * 1024;
          bytes = (if maxCapacityBytes < minCapacityBytes then minCapacityBytes else maxCapacityBytes)
      in if bytes > limit then limit else bytes)"

section \<open>Balances\<close>

definition balance :: "'st state_ops \<Rightarrow> 'st \<Rightarrow> string \<Rightarrow> int" where
  "balance so st i = (case so_account so st i of Inr (Some a) \<Rightarrow> a_Balance a | _ \<Rightarrow> 0)"

text \<open>The coins held by a set of addresses.\<close>

definition held :: "'st state_ops \<Rightarrow> string set \<Rightarrow> 'st \<Rightarrow> int" where
  "held so A st = (\<Sum>i \<in> A. balance so st i)"

lemma balance_put:
  "state_laws so \<Longrightarrow> balance so (so_put_account so a st) i = (if i = a_Address a then a_Balance a else balance so st i)"
  by (simp add: balance_def state_put_account)

lemma held_put:
  assumes "state_laws so" "finite A"
  shows "held so A (so_put_account so a st) = held so A st + (if a_Address a \<in> A then a_Balance a - balance so st (a_Address a) else 0)"
proof -
  have "held so A (so_put_account so a st) = (\<Sum>i \<in> A. balance so st i + (if i = a_Address a then a_Balance a - balance so st (a_Address a) else 0))"
    unfolding held_def by (rule sum.cong) (simp_all add: balance_put [OF assms(1)])
  then show ?thesis using assms(2) by (simp add: held_def sum.distrib)
qed

lemma add_reward_held:
  assumes "state_laws so" "finite A" "add_reward so i r st = (st', e)" "0 \<le> r"
  shows "held so A st \<le> held so A st' \<and> held so A st' \<le> held so A st + r"
  using assms held_put [OF assms(1,2)] state_ids(2) [OF assms(1)]
  by (auto simp: add_reward_def balance_def split: sum.splits option.splits)

lemma pay_rewards_held:
  "state_laws so \<Longrightarrow> finite A \<Longrightarrow> \<forall>(i, r) \<in> set rs. 0 \<le> r \<Longrightarrow> pay_rewards so rs st = (st', e) \<Longrightarrow>
   held so A st \<le> held so A st' \<and> held so A st' \<le> held so A st + sum_list (map snd rs)"
proof (induction so rs st rule: pay_rewards.induct)
  case (2 so i r rest st)
  have pos: "0 \<le> sum_list (map snd rest)" "0 \<le> r" using "2.prems"(3) by (force intro!: sum_list_nonneg)+
  show ?case
  proof (cases "r > 0 \<and> \<not> suspended_in so st i")
    case True
    obtain st1 e1 where a: "add_reward so i r st = (st1, e1)" by fastforce
    note h = add_reward_held [OF "2.prems"(1,2) a pos(2)]
    show ?thesis
    proof (cases e1)
      case None
      then have "pay_rewards so rest st1 = (st', e)" using "2.prems"(4) True a by simp
      with "2.IH"(1) [OF True a [symmetric] None] "2.prems" h show ?thesis by simp
    next
      case (Some x)
      then show ?thesis using "2.prems"(4) True a h pos by simp
    qed
  next
    case False
    then have "pay_rewards so rest st = (st', e)" using "2.prems"(4) by auto
    with "2.IH"(2) [OF False] "2.prems" pos show ?thesis by simp
  qed
qed simp


section \<open>The reward of a block\<close>

lemma reduction_count: "blockHeight < 2 ^ 63 \<Longrightarrow> sint (blockHeight :: u64) = uint blockHeight"
proof -
  assume "blockHeight < 2 ^ 63"
  then have "uint blockHeight < 2 ^ 63" by (simp add: word_less_def)
  then show ?thesis unfolding sint_uint by (intro signed_take_bit_int_eq_self) (simp_all add: order_trans [OF _ uint_ge_0])
qed

text \<open>
  At every height below \<open>2^63\<close> the reward is 100 coins less one per million blocks, and
  never less than one; it does not grow with the height.
\<close>

theorem block_reward_schedule:
  assumes "h < 2 ^ 63"
  shows "calculateBlockReward h = max 1 (100 - uint h div 1000000) \<and> 1 \<le> calculateBlockReward h \<and> calculateBlockReward h \<le> 100 \<and>
    (\<forall>k \<le> h. calculateBlockReward h \<le> calculateBlockReward k)"
proof -
  have eq: "calculateBlockReward k = max 1 (100 - uint k div 1000000)" if "k \<le> h" for k
    using reduction_count [of k] that assms
    by (simp add: calculateBlockReward_def BlockReductionInterval_def InitialBlockReward_def BlockRewardReduction_def MinBlockReward_def Let_def)
  have mono: "uint k div 1000000 \<le> uint h div 1000000" if "k \<le> h" for k
    using that by (intro zdiv_mono1) (simp_all add: word_le_def)
  have "0 \<le> uint h div 1000000" by (simp add: pos_imp_zdiv_nonneg_iff)
  moreover have "calculateBlockReward h \<le> calculateBlockReward k" if "k \<le> h" for k
    unfolding eq [OF that] eq [OF order_refl] using mono [OF that] by simp
  ultimately show ?thesis using eq [OF order_refl] by simp
qed

theorem block_reward_schedule_witness: "calculateBlockReward 1000000 = 99"
  using block_reward_schedule [of 1000000] by simp

text \<open>
  The capacity of a block lies between 5 and 300 megabytes whatever the recorded bandwidth is,
  an infinity or no number included.
\<close>

theorem block_capacity_bounds:
  "5 * 1024 * 1024 \<le> calculateDynamicBlockCapacity u \<and> calculateDynamicBlockCapacity u \<le> 300 * 1024 * 1024"
  by (simp add: calculateDynamicBlockCapacity_def Let_def)

section \<open>The reward that is paid\<close>

lemma eligible_keyed: "state_laws so \<Longrightarrow> keyed infos \<Longrightarrow> keyed (eligible_infos so st vids infos)"
proof (induction so st vids infos rule: eligible_infos.induct)
  case (2 so st vid vids infos)
  have "keyed (mput vid info infos)" if "so_validator so st vid = Inr info" for info
    using 2(3) state_ids(1) [OF 2(2) that] in_set_mput [of infos _ _ vid info] by (fastforce simp: keyed_def wf_mput)
  then show ?case using 2 by (auto split: sum.splits)
qed simp

lemma credit_nonneg: "\<forall>(i, r) \<in> set rw. (0 :: int) \<le> r \<Longrightarrow> 0 \<le> s \<Longrightarrow> \<forall>(i, r) \<in> set (credit s j rw). 0 \<le> r"
  using set_mput_subset [of j _ rw] mget_in_set [of rw j] by (fastforce simp: credit_def split: option.splits)

lemma fold_credit_nonneg: "\<forall>(i, r) \<in> set rw. (0 :: int) \<le> r \<Longrightarrow> 0 \<le> s \<Longrightarrow> \<forall>(i, r) \<in> set (fold (credit s) ids rw). 0 \<le> r"
proof (induction ids arbitrary: rw)
  case (Cons j ids)
  show ?case using Cons.IH [OF credit_nonneg [OF Cons.prems] Cons.prems(2)] by simp
qed simp

lemma group_credit_nonneg:
  "\<forall>(i, r) \<in> set rw. (0 :: int) \<le> r \<Longrightarrow> 0 \<le> s \<Longrightarrow> \<forall>(i, r) \<in> set (fold (credit_group s) gs rw). 0 \<le> r"
proof (induction gs arbitrary: rw)
  case (Cons g gs)
  have "\<forall>(i, r) \<in> set (credit_group s g rw). 0 \<le> r"
    using Cons.prems fold_credit_nonneg [OF Cons.prems(1), of "s div int (length (ng_Validators g))" "ng_Validators g"]
    by (simp add: credit_group_def pos_imp_zdiv_nonneg_iff)
  from Cons.IH [OF this Cons.prems(2)] show ?case by simp
qed simp

lemma distribution_nonneg:
  "0 \<le> r \<Longrightarrow> \<forall>(i, x) \<in> set (DistributePoBRewardFairly r groups topCount). 0 \<le> x"
  using group_credit_nonneg [of "[]" "r div int (mlen groups)" "map snd groups"]
  by (simp add: DistributePoBRewardFairly_def mlen_def pos_imp_zdiv_nonneg_iff)

lemma split_reward: "1 \<le> r \<Longrightarrow> 0 \<le> r * 80 div 100" "1 \<le> r \<Longrightarrow> 0 \<le> r * 20 div 100"
    "1 \<le> r \<Longrightarrow> r * 80 div 100 + r * 20 div 100 \<le> (r :: int)"
  using int_div_mult_le [of 100 "r * 80"] int_div_mult_le [of 100 "r * 20"] by (simp_all add: pos_imp_zdiv_nonneg_iff)

text \<open>
  C19: Whether or not it panics on the way, the distribution of a block reward never destroys coins
  and creates at most the reward of the block.
\<close>

theorem reward_issuance:
  assumes "state_laws so" "finite A" "distributeBlockRewards so block st = (st', e)"
  shows "held so A st \<le> held so A st' \<and> held so A st' \<le> held so A st + calculateBlockReward (h_Height (b_Header block))"
proof -
  let ?r = "calculateBlockReward (h_Height (b_Header block))"
  have r: "1 \<le> ?r"
    by (simp add: calculateBlockReward_def Let_def MinBlockReward_def)
  let ?p = "?r * 80 div 100" and ?q = "?r * 20 div 100"
  note pq = split_reward [OF r]
  obtain st1 e1 where a: "add_reward so (b_ProposerID block) ?p st = (st1, e1)" by fastforce
  note h1 = add_reward_held [OF assms(1,2) a pq(1)]
  have h2: "held so A st1 \<le> held so A st' \<and> held so A st' \<le> held so A st1 + ?q"
    if run: "pay_rewards so (DistributePoBRewardFairly ?q groups MaxPoBContributors) st1 = (st', e)" for groups
    using pay_rewards_held [OF assms(1,2) distribution_nonneg [OF pq(2)] run] distribution_total [OF pq(2), of groups MaxPoBContributors]
    by (simp add: reward_sum_def)
  have "st' = st1 \<or> (\<exists>groups. pay_rewards so (DistributePoBRewardFairly ?q groups MaxPoBContributors) st1 = (st', e))"
    using assms(3) a by (auto simp: distributeBlockRewards_def Let_def ProposerRewardPercentage_def PoBContributorPercentage_def
        split: option.splits sum.splits)
  then show ?thesis using h1 h2 pq by fastforce
qed

definition demo_reward_block :: Block where
  "demo_reward_block = \<lparr>b_Header = \<lparr>h_Version = 1, h_PrevBlockHash = [], h_MerkleRoot = [], h_Timestamp = 0, h_Nonce = 0,
       h_Difficulty = 1, h_Height = 7, h_PoBScore = Fin 1, h_PoBWeight = 1000, h_VRFProof = [], h_VRFOutput = None\<rparr>,
     b_Transactions = [], b_ProposerID = ''validator-one'', b_PoHSequence = [], b_Signature = [], b_VRFProof = []\<rparr>"

definition demo_reward_state :: mem_state where
  "demo_reward_state = \<lparr>mst_validators = [(''validator-one'', demo_info\<lparr>v_ID := ''validator-one''\<rparr>)],
     mst_accounts = [(''validator-one'', \<lparr>a_Address = ''validator-one'', a_Balance = 5, a_Nonce = 0, a_CodeHash = []\<rparr>)]\<rparr>"

theorem reward_issuance_witness:
  "\<exists>st' e. distributeBlockRewards mem_state_ops demo_reward_block demo_reward_state = (st', e) \<and>
     5 \<le> balance mem_state_ops st' ''validator-one'' \<and> balance mem_state_ops st' ''validator-one'' \<le> 105"
proof -
  obtain st' e where run: "distributeBlockRewards mem_state_ops demo_reward_block demo_reward_state = (st', e)" by fastforce
  have "calculateBlockReward (h_Height (b_Header demo_reward_block)) = 100"
    by (simp add: calculateBlockReward_def demo_reward_block_def Let_def BlockReductionInterval_def InitialBlockReward_def
        BlockRewardReduction_def MinBlockReward_def)
  moreover have "held mem_state_ops {''validator-one''} demo_reward_state = 5"
    by (simp add: held_def balance_def mem_state_ops_def demo_reward_state_def)
  ultimately show ?thesis
    using reward_issuance [OF mem_state_laws, of "{''validator-one''}", OF _ run] run by (simp add: held_def)
qed

section \<open>The fees\<close>

lemma transfer_fees:
  assumes "state_laws so" "finite A" "tx_From tx \<in> A" "tx_To tx \<in> A" "tx_From tx \<noteq> tx_To tx"
    and "applyTransaction shared so tx st = (st', None)"
  shows "held so A st' = held so A st - tx_Fee tx \<and>
    balance so st' (tx_From tx) = balance so st (tx_From tx) - tx_Amount tx - tx_Fee tx \<and>
    balance so st' (tx_To tx) = balance so st (tx_To tx) + tx_Amount tx \<and>
    (\<forall>i. i \<noteq> tx_From tx \<and> i \<noteq> tx_To tx \<longrightarrow> so_account so st' i = so_account so st i)"
proof -
  obtain f t where f: "so_account so st (tx_From tx) = Inr (Some f)" and t: "so_account so st (tx_To tx) = Inr (Some t)"
    and st': "st' = so_put_account so (receive tx t) (so_put_account so (pay tx f) st)"
    using assms(5,6) by (auto simp: applyTransaction_def Let_def split: sum.splits option.splits if_splits)
  have ids: "a_Address (pay tx f) = tx_From tx" "a_Address (receive tx t) = tx_To tx"
    using state_ids(2) [OF assms(1)] f t by (simp_all add: pay_def receive_def)
  have b: "balance so st (tx_From tx) = a_Balance f" "balance so st (tx_To tx) = a_Balance t" using f t by (simp_all add: balance_def)
  show ?thesis
    using assms(3-5) b by (simp add: st' held_put [OF assms(1,2)] balance_put [OF assms(1)] state_put_account [OF assms(1)] ids)
      (simp add: pay_def receive_def)
qed

text \<open>
  C18: A transfer between two accounts takes the amount and the fee from the sender, whatever
  its balance, and gives the amount to the recipient: the whole fee leaves circulation, not only the
  base fee, and no one is paid a priority fee.
\<close>

theorem fees_leave_circulation:
  assumes "state_laws so" "finite A" "tx_From tx \<in> A" "tx_To tx \<in> A" "tx_From tx \<noteq> tx_To tx"
    and "applyTransaction shared so tx st = (st', None)"
  shows "held so A st' = held so A st - tx_Fee tx \<and>
    balance so st' (tx_From tx) = balance so st (tx_From tx) - tx_Amount tx - tx_Fee tx \<and>
    balance so st' (tx_To tx) = balance so st (tx_To tx) + tx_Amount tx \<and>
    (\<forall>i. i \<noteq> tx_From tx \<and> i \<noteq> tx_To tx \<longrightarrow> so_account so st' i = so_account so st i)"
  by (rule transfer_fees [OF assms])

definition demo_ledger :: mem_state where
  "demo_ledger = \<lparr>mst_validators = [], mst_accounts =
     [(''alice'', \<lparr>a_Address = ''alice'', a_Balance = 10, a_Nonce = 0, a_CodeHash = []\<rparr>),
      (''bob'', \<lparr>a_Address = ''bob'', a_Balance = 0, a_Nonce = 0, a_CodeHash = []\<rparr>)]\<rparr>"

definition demo_payment :: Transaction where
  "demo_payment = \<lparr>tx_ID = ''t'', tx_From = ''alice'', tx_To = ''bob'', tx_Amount = 50, tx_Timestamp = 0, tx_Nonce = 0, tx_Fee = 3,
     tx_Signature = [], tx_Data = []\<rparr>"

theorem fees_leave_circulation_witness:
  "\<exists>st'. applyTransaction True mem_state_ops demo_payment demo_ledger = (st', None) \<and> balance mem_state_ops st' ''alice'' = - 43"
proof -
  obtain st' where st': "applyTransaction True mem_state_ops demo_payment demo_ledger = (st', None)"
    by (simp add: applyTransaction_def mem_state_ops_def demo_ledger_def demo_payment_def base_fee_def Let_def)
  from fees_leave_circulation [OF mem_state_laws, of "{''alice'', ''bob''}", OF _ _ _ _ st'] st' show ?thesis
    by (simp add: demo_payment_def balance_def mem_state_ops_def demo_ledger_def)
qed

end
