(* ===== verification/Validator_Service.thy ===== *)
theory Validator_Service
  imports Chain Tx_Pool Merkle VRF_Check Retarget Block_Economy
begin

text \<open>
  The validator of a node (\<open>pkg/consensus/validator_service.go\<close>, \<open>pkg/consensus/poh.go\<close>): it proposes
  blocks, validates and votes on the blocks it receives, and finalizes a block when its vote
  completes the quorum. The operations compose those of the chain, the pool, the voting
  manager, the VRF checks, the retargeting and the accounts.

  Every component keeps its own view of the database they share in the code; their keys have different
  prefixes. The clock readings of an operation are the record \<open>clock\<close>.
\<close>

section \<open>Proof of history\<close>

record ProofOfHistory =
  ph_sequence :: bytes
  ph_tick :: u64

definition NewProofOfHistory :: "string \<Rightarrow> ProofOfHistory" where
  "NewProofOfHistory now = \<lparr>ph_sequence = sha256 (bytes_of now), ph_tick = 0\<rparr>"

definition GetSequence :: "ProofOfHistory \<Rightarrow> bytes" where
  "GetSequence poh = ph_sequence poh"

definition PoH_Update :: "bytes \<Rightarrow> ProofOfHistory \<Rightarrow> ProofOfHistory" where
  "PoH_Update sequence poh = poh\<lparr>ph_sequence := sha256 sequence, ph_tick := ph_tick poh + 1\<rparr>"

definition VerifySequence :: "bytes \<Rightarrow> bool" where
  "VerifySequence sequence = (length sequence > 0)"

section \<open>The service\<close>

record ('db, 'st) validator_env =
  ve_chain :: "'db chain_env"
  ve_so :: "'st state_ops"
  ve_tx :: tx_env
  ve_vrf :: vrf_lib
  ve_vote_verify :: "PublicKey \<Rightarrow> bytes \<Rightarrow> nat \<Rightarrow> nat \<Rightarrow> bool"
  ve_vote_enc :: "Vote encoder"
  ve_vote_dec :: "Vote decoder"
  ve_sign :: "bytes \<Rightarrow> (nat \<times> nat) res"
  ve_order :: "Transaction list \<Rightarrow> Transaction list"
  ve_shared :: bool
  ve_exists :: "'st \<Rightarrow> string \<Rightarrow> bool"

record clock =
  ck_now :: gotime
  ck_start :: gotime
  ck_deadline :: gotime
  ck_cast1 :: gotime
  ck_cast2 :: gotime
  ck_cast3 :: gotime
  ck_final :: gotime
  ck_adjust :: gotime

record ('db, 'st) ValidatorService =
  sv_validatorID :: string
  sv_vrfSystem :: SecureVRFSystem
  sv_votingManager :: "'db VotingManager"
  sv_finalityTracker :: FinalityTracker
  sv_retargetMgr :: PoBRetargetManager
  sv_blockchain :: "'db Blockchain"
  sv_state :: 'st
  sv_mempool :: Mempool
  sv_poh :: ProofOfHistory

text \<open>The voting manager consults the state of the service.\<close>

definition voting_view :: "('db, 'st) validator_env \<Rightarrow> 'st \<Rightarrow> 'db voting_env" where
  "voting_view env st = \<lparr>ve_state = Some \<lparr>sv_active = so_active (ve_so env) st, sv_validator = so_validator (ve_so env) st\<rparr>,
     ve_verify = ve_vote_verify env, ve_modsqrt = te_modsqrt (ve_tx env), ve_ldb = ce_ldb (ve_chain env),
     ve_enc = ve_vote_enc env, ve_dec = ve_vote_dec env\<rparr>"

definition NewValidatorService ::
  "('db, 'st) validator_env \<Rightarrow> gotime \<Rightarrow> SecureVRFSystem res \<Rightarrow> string \<Rightarrow> 'db Blockchain \<Rightarrow> 'st \<Rightarrow> 'db option \<Rightarrow> Mempool \<Rightarrow> ProofOfHistory
    \<Rightarrow> ('db, 'st) ValidatorService res" where
  "NewValidatorService env now vrfSys validatorID blockchain st db mempool poh =
     (case vrfSys of
        Inl (Panic e) \<Rightarrow> Inl (Panic e)
      | Inl (Error _) \<Rightarrow> Inl (Error ''failed to create VRF system'')
      | Inr vrf \<Rightarrow>
          Inr \<lparr>sv_validatorID = validatorID, sv_vrfSystem = vrf, sv_votingManager = NewVotingManager (voting_view env st) db,
            sv_finalityTracker = [], sv_retargetMgr = NewPoBRetargetManager now, sv_blockchain = blockchain,
            sv_state = (case so_validator (ve_so env) st validatorID of
                Inr validatorInfo \<Rightarrow> so_put_validator (ve_so env) (validatorInfo\<lparr>v_VRFPublicKey := GetPublicKey vrf\<rparr>) st
              | Inl _ \<Rightarrow> st),
            sv_mempool = mempool, sv_poh = poh\<rparr>)"

fun tx_hashes :: "Transaction encoder \<Rightarrow> Transaction list \<Rightarrow> bytes list res" where
  "tx_hashes enc [] = Inr []"
| "tx_hashes enc (tx # txs) = (case Transaction_Hash enc tx of
     Inl e \<Rightarrow> Inl e
   | Inr h \<Rightarrow> (case tx_hashes enc txs of Inl e \<Rightarrow> Inl e | Inr hs \<Rightarrow> Inr (h # hs)))"

definition block_merkle_root :: "('db, 'st) validator_env \<Rightarrow> Transaction list \<Rightarrow> bytes res" where
  "block_merkle_root env txs = (case tx_hashes (te_enc (ve_tx env)) txs of
     Inl e \<Rightarrow> Inl e | Inr hashes \<Rightarrow> Inr (ComputeMerkleRoot hashes))"

section \<open>The proposer\<close>

text \<open>The maps of keys and scores and the list of the validators that are not suspended.\<close>

fun proposer_candidates ::
  "'st state_ops \<Rightarrow> 'st \<Rightarrow> string list \<Rightarrow> (string, bytes) gomap \<times> (string, f64) gomap \<times> string list
    \<Rightarrow> (string, bytes) gomap \<times> (string, f64) gomap \<times> string list" where
  "proposer_candidates so st [] acc = acc"
| "proposer_candidates so st (vid # vids) (keys, scores, ids) =
     proposer_candidates so st vids
       (case so_validator so st vid of
          Inr info \<Rightarrow> if v_IsSuspended info then (keys, scores, ids)
            else (mput vid (v_PublicKey info) keys, mput vid (v_PoBScore info) scores, ids @ [vid])
        | Inl _ \<Rightarrow> (keys, scores, ids))"

definition IsProposer :: "('db, 'st) validator_env \<Rightarrow> ('db, 'st) ValidatorService \<Rightarrow> u64 \<Rightarrow> (bool \<times> string) res" where
  "IsProposer env vs blockHeight =
     (case Block_Hash (ce_enc (ve_chain env)) (GetLatestBlock (sv_blockchain vs)) of
        Inl e \<Rightarrow> Inl e
      | Inr prevBlockHash \<Rightarrow>
          let active = so_active (ve_so env) (sv_state vs) in
          if active = [] then Inl (Error ''no active validators'')
          else (case proposer_candidates (ve_so env) (sv_state vs) active ([], [], []) of
              (keys, scores, ids) \<Rightarrow>
                if ids = [] then Inl (Error ''no eligible validators (all suspended)'')
                else (case PoBWeightedSelectProposer (GenerateProposerSeed blockHeight prevBlockHash) ids keys scores of
                   Inl e \<Rightarrow> Inl e
                 | Inr proposerID \<Rightarrow> Inr (proposerID = sv_validatorID vs, proposerID))))"

definition signBlock :: "('db, 'st) validator_env \<Rightarrow> Block \<Rightarrow> bytes res" where
  "signBlock env block =
     (case Block_Hash (ce_enc (ve_chain env)) block of
        Inl e \<Rightarrow> Inl e
      | Inr h \<Rightarrow> (case ve_sign env h of Inl e \<Rightarrow> Inl e | Inr (r, s) \<Rightarrow> Inr (be_bytes r @ be_bytes s)))"

text \<open>\<open>uint64(pobScore * 1000)\<close>, for values in range.\<close>

definition pob_weight :: "f64 \<Rightarrow> u64" where
  "pob_weight score = word_of_int (f_int (f_mul score (f_lit 1000)))"

definition ProposeBlock :: "('db, 'st) validator_env \<Rightarrow> clock \<Rightarrow> ('db, 'st) ValidatorService \<Rightarrow> ('db, 'st) ValidatorService \<times> Block res" where
  "ProposeBlock env ck vs =
     (let latestBlock = GetLatestBlock (sv_blockchain vs) in
      case Block_Hash (ce_enc (ve_chain env)) latestBlock of
        Inl e \<Rightarrow> (vs, Inl e)
      | Inr prevBlockHash \<Rightarrow>
          let (upload, pobScore) = (case so_validator (ve_so env) (sv_state vs) (sv_validatorID vs) of
                Inl _ \<Rightarrow> (MinUploadBandwidth, f_lit 1)
              | Inr info \<Rightarrow> (if f_lt (Fin 0) (v_UploadBandwidth info) then v_UploadBandwidth info else MinUploadBandwidth, v_PoBScore info));
              transactions = GetTransactionsBySize (sv_mempool vs) (calculateDynamicBlockCapacity upload)
          in (case selectAndValidateTransactions (ve_tx env) (ve_so env) (ve_order env) (sv_state vs) transactions of
                Inl e \<Rightarrow> (vs, Inl e)
              | Inr filteredTxs \<Rightarrow>
                  (case block_merkle_root env filteredTxs of
                     Inl e \<Rightarrow> (vs, Inl e)
                   | Inr merkleRoot \<Rightarrow>
                       let pohSequence = GetSequence (sv_poh vs);
                           vs1 = vs\<lparr>sv_poh := PoH_Update pohSequence (sv_poh vs)\<rparr>;
                           blockHeight = height_of latestBlock + 1
                       in (case SecureVRF_Generate (ve_vrf env) (sv_vrfSystem vs) (vrf_input blockHeight) of
                             Inl e \<Rightarrow> (vs1, Inl e)
                           | Inr vrf \<Rightarrow>
                               if length (vo_Value vrf) < 8 \<or> length (vo_Proof vrf) < 8
                               then (vs1, Inl (Panic ''slice bounds out of range''))
                               else
                               let header = \<lparr>h_Version = 1, h_PrevBlockHash = prevBlockHash, h_MerkleRoot = merkleRoot,
                                     h_Timestamp = ck_now ck, h_Nonce = 0, h_Difficulty = bc_Difficulty (sv_blockchain vs),
                                     h_Height = blockHeight, h_PoBScore = pobScore, h_PoBWeight = pob_weight pobScore,
                                     h_VRFProof = vo_Proof vrf, h_VRFOutput = Some (vo_Value vrf)\<rparr>;
                                   block = \<lparr>b_Header = header, b_Transactions = filteredTxs, b_ProposerID = sv_validatorID vs,
                                     b_PoHSequence = pohSequence, b_Signature = [], b_VRFProof = vo_Proof vrf\<rparr>
                               in (case signBlock env block of
                                     Inl e \<Rightarrow> (vs1, Inl e)
                                   | Inr signature \<Rightarrow>
                                       let signed = block\<lparr>b_Signature := signature\<rparr>;
                                           blockHash = (case Block_Hash (ce_enc (ve_chain env)) signed of Inl _ \<Rightarrow> [] | Inr h \<Rightarrow> h)
                                       in (case StartVotingSession (ck_start ck) (ck_deadline ck) blockHash
                                               (int (length (so_active (ve_so env) (sv_state vs)))) (sv_votingManager vs1) of
                                             (vm, Inl e) \<Rightarrow> (vs1\<lparr>sv_votingManager := vm\<rparr>, Inl e)
                                           | (vm, Inr _) \<Rightarrow> (vs1\<lparr>sv_votingManager := vm\<rparr>, Inr signed)))))))"


section \<open>Validation\<close>

definition new_addresses :: "('db, 'st) validator_env \<Rightarrow> 'st \<Rightarrow> Transaction list \<Rightarrow> string list" where
  "new_addresses env st txs = remdups (filter (\<lambda>a. \<not> ve_exists env st a) (concat (map (\<lambda>tx. [tx_From tx, tx_To tx]) txs)))"

definition known_infos :: "'st state_ops \<Rightarrow> 'st \<Rightarrow> ValidatorInfo list" where
  "known_infos so st = concat (map (\<lambda>vid. case so_validator so st vid of Inr info \<Rightarrow> [info] | Inl _ \<Rightarrow> []) (so_active so st))"

definition validateBlock :: "('db, 'st) validator_env \<Rightarrow> Block \<Rightarrow> ('db, 'st) ValidatorService \<Rightarrow> fail option" where
  "validateBlock env block vs =
     (case VerifyBlock (ve_chain env) (sv_blockchain vs) block of
        Some e \<Rightarrow> Some e
      | None \<Rightarrow>
          if \<not> VerifySequence (b_PoHSequence block) then Some (Error ''invalid PoH sequence'')
          else (case block_merkle_root env (b_Transactions block) of
             Inl e \<Rightarrow> Some e
           | Inr merkleRoot \<Rightarrow>
               if merkleRoot \<noteq> h_MerkleRoot (b_Header block) then Some (Error ''merkle root mismatch'')
               else if length (new_addresses env (sv_state vs) (b_Transactions block)) > MaxNewAddressesPerBlock
                 then Some (Error ''block contains too many new addresses'')
               else if b_VRFProof block = [] then Some (Error ''block missing VRF proof'')
               else (case ValidateVRFProofOnChain (ve_vrf env) block (known_infos (ve_so env) (sv_state vs)) of
                  Some (Panic e) \<Rightarrow> Some (Panic e)
                | Some (Error _) \<Rightarrow> Some (Error ''VRF proof verification failed'')
                | None \<Rightarrow> log_named (b_ProposerID block))))"

section \<open>Finalization\<close>

fun apply_transactions ::
  "bool \<Rightarrow> 'st state_ops \<Rightarrow> Transaction list \<Rightarrow> Mempool \<times> 'st \<Rightarrow> (Mempool \<times> 'st) \<times> fail option" where
  "apply_transactions shared so [] (mp, st) = ((mp, st), None)"
| "apply_transactions shared so (tx # txs) (mp, st) =
     (case applyTransaction shared so tx st of
        (st', None) \<Rightarrow> apply_transactions shared so txs (RemoveTransaction (tx_ID tx) mp, st')
      | (st', Some e) \<Rightarrow> ((RemoveTransaction (tx_ID tx) mp, st'), Some e))"

definition finalizeBlock ::
  "('db, 'st) validator_env \<Rightarrow> clock \<Rightarrow> Block \<Rightarrow> ('db, 'st) ValidatorService \<Rightarrow> ('db, 'st) ValidatorService \<times> fail option" where
  "finalizeBlock env ck block vs =
     (let blockHash = (case Block_Hash (ce_enc (ve_chain env)) block of Inl _ \<Rightarrow> [] | Inr h \<Rightarrow> h) in
      case AddBlock (ve_chain env) block (sv_blockchain vs) of
        (bc, Some (Panic e)) \<Rightarrow> (vs\<lparr>sv_blockchain := bc\<rparr>, Some (Panic e))
      | (bc, Some (Error _)) \<Rightarrow> (vs\<lparr>sv_blockchain := bc\<rparr>, Some (Error ''failed to add block to blockchain''))
      | (bc, None) \<Rightarrow>
          (case apply_transactions (ve_shared env) (ve_so env) (b_Transactions block) (sv_mempool vs, sv_state vs) of
             ((mp, st), Some e) \<Rightarrow> (vs\<lparr>sv_blockchain := bc, sv_mempool := mp, sv_state := st\<rparr>, Some e)
           | ((mp, st), None) \<Rightarrow>
               (case distributeBlockRewards (ve_so env) block st of
                  (st', Some e) \<Rightarrow> (vs\<lparr>sv_blockchain := bc, sv_mempool := mp, sv_state := st'\<rparr>, Some e)
                | (st', None) \<Rightarrow>
                    let cnt = int (length (so_active (ve_so env) st'));
                        mgr = AdjustDifficulty (ck_adjust ck) (h_Height (b_Header block)) (RecordValidatorCount cnt (sv_retargetMgr vs))
                    in (vs\<lparr>sv_blockchain := bc, sv_mempool := mp, sv_state := st',
                          sv_finalityTracker := MarkFinalized (ck_final ck) blockHash (sv_finalityTracker vs),
                          sv_retargetMgr := mgr\<rparr>, None))))"

section \<open>Votes\<close>

text \<open>
  What follows an accepted vote. The error of \<open>finalizeBlock\<close> is ignored; a panic goes on to the caller.
\<close>

definition settle_vote ::
  "('db, 'st) validator_env \<Rightarrow> clock \<Rightarrow> Block \<Rightarrow> bytes \<Rightarrow> ('db, 'st) ValidatorService \<Rightarrow> ('db, 'st) ValidatorService \<times> unit res" where
  "settle_vote env ck block blockHash vs =
     (case CheckFinality blockHash (sv_votingManager vs) of
        Inr (True, _) \<Rightarrow>
          (case finalizeBlock env ck block vs of
             (vs', Some (Panic e)) \<Rightarrow> (vs', Inl (Panic e))
           | (vs', _) \<Rightarrow> (vs', Inr ()))
      | _ \<Rightarrow> (vs, Inr ()))"

definition VoteOnBlock ::
  "('db, 'st) validator_env \<Rightarrow> clock \<Rightarrow> Block \<Rightarrow> ('db, 'st) ValidatorService \<Rightarrow> ('db, 'st) ValidatorService \<times> unit res" where
  "VoteOnBlock env ck block vs =
     (case validateBlock env block vs of
        Some (Panic e) \<Rightarrow> (vs, Inl (Panic e))
      | Some (Error _) \<Rightarrow> (vs, Inl (Error ''block validation failed''))
      | None \<Rightarrow>
          (case Block_Hash (ce_enc (ve_chain env)) block of
             Inl e \<Rightarrow> (vs, Inl e)
           | Inr blockHash \<Rightarrow>
               (case SignVote (ve_sign env) blockHash of
                  Inl (Panic e) \<Rightarrow> (vs, Inl (Panic e))
                | Inl (Error _) \<Rightarrow> (vs, Inl (Error ''failed to sign vote''))
                | Inr signature \<Rightarrow>
                    (case CastVote (voting_view env (sv_state vs)) (ck_cast1 ck) (ck_cast2 ck) (ck_cast3 ck) blockHash
                        (sv_validatorID vs) signature (sv_votingManager vs) of
                       (vm, Inl (Panic e)) \<Rightarrow> (vs\<lparr>sv_votingManager := vm\<rparr>, Inl (Panic e))
                     | (vm, Inl (Error _)) \<Rightarrow> (vs\<lparr>sv_votingManager := vm\<rparr>, Inl (Error ''failed to cast vote''))
                     | (vm, Inr _) \<Rightarrow>
                         settle_vote env ck block blockHash (vs\<lparr>sv_votingManager := vm\<rparr>)))))"

lemma vote_cases:
  assumes "VoteOnBlock env ck block vs = (vs', r)"
  shows "vs' = vs \<and> \<not> is_ok r \<or> (\<exists>h sig vm. Block_Hash (ce_enc (ve_chain env)) block = Inr h \<and>
    ((\<exists>e. CastVote (voting_view env (sv_state vs)) (ck_cast1 ck) (ck_cast2 ck) (ck_cast3 ck) h (sv_validatorID vs) sig (sv_votingManager vs) = (vm, Inl e) \<and>
        vs' = vs\<lparr>sv_votingManager := vm\<rparr> \<and> \<not> is_ok r) \<or>
     CastVote (voting_view env (sv_state vs)) (ck_cast1 ck) (ck_cast2 ck) (ck_cast3 ck) h (sv_validatorID vs) sig (sv_votingManager vs) = (vm, Inr ()) \<and>
        settle_vote env ck block h (vs\<lparr>sv_votingManager := vm\<rparr>) = (vs', r)))"
proof (cases "validateBlock env block vs")
  case (Some e)
  then show ?thesis using assms by (cases e) (auto simp: VoteOnBlock_def)
next
  case None
  show ?thesis
  proof (cases "Block_Hash (ce_enc (ve_chain env)) block")
    case (Inl e)
    then show ?thesis using assms None by (auto simp: VoteOnBlock_def)
  next
    case (Inr h)
    show ?thesis
    proof (cases "SignVote (ve_sign env) h")
      case (Inl e)
      then show ?thesis using assms None Inr by (cases e) (auto simp: VoteOnBlock_def)
    next
      case sig: (Inr sig)
      obtain vm u where cast: "CastVote (voting_view env (sv_state vs)) (ck_cast1 ck) (ck_cast2 ck) (ck_cast3 ck) h (sv_validatorID vs) sig
        (sv_votingManager vs) = (vm, u)" by fastforce
      have "(\<exists>e. u = Inl e) \<and> vs' = vs\<lparr>sv_votingManager := vm\<rparr> \<and> \<not> is_ok r \<or>
        u = Inr () \<and> settle_vote env ck block h (vs\<lparr>sv_votingManager := vm\<rparr>) = (vs', r)"
        using assms None Inr sig cast by (auto simp: VoteOnBlock_def split: sum.splits fail.splits)
      then show ?thesis using Inr cast by blast
    qed
  qed
qed

section \<open>What a proposed block fulfils\<close>

lemma tx_hashes_ok: "block_merkle_root env txs = Inr r \<Longrightarrow> \<exists>hs. tx_hashes (te_enc (ve_tx env)) txs = Inr hs \<and> r = ComputeMerkleRoot hs"
  by (auto simp: block_merkle_root_def split: sum.splits)

lemma proposal_checks:
  assumes "ProposeBlock env ck vs = (vs', Inr block)" "ph_sequence (sv_poh vs) \<noteq> []"
  shows "validateBlock env block vs' =
    (if length (new_addresses env (sv_state vs) (b_Transactions block)) > MaxNewAddressesPerBlock
       then Some (Error ''block contains too many new addresses'')
     else case ValidateVRFProofOnChain (ve_vrf env) block (known_infos (ve_so env) (sv_state vs)) of
         Some (Panic e) \<Rightarrow> Some (Panic e)
       | Some (Error _) \<Rightarrow> Some (Error ''VRF proof verification failed'')
       | None \<Rightarrow> log_named (b_ProposerID block))"
proof -
  let ?latest = "GetLatestBlock (sv_blockchain vs)"
  obtain prev where prev: "Block_Hash (ce_enc (ve_chain env)) ?latest = Inr prev"
    using assms(1) by (auto simp: ProposeBlock_def Let_def split: sum.splits)
  have same: "sv_blockchain vs' = sv_blockchain vs" "sv_state vs' = sv_state vs"
    and b: "height_of block = height_of ?latest + 1" "prev_of block = prev" "b_PoHSequence block = ph_sequence (sv_poh vs)"
      "block_merkle_root env (b_Transactions block) = Inr (h_MerkleRoot (b_Header block))" "b_VRFProof block \<noteq> []"
    using assms(1) prev
    by (auto simp: ProposeBlock_def Let_def GetSequence_def split: sum.splits prod.splits if_splits)
  have "VerifyBlock (ve_chain env) (sv_blockchain vs) block = None" using prev b by (simp add: VerifyBlock_def Let_def)
  then show ?thesis using b assms(2) by (simp add: validateBlock_def same VerifySequence_def)
qed


text \<open>
  C12: A block that the node itself proposes passes its own checks of height, parent, PoH sequence
  and Merkle root. So it validates exactly if it has at most 15 new addresses and its VRF output falls into
  the proposer's share of the score.
\<close>

theorem proposal_validates:
  assumes "ProposeBlock env ck vs = (vs', Inr block)" "ph_sequence (sv_poh vs) \<noteq> []"
  shows "validateBlock env block vs' =
    (if length (new_addresses env (sv_state vs) (b_Transactions block)) > MaxNewAddressesPerBlock
       then Some (Error ''block contains too many new addresses'')
     else case ValidateVRFProofOnChain (ve_vrf env) block (known_infos (ve_so env) (sv_state vs)) of
         Some (Panic e) \<Rightarrow> Some (Panic e)
       | Some (Error _) \<Rightarrow> Some (Error ''VRF proof verification failed'')
       | None \<Rightarrow> log_named (b_ProposerID block))"
  by (rule proposal_checks [OF assms])

section \<open>A vote and its outcome\<close>

lemma cast_session:
  assumes "CastVote venv now1 now2 now3 h i sig vm = (vm', Inr u)"
  obtains s s' where "mget (vm_sessions vm) (hex h) = Some s" "\<not> vs_IsFinalized s" "\<not> mhas (vs_Votes s) i"
    "vm_sessions vm' = mput (hex h) s' (vm_sessions vm)" "mhas (vs_Votes s') i"
    "vs_RequiredVotes s' = vs_RequiredVotes s" "mlen (vs_Votes s') = Suc (mlen (vs_Votes s))"
    "fst ` set (vs_Votes s') = insert i (fst ` set (vs_Votes s))" "wf_map (vs_Votes s) \<longrightarrow> wf_map (vs_Votes s')"
    "vs_IsFinalized s' \<longleftrightarrow> vs_RequiredVotes s \<le> int (mlen (vs_Votes s'))"
proof -
  obtain s where s: "mget (vm_sessions vm) (hex h) = Some s" "\<not> vs_IsFinalized s" "\<not> mhas (vs_Votes s) i"
    using assms by (auto simp: CastVote_def Let_def slice_to_def split: option.splits if_splits)
  let ?vote = "\<lparr>vt_BlockHash = h, vt_ValidatorID = i, vt_Signature = sig, vt_Timestamp = now2, vt_VoteID = generateVoteID h i\<rparr>"
  have vm': "vm' = record_vote venv now3 ?vote s vm"
    using assms s by (auto simp: CastVote_def Let_def split: option.splits if_splits)
  show thesis
    by (rule that [OF s, of "let s1 = s\<lparr>vs_Votes := mput i ?vote (vs_Votes s)\<rparr> in
        if vs_RequiredVotes s \<le> int (mlen (vs_Votes s1)) then s1\<lparr>vs_IsFinalized := True, vs_FinalityAchievedAt := now3\<rparr> else s1"])
      (use s in \<open>auto simp: vm' record_vote_def Let_def mhas_def mget_mput mlen_mput fst_set_mput\<close>)
qed

lemma add_block_cases: "AddBlock env block bc = (bc', None) \<Longrightarrow> bc_currentBlock bc' = block"
    "AddBlock env block bc = (bc', Some e) \<Longrightarrow> bc_currentBlock bc' = bc_currentBlock bc"
  by (auto simp: AddBlock_def split: sum.splits prod.splits option.splits)

lemma finalize_tip:
  "finalizeBlock env ck block vs = (vs', e) \<Longrightarrow> bc_currentBlock (sv_blockchain vs') \<in> {block, bc_currentBlock (sv_blockchain vs)} \<and>
   sv_votingManager vs' = sv_votingManager vs"
  using add_block_cases [of "ve_chain env" block "sv_blockchain vs"]
  by (auto simp: finalizeBlock_def Let_def split: prod.splits option.splits fail.splits)

text \<open>
  C11: An accepted vote is in the node's session for the block. The chain, the accounts and the pool
  change only if that session has reached its quorum, and then the tip is the block or, when the database
  fails, what it was.
\<close>

theorem vote_outcome:
  assumes "VoteOnBlock env ck block vs = (vs', Inr ())"
  shows "\<exists>h s. Block_Hash (ce_enc (ve_chain env)) block = Inr h \<and> mget (vm_sessions (sv_votingManager vs')) (hex h) = Some s \<and>
    mhas (vs_Votes s) (sv_validatorID vs) \<and>
    (vs_IsFinalized s \<longleftrightarrow> vs_RequiredVotes s \<le> int (mlen (vs_Votes s))) \<and>
    GetLatestBlock (sv_blockchain vs') \<in> {block, GetLatestBlock (sv_blockchain vs)} \<and>
    (\<not> vs_IsFinalized s \<longrightarrow> sv_blockchain vs' = sv_blockchain vs \<and> sv_state vs' = sv_state vs \<and> sv_mempool vs' = sv_mempool vs)"
proof -
  obtain h sig vm where run: "Block_Hash (ce_enc (ve_chain env)) block = Inr h"
    "CastVote (voting_view env (sv_state vs)) (ck_cast1 ck) (ck_cast2 ck) (ck_cast3 ck) h (sv_validatorID vs) sig (sv_votingManager vs) = (vm, Inr ())"
    "settle_vote env ck block h (vs\<lparr>sv_votingManager := vm\<rparr>) = (vs', Inr ())"
    using vote_cases [OF assms] by auto
  obtain s s' where s: "mget (vm_sessions (sv_votingManager vs)) (hex h) = Some s" "mhas (vs_Votes s') (sv_validatorID vs)"
    "vm_sessions vm = mput (hex h) s' (vm_sessions (sv_votingManager vs))" "vs_RequiredVotes s' = vs_RequiredVotes s"
    "vs_IsFinalized s' \<longleftrightarrow> vs_RequiredVotes s \<le> int (mlen (vs_Votes s'))"
    by (rule cast_session [OF run(2)])
  have get: "mget (vm_sessions vm) (hex h) = Some s'" by (simp add: s(3) mget_mput)
  show ?thesis
  proof (cases "vs_IsFinalized s'")
    case True
    obtain vs2 e where f: "finalizeBlock env ck block (vs\<lparr>sv_votingManager := vm\<rparr>) = (vs2, e)" by fastforce
    then have "vs' = vs2" using run(3) get True by (auto simp: settle_vote_def CheckFinality_def split: option.splits fail.splits)
    then show ?thesis using finalize_tip [OF f] run(1) get s True by (auto simp: GetLatestBlock_def)
  next
    case False
    then have "vs' = vs\<lparr>sv_votingManager := vm\<rparr>" using run(3) get by (simp add: settle_vote_def CheckFinality_def)
    then show ?thesis using run(1) get s False by auto
  qed
qed

section \<open>Finality needs votes that never come\<close>

text \<open>
  What a node does: it proposes, it votes on blocks, it takes transactions into its pool and advances its
  PoH sequence. The handler of votes from the network only logs them, and no other code calls
  \<open>CastVote\<close> or \<open>StartVotingSession\<close>.
\<close>

inductive service_step :: "('db, 'st) validator_env \<Rightarrow> ('db, 'st) ValidatorService \<Rightarrow> ('db, 'st) ValidatorService \<Rightarrow> bool" for env where
  "ProposeBlock env ck vs = (vs', r) \<Longrightarrow> service_step env vs vs'"
| "VoteOnBlock env ck block vs = (vs', r') \<Longrightarrow> service_step env vs vs'"
| "service_step env vs (vs\<lparr>sv_mempool := AddTransaction tx (sv_mempool vs)\<rparr>)"
| "service_step env vs (vs\<lparr>sv_poh := PoH_Update (GetSequence (sv_poh vs)) (sv_poh vs)\<rparr>)"

inductive_cases service_stepE: "service_step env vs vs'"

definition lone :: "string \<Rightarrow> VotingSession \<Rightarrow> bool" where
  "lone i s = (\<not> vs_IsFinalized s \<and> 2 \<le> vs_RequiredVotes s \<and> wf_map (vs_Votes s) \<and> fst ` set (vs_Votes s) \<subseteq> {i})"

definition stuck :: "('db, 'st) ValidatorService \<Rightarrow> ('db, 'st) ValidatorService \<Rightarrow> bool" where
  "stuck vs0 vs = (sv_blockchain vs = sv_blockchain vs0 \<and> sv_state vs = sv_state vs0 \<and> sv_finalityTracker vs = sv_finalityTracker vs0 \<and>
     sv_validatorID vs = sv_validatorID vs0 \<and>
     (\<forall>h s. mget (vm_sessions (sv_votingManager vs)) h = Some s \<longrightarrow> lone (sv_validatorID vs0) s))"

lemma lone_vote:
  assumes "lone i s" "\<not> mhas (vs_Votes s) i" "mlen (vs_Votes s') = Suc (mlen (vs_Votes s))"
    "vs_IsFinalized s' \<longleftrightarrow> vs_RequiredVotes s \<le> int (mlen (vs_Votes s'))"
  shows "\<not> vs_IsFinalized s'"
proof -
  have "vs_Votes s = []" using assms(1,2) by (cases "vs_Votes s") (auto simp: lone_def mhas_iff)
  then show ?thesis using assms by (simp add: lone_def)
qed

lemma propose_keeps:
  "ProposeBlock env ck vs = (vs', r) \<Longrightarrow> sv_blockchain vs' = sv_blockchain vs \<and> sv_state vs' = sv_state vs \<and>
   sv_finalityTracker vs' = sv_finalityTracker vs \<and> sv_validatorID vs' = sv_validatorID vs \<and>
   (sv_votingManager vs' = sv_votingManager vs \<or>
    (\<exists>h r'. StartVotingSession (ck_start ck) (ck_deadline ck) h (int (length (so_active (ve_so env) (sv_state vs)))) (sv_votingManager vs) =
       (sv_votingManager vs', r')))"
  by (auto simp: ProposeBlock_def Let_def split: sum.splits prod.splits if_splits)

lemma start_session_get:
  assumes "StartVotingSession n1 n2 h tv vm = (vm', r)" "mget (vm_sessions vm') k = Some s"
  shows "mget (vm_sessions vm) k = Some s \<or> vs_RequiredVotes s = required_votes tv \<and> vs_Votes s = [] \<and> \<not> vs_IsFinalized s"
  using assms by (auto simp: StartVotingSession_def Let_def mget_mput split: if_splits)

lemma vote_stuck:
  assumes inv: "stuck vs0 vs" and run: "VoteOnBlock env ck block vs = (vs', r)"
  shows "stuck vs0 vs'"
proof -
  consider "vs' = vs"
    | h sig vm e where "CastVote (voting_view env (sv_state vs)) (ck_cast1 ck) (ck_cast2 ck) (ck_cast3 ck) h (sv_validatorID vs) sig (sv_votingManager vs) = (vm, Inl e)"
        "vs' = vs\<lparr>sv_votingManager := vm\<rparr>"
    | h sig vm where "CastVote (voting_view env (sv_state vs)) (ck_cast1 ck) (ck_cast2 ck) (ck_cast3 ck) h (sv_validatorID vs) sig (sv_votingManager vs) = (vm, Inr ())"
        "settle_vote env ck block h (vs\<lparr>sv_votingManager := vm\<rparr>) = (vs', r)"
    using vote_cases [OF run] by blast
  then show ?thesis
  proof cases
    case (2 h sig vm e)
    then have "vm = sv_votingManager vs" by (auto simp: CastVote_def Let_def split: option.splits if_splits)
    then show ?thesis using inv 2 by (simp add: stuck_def)
  next
    case (3 h sig vm)
    obtain s s' where s: "mget (vm_sessions (sv_votingManager vs)) (hex h) = Some s" "\<not> mhas (vs_Votes s) (sv_validatorID vs)"
      "vm_sessions vm = mput (hex h) s' (vm_sessions (sv_votingManager vs))" "vs_RequiredVotes s' = vs_RequiredVotes s"
      "mlen (vs_Votes s') = Suc (mlen (vs_Votes s))" "fst ` set (vs_Votes s') = insert (sv_validatorID vs) (fst ` set (vs_Votes s))"
      "wf_map (vs_Votes s) \<longrightarrow> wf_map (vs_Votes s')" "vs_IsFinalized s' \<longleftrightarrow> vs_RequiredVotes s \<le> int (mlen (vs_Votes s'))"
      by (rule cast_session [OF 3(1)])
    have i: "sv_validatorID vs = sv_validatorID vs0" and l: "lone (sv_validatorID vs0) s" using inv s(1) by (auto simp: stuck_def)
    have nf: "\<not> vs_IsFinalized s'" using lone_vote [OF l _ s(5,8)] s(2) i by simp
    have "mget (vm_sessions vm) (hex h) = Some s'" by (simp add: s(3) mget_mput)
    then have vs': "vs' = vs\<lparr>sv_votingManager := vm\<rparr>" using 3(2) nf by (simp add: settle_vote_def CheckFinality_def)
    have "lone (sv_validatorID vs0) s'" using l s(4,6,7) nf i by (auto simp: lone_def)
    then show ?thesis using inv by (auto simp: stuck_def vs' s(3) mget_mput)
  qed (use inv in simp)
qed

lemma step_stuck:
  assumes inv: "stuck vs0 vs" and step: "service_step env vs vs'"
    and n: "3 \<le> length (so_active (ve_so env) (sv_state vs0))" "length (so_active (ve_so env) (sv_state vs0)) \<le> 2 ^ 40"
  shows "stuck vs0 vs'"
  using step
proof (cases rule: service_step.cases)
  case (1 ck r)
  let ?tv = "int (length (so_active (ve_so env) (sv_state vs)))"
  have "3 \<le> ?tv" "?tv \<le> 2 ^ 40" using n inv by (simp_all add: stuck_def)
  then have "2 \<le> required_votes ?tv" by (simp add: required_votes_eq)
  then have "lone i s" if "vs_RequiredVotes s = required_votes ?tv" "vs_Votes s = []" "\<not> vs_IsFinalized s" for i s
    using that by (simp add: lone_def)
  then show ?thesis using propose_keeps [OF 1] inv start_session_get unfolding stuck_def by metis
next
  case (2 ck block r')
  then show ?thesis by (rule vote_stuck [OF inv])
qed (use inv in \<open>simp_all add: stuck_def\<close>)

text \<open>
  C1: With three or more active validators no block is ever finalized: a session holds at most the
  node's own vote, two are needed, and the votes of the others are not counted. Whatever blocks a node
  proposes and votes on, its chain and its accounts stay what they were.
\<close>

theorem no_finality_with_three:
  assumes "(service_step env)\<^sup>*\<^sup>* vs0 vs" "vm_sessions (sv_votingManager vs0) = []"
    and "3 \<le> length (so_active (ve_so env) (sv_state vs0))" "length (so_active (ve_so env) (sv_state vs0)) \<le> 2 ^ 40"
  shows "sv_blockchain vs = sv_blockchain vs0 \<and> sv_state vs = sv_state vs0 \<and> sv_finalityTracker vs = sv_finalityTracker vs0"
proof -
  have "stuck vs0 vs0" using assms(2) by (simp add: stuck_def)
  with assms(1) have "stuck vs0 vs" by (induction rule: rtranclp_induct) (auto intro: step_stuck [OF _ _ assms(3,4)])
  then show ?thesis by (simp add: stuck_def)
qed


section \<open>A node with three validators\<close>

definition demo_trio :: mem_state where
  "demo_trio = \<lparr>mst_validators =
     [(''validator-one'', demo_info\<lparr>v_ID := ''validator-one'', v_VRFPublicKey := [1], v_PoBScore := Fin 1\<rparr>),
      (''validator-two'', demo_info\<lparr>v_ID := ''validator-two'', v_PoBScore := Fin (1 / 2)\<rparr>),
      (''validator-six'', demo_info\<lparr>v_ID := ''validator-six'', v_PoBScore := Fin (1 / 2)\<rparr>)], mst_accounts = []\<rparr>"

definition demo_node_env :: "(memdb, mem_state) validator_env" where
  "demo_node_env = \<lparr>ve_chain = demo_env, ve_so = mem_state_ops,
     ve_tx = \<lparr>te_enc = (\<lambda>_. Inr []), te_verify = (\<lambda>_ _ _ _. True), te_modsqrt = (\<lambda>_ _. 0)\<rparr>,
     ve_vrf = \<lparr>vrf_generate_key = Inr ([], []), vrf_prove = (\<lambda>_ _. (0 # replicate 31 0, replicate 32 1)), vrf_verify = (\<lambda>_ _ _ _. True)\<rparr>,
     ve_vote_verify = (\<lambda>_ _ _ _. True), ve_vote_enc = (\<lambda>_. Inr []), ve_vote_dec = (\<lambda>_. Inl (Error [])),
     ve_sign = (\<lambda>_. Inr (2 ^ 200, 2 ^ 200)), ve_order = (\<lambda>txs. txs), ve_shared = True, ve_exists = (\<lambda>_ _. True)\<rparr>"

definition demo_clock0 :: clock where
  "demo_clock0 = \<lparr>ck_now = 0, ck_start = 0, ck_deadline = 0, ck_cast1 = 0, ck_cast2 = 0, ck_cast3 = 0, ck_final = 0, ck_adjust = 0\<rparr>"

definition demo_service :: "(memdb, mem_state) ValidatorService" where
  "demo_service = \<lparr>sv_validatorID = ''validator-one'', sv_vrfSystem = \<lparr>svs_privateKey = [], svs_publicKey = [1]\<rparr>,
     sv_votingManager = \<lparr>vm_sessions = [], vm_db = None, vm_processedVotes = []\<rparr>, sv_finalityTracker = [],
     sv_retargetMgr = NewPoBRetargetManager 0, sv_blockchain = demo_bc0, sv_state = demo_trio, sv_mempool = NewMempool,
     sv_poh = NewProofOfHistory []\<rparr>"

lemma demo_active: "so_active mem_state_ops demo_trio = [''validator-one'', ''validator-two'', ''validator-six'']"
  by (simp add: mem_state_ops_def demo_trio_def mkeep_def demo_info_def)

lemma demo_infos: "so_validator mem_state_ops demo_trio ''validator-one'' =
      Inr (demo_info\<lparr>v_ID := ''validator-one'', v_VRFPublicKey := [1], v_PoBScore := Fin 1\<rparr>)"
    "so_validator mem_state_ops demo_trio ''validator-two'' = Inr (demo_info\<lparr>v_ID := ''validator-two'', v_PoBScore := Fin (1 / 2)\<rparr>)"
    "so_validator mem_state_ops demo_trio ''validator-six'' = Inr (demo_info\<lparr>v_ID := ''validator-six'', v_PoBScore := Fin (1 / 2)\<rparr>)"
  by (simp_all add: mem_state_ops_def demo_trio_def demo_info_def)

theorem no_finality_with_three_witness:
  "sv_blockchain (fst (VoteOnBlock demo_node_env demo_clock0 (demo_block 1) (fst (ProposeBlock demo_node_env demo_clock0 demo_service)))) = demo_bc0"
proof -
  obtain vs1 r1 where p: "ProposeBlock demo_node_env demo_clock0 demo_service = (vs1, r1)" by fastforce
  obtain vs2 r2 where v: "VoteOnBlock demo_node_env demo_clock0 (demo_block 1) vs1 = (vs2, r2)" by fastforce
  have "(service_step demo_node_env)\<^sup>*\<^sup>* demo_service vs2"
    using service_step.intros(1) [OF p] service_step.intros(2) [OF v] by (rule converse_rtranclp_into_rtranclp [OF _ r_into_rtranclp])
  from no_finality_with_three [OF this] p v show ?thesis
    using demo_active by (simp add: demo_service_def demo_node_env_def)
qed

definition demo_proposal :: Block where
  "demo_proposal = (let root = []; sig = be_bytes (2 ^ 200) @ be_bytes (2 ^ 200) in
     \<lparr>b_Header = \<lparr>h_Version = 1, h_PrevBlockHash = sha256 [0], h_MerkleRoot = root, h_Timestamp = 0, h_Nonce = 0, h_Difficulty = 1,
        h_Height = 1, h_PoBScore = Fin 1, h_PoBWeight = pob_weight (Fin 1), h_VRFProof = replicate 32 1, h_VRFOutput = Some (0 # replicate 31 0)\<rparr>,
      b_Transactions = [], b_ProposerID = ''validator-one'', b_PoHSequence = ph_sequence (NewProofOfHistory []),
      b_Signature = sig, b_VRFProof = replicate 32 1\<rparr>)"

lemma demo_proposes: "\<exists>vs'. ProposeBlock demo_node_env demo_clock0 demo_service = (vs', Inr demo_proposal) \<and>
    sv_validatorID vs' = ''validator-one'' \<and> sv_state vs' = demo_trio \<and> vm_processedVotes (sv_votingManager vs') = [] \<and>
    (\<exists>s. mget (vm_sessions (sv_votingManager vs')) (hex (sha256 [1])) = Some s \<and> vs_Votes s = [] \<and> vs_RequiredVotes s = 2 \<and>
       \<not> vs_IsFinalized s \<and> 0 \<le> vs_VotingDeadline s)"
  using demo_active demo_infos required_3
  by (simp add: ProposeBlock_def demo_service_def demo_node_env_def demo_bc0_def Block_Hash_def GetLatestBlock_def Let_def
      demo_info_def GetTransactionsBySize_def NewMempool_def selectAndValidateTransactions_def block_merkle_root_def
      ComputeMerkleRoot.simps SecureVRF_Generate_def signBlock_def StartVotingSession_def mhas_def mget_mput GetSequence_def
      demo_proposal_def demo_clock0_def VerificationVotingPhase_def second_def)

lemma demo_on_chain: "ValidateVRFProofOnChain (ve_vrf demo_node_env) demo_proposal (known_infos mem_state_ops demo_trio) = None"
proof -
  have "known_infos mem_state_ops demo_trio = [demo_info\<lparr>v_ID := ''validator-one'', v_VRFPublicKey := [1], v_PoBScore := Fin 1\<rparr>,
      demo_info\<lparr>v_ID := ''validator-two'', v_PoBScore := Fin (1 / 2)\<rparr>, demo_info\<lparr>v_ID := ''validator-six'', v_PoBScore := Fin (1 / 2)\<rparr>]"
    by (simp add: known_infos_def demo_active demo_infos)
  moreover have "rnd (3 / 2) = Fin (3 / 2)" by (rule rnd_dyadic [of _ 3 "- 1"]) (simp_all add: pow2_def)
  moreover have "rnd (1 + 1 / 2) = rnd (3 / 2)" "rnd (3 / 2 + 1 / 2) = rnd 2" by simp_all
  ultimately show ?thesis
    by (simp add: ValidateVRFProofOnChain_def demo_proposal_def Let_def VerifyBlockVRFProof_def VerifyVRFWithPublicKey_def demo_node_env_def
        log_named_def slice_to_def VerifyVRFProposerSelection_def demo_info_def selection_value_def total_weight_def eligible_def f_le_def)
qed

theorem proposal_validates_witness:
  "\<exists>vs'. ProposeBlock demo_node_env demo_clock0 demo_service = (vs', Inr demo_proposal) \<and> validateBlock demo_node_env demo_proposal vs' = None"
proof -
  obtain vs' where p: "ProposeBlock demo_node_env demo_clock0 demo_service = (vs', Inr demo_proposal)" using demo_proposes by blast
  have "ph_sequence (sv_poh demo_service) \<noteq> []" by (simp add: demo_service_def NewProofOfHistory_def)
  from proposal_validates [OF p this] p show ?thesis
    using demo_on_chain by (simp add: demo_service_def demo_proposal_def new_addresses_def demo_node_env_def log_named_def slice_to_def Let_def)
qed


lemma signature_length: "32 \<le> length (be_bytes (2 ^ 200) @ be_bytes (2 ^ 200))"
proof -
  have less: "(2 ^ 200 :: nat) < 256 ^ length (be_bytes (2 ^ 200))"
    using be_val_less [of "be_bytes (2 ^ 200)"] unfolding be_val_be_bytes .
  have "\<not> length (be_bytes (2 ^ 200)) \<le> 16"
  proof
    assume "length (be_bytes (2 ^ 200)) \<le> 16"
    then have "256 ^ length (be_bytes (2 ^ 200)) \<le> (256 :: nat) ^ 16" by (rule power_increasing) simp
    also have "(256 :: nat) ^ 16 < 2 ^ 200" by simp
    finally show False using less by simp
  qed
  then show ?thesis by simp
qed

lemma demo_signature: "\<exists>sig. SignVote (ve_sign demo_node_env) h = Inr sig \<and> \<not> length sig < 32"
proof -
  have "SignVote (ve_sign demo_node_env) h = Inr (be_bytes (2 ^ 200) @ be_bytes (2 ^ 200))"
    unfolding SignVote_def by (simp add: demo_node_env_def)
  then show ?thesis using signature_length by (metis not_less)
qed

lemma demo_votes:
  "\<exists>vs1 vs2. ProposeBlock demo_node_env demo_clock0 demo_service = (vs1, Inr demo_proposal) \<and>
     VoteOnBlock demo_node_env demo_clock0 demo_proposal vs1 = (vs2, Inr ()) \<and> sv_validatorID vs1 = ''validator-one''"
proof -
  obtain vs1 s where p: "ProposeBlock demo_node_env demo_clock0 demo_service = (vs1, Inr demo_proposal)"
    "sv_validatorID vs1 = ''validator-one''" "sv_state vs1 = demo_trio" "vm_processedVotes (sv_votingManager vs1) = []"
    "mget (vm_sessions (sv_votingManager vs1)) (hex (sha256 [1])) = Some s" "vs_Votes s = []" "vs_RequiredVotes s = 2"
    "\<not> vs_IsFinalized s" "0 \<le> vs_VotingDeadline s"
    using demo_proposes by blast
  have v: "validateBlock demo_node_env demo_proposal vs1 = None"
  proof -
    have "ph_sequence (sv_poh demo_service) \<noteq> []" by (simp add: demo_service_def NewProofOfHistory_def)
    from proposal_checks [OF p(1) this] show ?thesis
      using demo_on_chain by (simp add: demo_service_def demo_proposal_def new_addresses_def demo_node_env_def log_named_def slice_to_def Let_def)
  qed
  have h: "Block_Hash (ce_enc (ve_chain demo_node_env)) demo_proposal = Inr (sha256 [1])"
    by (simp add: Block_Hash_def demo_node_env_def demo_proposal_def Let_def)
  obtain sig where sign: "SignVote (ve_sign demo_node_env) (sha256 [1]) = Inr sig" and len: "\<not> length sig < 32"
    using demo_signature by blast
  let ?venv = "voting_view demo_node_env (sv_state vs1)"
  have "state_check ?venv \<lparr>vt_BlockHash = sha256 [1], vt_ValidatorID = ''validator-one'', vt_Signature = sig, vt_Timestamp = 0,
      vt_VoteID = generateVoteID (sha256 [1]) ''validator-one''\<rparr> = None"
    using demo_active demo_infos(1) len
    by (simp add: state_check_def voting_view_def p(3) demo_node_env_def demo_info_def DecodeECDSAPublicKey_def VerifyVote_def Let_def)
  then obtain vm where cast: "CastVote ?venv 0 0 0 (sha256 [1]) ''validator-one'' sig (sv_votingManager vs1) = (vm, Inr ())"
    using p by (auto simp: CastVote_def Let_def mhas_def processed_def)
  obtain s0 s' where s0: "mget (vm_sessions (sv_votingManager vs1)) (hex (sha256 [1])) = Some s0"
    "vm_sessions vm = mput (hex (sha256 [1])) s' (vm_sessions (sv_votingManager vs1))"
    "mlen (vs_Votes s') = Suc (mlen (vs_Votes s0))" "vs_IsFinalized s' \<longleftrightarrow> vs_RequiredVotes s0 \<le> int (mlen (vs_Votes s'))"
    by (rule cast_session [OF cast])
  have "s0 = s" using s0(1) p(5) by simp
  then have s': "vm_sessions vm = mput (hex (sha256 [1])) s' (vm_sessions (sv_votingManager vs1))" "\<not> vs_IsFinalized s'"
    using s0(2-4) p(6,7) by simp_all
  from s'(1) have "mget (vm_sessions vm) (hex (sha256 [1])) = Some s'" by (simp add: mget_mput)
  then have "settle_vote demo_node_env demo_clock0 demo_proposal (sha256 [1]) (vs1\<lparr>sv_votingManager := vm\<rparr>) = (vs1\<lparr>sv_votingManager := vm\<rparr>, Inr ())"
    using s'(2) by (simp add: settle_vote_def CheckFinality_def)
  then have "VoteOnBlock demo_node_env demo_clock0 demo_proposal vs1 = (vs1\<lparr>sv_votingManager := vm\<rparr>, Inr ())"
    using v h sign cast p(2) by (simp add: VoteOnBlock_def demo_clock0_def)
  with p(1,2) show ?thesis by blast
qed

theorem vote_outcome_witness:
  "\<exists>vs1 vs2 h s. VoteOnBlock demo_node_env demo_clock0 demo_proposal vs1 = (vs2, Inr ()) \<and>
     mget (vm_sessions (sv_votingManager vs2)) (hex h) = Some s \<and> mhas (vs_Votes s) ''validator-one''"
proof -
  obtain vs1 vs2 where v: "VoteOnBlock demo_node_env demo_clock0 demo_proposal vs1 = (vs2, Inr ())" "sv_validatorID vs1 = ''validator-one''"
    using demo_votes by blast
  from vote_outcome [OF v(1)] v show ?thesis by auto
qed

end
