(* ===== verification/P2P_Auth.thy ===== *)
theory P2P_Auth
  imports Core_Types
begin

text \<open>
  Peer authentication (\<open>pkg/network/p2p_auth.go\<close>, \<open>pkg/network/p2p_auth_protocol.go\<close>): the challenges a
  node has sent, the peers it has authenticated, and the two sides of the challenge-response exchange.

  \<open>peer.ID\<close> is a type of libp2p and its \<open>String\<close> method an argument. Log lines and errors
  slice that string to eight characters and panic for a shorter one. A \<open>Challenge\<close> is stored by pointer, but
  its only update in place (\<open>Solved\<close>) is followed by its deletion under the same lock. The text of an
  error is abridged; it is only shown.
\<close>

section \<open>State (p2p_auth.go)\<close>

record 'p AuthChallenge =
  au_PeerID :: 'p
  au_Nonce :: bytes
  au_Timestamp :: gotime
  au_Solved :: bool

record 'p ChallengeResponse =
  cr_PeerID :: 'p
  cr_Nonce :: bytes
  cr_Solution :: bytes
  cr_Signature :: bytes
  cr_Timestamp :: gotime

record 'p P2PAuthManager =
  am_challenges :: "('p, 'p AuthChallenge) gomap"
  am_authenticated :: "('p, gotime) gomap"
  am_challengeTTL :: duration
  am_authTimeout :: duration

definition NewP2PAuthManager :: "'p P2PAuthManager" where
  "NewP2PAuthManager = \<lparr>am_challenges = [], am_authenticated = [], am_challengeTTL = 5 * minute, am_authTimeout = 30 * second\<rparr>"

definition Auth_GenerateChallenge ::
  "bytes res \<Rightarrow> gotime \<Rightarrow> 'p \<Rightarrow> 'p P2PAuthManager \<Rightarrow> 'p P2PAuthManager \<times> 'p AuthChallenge res" where
  "Auth_GenerateChallenge rand_nonce now peerID am =
     (case rand_nonce of
        Inl (Panic e) \<Rightarrow> (am, Inl (Panic e))
      | Inl (Error _) \<Rightarrow> (am, Inl (Error ''failed to generate challenge nonce''))
      | Inr nonce \<Rightarrow>
          let challenge = \<lparr>au_PeerID = peerID, au_Nonce = nonce, au_Timestamp = now, au_Solved = False\<rparr>
          in (am\<lparr>am_challenges := mput peerID challenge (am_challenges am)\<rparr>, Inr challenge))"

text \<open>Shared by challenger and challenged: \<open>SHA256(nonce || peerID)\<close>.\<close>

definition SolveChallenge :: "('p \<Rightarrow> string) \<Rightarrow> 'p \<Rightarrow> bytes \<Rightarrow> bytes" where
  "SolveChallenge show_peer peerID nonce = sha256 (nonce @ bytes_of (show_peer peerID))"

definition peer_error :: "('p \<Rightarrow> string) \<Rightarrow> 'p \<Rightarrow> string \<Rightarrow> 'a res" where
  "peer_error show_peer p msg = (case slice_to 8 (show_peer p) of Inl e \<Rightarrow> Inl e | Inr _ \<Rightarrow> Inl (Error msg))"

definition VerifyResponse ::
  "('p \<Rightarrow> string) \<Rightarrow> gotime \<Rightarrow> gotime \<Rightarrow> 'p ChallengeResponse \<Rightarrow> 'p P2PAuthManager \<Rightarrow> 'p P2PAuthManager \<times> unit res" where
  "VerifyResponse show_peer now authTime response am =
     (let p = cr_PeerID response in
      case mget (am_challenges am) p of
        None \<Rightarrow> (am, peer_error show_peer p ''no challenge found'')
      | Some challenge \<Rightarrow>
          if time_sub now (au_Timestamp challenge) > am_authTimeout am then
            (am\<lparr>am_challenges := mdel p (am_challenges am)\<rparr>, peer_error show_peer p ''challenge expired'')
          else if hex (au_Nonce challenge) \<noteq> hex (cr_Nonce response) then
            (am, peer_error show_peer p ''nonce mismatch'')
          else if hex (sha256 (au_Nonce challenge @ bytes_of (show_peer p))) \<noteq> hex (cr_Solution response) then
            (am, peer_error show_peer p ''invalid solution'')
          else
            (am\<lparr>am_authenticated := mput p authTime (am_authenticated am),
                am_challenges := mdel p (am_challenges am)\<rparr>, Inr ()))"

definition IsAuthenticated :: "gotime \<Rightarrow> 'p \<Rightarrow> 'p P2PAuthManager \<Rightarrow> bool" where
  "IsAuthenticated now peerID am =
     (case mget (am_authenticated am) peerID of
        None \<Rightarrow> False
      | Some authTime \<Rightarrow> \<not> time_sub now authTime > am_challengeTTL am)"

definition Auth_RevokeAuthentication :: "'p \<Rightarrow> 'p P2PAuthManager \<Rightarrow> 'p P2PAuthManager" where
  "Auth_RevokeAuthentication peerID am =
     am\<lparr>am_authenticated := mdel peerID (am_authenticated am), am_challenges := mdel peerID (am_challenges am)\<rparr>"

definition CleanupExpired :: "gotime \<Rightarrow> 'p P2PAuthManager \<Rightarrow> 'p P2PAuthManager" where
  "CleanupExpired now am =
     am\<lparr>am_challenges := mkeep (\<lambda>_ c. \<not> time_sub now (au_Timestamp c) > am_authTimeout am) (am_challenges am),
        am_authenticated := mkeep (\<lambda>_ t. \<not> time_sub now t > am_challengeTTL am) (am_authenticated am)\<rparr>"

definition Auth_GetAuthenticatedPeers :: "'p P2PAuthManager \<Rightarrow> 'p list" where
  "Auth_GetAuthenticatedPeers am = map fst (am_authenticated am)"

section \<open>The exchange (p2p_auth_protocol.go)\<close>

definition AuthTypeChallenge :: int where "AuthTypeChallenge = 0"
definition AuthTypeResponse :: int where "AuthTypeResponse = 1"
definition AuthTypeResult :: int where "AuthTypeResult = 2"

record AuthMessage =
  mg_Type :: int
  mg_PeerID :: string
  mg_Nonce :: bytes
  mg_Solution :: bytes
  mg_Success :: bool
  mg_Error :: string
  mg_Timestamp :: int

text \<open>\<open>t.Unix()\<close> and \<open>time.Unix(s, 0)\<close>.\<close>

definition unix_seconds :: "gotime \<Rightarrow> int" where "unix_seconds t = t div second"
definition from_unix :: "int \<Rightarrow> gotime" where "from_unix s = s * second"

text \<open>A message is encoded whole and decoded again; \<open>handleAuthChallenge\<close> gives the answer it sends.\<close>

definition handleAuthChallenge ::
  "('p \<Rightarrow> string) \<Rightarrow> gotime \<Rightarrow> 'p \<Rightarrow> 'p \<Rightarrow> AuthMessage \<Rightarrow> AuthMessage" where
  "handleAuthChallenge show_peer now self remotePeer msg =
     \<lparr>mg_Type = AuthTypeResponse, mg_PeerID = show_peer self, mg_Nonce = mg_Nonce msg,
      mg_Solution = SolveChallenge show_peer remotePeer (mg_Nonce msg), mg_Success = False, mg_Error = [],
      mg_Timestamp = unix_seconds now\<rparr>"

record auth_clock =
  ak_verify :: gotime
  ak_auth :: gotime
  ak_reply :: gotime

definition handleAuthResponse ::
  "('p \<Rightarrow> string) \<Rightarrow> auth_clock \<Rightarrow> 'p \<Rightarrow> AuthMessage \<Rightarrow> 'p P2PAuthManager \<Rightarrow> 'p P2PAuthManager \<times> AuthMessage res" where
  "handleAuthResponse show_peer ak remotePeer msg am =
     (let response = \<lparr>cr_PeerID = remotePeer, cr_Nonce = mg_Nonce msg, cr_Solution = mg_Solution msg, cr_Signature = [],
            cr_Timestamp = from_unix (mg_Timestamp msg)\<rparr>;
          result = (\<lambda>success e. \<lparr>mg_Type = AuthTypeResult, mg_PeerID = [], mg_Nonce = [], mg_Solution = [],
            mg_Success = success, mg_Error = e, mg_Timestamp = unix_seconds (ak_reply ak)\<rparr>)
      in case VerifyResponse show_peer (ak_verify ak) (ak_auth ak) response am of
           (am', Inl (Panic e)) \<Rightarrow> (am', Inl (Panic e))
         | (am', Inl (Error e)) \<Rightarrow> (am', Inr (result False e))
         | (am', Inr _) \<Rightarrow>
             (case slice_to 8 (show_peer remotePeer) of Inl e \<Rightarrow> (am', Inl e) | Inr _ \<Rightarrow> (am', Inr (result True []))))"

text \<open>
  \<open>handleAuthStream\<close>: the state and the answer, if any. A message that does not decode is \<open>Inl\<close>; its log
  line is skipped at the end of the stream (\<open>eof\<close>).
\<close>

definition handleAuthStream ::
  "('p \<Rightarrow> string) \<Rightarrow> auth_clock \<Rightarrow> bool \<Rightarrow> 'p \<Rightarrow> 'p \<Rightarrow> AuthMessage res \<Rightarrow> 'p P2PAuthManager
    \<Rightarrow> 'p P2PAuthManager \<times> AuthMessage option res" where
  "handleAuthStream show_peer ak eof self remotePeer decoded am =
     (case decoded of
        Inl (Panic e) \<Rightarrow> (am, Inl (Panic e))
      | Inl (Error _) \<Rightarrow>
          (if eof then (am, Inr None)
           else case slice_to 8 (show_peer remotePeer) of Inl e \<Rightarrow> (am, Inl e) | Inr _ \<Rightarrow> (am, Inr None))
      | Inr msg \<Rightarrow>
          if mg_Type msg = AuthTypeChallenge then
            (case slice_to 8 (show_peer remotePeer) of
               Inl e \<Rightarrow> (am, Inl e)
             | Inr _ \<Rightarrow> (am, Inr (Some (handleAuthChallenge show_peer (ak_reply ak) self remotePeer msg))))
          else if mg_Type msg = AuthTypeResponse then
            (case handleAuthResponse show_peer ak remotePeer msg am of
               (am', Inl e) \<Rightarrow> (am', Inl e) | (am', Inr reply) \<Rightarrow> (am', Inr (Some reply)))
          else (am, Inr None))"

text \<open>
  What \<open>AuthenticatePeerViaProtocol\<close> gets from outside: the nonce, whether the stream opens, whether the
  challenge can be sent, and what the peer's answer decodes to.
\<close>

record auth_input =
  ai_now :: gotime
  ai_nonce :: "bytes res"
  ai_created :: gotime
  ai_stream :: bool
  ai_sent :: bool
  ai_answer :: "AuthMessage \<Rightarrow> AuthMessage res"
  ai_verify :: gotime
  ai_auth :: gotime

definition challenge_message :: "('p \<Rightarrow> string) \<Rightarrow> 'p \<Rightarrow> 'p AuthChallenge \<Rightarrow> AuthMessage" where
  "challenge_message show_peer self challenge =
     \<lparr>mg_Type = AuthTypeChallenge, mg_PeerID = show_peer self, mg_Nonce = au_Nonce challenge, mg_Solution = [],
      mg_Success = False, mg_Error = [], mg_Timestamp = unix_seconds (au_Timestamp challenge)\<rparr>"

definition AuthenticatePeerViaProtocol ::
  "('p \<Rightarrow> string) \<Rightarrow> auth_input \<Rightarrow> 'p \<Rightarrow> 'p \<Rightarrow> 'p P2PAuthManager \<Rightarrow> 'p P2PAuthManager \<times> unit res" where
  "AuthenticatePeerViaProtocol show_peer inp self peerID am =
     (if IsAuthenticated (ai_now inp) peerID am then (am, Inr ())
      else case Auth_GenerateChallenge (ai_nonce inp) (ai_created inp) peerID am of
        (am1, Inl (Panic e)) \<Rightarrow> (am1, Inl (Panic e))
      | (am1, Inl (Error _)) \<Rightarrow> (am1, Inl (Error ''failed to generate challenge''))
      | (am1, Inr challenge) \<Rightarrow>
          if \<not> ai_stream inp then (am1, Inl (Error ''failed to open auth stream''))
          else if \<not> ai_sent inp then (am1, Inl (Error ''failed to encode challenge''))
          else (case ai_answer inp (challenge_message show_peer self challenge) of
             Inl (Panic e) \<Rightarrow> (am1, Inl (Panic e))
           | Inl (Error _) \<Rightarrow> (am1, Inl (Error ''failed to decode response''))
           | Inr response \<Rightarrow>
               if mg_Type response \<noteq> AuthTypeResponse then (am1, Inl (Error ''unexpected response type''))
               else (case VerifyResponse show_peer (ai_verify inp) (ai_auth inp)
                       \<lparr>cr_PeerID = peerID, cr_Nonce = mg_Nonce response, cr_Solution = mg_Solution response,
                        cr_Signature = [], cr_Timestamp = from_unix (mg_Timestamp response)\<rparr> am1 of
                  (am2, Inl (Panic e)) \<Rightarrow> (am2, Inl (Panic e))
                | (am2, Inl (Error _)) \<Rightarrow> (am2, Inl (Error ''authentication verification failed''))
                | (am2, Inr _) \<Rightarrow>
                    (case slice_to 8 (show_peer peerID) of Inl e \<Rightarrow> (am2, Inl e) | Inr _ \<Rightarrow> (am2, Inr ())))))"

text \<open>\<open>AuthenticatePeer\<close> of \<open>vrf_broadcast.go\<close> answers its own challenge.\<close>

definition AuthenticatePeer :: "('p \<Rightarrow> string) \<Rightarrow> auth_input \<Rightarrow> 'p \<Rightarrow> 'p P2PAuthManager \<Rightarrow> 'p P2PAuthManager \<times> unit res" where
  "AuthenticatePeer show_peer inp peerID am =
     (case Auth_GenerateChallenge (ai_nonce inp) (ai_created inp) peerID am of
        (am1, Inl (Panic e)) \<Rightarrow> (am1, Inl (Panic e))
      | (am1, Inl (Error _)) \<Rightarrow> (am1, Inl (Error ''failed to generate challenge''))
      | (am1, Inr challenge) \<Rightarrow>
          (case slice_to 8 (show_peer peerID) of
             Inl e \<Rightarrow> (am1, Inl e)
           | Inr _ \<Rightarrow>
               (case VerifyResponse show_peer (ai_verify inp) (ai_auth inp)
                   \<lparr>cr_PeerID = peerID, cr_Nonce = au_Nonce challenge, cr_Solution = SolveChallenge show_peer peerID (au_Nonce challenge),
                    cr_Signature = [], cr_Timestamp = ai_now inp\<rparr> am1 of
                  (am2, Inl (Panic e)) \<Rightarrow> (am2, Inl (Panic e))
                | (am2, Inl (Error _)) \<Rightarrow> (am2, Inl (Error ''authentication failed''))
                | (am2, Inr _) \<Rightarrow> (am2, Inr ()))))"


section \<open>Verification of a response\<close>

definition solved :: "('p \<Rightarrow> string) \<Rightarrow> gotime \<Rightarrow> 'p ChallengeResponse \<Rightarrow> 'p P2PAuthManager \<Rightarrow> bool" where
  "solved show_peer now response am =
     (case mget (am_challenges am) (cr_PeerID response) of
        None \<Rightarrow> False
      | Some c \<Rightarrow> time_sub now (au_Timestamp c) \<le> am_authTimeout am \<and> au_Nonce c = cr_Nonce response \<and>
          cr_Solution response = SolveChallenge show_peer (cr_PeerID response) (cr_Nonce response))"

lemma peer_error_not_ok [simp]: "peer_error show_peer p msg \<noteq> Inr x"
  by (simp add: peer_error_def slice_to_def)

lemma verify_ok_iff: "snd (VerifyResponse show_peer now t response am) = Inr () \<longleftrightarrow> solved show_peer now response am"
  by (auto simp: VerifyResponse_def solved_def SolveChallenge_def Let_def hex_inj split: option.splits)

lemma verify_solved:
  "solved show_peer now response am \<Longrightarrow> VerifyResponse show_peer now t response am =
     (am\<lparr>am_authenticated := mput (cr_PeerID response) t (am_authenticated am),
         am_challenges := mdel (cr_PeerID response) (am_challenges am)\<rparr>, Inr ())"
  by (auto simp: VerifyResponse_def solved_def SolveChallenge_def Let_def hex_inj split: option.splits)

lemma verify_unsolved:
  "\<not> solved show_peer now response am \<Longrightarrow> am_authenticated (fst (VerifyResponse show_peer now t response am)) = am_authenticated am"
  by (auto simp: VerifyResponse_def solved_def SolveChallenge_def Let_def hex_inj split: option.splits)

text \<open>
  C33: VerifyResponse accepts exactly the fresh solution of the outstanding challenge of that peer. An accepted
  response authenticates the peer for five minutes, changes nothing for any other peer, and cannot be
  used again; a refused one authenticates nobody. The solution is a public function of the nonce and
  the peer's name: neither a key nor the field Signature takes part.
\<close>

theorem challenge_response_decision:
  assumes "VerifyResponse show_peer now t response am = (am', r)" "am_challengeTTL am = 5 * minute"
  shows "(r = Inr () \<longleftrightarrow> solved show_peer now response am) \<and>
    (r = Inr () \<longrightarrow>
      (\<forall>later. t \<le> later \<longrightarrow> (IsAuthenticated later (cr_PeerID response) am' \<longleftrightarrow> later \<le> t + 5 * minute)) \<and>
      (\<forall>p later. p \<noteq> cr_PeerID response \<longrightarrow> IsAuthenticated later p am' = IsAuthenticated later p am) \<and>
      (\<forall>now' t' sig. snd (VerifyResponse show_peer now' t' (response\<lparr>cr_Signature := sig\<rparr>) am') \<noteq> Inr ())) \<and>
    (r \<noteq> Inr () \<longrightarrow> (\<forall>p later. IsAuthenticated later p am' = IsAuthenticated later p am))"
proof (cases "solved show_peer now response am")
  case True
  with assms(1) have am': "am' = am\<lparr>am_authenticated := mput (cr_PeerID response) t (am_authenticated am),
         am_challenges := mdel (cr_PeerID response) (am_challenges am)\<rparr>" "r = Inr ()"
    by (simp_all add: verify_solved)
  have "IsAuthenticated later (cr_PeerID response) am' \<longleftrightarrow> later \<le> t + 5 * minute" if "t \<le> later" for later
    using time_sub_gt [of "5 * minute" later t] assms(2)
    by (auto simp: am' IsAuthenticated_def mget_mput duration_values max_duration_def)
  moreover have "IsAuthenticated later p am' = IsAuthenticated later p am" if "p \<noteq> cr_PeerID response" for p later
    using that by (simp add: am' IsAuthenticated_def mget_mput split: option.split)
  moreover have "snd (VerifyResponse show_peer now' t' (response\<lparr>cr_Signature := sig\<rparr>) am') \<noteq> Inr ()" for now' t' sig
    by (simp add: am' VerifyResponse_def mget_mdel Let_def)
  ultimately show ?thesis using True am'(2) by simp
next
  case False
  then have "am_authenticated am' = am_authenticated am" "r \<noteq> Inr ()"
    using assms(1) verify_unsolved [OF False, of t] verify_ok_iff [of show_peer now t response am] by simp_all
  moreover have "am_challengeTTL am' = am_challengeTTL am"
    using assms(1) by (auto simp: VerifyResponse_def Let_def split: option.splits if_splits)
  ultimately show ?thesis using False by (simp add: IsAuthenticated_def split: option.split)
qed

definition demo_manager :: "string P2PAuthManager" where
  "demo_manager = NewP2PAuthManager\<lparr>am_challenges := [(''QmPeerOne'', \<lparr>au_PeerID = ''QmPeerOne'', au_Nonce = [7], au_Timestamp = 0, au_Solved = False\<rparr>)]\<rparr>"

definition demo_response :: "string ChallengeResponse" where
  "demo_response = \<lparr>cr_PeerID = ''QmPeerOne'', cr_Nonce = [7], cr_Solution = SolveChallenge (\<lambda>p. p) ''QmPeerOne'' [7],
     cr_Signature = [], cr_Timestamp = 0\<rparr>"

theorem challenge_response_decision_witness:
  "\<exists>am'. VerifyResponse (\<lambda>p. p) second second demo_response demo_manager = (am', Inr ()) \<and>
     IsAuthenticated (5 * minute) ''QmPeerOne'' am' \<and> \<not> IsAuthenticated (6 * minute) ''QmPeerOne'' am'"
proof -
  obtain am' r where v: "VerifyResponse (\<lambda>p. p) second second demo_response demo_manager = (am', r)" by fastforce
  have "solved (\<lambda>p. p) second demo_response demo_manager"
    by (simp add: solved_def demo_response_def demo_manager_def NewP2PAuthManager_def time_sub_def duration_values max_duration_def min_duration_def)
  with challenge_response_decision [OF v] v show ?thesis
    by (auto simp: demo_manager_def NewP2PAuthManager_def demo_response_def duration_values)
qed

section \<open>The exchange between two nodes\<close>

text \<open>
  The stream to an honest peer fails or delivers its answer. A peer that runs this code answers a challenge with the solution for the name of the challenger, the
  remote peer of its stream, while the challenger expects the solution for the name of the peer.
\<close>

definition honest_answer :: "('p \<Rightarrow> string) \<Rightarrow> gotime \<Rightarrow> 'p \<Rightarrow> 'p \<Rightarrow> AuthMessage \<Rightarrow> AuthMessage res" where
  "honest_answer show_peer now self peerID msg = Inr (handleAuthChallenge show_peer now peerID self msg)"

definition honest_peer :: "('p \<Rightarrow> string) \<Rightarrow> 'p \<Rightarrow> 'p \<Rightarrow> (AuthMessage \<Rightarrow> AuthMessage res) \<Rightarrow> bool" where
  "honest_peer show_peer self peerID answer \<longleftrightarrow>
     (\<forall>msg. (\<exists>now. answer msg = honest_answer show_peer now self peerID msg) \<or> (\<exists>e. answer msg = Inl e))"

definition solution_collision :: "('p \<Rightarrow> string) \<Rightarrow> 'p \<Rightarrow> 'p \<Rightarrow> bytes \<Rightarrow> bool" where
  "solution_collision show_peer p q n = sha256_collision (n @ bytes_of (show_peer p)) (n @ bytes_of (show_peer q))"

lemma wrong_solution:
  assumes "inj show_peer" "p \<noteq> q" "\<not> solution_collision show_peer p q n"
  shows "SolveChallenge show_peer p n \<noteq> SolveChallenge show_peer q n"
  using assms by (auto simp: SolveChallenge_def solution_collision_def sha256_collision_def bytes_of_inj inj_eq)

lemma honest_handshake_fails:
  assumes "inj show_peer" "p \<noteq> self" "honest_peer show_peer self p (ai_answer inp)"
    and "\<forall>n. ai_nonce inp = Inr n \<longrightarrow> \<not> solution_collision show_peer self p n"
    and "\<not> IsAuthenticated (ai_now inp) p am" "AuthenticatePeerViaProtocol show_peer inp self p am = (am', r)"
  shows "r \<noteq> Inr () \<and> am_authenticated am' = am_authenticated am"
proof (cases "ai_nonce inp")
  case (Inl e)
  then show ?thesis using assms(5,6) by (auto simp: AuthenticatePeerViaProtocol_def Auth_GenerateChallenge_def split: fail.splits)
next
  case (Inr n)
  let ?c = "\<lparr>au_PeerID = p, au_Nonce = n, au_Timestamp = ai_created inp, au_Solved = False\<rparr>"
  let ?am1 = "am\<lparr>am_challenges := mput p ?c (am_challenges am)\<rparr>"
  have gen: "Auth_GenerateChallenge (ai_nonce inp) (ai_created inp) p am = (?am1, Inr ?c)"
    by (simp add: Auth_GenerateChallenge_def Inr Let_def)
  consider t where "ai_answer inp (challenge_message show_peer self ?c) = honest_answer show_peer t self p (challenge_message show_peer self ?c)"
    | e where "ai_answer inp (challenge_message show_peer self ?c) = Inl e"
    using assms(3) unfolding honest_peer_def by metis
  then show ?thesis
  proof cases
    case (1 t)
    let ?msg = "handleAuthChallenge show_peer t p self (challenge_message show_peer self ?c)"
    let ?resp = "\<lparr>cr_PeerID = p, cr_Nonce = mg_Nonce ?msg, cr_Solution = mg_Solution ?msg, cr_Signature = [],
        cr_Timestamp = from_unix (mg_Timestamp ?msg)\<rparr>"
    have "SolveChallenge show_peer self n \<noteq> SolveChallenge show_peer p n"
      using wrong_solution [of show_peer self p n] assms(1,2,4) Inr by auto
    then have uns: "\<not> solved show_peer (ai_verify inp) ?resp ?am1"
      by (simp add: solved_def mget_mput handleAuthChallenge_def challenge_message_def)
    obtain am2 r2 where v: "VerifyResponse show_peer (ai_verify inp) (ai_auth inp) ?resp ?am1 = (am2, r2)" by fastforce
    have r2: "r2 \<noteq> Inr ()" "am_authenticated am2 = am_authenticated am"
      using verify_ok_iff [of show_peer "ai_verify inp" "ai_auth inp" ?resp ?am1] verify_unsolved [OF uns, of "ai_auth inp"] uns v
      by simp_all
    have a: "ai_answer inp (challenge_message show_peer self ?c) = Inr ?msg" by (simp add: 1 honest_answer_def)
    have ty: "mg_Type ?msg = AuthTypeResponse" by (simp add: handleAuthChallenge_def)
    show ?thesis
      using assms(5,6) r2 unfolding AuthenticatePeerViaProtocol_def gen
      by (auto simp: a ty v split: sum.splits fail.splits if_splits)
  next
    case (2 e)
    then show ?thesis
      using assms(5,6) unfolding AuthenticatePeerViaProtocol_def gen by (auto split: sum.splits fail.splits if_splits)
  qed
qed

end
