(* ===== verification/P2P_Node.thy ===== *)
theory P2P_Node
  imports P2P_Auth Rate_Limiter
begin

text \<open>
  The message layer (\<open>pkg/network/p2p.go\<close>, \<open>pkg/network/vrf_broadcast.go\<close>): the stream handlers with their
  checks, the requests a node makes and the messages it broadcasts.

  The handlers installed by the program are arguments that act on an application state \<open>'s\<close>. libp2p is outside
  the model: what a stream yields is an input, and what a node writes is part of the
  result. The JSON codecs are the record \<open>p2p_codec\<close>. A dropped stream is
  \<open>Inl (Error _)\<close>; \<open>Inl (Panic _)\<close> ends the process, as no handler recovers. The field \<open>ipReputation\<close>,
  which no operation of the network reads, is left out.
\<close>

section \<open>State and codecs\<close>

definition MessageTypeBlock :: int where "MessageTypeBlock = 2"
definition MessageTypeTransaction :: int where "MessageTypeTransaction = 3"
definition MessageTypeTxRequest :: int where "MessageTypeTxRequest = 4"
definition MessageTypeVote :: int where "MessageTypeVote = 8"

record Message =
  ms_Type :: int
  ms_Payload :: bytes

text \<open>The dynamic type of an \<open>interface{}\<close> value.\<close>

datatype iface = IfNil | IfBool bool | IfNumber f64 | IfString string | IfArray "iface list"
  | IfObject "(string \<times> iface) list" | IfBytes bytes

text \<open>What \<open>encoding/json\<close> stores in an \<open>interface{}\<close>: never a byte slice.\<close>

primrec json_kind :: "iface \<Rightarrow> bool" where
  "json_kind IfNil = True"
| "json_kind (IfBool b) = True"
| "json_kind (IfNumber x) = True"
| "json_kind (IfString s) = True"
| "json_kind (IfArray xs) = True"
| "json_kind (IfObject m) = True"
| "json_kind (IfBytes b) = False"

text \<open>The type assertions \<open>m[k].([]byte)\<close> and \<open>m[k].(string)\<close>; a missing key yields nil.\<close>

definition assert_bytes :: "(string, iface) gomap \<Rightarrow> string \<Rightarrow> bytes res" where
  "assert_bytes m k = (case mget m k of
     Some (IfBytes b) \<Rightarrow> Inr b | _ \<Rightarrow> Inl (Panic ''interface conversion: interface {} is not []uint8''))"

definition assert_string :: "(string, iface) gomap \<Rightarrow> string \<Rightarrow> string res" where
  "assert_string m k = (case mget m k of
     Some (IfString s) \<Rightarrow> Inr s | _ \<Rightarrow> Inl (Panic ''interface conversion: interface {} is not string''))"

record VRFProofMessage =
  vp_BlockHeight :: u64
  vp_ProposerID :: string
  vp_VRFProof :: bytes
  vp_VRFOutput :: "bytes option"
  vp_Timestamp :: int

record p2p_codec =
  pc_enc_message :: "Message encoder"
  pc_dec_message :: "Message decoder"
  pc_enc_block :: "Block encoder"
  pc_dec_block :: "Block decoder"
  pc_enc_tx :: "Transaction encoder"
  pc_dec_tx :: "Transaction decoder"
  pc_enc_vote :: "(bytes \<times> string \<times> bytes) encoder"
  pc_dec_object :: "(string, iface) gomap decoder"
  pc_enc_strings :: "(string, string) gomap encoder"
  pc_dec_strings :: "(string, string) gomap decoder"
  pc_enc_vrf :: "VRFProofMessage encoder"
  pc_dec_vrf :: "VRFProofMessage decoder"

record 'p P2PNetwork =
  nw_self :: 'p
  nw_peers :: "('p, bool) gomap"
  nw_authManager :: "'p P2PAuthManager"
  nw_rateLimiter :: "'p RateLimiter"

definition NewP2PNetwork :: "'p \<Rightarrow> 'p P2PNetwork" where
  "NewP2PNetwork self = \<lparr>nw_self = self, nw_peers = [], nw_authManager = NewP2PAuthManager,
     nw_rateLimiter = NewRateLimiter 60 10 (10 * 1024 * 1024)\<rparr>"

definition GetPeers :: "('p \<Rightarrow> string) \<Rightarrow> 'p P2PNetwork \<Rightarrow> string list" where
  "GetPeers show_peer nw = map (\<lambda>p. show_peer (fst p)) (nw_peers nw)"

definition GetPeerCount :: "'p P2PNetwork \<Rightarrow> int" where
  "GetPeerCount nw = int (mlen (nw_peers nw))"

text \<open>\<open>ConnectToPeer\<close> once the address is parsed (\<open>addr\<close>) and libp2p has tried to connect.\<close>

definition ConnectToPeer :: "'p res \<Rightarrow> bool \<Rightarrow> 'p P2PNetwork \<Rightarrow> 'p P2PNetwork \<times> unit res" where
  "ConnectToPeer addr dialled nw =
     (case addr of
        Inl (Panic e) \<Rightarrow> (nw, Inl (Panic e))
      | Inl (Error _) \<Rightarrow> (nw, Inl (Error ''invalid peer address''))
      | Inr p \<Rightarrow>
          if \<not> dialled then (nw, Inl (Error ''failed to connect to peer''))
          else (nw\<lparr>nw_peers := mput p True (nw_peers nw)\<rparr>, Inr ()))"

definition RevokeAuthentication :: "('p \<Rightarrow> string) \<Rightarrow> 'p \<Rightarrow> 'p P2PNetwork \<Rightarrow> 'p P2PNetwork \<times> unit res" where
  "RevokeAuthentication show_peer p nw =
     (nw\<lparr>nw_authManager := Auth_RevokeAuthentication p (nw_authManager nw)\<rparr>,
      case slice_to 8 (show_peer p) of Inl e \<Rightarrow> Inl e | Inr _ \<Rightarrow> Inr ())"

definition GetAuthenticatedPeers :: "'p P2PNetwork \<Rightarrow> 'p list" where
  "GetAuthenticatedPeers nw = Auth_GetAuthenticatedPeers (nw_authManager nw)"

section \<open>Outgoing messages\<close>

text \<open>The messages handed to libp2p, one per known peer, each in a goroutine of its own.\<close>

definition broadcast :: "p2p_codec \<Rightarrow> Message \<Rightarrow> 'p P2PNetwork \<Rightarrow> ('p \<times> bytes) list res" where
  "broadcast pc msg nw =
     (case pc_enc_message pc msg of
        Inl (Panic e) \<Rightarrow> Inl (Panic e)
      | Inl (Error _) \<Rightarrow> Inl (Error ''failed to marshal message'')
      | Inr msgData \<Rightarrow> Inr (map (\<lambda>p. (fst p, msgData)) (nw_peers nw)))"

definition send_payload :: "p2p_codec \<Rightarrow> int \<Rightarrow> string \<Rightarrow> bytes res \<Rightarrow> 'p P2PNetwork \<Rightarrow> ('p \<times> bytes) list res" where
  "send_payload pc ty failure payload nw =
     (case payload of
        Inl (Panic e) \<Rightarrow> Inl (Panic e)
      | Inl (Error _) \<Rightarrow> Inl (Error failure)
      | Inr data \<Rightarrow> broadcast pc \<lparr>ms_Type = ty, ms_Payload = data\<rparr> nw)"

definition BroadcastBlock :: "p2p_codec \<Rightarrow> Block \<Rightarrow> 'p P2PNetwork \<Rightarrow> ('p \<times> bytes) list res" where
  "BroadcastBlock pc block nw = send_payload pc MessageTypeBlock ''failed to marshal block'' (pc_enc_block pc block) nw"

definition BroadcastVote :: "p2p_codec \<Rightarrow> bytes \<Rightarrow> string \<Rightarrow> bytes \<Rightarrow> 'p P2PNetwork \<Rightarrow> ('p \<times> bytes) list res" where
  "BroadcastVote pc blockHash validatorID signature nw =
     send_payload pc MessageTypeVote ''failed to marshal vote'' (pc_enc_vote pc (blockHash, validatorID, signature)) nw"

definition P2P_BroadcastTransaction :: "p2p_codec \<Rightarrow> Transaction \<Rightarrow> 'p P2PNetwork \<Rightarrow> ('p \<times> bytes) list res" where
  "P2P_BroadcastTransaction pc tx nw =
     send_payload pc MessageTypeTransaction ''failed to marshal transaction'' (pc_enc_tx pc tx) nw"

definition BroadcastVRFProof :: "p2p_codec \<Rightarrow> Block \<Rightarrow> 'p P2PNetwork \<Rightarrow> ('p \<times> bytes) list res" where
  "BroadcastVRFProof pc block nw =
     (if b_VRFProof block = [] then Inl (Error ''block missing VRF proof'')
      else let msg = \<lparr>vp_BlockHeight = h_Height (b_Header block), vp_ProposerID = b_ProposerID block,
            vp_VRFProof = b_VRFProof block, vp_VRFOutput = h_VRFOutput (b_Header block),
            vp_Timestamp = unix_seconds (h_Timestamp (b_Header block))\<rparr>
        in (case pc_enc_vrf pc msg of
              Inl (Panic e) \<Rightarrow> Inl (Panic e)
            | Inl (Error _) \<Rightarrow> Inl (Error ''failed to marshal VRF proof message'')
            | Inr payload \<Rightarrow>
                (case slice_to 8 (b_ProposerID block) of
                   Inl e \<Rightarrow> Inl e
                 | Inr _ \<Rightarrow> broadcast pc \<lparr>ms_Type = 4, ms_Payload = payload\<rparr> nw)))"

section \<open>Incoming streams\<close>

text \<open>The checks every handler makes before it decodes: authentication, requests, bytes.\<close>

record stream_input =
  si_auth :: gotime
  si_request :: request_clock
  si_data :: "bytes res"
  si_bytes :: gotime

definition drop_stream :: "('p \<Rightarrow> string) \<Rightarrow> 'p \<Rightarrow> string \<Rightarrow> 'a res" where
  "drop_stream show_peer p msg = peer_error show_peer p msg"

definition admit :: "('p \<Rightarrow> string) \<Rightarrow> 'p \<Rightarrow> stream_input \<Rightarrow> 'p P2PNetwork \<Rightarrow> 'p P2PNetwork \<times> bytes res" where
  "admit show_peer p si nw =
     (if \<not> IsAuthenticated (si_auth si) p (nw_authManager nw) then (nw, drop_stream show_peer p ''unauthenticated peer'')
      else case AllowRequest show_peer (si_request si) p (nw_rateLimiter nw) of
        (rl, Inl (Panic e)) \<Rightarrow> (nw\<lparr>nw_rateLimiter := rl\<rparr>, Inl (Panic e))
      | (rl, Inl (Error _)) \<Rightarrow> (nw\<lparr>nw_rateLimiter := rl\<rparr>, drop_stream show_peer p ''rate limit exceeded'')
      | (rl, Inr _) \<Rightarrow>
          (case si_data si of
             Inl e \<Rightarrow> (nw\<lparr>nw_rateLimiter := rl\<rparr>, Inl e)
           | Inr data \<Rightarrow>
               (case AllowBytes show_peer (si_bytes si) p (int (length data)) rl of
                  (rl', Inl (Panic e)) \<Rightarrow> (nw\<lparr>nw_rateLimiter := rl'\<rparr>, Inl (Panic e))
                | (rl', Inl (Error _)) \<Rightarrow> (nw\<lparr>nw_rateLimiter := rl'\<rparr>, drop_stream show_peer p ''bandwidth limit exceeded'')
                | (rl', Inr _) \<Rightarrow> (nw\<lparr>nw_rateLimiter := rl'\<rparr>, Inr data))))"

text \<open>A handler's error is logged; only its panic matters.\<close>

definition run_handler :: "('a \<Rightarrow> 's \<Rightarrow> 's \<times> unit res) option \<Rightarrow> 'a \<Rightarrow> 's \<Rightarrow> 's \<times> unit res" where
  "run_handler h x s = (case h of
     None \<Rightarrow> (s, Inr ())
   | Some f \<Rightarrow> (case f x s of (s', Inl (Panic e)) \<Rightarrow> (s', Inl (Panic e)) | (s', _) \<Rightarrow> (s', Inr ())))"

definition handleBlockStream ::
  "('p \<Rightarrow> string) \<Rightarrow> p2p_codec \<Rightarrow> (Block \<Rightarrow> 's \<Rightarrow> 's \<times> unit res) option \<Rightarrow> 'p \<Rightarrow> stream_input \<Rightarrow> 'p P2PNetwork \<Rightarrow> 's
    \<Rightarrow> 'p P2PNetwork \<times> 's \<times> unit res" where
  "handleBlockStream show_peer pc blockHandler p si nw s =
     (case admit show_peer p si nw of
        (nw', Inl e) \<Rightarrow> (nw', s, Inl e)
      | (nw', Inr data) \<Rightarrow>
          (case pc_dec_message pc data of
             Inl e \<Rightarrow> (nw', s, Inl e)
           | Inr msg \<Rightarrow>
               (case pc_dec_block pc (ms_Payload msg) of
                  Inl e \<Rightarrow> (nw', s, Inl e)
                | Inr block \<Rightarrow> (nw', run_handler blockHandler block s))))"

definition handleVoteStream ::
  "('p \<Rightarrow> string) \<Rightarrow> p2p_codec \<Rightarrow> (bytes \<times> string \<times> bytes \<Rightarrow> 's \<Rightarrow> 's \<times> unit res) option \<Rightarrow> 'p \<Rightarrow> stream_input
    \<Rightarrow> 'p P2PNetwork \<Rightarrow> 's \<Rightarrow> 'p P2PNetwork \<times> 's \<times> unit res" where
  "handleVoteStream show_peer pc voteHandler p si nw s =
     (case admit show_peer p si nw of
        (nw', Inl e) \<Rightarrow> (nw', s, Inl e)
      | (nw', Inr data) \<Rightarrow>
          (case pc_dec_message pc data of
             Inl e \<Rightarrow> (nw', s, Inl e)
           | Inr msg \<Rightarrow>
               (case pc_dec_object pc (ms_Payload msg) of
                  Inl e \<Rightarrow> (nw', s, Inl e)
                | Inr voteData \<Rightarrow>
                    (case assert_bytes voteData ''block_hash'' of
                       Inl e \<Rightarrow> (nw', s, Inl e)
                     | Inr blockHash \<Rightarrow>
                    (case assert_string voteData ''validator_id'' of
                       Inl e \<Rightarrow> (nw', s, Inl e)
                     | Inr validatorID \<Rightarrow>
                    (case assert_bytes voteData ''signature'' of
                       Inl e \<Rightarrow> (nw', s, Inl e)
                     | Inr signature \<Rightarrow> (nw', run_handler voteHandler (blockHash, validatorID, signature) s)))))))"

text \<open>A transaction request is answered on the stream; the answer is part of the result.\<close>

definition answer_request ::
  "p2p_codec \<Rightarrow> (string \<Rightarrow> 's \<Rightarrow> Transaction res) option \<Rightarrow> string \<Rightarrow> 's \<Rightarrow> bytes option res" where
  "answer_request pc lookup txID s =
     (let failure = (\<lambda>msg. Inr (case pc_enc_strings pc [(''error'', msg)] of Inl _ \<Rightarrow> Some [] | Inr d \<Rightarrow> Some d)) in
      case slice_to 12 txID of
        Inl e \<Rightarrow> Inl e
      | Inr _ \<Rightarrow>
          (case lookup of
             None \<Rightarrow> failure ''lookup not configured''
           | Some f \<Rightarrow>
               (case f txID s of
                  Inl (Panic e) \<Rightarrow> Inl (Panic e)
                | Inl (Error _) \<Rightarrow> failure ''transaction not found''
                | Inr tx \<Rightarrow> (case pc_enc_tx pc tx of Inl (Panic e) \<Rightarrow> Inl (Panic e) | Inl (Error _) \<Rightarrow> Inr None | Inr d \<Rightarrow> Inr (Some d)))))"

definition handleTransactionStream ::
  "('p \<Rightarrow> string) \<Rightarrow> p2p_codec \<Rightarrow> (Transaction \<Rightarrow> 's \<Rightarrow> 's \<times> unit res) option \<Rightarrow> (string \<Rightarrow> 's \<Rightarrow> Transaction res) option
    \<Rightarrow> 'p \<Rightarrow> stream_input \<Rightarrow> 'p P2PNetwork \<Rightarrow> 's \<Rightarrow> 'p P2PNetwork \<times> 's \<times> bytes option res" where
  "handleTransactionStream show_peer pc txHandler lookup p si nw s =
     (case admit show_peer p si nw of
        (nw', Inl e) \<Rightarrow> (nw', s, Inl e)
      | (nw', Inr data) \<Rightarrow>
          (case pc_dec_message pc data of
             Inl e \<Rightarrow> (nw', s, Inl e)
           | Inr msg \<Rightarrow>
               if ms_Type msg = MessageTypeTransaction \<or> ms_Type msg = 1 then
                 (case pc_dec_tx pc (ms_Payload msg) of
                    Inl e \<Rightarrow> (nw', s, Inl e)
                  | Inr tx \<Rightarrow> (case run_handler txHandler tx s of
                       (s', Inl e) \<Rightarrow> (nw', s', Inl e) | (s', Inr _) \<Rightarrow> (nw', s', Inr None)))
               else if ms_Type msg = MessageTypeTxRequest then
                 (case pc_dec_strings pc (ms_Payload msg) of
                    Inl e \<Rightarrow> (nw', s, Inl e)
                  | Inr req \<Rightarrow>
                      (case answer_request pc lookup (case mget req ''tx_id'' of None \<Rightarrow> [] | Some t \<Rightarrow> t) s of
                         Inl e \<Rightarrow> (nw', s, Inl e)
                       | Inr reply \<Rightarrow>
                           (case slice_to 8 (show_peer p) of Inl e \<Rightarrow> (nw', s, Inl e) | Inr _ \<Rightarrow> (nw', s, Inr reply))))
               else (nw', s, Inr None)))"

definition handleVRFProofStream ::
  "('p \<Rightarrow> string) \<Rightarrow> p2p_codec \<Rightarrow> (VRFProofMessage \<Rightarrow> 's \<Rightarrow> 's \<times> unit res) option \<Rightarrow> 'p \<Rightarrow> stream_input \<Rightarrow> 'p P2PNetwork \<Rightarrow> 's
    \<Rightarrow> 'p P2PNetwork \<times> 's \<times> unit res" where
  "handleVRFProofStream show_peer pc handler p si nw s =
     (case admit show_peer p si nw of
        (nw', Inl e) \<Rightarrow> (nw', s, Inl e)
      | (nw', Inr data) \<Rightarrow>
          (case pc_dec_message pc data of
             Inl e \<Rightarrow> (nw', s, Inl e)
           | Inr msg \<Rightarrow>
               (case pc_dec_vrf pc (ms_Payload msg) of
                  Inl e \<Rightarrow> (nw', s, Inl e)
                | Inr vrfMsg \<Rightarrow>
                    (case slice_to 8 (vp_ProposerID vrfMsg) of
                       Inl e \<Rightarrow> (nw', s, Inl e)
                     | Inr _ \<Rightarrow> (nw', run_handler handler vrfMsg s)))))"

section \<open>Requests\<close>

text \<open>
  \<open>RequestTransaction\<close>: \<open>pid\<close> is the decoded peer ID, and \<open>ask\<close> what the peer returns for the bytes
  sent to it (the stream's errors included).
\<close>

definition RequestTransaction ::
  "p2p_codec \<Rightarrow> 'p res \<Rightarrow> ('p \<Rightarrow> bytes \<Rightarrow> bytes res) \<Rightarrow> string \<Rightarrow> Transaction res" where
  "RequestTransaction pc pid ask txID =
     (case pid of
        Inl (Panic e) \<Rightarrow> Inl (Panic e)
      | Inl (Error _) \<Rightarrow> Inl (Error ''invalid peer ID'')
      | Inr p \<Rightarrow>
          (case pc_enc_strings pc [(''tx_id'', txID)] of
             Inl (Panic e) \<Rightarrow> Inl (Panic e)
           | Inl (Error _) \<Rightarrow> Inl (Error ''failed to marshal request'')
           | Inr reqData \<Rightarrow>
               (case pc_enc_message pc \<lparr>ms_Type = MessageTypeTxRequest, ms_Payload = reqData\<rparr> of
                  Inl (Panic e) \<Rightarrow> Inl (Panic e)
                | Inl (Error _) \<Rightarrow> Inl (Error ''failed to marshal message'')
                | Inr msgData \<Rightarrow>
                    (case ask p msgData of
                       Inl e \<Rightarrow> Inl e
                     | Inr respData \<Rightarrow>
                         (case (case pc_dec_strings pc respData of Inl _ \<Rightarrow> None | Inr m \<Rightarrow> mget m ''error'') of
                            Some errMsg \<Rightarrow> Inl (Error (''peer error: '' @ errMsg))
                          | None \<Rightarrow>
                              (case pc_dec_tx pc respData of
                                 Inl (Panic e) \<Rightarrow> Inl (Panic e)
                               | Inl (Error _) \<Rightarrow> Inl (Error ''failed to unmarshal transaction'')
                               | Inr tx \<Rightarrow> if tx_ID tx = [] then Inl (Error ''received empty transaction'') else Inr tx))))))"


section \<open>Streams of unauthenticated peers\<close>

lemma admit_unauthenticated:
  "\<not> IsAuthenticated (si_auth si) p (nw_authManager nw) \<Longrightarrow> admit show_peer p si nw = (nw, drop_stream show_peer p ''unauthenticated peer'')"
  by (simp add: admit_def)

lemma drop_streamE: obtains e where "drop_stream show_peer p msg = Inl e"
  by (cases "slice_to 8 (show_peer p)") (auto simp: drop_stream_def peer_error_def)

text \<open>What an unauthenticated peer sends has no effect.\<close>

lemma unauthenticated_ignored:
  assumes "\<not> IsAuthenticated (si_auth si) p (nw_authManager nw)"
  shows "\<exists>e. handleBlockStream show_peer pc bh p si nw s = (nw, s, Inl e)"
    and "\<exists>e. handleVoteStream show_peer pc vh p si nw s = (nw, s, Inl e)"
    and "\<exists>e. handleTransactionStream show_peer pc th lk p si nw s = (nw, s, Inl e)"
    and "\<exists>e. handleVRFProofStream show_peer pc fh p si nw s = (nw, s, Inl e)"
proof -
  obtain e where "drop_stream show_peer p ''unauthenticated peer'' = (Inl e :: bytes res)" by (rule drop_streamE)
  then have a: "admit show_peer p si nw = (nw, Inl e)" by (simp add: admit_unauthenticated [OF assms])
  show "\<exists>e. handleBlockStream show_peer pc bh p si nw s = (nw, s, Inl e)" by (simp add: handleBlockStream_def a)
  show "\<exists>e. handleVoteStream show_peer pc vh p si nw s = (nw, s, Inl e)" by (simp add: handleVoteStream_def a)
  show "\<exists>e. handleTransactionStream show_peer pc th lk p si nw s = (nw, s, Inl e)" by (simp add: handleTransactionStream_def a)
  show "\<exists>e. handleVRFProofStream show_peer pc fh p si nw s = (nw, s, Inl e)" by (simp add: handleVRFProofStream_def a)
qed

section \<open>A network of honest nodes\<close>

text \<open>
  One node among peers that run the same code: it connects and authenticates, answers the challenges
  of others, and gets blocks, votes, transactions and VRF proofs of any content from any of them. \<open>N\<close> is the set of
  the nonces it draws.
\<close>

record 's app_handlers =
  ah_block :: "(Block \<Rightarrow> 's \<Rightarrow> 's \<times> unit res) option"
  ah_vote :: "(bytes \<times> string \<times> bytes \<Rightarrow> 's \<Rightarrow> 's \<times> unit res) option"
  ah_tx :: "(Transaction \<Rightarrow> 's \<Rightarrow> 's \<times> unit res) option"
  ah_lookup :: "(string \<Rightarrow> 's \<Rightarrow> Transaction res) option"
  ah_vrf :: "(VRFProofMessage \<Rightarrow> 's \<Rightarrow> 's \<times> unit res) option"

inductive honest_step ::
  "('p \<Rightarrow> string) \<Rightarrow> p2p_codec \<Rightarrow> 's app_handlers \<Rightarrow> bytes set \<Rightarrow> 'p P2PNetwork \<times> 's \<Rightarrow> 'p P2PNetwork \<times> 's \<Rightarrow> bool"
  for show_peer pc ah N where
  "honest_step show_peer pc ah N (nw, s) (fst (ConnectToPeer addr dialled nw), s)"
| "p \<noteq> nw_self nw \<Longrightarrow> honest_peer show_peer (nw_self nw) p (ai_answer inp) \<Longrightarrow> (\<forall>n. ai_nonce inp = Inr n \<longrightarrow> n \<in> N) \<Longrightarrow>
     honest_step show_peer pc ah N (nw, s)
       (nw\<lparr>nw_authManager := fst (AuthenticatePeerViaProtocol show_peer inp (nw_self nw) p (nw_authManager nw))\<rparr>, s)"
| "decoded = Inr (challenge_message show_peer p c) \<or> (\<exists>e. decoded = Inl e) \<Longrightarrow>
     honest_step show_peer pc ah N (nw, s)
       (nw\<lparr>nw_authManager := fst (handleAuthStream show_peer ak eof (nw_self nw) p decoded (nw_authManager nw))\<rparr>, s)"
| "handleBlockStream show_peer pc (ah_block ah) p si nw s = (nw', s', r) \<Longrightarrow> honest_step show_peer pc ah N (nw, s) (nw', s')"
| "handleVoteStream show_peer pc (ah_vote ah) p si nw s = (nw', s', r) \<Longrightarrow> honest_step show_peer pc ah N (nw, s) (nw', s')"
| "handleTransactionStream show_peer pc (ah_tx ah) (ah_lookup ah) p si nw s = (nw', s', r') \<Longrightarrow> honest_step show_peer pc ah N (nw, s) (nw', s')"
| "handleVRFProofStream show_peer pc (ah_vrf ah) p si nw s = (nw', s', r) \<Longrightarrow> honest_step show_peer pc ah N (nw, s) (nw', s')"
| "honest_step show_peer pc ah N (nw, s) (fst (RevokeAuthentication show_peer p nw), s)"
| "honest_step show_peer pc ah N (nw, s) (nw\<lparr>nw_authManager := CleanupExpired now (nw_authManager nw)\<rparr>, s)"

inductive_cases honest_stepE: "honest_step show_peer pc ah N x y"

definition isolated :: "'p \<Rightarrow> 's \<Rightarrow> 'p P2PNetwork \<times> 's \<Rightarrow> bool" where
  "isolated self s0 x \<longleftrightarrow> nw_self (fst x) = self \<and> am_authenticated (nw_authManager (fst x)) = [] \<and> snd x = s0"

lemma not_authenticated: "am_authenticated am = [] \<Longrightarrow> \<not> IsAuthenticated now p am"
  by (simp add: IsAuthenticated_def)

lemma challenged_keeps:
  "decoded = Inr (challenge_message show_peer p c) \<or> (\<exists>e. decoded = Inl e) \<Longrightarrow>
     fst (handleAuthStream show_peer ak eof self p decoded am) = am"
  by (auto simp: handleAuthStream_def challenge_message_def AuthTypeChallenge_def split: fail.splits sum.splits)

lemma isolated_step:
  assumes "honest_step show_peer pc ah N x y" "isolated self s0 x" "inj show_peer"
    and "\<forall>n \<in> N. \<forall>p. p \<noteq> self \<longrightarrow> \<not> solution_collision show_peer self p n"
  shows "isolated self s0 y"
  using assms(1,2)
proof (induction rule: honest_step.induct)
  case (2 p nw inp s)
  have self: "nw_self nw = self" "am_authenticated (nw_authManager nw) = []" "s = s0"
    using 2(4) by (simp_all add: isolated_def)
  have "am_authenticated (fst (AuthenticatePeerViaProtocol show_peer inp self p (nw_authManager nw))) = am_authenticated (nw_authManager nw)"
    using honest_handshake_fails [OF assms(3), of p self inp "nw_authManager nw"] 2(1-3) assms(4) self not_authenticated [OF self(2)]
    by (metis prod.collapse)
  then show ?case using self by (simp add: isolated_def)
next
  case (3 decoded p c nw s ak eof)
  then show ?case by (simp add: isolated_def challenged_keeps)
next
  case (4 p si nw s nw' s' r)
  have "\<not> IsAuthenticated (si_auth si) p (nw_authManager nw)" using 4(2) by (simp add: isolated_def not_authenticated)
  from unauthenticated_ignored(1) [OF this] have "nw' = nw \<and> s' = s" using 4(1) by (metis prod.inject)
  then show ?case using 4(2) by simp
next
  case (5 p si nw s nw' s' r)
  have "\<not> IsAuthenticated (si_auth si) p (nw_authManager nw)" using 5(2) by (simp add: isolated_def not_authenticated)
  from unauthenticated_ignored(2) [OF this] have "nw' = nw \<and> s' = s" using 5(1) by (metis prod.inject)
  then show ?case using 5(2) by simp
next
  case (6 p si nw s nw' s' r')
  have "\<not> IsAuthenticated (si_auth si) p (nw_authManager nw)" using 6(2) by (simp add: isolated_def not_authenticated)
  from unauthenticated_ignored(3) [OF this] have "nw' = nw \<and> s' = s" using 6(1) by (metis prod.inject)
  then show ?case using 6(2) by simp
next
  case (7 p si nw s nw' s' r)
  have "\<not> IsAuthenticated (si_auth si) p (nw_authManager nw)" using 7(2) by (simp add: isolated_def not_authenticated)
  from unauthenticated_ignored(4) [OF this] have "nw' = nw \<and> s' = s" using 7(1) by (metis prod.inject)
  then show ?case using 7(2) by simp
qed (auto simp: isolated_def ConnectToPeer_def RevokeAuthentication_def Auth_RevokeAuthentication_def
      CleanupExpired_def mdel_def mkeep_def split: sum.splits fail.splits)

text \<open>
  C2: A node whose peers all run this code never authenticates any of them, and so no block, vote,
  transaction or VRF proof it receives reaches the handlers of the program: whatever its peers
  send, the state they act on stays what it was. The exception would be a SHA-256 collision
  between the two solutions of one of the nonces it drew.
\<close>

theorem honest_network_delivers_nothing:
  assumes "(honest_step show_peer pc ah N)\<^sup>*\<^sup>* (NewP2PNetwork self, s0) (nw, s)" "inj show_peer"
  shows "s = s0 \<and> GetAuthenticatedPeers nw = [] \<or> (\<exists>n \<in> N. \<exists>p. p \<noteq> self \<and> solution_collision show_peer self p n)"
proof (rule disjCI)
  assume n: "\<not> (\<exists>n \<in> N. \<exists>p. p \<noteq> self \<and> solution_collision show_peer self p n)"
  have "isolated self s0 (NewP2PNetwork self, s0)" by (simp add: isolated_def NewP2PNetwork_def NewP2PAuthManager_def)
  with assms(1) have "isolated self s0 (nw, s)"
  proof (induction rule: rtranclp_induct)
    case (step y z)
    from isolated_step [OF step(2) step(3) [OF step(4)] assms(2)] n show ?case by blast
  qed
  then show "s = s0 \<and> GetAuthenticatedPeers nw = []"
    by (simp add: isolated_def GetAuthenticatedPeers_def Auth_GetAuthenticatedPeers_def)
qed


definition failing_codec :: p2p_codec where
  "failing_codec = \<lparr>pc_enc_message = (\<lambda>_. Inl (Error [])), pc_dec_message = (\<lambda>_. Inl (Error [])), pc_enc_block = (\<lambda>_. Inl (Error [])),
     pc_dec_block = (\<lambda>_. Inl (Error [])), pc_enc_tx = (\<lambda>_. Inl (Error [])), pc_dec_tx = (\<lambda>_. Inl (Error [])),
     pc_enc_vote = (\<lambda>_. Inl (Error [])), pc_dec_object = (\<lambda>_. Inl (Error [])), pc_enc_strings = (\<lambda>_. Inl (Error [])),
     pc_dec_strings = (\<lambda>_. Inl (Error [])), pc_enc_vrf = (\<lambda>_. Inl (Error [])), pc_dec_vrf = (\<lambda>_. Inl (Error []))\<rparr>"

definition demo_block :: Block where
  "demo_block = \<lparr>b_Header = \<lparr>h_Version = 1, h_PrevBlockHash = [], h_MerkleRoot = [], h_Timestamp = 0, h_Nonce = 0, h_Difficulty = 1,
       h_Height = 1, h_PoBScore = Fin 1, h_PoBWeight = 0, h_VRFProof = [], h_VRFOutput = None\<rparr>,
     b_Transactions = [], b_ProposerID = ''validator-one'', b_PoHSequence = [], b_Signature = [], b_VRFProof = []\<rparr>"

text \<open>Any bytes are a block message here, so only the checks before the decoding can stop one.\<close>

definition demo_codec :: p2p_codec where
  "demo_codec = failing_codec\<lparr>pc_enc_message := (\<lambda>m. Inr (ms_Payload m)), pc_dec_message := (\<lambda>bs. Inr \<lparr>ms_Type = 8, ms_Payload = bs\<rparr>),
     pc_enc_block := (\<lambda>_. Inr [1]), pc_dec_block := (\<lambda>_. Inr demo_block),
     pc_enc_vote := (\<lambda>_. Inr [2]), pc_dec_object := (\<lambda>_. Inr [(''block_hash'', IfString ''AA=='')])\<rparr>"

definition demo_handlers :: "nat app_handlers" where
  "demo_handlers = \<lparr>ah_block = Some (\<lambda>_ n. (Suc n, Inr ())), ah_vote = None, ah_tx = None, ah_lookup = None, ah_vrf = None\<rparr>"

definition demo_handshake :: auth_input where
  "demo_handshake = \<lparr>ai_now = 0, ai_nonce = Inr [7], ai_created = 0, ai_stream = True, ai_sent = True,
     ai_answer = honest_answer (\<lambda>p. p) 0 ''QmSelf-Node'' ''QmPeerOne'', ai_verify = second, ai_auth = second\<rparr>"

definition demo_stream :: stream_input where
  "demo_stream = \<lparr>si_auth = 2 * second, si_request = \<lparr>rc_init = 0, rc_byte = 0, rc_ban = 0, rc_now = 0\<rparr>, si_data = Inr [1], si_bytes = 0\<rparr>"

theorem honest_network_delivers_nothing_witness:
  "\<exists>nw s. (honest_step (\<lambda>p. p) demo_codec demo_handlers {[7]})\<^sup>*\<^sup>* (NewP2PNetwork ''QmSelf-Node'', 0) (nw, s) \<and>
     mget (nw_peers nw) ''QmPeerOne'' = Some True \<and>
     (s = 0 \<and> GetAuthenticatedPeers nw = [] \<or> (\<exists>p. p \<noteq> ''QmSelf-Node'' \<and> solution_collision (\<lambda>p. p) ''QmSelf-Node'' p [7]))"
proof -
  let ?step = "honest_step (\<lambda>p. p) demo_codec demo_handlers {[7]}"
  let ?nw0 = "NewP2PNetwork ''QmSelf-Node''"
  let ?nw1 = "fst (ConnectToPeer (Inr ''QmPeerOne'') True ?nw0)"
  let ?nw2 = "?nw1\<lparr>nw_authManager := fst (AuthenticatePeerViaProtocol (\<lambda>p. p) demo_handshake (nw_self ?nw1) ''QmPeerOne'' (nw_authManager ?nw1))\<rparr>"
  obtain nw3 s r where b: "handleBlockStream (\<lambda>p. p) demo_codec (ah_block demo_handlers) ''QmPeerOne'' demo_stream ?nw2 0 = (nw3, s, r)"
    by (metis prod_cases3)
  have self: "nw_self ?nw1 = ''QmSelf-Node''" by (simp add: ConnectToPeer_def NewP2PNetwork_def)
  have "?step (?nw0, 0) (?nw1, 0)" by (rule honest_step.intros(1))
  moreover have "?step (?nw1, 0) (?nw2, 0)"
    by (rule honest_step.intros(2)) (simp_all add: self demo_handshake_def honest_peer_def, blast)
  moreover have "?step (?nw2, 0) (nw3, s)" using b by (rule honest_step.intros(4))
  ultimately have run: "?step\<^sup>*\<^sup>* (?nw0, 0) (nw3, s)" by (meson converse_rtranclp_into_rtranclp r_into_rtranclp)
  have peers: "nw_peers nw3 = [(''QmPeerOne'', True)]"
    using b by (auto simp: handleBlockStream_def admit_def ConnectToPeer_def NewP2PNetwork_def split: if_splits prod.splits sum.splits fail.splits)
  from honest_network_delivers_nothing [OF run] run peers show ?thesis
    by (intro exI [of _ nw3] exI [of _ s]) (auto simp: inj_def)
qed

section \<open>What an authenticated peer can send\<close>

text \<open>
  A vote as the code itself broadcasts it ends the process of every node that admits it: a JSON string is never
  a byte slice, and the handler asserts that the block hash is one.
\<close>

theorem broadcast_vote_panics:
  assumes "BroadcastVote pc blockHash validatorID signature nw = Inr out" "(q, data) \<in> set out"
    and "\<forall>payload. pc_enc_vote pc (blockHash, validatorID, signature) = Inr payload \<longrightarrow>
      json_ok (pc_enc_message pc) (pc_dec_message pc) \<lparr>ms_Type = MessageTypeVote, ms_Payload = payload\<rparr> \<and> is_ok (pc_dec_object pc payload)"
    and "\<forall>payload m k v. pc_dec_object pc payload = Inr m \<and> (k, v) \<in> set m \<longrightarrow> json_kind v"
    and "admit show_peer p si receiver = (receiver', Inr data)"
  shows "\<exists>e. handleVoteStream show_peer pc voteHandler p si receiver s = (receiver', s, Inl (Panic e))"
proof -
  obtain payload where payload: "pc_enc_vote pc (blockHash, validatorID, signature) = Inr payload"
    using assms(1) by (auto simp: BroadcastVote_def send_payload_def split: sum.splits fail.splits)
  then have "pc_enc_message pc \<lparr>ms_Type = MessageTypeVote, ms_Payload = payload\<rparr> = Inr data"
    using assms(1,2) by (auto simp: BroadcastVote_def send_payload_def broadcast_def split: sum.splits fail.splits)
  then have msg: "pc_dec_message pc data = Inr \<lparr>ms_Type = MessageTypeVote, ms_Payload = payload\<rparr>"
    using assms(3) payload json_okD by metis
  obtain m where m: "pc_dec_object pc payload = Inr m" using assms(3) payload by (auto elim: is_okE)
  have "\<exists>e. assert_bytes m ''block_hash'' = Inl (Panic e)"
  proof (cases "mget m ''block_hash''")
    case (Some v)
    then have "json_kind v" using assms(4) m mget_in_set by metis
    with Some show ?thesis by (cases v) (simp_all add: assert_bytes_def)
  qed (simp add: assert_bytes_def)
  then show ?thesis by (auto simp: handleVoteStream_def assms(5) msg m)
qed

text \<open>A block, in contrast, arrives as it was sent.\<close>

lemma broadcast_block_arrives:
  assumes "BroadcastBlock pc block nw = Inr out" "json_ok (pc_enc_block pc) (pc_dec_block pc) block"
    and "\<forall>payload. pc_enc_block pc block = Inr payload \<longrightarrow>
      json_ok (pc_enc_message pc) (pc_dec_message pc) \<lparr>ms_Type = MessageTypeBlock, ms_Payload = payload\<rparr>"
    and "(p, data) \<in> set out" "admit show_peer q si receiver = (receiver', Inr data)"
  shows "handleBlockStream show_peer pc (Some h) q si receiver s =
      (receiver', case h block s of (s', Inl (Panic e)) \<Rightarrow> (s', Inl (Panic e)) | (s', _) \<Rightarrow> (s', Inr ())) \<and>
    map fst out = map fst (nw_peers nw)"
proof -
  obtain payload where payload: "pc_enc_block pc block = Inr payload"
    using assms(1) by (auto simp: BroadcastBlock_def send_payload_def split: sum.splits fail.splits)
  then have out: "pc_enc_message pc \<lparr>ms_Type = MessageTypeBlock, ms_Payload = payload\<rparr> = Inr data" "map fst out = map fst (nw_peers nw)"
    using assms(1,4) by (auto simp: BroadcastBlock_def send_payload_def broadcast_def comp_def split: sum.splits fail.splits)
  then have "pc_dec_message pc data = Inr \<lparr>ms_Type = MessageTypeBlock, ms_Payload = payload\<rparr>" "pc_dec_block pc payload = Inr block"
    using assms(2,3) payload json_okD by metis+
  then show ?thesis using out(2) by (simp add: handleBlockStream_def assms(5) run_handler_def)
qed

definition demo_receiver :: "string P2PNetwork" where
  "demo_receiver = (NewP2PNetwork ''QmSelf-Node'')\<lparr>nw_peers := [(''QmPeerOne'', True)],
     nw_authManager := NewP2PAuthManager\<lparr>am_authenticated := [(''QmPeerOne'', 0)]\<rparr>\<rparr>"

definition demo_request :: stream_input where
  "demo_request = \<lparr>si_auth = 0, si_request = \<lparr>rc_init = 0, rc_byte = 0, rc_ban = 0, rc_now = 0\<rparr>, si_data = Inr [2], si_bytes = 0\<rparr>"

lemma demo_admitted: "\<exists>receiver'. admit (\<lambda>p. p) ''QmPeerOne'' demo_request demo_receiver = (receiver', Inr [2])"
  by (simp add: admit_def demo_request_def demo_receiver_def NewP2PNetwork_def NewP2PAuthManager_def IsAuthenticated_def AllowRequest_def
      NewRateLimiter_def Let_def new_limit_def put_limit_def refill_def tokens_due_def duration_minutes_def AllowBytes_def
      duration_values time_sub_def min_duration_def max_duration_def wrap64_def mget_mput)

theorem broadcast_vote_panics_witness:
  "\<exists>receiver' e. handleVoteStream (\<lambda>p. p) demo_codec None ''QmPeerOne'' demo_request demo_receiver (0 :: nat) = (receiver', 0, Inl (Panic e))"
proof -
  obtain receiver' where a: "admit (\<lambda>p. p) ''QmPeerOne'' demo_request demo_receiver = (receiver', Inr [2])" using demo_admitted by blast
  have out: "BroadcastVote demo_codec [] [] [] demo_receiver = Inr [(''QmPeerOne'', [2])]"
    by (simp add: BroadcastVote_def send_payload_def broadcast_def demo_codec_def demo_receiver_def)
  show ?thesis
    using broadcast_vote_panics [OF out _ _ _ a, of "''QmPeerOne''" None 0]
    by (auto simp: demo_codec_def failing_codec_def json_ok_def MessageTypeVote_def)
qed

end
