(* ===== verification/Wallet.thy ===== *)
theory Wallet
  imports Core_Types
begin

text \<open>
  Wallets (\<open>pkg/wallet/wallet.go\<close>), their keystore files (\<open>pkg/wallet/keystore.go\<close>) and the keystore files of
  the genesis tool (\<open>cmd/genesis/main.go\<close>).

  bip39, bip32, scrypt, Keccak and the AES and ECDSA primitives are the record \<open>wallet_lib\<close>; what they are relied on for is
  \<open>wallet_lib_laws\<close>. Random bytes are arguments. A derived key is given with the array behind its slice, as
  the code slices it to 32 bytes whatever its length.
\<close>

section \<open>Hexadecimal decoding (hex.DecodeString)\<close>

definition hex_val :: "char \<Rightarrow> nat option" where
  "hex_val c = (let n = (of_char c :: nat) in
     if 48 \<le> n \<and> n \<le> 57 then Some (n - 48) else if 97 \<le> n \<and> n \<le> 102 then Some (n - 87)
     else if 65 \<le> n \<and> n \<le> 70 then Some (n - 55) else None)"

fun unhex :: "string \<Rightarrow> bytes res" where
  "unhex [] = Inr []"
| "unhex [c] = Inl (Error ''encoding/hex: odd length hex string'')"
| "unhex (c # d # s) =
     (case (hex_val c, hex_val d) of
        (Some a, Some b) \<Rightarrow> (case unhex s of Inl e \<Rightarrow> Inl e | Inr bs \<Rightarrow> Inr (of_nat (16 * a + b) # bs))
      | _ \<Rightarrow> Inl (Error ''encoding/hex: invalid byte''))"

lemma hex_val_digit: "n < 16 \<Longrightarrow> hex_val (hex_digit n) = Some n"
proof -
  assume "n < 16"
  then have "n \<in> {0..<16}" by simp
  moreover have "\<forall>n \<in> {0..<16}. hex_val (hex_digit n) = Some n"
    by (simp add: atLeastLessThan_nat_numeral hex_digit_def hex_val_def Let_def of_char_def)
  ultimately show ?thesis by blast
qed

lemma unat_lt_byte: "unat (b :: byte) < 256"
  using unsigned_less [of b, where 'a = nat] by simp

lemma unhex_hex [simp]: "unhex (hex bs) = Inr bs"
proof (induction bs)
  case (Cons b bs)
  have "unat b < 256" using unat_lt_byte [of b] by simp
  then have "hex_val (hex_digit (unat b div 16)) = Some (unat b div 16)" "hex_val (hex_digit (unat b mod 16)) = Some (unat b mod 16)"
    by (auto intro!: hex_val_digit simp: less_mult_imp_div_less)
  moreover have "(of_nat (16 * (unat b div 16) + unat b mod 16) :: byte) = b" by simp
  ultimately show ?case using Cons by (simp add: hex_def hex_byte_def)
qed (simp add: hex_def)

section \<open>Wallets (wallet.go)\<close>

record Wallet =
  wa_D :: nat
  wa_PublicKey :: PublicKey
  wa_Address :: string

record wallet_lib =
  wl_child :: "string \<Rightarrow> bytes res"
  wl_valid :: "string \<Rightarrow> bool"
  wl_base_mult :: "bytes \<Rightarrow> PublicKey"
  wl_scrypt :: "bytes \<Rightarrow> bytes \<Rightarrow> int \<Rightarrow> int \<Rightarrow> int \<Rightarrow> int \<Rightarrow> bytes res"
  wl_ctr :: "bytes \<Rightarrow> bytes \<Rightarrow> bytes \<Rightarrow> bytes res"
  wl_seal :: "bytes \<Rightarrow> bytes \<Rightarrow> bytes \<Rightarrow> bytes"
  wl_open :: "bytes \<Rightarrow> bytes \<Rightarrow> bytes \<Rightarrow> bytes res"
  wl_keccak :: "bytes \<Rightarrow> bytes"

text \<open>\<open>elliptic.Marshal\<close> on P-256; it panics off the curve, but for the point at infinity (0, 0).\<close>

definition p256_on_curve :: "PublicKey \<Rightarrow> bool" where
  "p256_on_curve k \<longleftrightarrow> fst k < p256_P \<and> snd k < p256_P \<and>
     int (snd k) ^ 2 mod int p256_P = (int (fst k) ^ 3 - 3 * int (fst k) + p256_B) mod int p256_P"

definition elliptic_Marshal :: "PublicKey \<Rightarrow> bytes res" where
  "elliptic_Marshal k =
     (if k \<noteq> (0, 0) \<and> \<not> p256_on_curve k then Inl (Panic ''crypto/elliptic: attempted operation on invalid point'')
      else case EncodePublicKey k of Inl e \<Rightarrow> Inl e | Inr xy \<Rightarrow> Inr (4 # xy))"

definition AddressHexLength :: nat where "AddressHexLength = 40"

definition GenerateAddress :: "PublicKey \<Rightarrow> string res" where
  "GenerateAddress pubKey =
     (case elliptic_Marshal pubKey of
        Inl e \<Rightarrow> Inl e
      | Inr pubKeyBytes \<Rightarrow> Inr (''rnr'' @ take AddressHexLength (hex (sha256 pubKeyBytes))))"

definition NewWalletFromMnemonic :: "wallet_lib \<Rightarrow> string \<Rightarrow> Wallet res" where
  "NewWalletFromMnemonic wl mnemonic =
     (if \<not> wl_valid wl mnemonic then Inl (Error ''invalid mnemonic phrase'')
      else case wl_child wl mnemonic of
        Inl e \<Rightarrow> Inl e
      | Inr childKey \<Rightarrow>
          let pub = wl_base_mult wl childKey
          in (case GenerateAddress pub of
                Inl (Panic e) \<Rightarrow> Inl (Panic e)
              | Inl (Error _) \<Rightarrow> Inl (Error ''failed to generate address'')
              | Inr address \<Rightarrow> Inr \<lparr>wa_D = be_val childKey, wa_PublicKey = pub, wa_Address = address\<rparr>))"

definition SignTransaction :: "Transaction encoder \<Rightarrow> (bytes \<Rightarrow> (nat \<times> nat) res) \<Rightarrow> Transaction \<Rightarrow> Transaction res" where
  "SignTransaction enc sign tx =
     (case Transaction_Hash enc tx of
        Inl (Panic e) \<Rightarrow> Inl (Panic e)
      | Inl (Error _) \<Rightarrow> Inl (Error ''failed to hash transaction'')
      | Inr txHash \<Rightarrow>
          (case sign txHash of
             Inl (Panic e) \<Rightarrow> Inl (Panic e)
           | Inl (Error _) \<Rightarrow> Inl (Error ''failed to sign transaction'')
           | Inr (r, s) \<Rightarrow> Inr (tx\<lparr>tx_Signature := be_bytes r @ be_bytes s\<rparr>)))"

definition NewTransaction :: "Transaction encoder \<Rightarrow> gotime \<Rightarrow> string \<Rightarrow> string \<Rightarrow> int \<Rightarrow> int \<Rightarrow> u64 \<Rightarrow> Transaction" where
  "NewTransaction enc now sender to amount fee nonce =
     (let tx = \<lparr>tx_ID = [], tx_From = sender, tx_To = to, tx_Amount = amount, tx_Timestamp = now, tx_Nonce = nonce, tx_Fee = fee,
            tx_Signature = [], tx_Data = []\<rparr>
      in tx\<lparr>tx_ID := hex (case Transaction_Hash enc tx of Inl _ \<Rightarrow> [] | Inr h \<Rightarrow> h)\<rparr>)"

text \<open>The encrypted private key: 32 bytes of salt, the nonce, the sealed key.\<close>

definition nonce_size :: nat where "nonce_size = 12"

definition Wallet_Encrypt :: "wallet_lib \<Rightarrow> bytes res \<Rightarrow> bytes res \<Rightarrow> string \<Rightarrow> Wallet \<Rightarrow> bytes res" where
  "Wallet_Encrypt wl rand_salt rand_nonce password w =
     (case rand_salt of
        Inl _ \<Rightarrow> Inl (Error ''failed to generate salt'')
      | Inr salt \<Rightarrow>
          (case wl_scrypt wl (bytes_of password) salt 32768 8 1 32 of
             Inl _ \<Rightarrow> Inl (Error ''failed to derive key'')
           | Inr key \<Rightarrow>
               (case rand_nonce of
                  Inl _ \<Rightarrow> Inl (Error ''failed to generate nonce'')
                | Inr nonce \<Rightarrow> Inr (salt @ nonce @ wl_seal wl (take 32 key) nonce (be_bytes (wa_D w))))))"

definition Wallet_Decrypt :: "wallet_lib \<Rightarrow> bytes \<Rightarrow> string \<Rightarrow> Wallet \<Rightarrow> Wallet res" where
  "Wallet_Decrypt wl encryptedData password w =
     (if length encryptedData < 32 then Inl (Error ''encrypted data too short to contain salt'')
      else let salt = take 32 encryptedData; encrypted = drop 32 encryptedData
        in (case wl_scrypt wl (bytes_of password) salt 32768 8 1 32 of
              Inl _ \<Rightarrow> Inl (Error ''failed to derive key'')
            | Inr key \<Rightarrow>
                if length encrypted < nonce_size then Inl (Error ''encrypted data too short'')
                else (case wl_open wl (take 32 key) (take nonce_size encrypted) (drop nonce_size encrypted) of
                   Inl _ \<Rightarrow> Inl (Error ''failed to decrypt'')
                 | Inr plaintext \<Rightarrow> Inr (w\<lparr>wa_D := be_val plaintext, wa_PublicKey := wl_base_mult wl plaintext\<rparr>))))"

section \<open>Keystore files (keystore.go)\<close>

record KDFParams =
  kd_DKLen :: int
  kd_N :: int
  kd_P :: int
  kd_R :: int
  kd_Salt :: string

record Crypto =
  ky_Cipher :: string
  ky_CipherText :: string
  ky_IV :: string
  ky_KDF :: string
  ky_KDFParams :: KDFParams
  ky_MAC :: string

record KeystoreFile =
  kf_Address :: string
  kf_Crypto :: Crypto
  kf_Mnemonic :: string
  kf_Version :: int

text \<open>\<open>derivedKey[:16]\<close> and \<open>derivedKey[16:32]\<close>.\<close>

definition key_halves :: "bytes \<Rightarrow> (bytes \<times> bytes) res" where
  "key_halves derivedKey = (if length derivedKey < 32 then Inl (Panic ''slice bounds out of range'')
     else Inr (take 16 derivedKey, take 16 (drop 16 derivedKey)))"

text \<open>
  Saving: the result is the content of the file, or the error of the call; \<open>write\<close> is the error of \<open>os.WriteFile\<close> for a
  content, if it has one.
\<close>

definition SaveWalletToFile ::
  "wallet_lib \<Rightarrow> KeystoreFile encoder \<Rightarrow> bytes res \<Rightarrow> bytes res \<Rightarrow> (bytes \<Rightarrow> fail option) \<Rightarrow> Wallet \<Rightarrow> string \<Rightarrow> bytes res" where
  "SaveWalletToFile wl enc rand_salt rand_iv write w password =
     (case rand_salt of Inl e \<Rightarrow> Inl e | Inr salt \<Rightarrow>
     (case wl_scrypt wl (bytes_of password) salt 32768 8 1 32 of Inl e \<Rightarrow> Inl e | Inr derivedKey \<Rightarrow>
     (case key_halves derivedKey of Inl e \<Rightarrow> Inl e | Inr (encryptKey, macKey) \<Rightarrow>
     (case rand_iv of Inl e \<Rightarrow> Inl e | Inr iv \<Rightarrow>
     (case wl_ctr wl encryptKey iv (be_bytes (wa_D w)) of Inl e \<Rightarrow> Inl e | Inr ciphertext \<Rightarrow>
     (case enc \<lparr>kf_Address = wa_Address w,
         kf_Crypto = \<lparr>ky_Cipher = ''aes-128-ctr'', ky_CipherText = hex ciphertext, ky_IV = hex iv, ky_KDF = ''scrypt'',
           ky_KDFParams = \<lparr>kd_DKLen = 32, kd_N = 32768, kd_P = 1, kd_R = 8, kd_Salt = hex salt\<rparr>,
           ky_MAC = hex (sha256 (macKey @ ciphertext))\<rparr>,
         kf_Mnemonic = [], kf_Version = 1\<rparr> of Inl e \<Rightarrow> Inl e | Inr data \<Rightarrow>
     (case write data of Some e \<Rightarrow> Inl e | None \<Rightarrow> Inr data)))))))"

definition open_keystore :: "wallet_lib \<Rightarrow> string \<Rightarrow> KeystoreFile \<Rightarrow> Wallet res" where
  "open_keystore wl password keystore =
     (let kc = kf_Crypto keystore; kd = ky_KDFParams kc in
     (case unhex (kd_Salt kd) of Inl e \<Rightarrow> Inl e | Inr salt \<Rightarrow>
     (case wl_scrypt wl (bytes_of password) salt (kd_N kd) (kd_R kd) (kd_P kd) (kd_DKLen kd) of Inl e \<Rightarrow> Inl e | Inr derivedKey \<Rightarrow>
     (case unhex (ky_CipherText kc) of Inl e \<Rightarrow> Inl e | Inr ciphertext \<Rightarrow>
     (case key_halves derivedKey of Inl e \<Rightarrow> Inl e | Inr (encryptKey, macKey) \<Rightarrow>
     (case unhex (ky_MAC kc) of Inl e \<Rightarrow> Inl e | Inr storedMAC \<Rightarrow>
       if hex (sha256 (macKey @ ciphertext)) \<noteq> hex storedMAC then Inl (Error ''invalid password'')
       else
     (case unhex (ky_IV kc) of Inl e \<Rightarrow> Inl e | Inr iv \<Rightarrow>
     (case wl_ctr wl encryptKey iv ciphertext of Inl e \<Rightarrow> Inl e | Inr plaintext \<Rightarrow>
       Inr \<lparr>wa_D = be_val plaintext, wa_PublicKey = wl_base_mult wl plaintext, wa_Address = kf_Address keystore\<rparr>))))))))"

definition LoadWalletFromFile :: "wallet_lib \<Rightarrow> KeystoreFile decoder \<Rightarrow> bytes res \<Rightarrow> string \<Rightarrow> Wallet res" where
  "LoadWalletFromFile wl dec file password =
     (case file of Inl e \<Rightarrow> Inl e | Inr data \<Rightarrow> (case dec data of Inl e \<Rightarrow> Inl e | Inr keystore \<Rightarrow> open_keystore wl password keystore))"

text \<open>
  The keystore file of the genesis tool. Its JSON has the same field names, without the mnemonic, which decodes to
  the empty string; \<open>addr\<close> is the Ethereum address of the key.
\<close>

definition createKeystoreFile ::
  "wallet_lib \<Rightarrow> KeystoreFile encoder \<Rightarrow> bytes res \<Rightarrow> bytes res \<Rightarrow> string \<Rightarrow> bytes \<Rightarrow> string \<Rightarrow> bytes res" where
  "createKeystoreFile wl enc rand_salt rand_iv addr privateKeyBytes password =
     (case rand_salt of Inl e \<Rightarrow> Inl e | Inr salt \<Rightarrow>
     (case wl_scrypt wl (bytes_of password) salt (2 ^ 18) 8 1 32 of Inl e \<Rightarrow> Inl e | Inr derivedKey \<Rightarrow>
     (case rand_iv of Inl e \<Rightarrow> Inl e | Inr iv \<Rightarrow>
     (case key_halves derivedKey of Inl e \<Rightarrow> Inl e | Inr (encryptKey, macKey) \<Rightarrow>
     (case wl_ctr wl encryptKey iv privateKeyBytes of Inl e \<Rightarrow> Inl e | Inr cipherText \<Rightarrow>
       enc \<lparr>kf_Address = addr,
         kf_Crypto = \<lparr>ky_Cipher = ''aes-128-ctr'', ky_CipherText = hex cipherText, ky_IV = hex iv, ky_KDF = ''scrypt'',
           ky_KDFParams = \<lparr>kd_DKLen = 32, kd_N = 2 ^ 18, kd_P = 1, kd_R = 8, kd_Salt = hex salt\<rparr>,
           ky_MAC = hex (wl_keccak wl (macKey @ cipherText))\<rparr>,
         kf_Mnemonic = [], kf_Version = 3\<rparr>)))))"

section \<open>Reading keystores back\<close>

text \<open>AES-CTR is an involution for a key and an IV, and GCM opens what it sealed.\<close>

definition wallet_lib_laws :: "wallet_lib \<Rightarrow> bool" where
  "wallet_lib_laws wl \<longleftrightarrow>
     (\<forall>k iv x y. wl_ctr wl k iv x = Inr y \<longrightarrow> wl_ctr wl k iv y = Inr x) \<and>
     (\<forall>k n x. wl_open wl k n (wl_seal wl k n x) = Inr x)"

definition saved_keystore :: "string \<Rightarrow> bytes \<Rightarrow> bytes \<Rightarrow> bytes \<Rightarrow> bytes \<Rightarrow> KeystoreFile" where
  "saved_keystore address salt k iv c = \<lparr>kf_Address = address,
     kf_Crypto = \<lparr>ky_Cipher = ''aes-128-ctr'', ky_CipherText = hex c, ky_IV = hex iv, ky_KDF = ''scrypt'',
       ky_KDFParams = \<lparr>kd_DKLen = 32, kd_N = 32768, kd_P = 1, kd_R = 8, kd_Salt = hex salt\<rparr>,
       ky_MAC = hex (sha256 (take 16 (drop 16 k) @ c))\<rparr>,
     kf_Mnemonic = [], kf_Version = 1\<rparr>"

lemma key_halves_ok: "key_halves k = Inr p \<longleftrightarrow> \<not> length k < 32 \<and> p = (take 16 k, take 16 (drop 16 k))"
  by (auto simp: key_halves_def)

lemma saved_file:
  assumes "SaveWalletToFile wl enc (Inr salt) (Inr iv) write w password = Inr file"
    "wl_scrypt wl (bytes_of password) salt 32768 8 1 32 = Inr k" "wl_ctr wl (take 16 k) iv (be_bytes (wa_D w)) = Inr c"
  shows "\<not> length k < 32" "enc (saved_keystore (wa_Address w) salt k iv c) = Inr file" "write file = None"
  using assms by (auto simp: SaveWalletToFile_def saved_keystore_def key_halves_def split: sum.splits option.splits if_splits)

lemma write_error:
  assumes "enc (saved_keystore (wa_Address w) salt k iv c) = Inr data" "write data = Some e" "\<not> length k < 32"
    "wl_scrypt wl (bytes_of password) salt 32768 8 1 32 = Inr k" "wl_ctr wl (take 16 k) iv (be_bytes (wa_D w)) = Inr c"
  shows "SaveWalletToFile wl enc (Inr salt) (Inr iv) write w password = Inl e"
  using assms by (simp add: SaveWalletToFile_def saved_keystore_def key_halves_def)

text \<open>
  A wallet made from a mnemonic has the public key of its number: \<open>ScalarBaseMult\<close> reads its argument as a big-endian
  number, so leading zeros do not matter.
\<close>

lemma mnemonic_key:
  assumes "NewWalletFromMnemonic wl mnemonic = Inr w" "\<forall>bs. wl_base_mult wl (be_bytes (be_val bs)) = wl_base_mult wl bs"
  shows "wa_PublicKey w = wl_base_mult wl (be_bytes (wa_D w))"
  using assms by (auto simp: NewWalletFromMnemonic_def Let_def split: if_splits sum.splits fail.splits)

lemma open_saved:
  "open_keystore wl other (saved_keystore address salt k iv c) =
     (case wl_scrypt wl (bytes_of other) salt 32768 8 1 32 of Inl e \<Rightarrow> Inl e | Inr k' \<Rightarrow>
     (case key_halves k' of Inl e \<Rightarrow> Inl e | Inr (encryptKey, macKey) \<Rightarrow>
       if sha256 (macKey @ c) \<noteq> sha256 (take 16 (drop 16 k) @ c) then Inl (Error ''invalid password'')
       else (case wl_ctr wl encryptKey iv c of Inl e \<Rightarrow> Inl e | Inr plaintext \<Rightarrow>
         Inr \<lparr>wa_D = be_val plaintext, wa_PublicKey = wl_base_mult wl plaintext, wa_Address = address\<rparr>)))"
  by (simp add: open_keystore_def saved_keystore_def Let_def hex_inj cong: sum.case_cong if_cong)

text \<open>
  C34: A wallet saved to a file is read back under the same password as exactly the wallet that was saved, if its
  public key is the one of its number (\<open>mnemonic_key\<close>) and JSON decodes the one file that was written back to itself. Under any
  other password the file opens only if scrypt gives both passwords the same MAC key, or else on a SHA-256 collision
  between the two MAC inputs.
\<close>

theorem keystore_roundtrip:
  assumes saved: "SaveWalletToFile wl enc (Inr salt) (Inr iv) write w password = Inr file"
    and k: "wl_scrypt wl (bytes_of password) salt 32768 8 1 32 = Inr k" and c: "wl_ctr wl (take 16 k) iv (be_bytes (wa_D w)) = Inr c"
    and json: "json_ok enc dec (saved_keystore (wa_Address w) salt k iv c)" and laws: "wallet_lib_laws wl"
    and key: "wa_PublicKey w = wl_base_mult wl (be_bytes (wa_D w))"
  shows "LoadWalletFromFile wl dec (Inr file) password = Inr w \<and>
    (\<forall>other w'. LoadWalletFromFile wl dec (Inr file) other = Inr w' \<longrightarrow>
      (\<exists>k'. wl_scrypt wl (bytes_of other) salt 32768 8 1 32 = Inr k' \<and>
        (take 16 (drop 16 k) = take 16 (drop 16 k') \<or> sha256_collision (take 16 (drop 16 k) @ c) (take 16 (drop 16 k') @ c))))"
proof -
  note s = saved_file [OF saved k c]
  have load: "LoadWalletFromFile wl dec (Inr file) p = open_keystore wl p (saved_keystore (wa_Address w) salt k iv c)" for p
    using json_okD [OF json s(2)] by (simp add: LoadWalletFromFile_def)
  have ctr: "wl_ctr wl (take 16 k) iv c = Inr (be_bytes (wa_D w))" using laws c unfolding wallet_lib_laws_def by blast
  have "\<exists>k'. wl_scrypt wl (bytes_of other) salt 32768 8 1 32 = Inr k' \<and>
      (take 16 (drop 16 k) = take 16 (drop 16 k') \<or> sha256_collision (take 16 (drop 16 k) @ c) (take 16 (drop 16 k') @ c))"
    if h: "LoadWalletFromFile wl dec (Inr file) other = Inr w'" for other w'
  proof -
    from h obtain k' where k': "wl_scrypt wl (bytes_of other) salt 32768 8 1 32 = Inr k'"
      and e: "(case key_halves k' of Inl e \<Rightarrow> Inl e | Inr (encryptKey, macKey) \<Rightarrow>
         if sha256 (macKey @ c) \<noteq> sha256 (take 16 (drop 16 k) @ c) then Inl (Error ''invalid password'')
         else (case wl_ctr wl encryptKey iv c of Inl e \<Rightarrow> Inl e | Inr plaintext \<Rightarrow>
           Inr \<lparr>wa_D = be_val plaintext, wa_PublicKey = wl_base_mult wl plaintext, wa_Address = wa_Address w\<rparr>)) = Inr w'"
      unfolding load open_saved by (rule res_bindE)
    have "sha256 (take 16 (drop 16 k') @ c) = sha256 (take 16 (drop 16 k) @ c)"
    proof (cases "key_halves k'")
      case (Inr p)
      then have "p = (take 16 k', take 16 (drop 16 k'))" by (simp add: key_halves_ok)
      with e Inr show ?thesis by (simp split: if_splits)
    qed (use e in simp)
    with k' show ?thesis by (auto simp: sha256_collision_def)
  qed
  moreover have "LoadWalletFromFile wl dec (Inr file) password = Inr w"
    unfolding load open_saved using s(1) k ctr by (simp add: key_halves_def key [symmetric])
  ultimately show ?thesis by blast
qed

definition tool_keystore :: "(bytes \<Rightarrow> bytes) \<Rightarrow> string \<Rightarrow> bytes \<Rightarrow> bytes \<Rightarrow> bytes \<Rightarrow> bytes \<Rightarrow> KeystoreFile" where
  "tool_keystore keccak addr salt k iv c = \<lparr>kf_Address = addr,
     kf_Crypto = \<lparr>ky_Cipher = ''aes-128-ctr'', ky_CipherText = hex c, ky_IV = hex iv, ky_KDF = ''scrypt'',
       ky_KDFParams = \<lparr>kd_DKLen = 32, kd_N = 2 ^ 18, kd_P = 1, kd_R = 8, kd_Salt = hex salt\<rparr>,
       ky_MAC = hex (keccak (take 16 (drop 16 k) @ c))\<rparr>,
     kf_Mnemonic = [], kf_Version = 3\<rparr>"

lemma tool_file:
  assumes "createKeystoreFile wl enc (Inr salt) (Inr iv) addr key password = Inr file"
    "wl_scrypt wl (bytes_of password) salt (2 ^ 18) 8 1 32 = Inr k" "wl_ctr wl (take 16 k) iv key = Inr c"
  shows "\<not> length k < 32" "enc (tool_keystore (wl_keccak wl) addr salt k iv c) = Inr file"
  using assms by (auto simp: createKeystoreFile_def tool_keystore_def key_halves_def split: sum.splits if_splits)

lemma open_tool:
  assumes "wl_scrypt wl (bytes_of password) salt (2 ^ 18) 8 1 32 = Inr k" "\<not> length k < 32"
  shows "wl_keccak wl (take 16 (drop 16 k) @ c) = sha256 (take 16 (drop 16 k) @ c) \<or>
    open_keystore wl password (tool_keystore (wl_keccak wl) addr salt k iv c) = Inl (Error ''invalid password'')"
proof -
  have "key_halves k = Inr (take 16 k, take 16 (drop 16 k))" using assms(2) by (simp add: key_halves_ok)
  with assms(1) show ?thesis
    by (auto simp: open_keystore_def tool_keystore_def Let_def hex_inj cong: sum.case_cong if_cong)
qed

text \<open>
  A keystore file written by the genesis tool does not open with the wallet of the node, even under its own password: the
  tool's MAC is Keccak-256, the wallet compares SHA-256, and the two would have to agree on the MAC input.
\<close>

theorem genesis_keystore_rejected:
  assumes "createKeystoreFile wl enc (Inr salt) (Inr iv) addr key password = Inr file"
    "wl_scrypt wl (bytes_of password) salt (2 ^ 18) 8 1 32 = Inr k" "wl_ctr wl (take 16 k) iv key = Inr c"
    "json_ok enc dec (tool_keystore (wl_keccak wl) addr salt k iv c)"
  shows "LoadWalletFromFile wl dec (Inr file) password = Inl (Error ''invalid password'') \<or>
    wl_keccak wl (take 16 (drop 16 k) @ c) = sha256 (take 16 (drop 16 k) @ c)"
proof -
  note s = tool_file [OF assms(1-3)]
  have "LoadWalletFromFile wl dec (Inr file) password = open_keystore wl password (tool_keystore (wl_keccak wl) addr salt k iv c)"
    using json_okD [OF assms(4) s(2)] by (simp add: LoadWalletFromFile_def)
  then show ?thesis using open_tool [OF assms(2) s(1), of c addr iv] by metis
qed


lemma decrypt_encrypted:
  assumes "wallet_lib_laws wl" "Wallet_Encrypt wl (Inr salt) (Inr nonce) password w = Inr data" "length salt = 32" "length nonce = nonce_size"
  shows "Wallet_Decrypt wl data password w' = Inr (w'\<lparr>wa_D := wa_D w, wa_PublicKey := wl_base_mult wl (be_bytes (wa_D w))\<rparr>)"
proof (cases "wl_scrypt wl (bytes_of password) salt 32768 8 1 32")
  case (Inr key)
  then have data: "data = salt @ nonce @ wl_seal wl (take 32 key) nonce (be_bytes (wa_D w))"
    using assms(2) by (simp add: Wallet_Encrypt_def)
  have "wl_open wl (take 32 key) nonce (wl_seal wl (take 32 key) nonce (be_bytes (wa_D w))) = Inr (be_bytes (wa_D w))"
    using assms(1) unfolding wallet_lib_laws_def by blast
  then show ?thesis using assms(3,4) Inr by (simp add: Wallet_Decrypt_def data)
qed (use assms(2) in \<open>simp add: Wallet_Encrypt_def\<close>)

text \<open>A library for examples: the stream is the identity, and a derived key repeats the bytes of the password.\<close>

definition demo_wallet_lib :: wallet_lib where
  "demo_wallet_lib = \<lparr>wl_child = (\<lambda>_. Inl (Error [])), wl_valid = (\<lambda>_. False), wl_base_mult = (\<lambda>bs. (be_val bs, 0)),
     wl_scrypt = (\<lambda>pw salt n r p len. Inr (replicate 32 (hd pw))), wl_ctr = (\<lambda>_ _ x. Inr x), wl_seal = (\<lambda>_ _ x. x),
     wl_open = (\<lambda>_ _ x. Inr x), wl_keccak = (\<lambda>_. [])\<rparr>"

definition demo_wallet :: Wallet where
  "demo_wallet = \<lparr>wa_D = 5, wa_PublicKey = (5, 0), wa_Address = ''rnr-demo''\<rparr>"

text \<open>A codec for one file.\<close>

definition only :: "KeystoreFile \<Rightarrow> KeystoreFile encoder" where
  "only ks x = (if x = ks then Inr [] else Inl (Error ''json''))"

definition demo_kept :: bytes where
  "demo_kept = replicate 32 (hd (bytes_of ''p''))"

theorem keystore_roundtrip_witness:
  "\<exists>enc dec file. SaveWalletToFile demo_wallet_lib enc (Inr [1]) (Inr [2]) (\<lambda>_. None) demo_wallet ''p'' = Inr file \<and>
     LoadWalletFromFile demo_wallet_lib dec (Inr file) ''p'' = Inr demo_wallet"
proof -
  let ?ks = "saved_keystore ''rnr-demo'' [1] demo_kept [2] (be_bytes 5)"
  have laws: "wallet_lib_laws demo_wallet_lib" by (simp add: wallet_lib_laws_def demo_wallet_lib_def)
  have saved: "SaveWalletToFile demo_wallet_lib (only ?ks) (Inr [1]) (Inr [2]) (\<lambda>_. None) demo_wallet ''p'' = Inr []"
    by (simp add: SaveWalletToFile_def demo_wallet_lib_def demo_wallet_def key_halves_def only_def saved_keystore_def demo_kept_def)
  have "LoadWalletFromFile demo_wallet_lib (\<lambda>_. Inr ?ks) (Inr []) ''p'' = Inr demo_wallet"
    using keystore_roundtrip [OF saved, of demo_kept "be_bytes 5" "\<lambda>_. Inr ?ks"] laws
    by (simp add: demo_wallet_lib_def demo_wallet_def demo_kept_def json_ok_def only_def be_val_be_bytes)
  with saved show ?thesis by blast
qed

theorem genesis_keystore_rejected_witness:
  "\<exists>enc dec file. createKeystoreFile demo_wallet_lib enc (Inr [1]) (Inr [2]) ''0xAB'' [5] ''p'' = Inr file \<and>
     LoadWalletFromFile demo_wallet_lib dec (Inr file) ''p'' = Inl (Error ''invalid password'')"
proof -
  let ?ks = "tool_keystore (wl_keccak demo_wallet_lib) ''0xAB'' [1] demo_kept [2] [5]"
  have made: "createKeystoreFile demo_wallet_lib (only ?ks) (Inr [1]) (Inr [2]) ''0xAB'' [5] ''p'' = Inr []"
    by (simp add: createKeystoreFile_def demo_wallet_lib_def key_halves_def only_def tool_keystore_def demo_kept_def)
  have other: "wl_keccak demo_wallet_lib x \<noteq> sha256 y" for x y
  proof
    assume "wl_keccak demo_wallet_lib x = sha256 y"
    then have "length (sha256 y) = 0" by (simp add: demo_wallet_lib_def)
    then show False unfolding length_sha256 by simp
  qed
  have lib: "wl_scrypt demo_wallet_lib (bytes_of ''p'') [1] (2 ^ 18) 8 1 32 = Inr demo_kept"
    "wl_ctr demo_wallet_lib (take 16 demo_kept) [2] [5] = Inr [5]" by (simp_all add: demo_wallet_lib_def demo_kept_def)
  have "LoadWalletFromFile demo_wallet_lib (\<lambda>_. Inr ?ks) (Inr []) ''p'' = Inl (Error ''invalid password'')"
    using genesis_keystore_rejected [OF made lib, of "\<lambda>_. Inr ?ks"] other by (simp add: json_ok_def only_def)
  with made show ?thesis by blast
qed

section \<open>Identifiers\<close>

text \<open>
  The identifiers of the node are strings that the code cuts (\<open>[:8]\<close>, \<open>[:12]\<close>, \<open>[:16]\<close>) for its messages. An address is
  \<open>rnr\<close> and 40 lower-case hexadecimal digits, the ID of a transaction 64.
\<close>

definition hex_digits :: "string \<Rightarrow> bool" where
  "hex_digits s \<longleftrightarrow> (\<forall>c \<in> set s. c \<in> set ''0123456789abcdef'')"

definition wf_address :: "string \<Rightarrow> bool" where
  "wf_address a \<longleftrightarrow> length a = 3 + AddressHexLength \<and> take 3 a = ''rnr'' \<and> hex_digits (drop 3 a)"

definition wf_txid :: "string \<Rightarrow> bool" where
  "wf_txid i \<longleftrightarrow> length i = 64 \<and> hex_digits i"

lemma hex_digits_hex: "hex_digits (hex bs)"
proof -
  have "hex_digit n \<in> set ''0123456789abcdef''" if "n < 16" for n
    using nth_mem [of n "''0123456789abcdef''"] that by (simp only: hex_digit_def) simp
  moreover have "\<exists>n < 16. c = hex_digit n" if "c \<in> set (hex_byte b)" for b c
  proof -
    have "unat b div 16 < 16" "unat b mod 16 < 16" using unat_lt_byte [of b] by simp_all
    moreover have "c = hex_digit (unat b div 16) \<or> c = hex_digit (unat b mod 16)" using that by (simp add: hex_byte_def)
    ultimately show ?thesis by blast
  qed
  ultimately have "\<forall>b. \<forall>c \<in> set (hex_byte b). c \<in> set ''0123456789abcdef''" by blast
  then show ?thesis unfolding hex_digits_def hex_def set_concat set_map by blast
qed

lemma hex_digits_take: "hex_digits s \<Longrightarrow> hex_digits (take n s)"
  unfolding hex_digits_def by (meson in_set_takeD)

lemma wf_generated:
  assumes "GenerateAddress pub = Inr a"
  shows "wf_address a"
proof -
  obtain bs where "a = ''rnr'' @ take AddressHexLength (hex (sha256 bs))"
    using assms by (auto simp: GenerateAddress_def split: sum.splits)
  moreover have "length (take AddressHexLength (hex (sha256 bs))) = AddressHexLength" by (simp add: length_hex AddressHexLength_def)
  moreover have "hex_digits (take AddressHexLength (hex (sha256 bs)))" by (intro hex_digits_take hex_digits_hex)
  ultimately show ?thesis by (simp add: wf_address_def)
qed

lemma wf_long: "wf_address a \<Longrightarrow> length a = 43"
  by (simp add: wf_address_def AddressHexLength_def)

lemma new_tx_id:
  "case enc ((NewTransaction enc now sender to amount fee nonce)\<lparr>tx_ID := []\<rparr>) of
     Inr _ \<Rightarrow> wf_txid (tx_ID (NewTransaction enc now sender to amount fee nonce))
   | Inl _ \<Rightarrow> tx_ID (NewTransaction enc now sender to amount fee nonce) = []"
proof -
  let ?tx = "\<lparr>tx_ID = [], tx_From = sender, tx_To = to, tx_Amount = amount, tx_Timestamp = now, tx_Nonce = nonce, tx_Fee = fee,
            tx_Signature = [], tx_Data = []\<rparr>"
  have tx: "NewTransaction enc now sender to amount fee nonce = ?tx\<lparr>tx_ID := hex (case Transaction_Hash enc ?tx of Inl _ \<Rightarrow> [] | Inr h \<Rightarrow> h)\<rparr>"
    by (simp add: NewTransaction_def)
  show ?thesis
  proof (cases "enc ?tx")
    case (Inl e)
    then show ?thesis by (simp add: tx Transaction_Hash_def) (simp add: hex_def)
  next
    case (Inr bs)
    then show ?thesis by (simp add: tx Transaction_Hash_def wf_txid_def length_hex hex_digits_hex)
  qed
qed

text \<open>
  C14: The identifiers have their types: a wallet made from a mnemonic carries the well-formed address of its own key, decrypting
  the key of a wallet keeps the address, and a new transaction has it as its sender; no cut of it can panic. The ID of a
  new transaction is well-formed, and none of its cuts panics, exactly when JSON encodes the transaction: \<open>NewTransaction\<close>
  drops the error of the hash, so a transaction that has no encoding (a time past the year 9999) gets the empty ID, and every
  cut of it panics.
\<close>

theorem identifier_types:
  assumes w: "NewWalletFromMnemonic wl mnemonic = Inr w" and d: "Wallet_Decrypt wl data password w = Inr w'"
  shows "GenerateAddress (wa_PublicKey w) = Inr (wa_Address w) \<and> wf_address (wa_Address w) \<and> wf_address (wa_Address w') \<and>
    (\<forall>now to amount fee nonce. let tx = NewTransaction enc now (wa_Address w) to amount fee nonce in
       wf_address (tx_From tx) \<and> (\<forall>n \<in> {8, 12, 16}. slice_to n (tx_From tx) = Inr (take n (tx_From tx))) \<and>
       (case enc (tx\<lparr>tx_ID := []\<rparr>) of
          Inr _ \<Rightarrow> wf_txid (tx_ID tx) \<and> (\<forall>n \<in> {8, 12, 16}. slice_to n (tx_ID tx) = Inr (take n (tx_ID tx)))
        | Inl _ \<Rightarrow> tx_ID tx = [] \<and> (\<forall>n \<in> {8, 12, 16}. is_panic (slice_to n (tx_ID tx)))))"
proof -
  have a: "GenerateAddress (wa_PublicKey w) = Inr (wa_Address w)"
    using w by (auto simp: NewWalletFromMnemonic_def Let_def split: sum.splits fail.splits if_splits)
  have d': "wa_Address w' = wa_Address w" using d by (auto simp: Wallet_Decrypt_def Let_def split: sum.splits if_splits)
  note wf = wf_generated [OF a]
  have "let tx = NewTransaction enc now (wa_Address w) to amount fee nonce in
       wf_address (tx_From tx) \<and> (\<forall>n \<in> {8, 12, 16}. slice_to n (tx_From tx) = Inr (take n (tx_From tx))) \<and>
       (case enc (tx\<lparr>tx_ID := []\<rparr>) of
          Inr _ \<Rightarrow> wf_txid (tx_ID tx) \<and> (\<forall>n \<in> {8, 12, 16}. slice_to n (tx_ID tx) = Inr (take n (tx_ID tx)))
        | Inl _ \<Rightarrow> tx_ID tx = [] \<and> (\<forall>n \<in> {8, 12, 16}. is_panic (slice_to n (tx_ID tx))))" for now to amount fee nonce
  proof -
    let ?tx = "NewTransaction enc now (wa_Address w) to amount fee nonce"
    have "case enc (?tx\<lparr>tx_ID := []\<rparr>) of Inr _ \<Rightarrow> wf_txid (tx_ID ?tx) | Inl _ \<Rightarrow> tx_ID ?tx = []"
      by (simp add: new_tx_id)
    moreover have "tx_From ?tx = wa_Address w" by (simp add: NewTransaction_def Let_def)
    ultimately show ?thesis using wf_long [OF wf] wf
      by (cases "enc (?tx\<lparr>tx_ID := []\<rparr>)") (simp_all add: Let_def slice_to_def wf_txid_def)
  qed
  then show ?thesis using a wf d' by simp
qed

theorem identifier_types_witness:
  "\<exists>w. NewWalletFromMnemonic (demo_wallet_lib\<lparr>wl_child := \<lambda>_. Inr [0], wl_valid := \<lambda>_. True\<rparr>) ''m'' = Inr w \<and>
     slice_to 16 (tx_From (NewTransaction (\<lambda>_. Inr []) 0 (wa_Address w) ''b'' 1 0 1)) = Inr (take 16 (wa_Address w)) \<and>
     wf_txid (tx_ID (NewTransaction (\<lambda>_. Inr []) 0 (wa_Address w) ''b'' 1 0 1)) \<and>
     is_panic (slice_to 16 (tx_ID (NewTransaction (\<lambda>_. Inl (Error ''json'')) 0 (wa_Address w) ''b'' 1 0 1)))"
proof -
  let ?wl = "demo_wallet_lib\<lparr>wl_child := \<lambda>_. Inr [0], wl_valid := \<lambda>_. True\<rparr>"
  obtain w where w: "NewWalletFromMnemonic ?wl ''m'' = Inr w"
    by (simp add: NewWalletFromMnemonic_def demo_wallet_lib_def GenerateAddress_def elliptic_Marshal_def EncodePublicKey_def be_val_def
        pad32_def be_bytes.simps Let_def)
  have "\<exists>w'. Wallet_Decrypt ?wl (replicate 44 0) ''p'' w = Inr w'"
    by (simp add: Wallet_Decrypt_def demo_wallet_lib_def nonce_size_def)
  then obtain w' where d: "Wallet_Decrypt ?wl (replicate 44 0) ''p'' w = Inr w'" by blast
  note types = identifier_types [OF w d, unfolded Let_def, THEN conjunct2, THEN conjunct2, THEN conjunct2, rule_format]
  have "tx_From (NewTransaction (\<lambda>_. Inr []) 0 (wa_Address w) ''b'' 1 0 1) = wa_Address w" by (simp add: NewTransaction_def Let_def)
  then show ?thesis using w types [of "\<lambda>_. Inr []" 0 "''b''" 1 0 1] types [of "\<lambda>_. Inl (Error ''json'')" 0 "''b''" 1 0 1]
    by (intro exI [of _ w]) (simp add: slice_to_def)
qed

end
