(* ===== verification/API_Server.thy ===== *)
theory API_Server
  imports Wallet Chain Tx_Pool Block_Economy
begin

text \<open>
  The REST interface of a node (\<open>pkg/api/server.go\<close>): the handlers as functions from a request and the state they
  read to a response. Only \<open>handleSubmitTx\<close> changes state, the pool.

  A response is its status and its value before the JSON encoding. A panic of a handler ends its request only, as
  \<open>net/http\<close> recovers it. The clock readings that go into a response are arguments. \<open>ecdsa.Verify\<close> is the
  \<open>te_verify\<close> of the block validation.
\<close>

section \<open>Requests and responses\<close>

record http_request =
  rq_method :: string
  rq_path :: string
  rq_limit :: string
  rq_body :: "bytes res"

record BalanceResponse =
  br_Address :: string
  br_Balance :: string
  br_Nonce :: u64
  br_LastUpdated :: gotime

record TransactionResponse =
  tr_ID :: string
  tr_From :: string
  tr_To :: string
  tr_Amount :: string
  tr_Fee :: string
  tr_Nonce :: u64
  tr_Timestamp :: gotime
  tr_BlockHash :: string
  tr_Status :: string

record BlockResponse =
  bk_Height :: u64
  bk_Hash :: string
  bk_PrevHash :: string
  bk_MerkleRoot :: string
  bk_Timestamp :: gotime
  bk_Proposer :: string
  bk_Transactions :: "TransactionResponse list"
  bk_TxCount :: int

record BlockchainInfoResponse =
  bi_ChainID :: string
  bi_NetworkName :: string
  bi_LatestHeight :: u64
  bi_LatestBlockHash :: string
  bi_TotalTx :: u64
  bi_ActiveValidators :: int
  bi_MempoolSize :: int
  bi_Timestamp :: gotime

record MempoolResponse =
  mr_PendingTx :: int
  mr_TotalSize :: int
  mr_Transactions :: "TransactionResponse list"

record SubmitTxRequest =
  sq_From :: string
  sq_To :: string
  sq_Amount :: string
  sq_Fee :: string
  sq_Nonce :: u64
  sq_Timestamp :: int
  sq_Signature :: string
  sq_PublicKey :: string

record SubmitTxResponse =
  sp_Success :: bool
  sp_TxHash :: string
  sp_Error :: string
  sp_Message :: string

record ErrorResponse =
  er_Error :: string
  er_Code :: int
  er_Message :: string

datatype api_body = BalanceBody BalanceResponse | TransactionsBody "TransactionResponse list" | TransactionBody TransactionResponse
  | BlockBody BlockResponse | InfoBody BlockchainInfoResponse | MempoolBody MempoolResponse | SubmitBody SubmitTxResponse
  | ErrorBody ErrorResponse

record http_response =
  hp_status :: int
  hp_body :: api_body

definition writeJSON :: "api_body \<Rightarrow> int \<Rightarrow> http_response" where
  "writeJSON data status = \<lparr>hp_status = status, hp_body = data\<rparr>"

definition StatusText :: "int \<Rightarrow> string" where
  "StatusText code = (if code = 400 then ''Bad Request'' else if code = 403 then ''Forbidden'' else if code = 404 then ''Not Found''
     else if code = 405 then ''Method Not Allowed'' else if code = 500 then ''Internal Server Error'' else [])"

definition writeError :: "string \<Rightarrow> int \<Rightarrow> http_response" where
  "writeError message code = writeJSON (ErrorBody \<lparr>er_Error = StatusText code, er_Code = code, er_Message = message\<rparr>) code"

section \<open>Parsing\<close>

definition TrimPrefix :: "string \<Rightarrow> string \<Rightarrow> string" where
  "TrimPrefix s pre = (if take (length pre) s = pre then drop (length pre) s else s)"

definition HasPrefix :: "string \<Rightarrow> string \<Rightarrow> bool" where
  "HasPrefix s pre \<longleftrightarrow> take (length pre) s = pre"

text \<open>An optional sign and decimal digits: \<open>big.Int.SetString(s, 10)\<close>, and \<open>strconv.Atoi\<close> in the range of 64 bits.\<close>

definition parse_int :: "string \<Rightarrow> int option" where
  "parse_int s =
     (let (neg, ds) = (case s of CHR ''-'' # t \<Rightarrow> (True, t) | CHR ''+'' # t \<Rightarrow> (False, t) | _ \<Rightarrow> (False, s))
      in if ds \<noteq> [] \<and> list_all is_digit ds then Some (if neg then - int (dec_value ds) else int (dec_value ds)) else None)"

definition Atoi :: "string \<Rightarrow> int option" where
  "Atoi s = (case parse_int s of None \<Rightarrow> None | Some n \<Rightarrow> if - (2 ^ 63) \<le> n \<and> n < 2 ^ 63 then Some n else None)"

text \<open>\<open>d.Abs()\<close> of package \<open>time\<close>.\<close>

definition duration_abs :: "duration \<Rightarrow> duration" where
  "duration_abs d = (if 0 \<le> d then d else if d = min_duration then max_duration else - d)"

section \<open>Queries\<close>

definition handleBalance :: "'st state_ops \<Rightarrow> 'st \<Rightarrow> gotime \<Rightarrow> http_request \<Rightarrow> http_response res" where
  "handleBalance so st now r =
     (if rq_method r \<noteq> ''GET'' then Inr (writeError ''Method not allowed'' 405)
      else let address = TrimPrefix (rq_path r) ''/api/balance/'' in
        if address = [] then Inr (writeError ''Address required'' 400)
        else if \<not> HasPrefix address ''rnr'' \<or> length address < 10 then Inr (writeError ''Invalid RNR address format'' 400)
        else (case so_account so st address of
           Inl (Panic e) \<Rightarrow> Inl (Panic e)
         | Inl (Error _) \<Rightarrow> Inr (writeError ''Failed to get account'' 500)
         | Inr None \<Rightarrow> Inl nil_pointer
         | Inr (Some account) \<Rightarrow>
             Inr (writeJSON (BalanceBody \<lparr>br_Address = address, br_Balance = dec_int (a_Balance account), br_Nonce = a_Nonce account,
               br_LastUpdated = now\<rparr>) 200)))"

definition tx_response :: "string \<Rightarrow> string \<Rightarrow> Transaction \<Rightarrow> TransactionResponse" where
  "tx_response blockHash status tx = \<lparr>tr_ID = tx_ID tx, tr_From = tx_From tx, tr_To = tx_To tx, tr_Amount = dec_int (tx_Amount tx),
     tr_Fee = dec_int (tx_Fee tx), tr_Nonce = tx_Nonce tx, tr_Timestamp = tx_Timestamp tx, tr_BlockHash = blockHash, tr_Status = status\<rparr>"

definition handleTransactions :: "'db chain_env \<Rightarrow> 'db Blockchain \<Rightarrow> Mempool \<Rightarrow> http_request \<Rightarrow> http_response" where
  "handleTransactions env bc mp r =
     (if rq_method r \<noteq> ''GET'' then writeError ''Method not allowed'' 405
      else let address = TrimPrefix (rq_path r) ''/api/transactions/'' in
        if address = [] then writeError ''Address required'' 400
        else let limit = (if rq_limit r = [] then 50
               else case Atoi (rq_limit r) of Some l \<Rightarrow> if l > 0 \<and> l \<le> 1000 then l else 50 | None \<Rightarrow> 50);
             txs = GetTransactionHistory env bc address limit
          in writeJSON (TransactionsBody (map (\<lambda>tx. tx_response []
               (if GetTransaction mp (tx_ID tx) \<noteq> None then ''pending'' else ''confirmed'') tx) txs)) 200)"

definition handleTxStatus :: "'db chain_env \<Rightarrow> 'db Blockchain \<Rightarrow> Mempool \<Rightarrow> http_request \<Rightarrow> http_response" where
  "handleTxStatus env bc mp r =
     (if rq_method r \<noteq> ''GET'' then writeError ''Method not allowed'' 405
      else let txHash = TrimPrefix (rq_path r) ''/api/tx/'' in
        if txHash = [] then writeError ''Transaction hash required'' 400
        else case GetTransaction mp txHash of
          Some tx \<Rightarrow> writeJSON (TransactionBody (tx_response [] ''pending'' tx)) 200
        | None \<Rightarrow>
            (case GetTransactionByID env bc txHash of
               None \<Rightarrow> writeError ''Transaction not found'' 404
             | Some tx \<Rightarrow> writeJSON (TransactionBody (tx_response [] ''confirmed'' tx)) 200))"

definition hash_or_nil :: "Block encoder \<Rightarrow> Block \<Rightarrow> bytes" where
  "hash_or_nil enc block = (case Block_Hash enc block of Inl _ \<Rightarrow> [] | Inr h \<Rightarrow> h)"

definition respondBlock :: "'db chain_env \<Rightarrow> Block \<Rightarrow> http_response" where
  "respondBlock env block =
     (let blockHash = hex (hash_or_nil (ce_enc env) block) in
      writeJSON (BlockBody \<lparr>bk_Height = height_of block, bk_Hash = blockHash, bk_PrevHash = hex (prev_of block),
        bk_MerkleRoot = hex (h_MerkleRoot (b_Header block)), bk_Timestamp = h_Timestamp (b_Header block), bk_Proposer = b_ProposerID block,
        bk_Transactions = map (tx_response blockHash ''confirmed'') (b_Transactions block), bk_TxCount = int (length (b_Transactions block))\<rparr>) 200)"

definition handleBlock :: "'db chain_env \<Rightarrow> 'db Blockchain \<Rightarrow> http_request \<Rightarrow> http_response" where
  "handleBlock env bc r =
     (if rq_method r \<noteq> ''GET'' then writeError ''Method not allowed'' 405
      else let heightStr = TrimPrefix (rq_path r) ''/api/blocks/'' in
        if heightStr = [] \<or> heightStr = ''latest'' then respondBlock env (GetLatestBlock bc)
        else case parse_u64 heightStr of
          None \<Rightarrow> writeError ''Invalid block height'' 400
        | Some height \<Rightarrow>
            (case GetBlockByHeight env bc height of
               Inl _ \<Rightarrow> writeError ''Block not found'' 404
             | Inr block \<Rightarrow> respondBlock env block))"

text \<open>\<open>None\<close> when the count of the transactions does not return.\<close>

definition handleBlockchainInfo ::
  "'db chain_env \<Rightarrow> 'db Blockchain \<Rightarrow> 'st state_ops \<Rightarrow> 'st \<Rightarrow> Mempool \<Rightarrow> gotime \<Rightarrow> http_request \<Rightarrow> http_response res option" where
  "handleBlockchainInfo env bc so st mp now r =
     (if rq_method r \<noteq> ''GET'' then Some (Inr (writeError ''Method not allowed'' 405))
      else case GetTransactions mp 1000 of
        Inl e \<Rightarrow> Some (Inl e)
      | Inr mempoolTxs \<Rightarrow>
          (case GetTotalTransactionCount env bc of
             None \<Rightarrow> None
           | Some totalTx \<Rightarrow>
               Some (Inr (writeJSON (InfoBody \<lparr>bi_ChainID = ''rnr-mainnet-1'', bi_NetworkName = ''RNR Mainnet'',
                 bi_LatestHeight = height_of (GetLatestBlock bc), bi_LatestBlockHash = hex (hash_or_nil (ce_enc env) (GetLatestBlock bc)),
                 bi_TotalTx = totalTx, bi_ActiveValidators = int (length (so_active so st)), bi_MempoolSize = int (length mempoolTxs),
                 bi_Timestamp = now\<rparr>) 200))))"

definition handleMempool :: "Mempool \<Rightarrow> http_request \<Rightarrow> http_response res" where
  "handleMempool mp r =
     (if rq_method r \<noteq> ''GET'' then Inr (writeError ''Method not allowed'' 405)
      else case GetTransactions mp 100 of
        Inl e \<Rightarrow> Inl e
      | Inr txs \<Rightarrow> Inr (writeJSON (MempoolBody \<lparr>mr_PendingTx = int (length txs), mr_TotalSize = 250 * int (length txs),
          mr_Transactions = map (tx_response [] ''pending'') txs\<rparr>) 200))"

section \<open>Submissions\<close>

record submit_env =
  se_tx :: tx_env
  se_dec :: "SubmitTxRequest decoder"

text \<open>The transaction of a request, without its ID.\<close>

definition request_tx :: "SubmitTxRequest \<Rightarrow> bytes \<Rightarrow> int \<Rightarrow> int \<Rightarrow> Transaction" where
  "request_tx req sigBytes amount fee = \<lparr>tx_ID = [], tx_From = sq_From req, tx_To = sq_To req, tx_Amount = amount,
     tx_Timestamp = sq_Timestamp req * second, tx_Nonce = sq_Nonce req, tx_Fee = fee, tx_Signature = sigBytes, tx_Data = []\<rparr>"

definition submit_signed :: "submit_env \<Rightarrow> SubmitTxRequest \<Rightarrow> PublicKey \<Rightarrow> bytes \<Rightarrow> int \<Rightarrow> int \<Rightarrow> Mempool \<Rightarrow> Mempool \<times> http_response res" where
  "submit_signed env req publicKey sigBytes amount fee mp =
     (let tx = request_tx req sigBytes amount fee in
      case Transaction_Hash (te_enc (se_tx env)) tx of
        Inl (Panic e) \<Rightarrow> (mp, Inl (Panic e))
      | Inl (Error _) \<Rightarrow> (mp, Inr (writeError ''Failed to calculate transaction hash'' 500))
      | Inr txHash \<Rightarrow>
          if \<not> te_verify (se_tx env) publicKey txHash (be_val (take 32 sigBytes)) (be_val (drop 32 sigBytes)) then
            (mp, Inr (writeError ''Invalid signature - signature verification failed'' 403))
          else (AddTransaction (tx\<lparr>tx_ID := hex txHash\<rparr>) mp,
            Inr (writeJSON (SubmitBody \<lparr>sp_Success = True, sp_TxHash = hex txHash, sp_Error = [],
              sp_Message = ''Transaction submitted successfully''\<rparr>) 200)))"

definition handleSubmitTx :: "submit_env \<Rightarrow> gotime \<Rightarrow> http_request \<Rightarrow> Mempool \<Rightarrow> Mempool \<times> http_response res" where
  "handleSubmitTx env now r mp =
     (let bad = (\<lambda>msg. (mp, Inr (writeError msg 400))) in
      if rq_method r \<noteq> ''POST'' then (mp, Inr (writeError ''Method not allowed'' 405))
      else case rq_body r of Inl _ \<Rightarrow> bad ''Failed to read request body'' | Inr body \<Rightarrow>
      (case se_dec env body of Inl _ \<Rightarrow> bad ''Invalid JSON format'' | Inr req \<Rightarrow>
      if sq_From req = [] \<or> sq_To req = [] \<or> sq_Amount req = [] \<or> sq_Signature req = [] \<or> sq_PublicKey req = [] then
        bad ''Missing required fields (from, to, amount, signature, public_key)''
      else case unhex (sq_PublicKey req) of Inl _ \<Rightarrow> bad ''Invalid public key format (must be hex)'' | Inr pubKeyBytes \<Rightarrow>
      if length pubKeyBytes \<noteq> 64 then bad ''Invalid public key length (must be 64 bytes)''
      else let publicKey = (be_val (take 32 pubKeyBytes), be_val (drop 32 pubKeyBytes)) in
      case GenerateAddress publicKey of
        Inl (Panic e) \<Rightarrow> (mp, Inl (Panic e))
      | Inl (Error _) \<Rightarrow> (mp, Inr (writeError ''Failed to derive address from public key'' 500))
      | Inr derivedAddress \<Rightarrow>
      if derivedAddress \<noteq> sq_From req then (mp, Inr (writeError ''Address does not match public key'' 403))
      else if duration_abs (time_sub now (sq_Timestamp req * second)) > 5 * minute then
        bad ''Timestamp too far from server time (must be within 5 minutes)''
      else case unhex (sq_Signature req) of Inl _ \<Rightarrow> bad ''Invalid signature format (must be hex)'' | Inr sigBytes \<Rightarrow>
      if length sigBytes \<noteq> 64 then bad ''Invalid signature length (must be 64 bytes: 32r+32s)''
      else case parse_int (sq_Amount req) of None \<Rightarrow> bad ''Invalid amount format'' | Some amount \<Rightarrow>
      if sq_Fee req = [] then submit_signed env req publicKey sigBytes amount 1000000000000000 mp
      else (case parse_int (sq_Fee req) of
          None \<Rightarrow> bad ''Invalid fee format''
        | Some fee \<Rightarrow> submit_signed env req publicKey sigBytes amount fee mp)))"


section \<open>What becomes of a submission\<close>

lemma writeError_status [simp]: "hp_status (writeError msg code) = code" "hp_status (writeJSON b code) = code"
  by (simp_all add: writeError_def writeJSON_def)

definition accepted :: "submit_env \<Rightarrow> SubmitTxRequest \<Rightarrow> PublicKey \<Rightarrow> Transaction \<Rightarrow> bool" where
  "accepted env req publicKey tx \<longleftrightarrow>
     GenerateAddress publicKey = Inr (tx_From tx) \<and> length (tx_Signature tx) = 64 \<and>
     tx_From tx = sq_From req \<and> tx_To tx = sq_To req \<and> parse_int (sq_Amount req) = Some (tx_Amount tx) \<and> tx_Nonce tx = sq_Nonce req \<and>
     (case Transaction_Hash (te_enc (se_tx env)) (tx\<lparr>tx_ID := []\<rparr>) of
        Inl _ \<Rightarrow> False
      | Inr h \<Rightarrow> tx_ID tx = hex h \<and> te_verify (se_tx env) publicKey h (be_val (take 32 (tx_Signature tx))) (be_val (drop 32 (tx_Signature tx))))"

lemma submit_signed_success:
  assumes "submit_signed env req pk sig amount fee mp = (mp', Inr resp)" "hp_status resp = 200" "length sig = 64"
    "GenerateAddress pk = Inr (sq_From req)" "parse_int (sq_Amount req) = Some amount"
  shows "\<exists>tx. accepted env req pk tx \<and> mp' = AddTransaction tx mp"
proof (cases "Transaction_Hash (te_enc (se_tx env)) (request_tx req sig amount fee)")
  case (Inr h)
  have "request_tx req sig amount fee\<lparr>tx_ID := hex h, tx_ID := []\<rparr> = request_tx req sig amount fee" by (simp add: request_tx_def)
  with assms Inr show ?thesis
    by (intro exI [of _ "request_tx req sig amount fee\<lparr>tx_ID := hex h\<rparr>"])
      (auto simp: submit_signed_def accepted_def request_tx_def Let_def split: if_splits)
qed (use assms in \<open>auto simp: submit_signed_def Let_def split: fail.splits\<close>)

lemma submit_success:
  assumes "handleSubmitTx env now r mp = (mp', Inr resp)" "hp_status resp = 200"
  shows "\<exists>req pk tx. accepted env req pk tx \<and> mp' = AddTransaction tx mp"
proof -
  have no: "\<not> hp_status (writeError msg code) = 200" if "code \<noteq> 200" for msg code using that by simp
  from assms obtain body req where req: "rq_body r = Inr body" "se_dec env body = Inr req"
    by (auto simp: handleSubmitTx_def Let_def split: if_splits sum.splits)
  from assms obtain pkb where pkb: "unhex (sq_PublicKey req) = Inr pkb" "length pkb = 64"
    by (auto simp: handleSubmitTx_def Let_def req split: if_splits sum.splits)
  let ?pk = "(be_val (take 32 pkb), be_val (drop 32 pkb))"
  from assms have addr: "GenerateAddress ?pk = Inr (sq_From req)"
    by (auto simp: handleSubmitTx_def Let_def req pkb split: if_splits sum.splits fail.splits)
  from assms obtain sig where sig: "unhex (sq_Signature req) = Inr sig" "length sig = 64"
    by (auto simp: handleSubmitTx_def Let_def req pkb addr split: if_splits sum.splits fail.splits)
  from assms obtain amount where amount: "parse_int (sq_Amount req) = Some amount"
    by (auto simp: handleSubmitTx_def Let_def req pkb addr sig split: if_splits option.splits)
  from assms obtain fee where "submit_signed env req ?pk sig amount fee mp = (mp', Inr resp)"
    by (auto simp: handleSubmitTx_def Let_def req pkb addr sig amount split: if_splits option.splits)
  from submit_signed_success [OF this assms(2) sig(2) addr amount] show ?thesis by blast
qed

lemma selected_valid: "select_valid valid txs = Inr res \<Longrightarrow> tx \<in> set res \<Longrightarrow> valid tx = Inr True"
  by (induction txs arbitrary: res) (auto split: sum.splits bool.splits if_splits)

text \<open>
  C10: A submission the server answers with success reaches the pool with a signature over the transaction
  without its ID. The block producer takes it only if its sender is a registered validator whose registered key verifies
  the same signature over the transaction with its ID. That is another text, provided JSON decodes the two texts back
  to the two transactions. So a transaction of an account that is no validator is accepted by the server and never
  taken into a block.
\<close>

theorem submitted_transaction_selected:
  assumes "handleSubmitTx env now r mp = (mp', Inr resp)" "hp_status resp = 200"
  shows "\<exists>req pk tx. accepted env req pk tx \<and> mp' = AddTransaction tx mp \<and>
    (\<forall>txs res. selectAndValidateTransactions (se_tx env) so order st txs = Inr res \<and> tx \<in> set res \<longrightarrow>
      (\<exists>info key h x x0. so_validator so st (tx_From tx) = Inr info \<and>
        DecodeECDSAPublicKey (te_modsqrt (se_tx env)) (v_PublicKey info) = Inr key \<and>
        te_enc (se_tx env) (tx\<lparr>tx_Signature := []\<rparr>) = Inr x \<and> h = sha256 x \<and>
        te_enc (se_tx env) (tx\<lparr>tx_ID := [], tx_Signature := []\<rparr>) = Inr x0 \<and> tx_ID tx = hex (sha256 x0) \<and>
        (json_ok (te_enc (se_tx env)) dec (tx\<lparr>tx_Signature := []\<rparr>) \<and>
          json_ok (te_enc (se_tx env)) dec (tx\<lparr>tx_ID := [], tx_Signature := []\<rparr>) \<longrightarrow> x \<noteq> x0) \<and>
        te_verify (se_tx env) key h (be_val (take 32 (tx_Signature tx))) (be_val (drop 32 (tx_Signature tx))) \<and>
        te_verify (se_tx env) pk (sha256 x0) (be_val (take 32 (tx_Signature tx))) (be_val (drop 32 (tx_Signature tx)))))"
proof -
  obtain req pk tx where a: "accepted env req pk tx" "mp' = AddTransaction tx mp" using submit_success [OF assms] by blast
  let ?sr = "be_val (take 32 (tx_Signature tx))" and ?ss = "be_val (drop 32 (tx_Signature tx))"
  let ?signed = "tx\<lparr>tx_ID := [], tx_Signature := []\<rparr>" and ?checked = "tx\<lparr>tx_Signature := []\<rparr>"
  have "\<exists>info key h x x0. so_validator so st (tx_From tx) = Inr info \<and>
        DecodeECDSAPublicKey (te_modsqrt (se_tx env)) (v_PublicKey info) = Inr key \<and>
        te_enc (se_tx env) ?checked = Inr x \<and> h = sha256 x \<and> te_enc (se_tx env) ?signed = Inr x0 \<and> tx_ID tx = hex (sha256 x0) \<and>
        (json_ok (te_enc (se_tx env)) dec ?checked \<and> json_ok (te_enc (se_tx env)) dec ?signed \<longrightarrow> x \<noteq> x0) \<and>
        te_verify (se_tx env) key h ?sr ?ss \<and> te_verify (se_tx env) pk (sha256 x0) ?sr ?ss"
    if "selectAndValidateTransactions (se_tx env) so order st txs = Inr res" "tx \<in> set res" for txs res
  proof -
    have valid: "validateTransaction (se_tx env) so st tx = Inr True"
      using selected_valid that by (fastforce simp: selectAndValidateTransactions_def)
    have len: "length (tx_Signature tx) = 64" using a(1) by (simp add: accepted_def)
    then have "tx_Signature tx \<noteq> []" by auto
    then have sv: "signature_valid (se_tx env) so st tx"
      using valid by (auto simp: validateTransaction_def split: sum.splits option.splits fail.splits if_splits)
    obtain x where x: "te_enc (se_tx env) ?checked = Inr x"
      using sv by (auto simp: signature_valid_def Transaction_Hash_def split: sum.splits)
    then obtain info key where k: "so_validator so st (tx_From tx) = Inr info"
      "DecodeECDSAPublicKey (te_modsqrt (se_tx env)) (v_PublicKey info) = Inr key" "te_verify (se_tx env) key (sha256 x) ?sr ?ss"
      using sv len by (auto simp: signature_valid_def Transaction_Hash_def Let_def split: sum.splits)
    obtain x0 where x0: "te_enc (se_tx env) ?signed = Inr x0" "tx_ID tx = hex (sha256 x0)" "te_verify (se_tx env) pk (sha256 x0) ?sr ?ss"
      using a(1) by (auto simp: accepted_def Transaction_Hash_def split: sum.splits)
    have "x \<noteq> x0" if ok: "json_ok (te_enc (se_tx env)) dec ?checked" "json_ok (te_enc (se_tx env)) dec ?signed"
    proof
      assume "x = x0"
      with json_okD [OF ok(1) x] json_okD [OF ok(2) x0(1)] have "?checked = ?signed" by simp
      then have "tx_ID tx = []" by (cases tx) simp
      then have "length (hex (sha256 x0)) = 0" using x0(2) by simp
      then show False by (simp add: length_hex)
    qed
    with x x0 k show ?thesis by blast
  qed
  with a show ?thesis by blast
qed


definition demo_address :: string where
  "demo_address = ''rnr'' @ take 40 (hex (sha256 (4 # replicate 64 0)))"

definition demo_submission :: SubmitTxRequest where
  "demo_submission = \<lparr>sq_From = demo_address, sq_To = ''rnr-receiver'', sq_Amount = ''25'', sq_Fee = ''1'', sq_Nonce = 0,
     sq_Timestamp = 0, sq_Signature = hex (replicate 64 1), sq_PublicKey = hex (replicate 64 0)\<rparr>"

definition demo_unsigned :: Transaction where
  "demo_unsigned = (request_tx demo_submission [] 25 1)"

text \<open>The transaction with its ID and without its signature; a codec for the two texts; signatures over these two only.\<close>

definition demo_identified :: Transaction where
  "demo_identified = demo_unsigned\<lparr>tx_ID := hex (sha256 [7])\<rparr>"

definition demo_submit_env :: submit_env where
  "demo_submit_env = \<lparr>se_tx = \<lparr>te_enc = (\<lambda>t. if t = demo_unsigned then Inr [7] else if t = demo_identified then Inr [8] else Inl (Error ''json'')),
       te_verify = (\<lambda>_ h _ _. h = sha256 [7] \<or> h = sha256 [8]), te_modsqrt = (\<lambda>_ _. 0)\<rparr>, se_dec = (\<lambda>_. Inr demo_submission)\<rparr>"

definition demo_dec :: "Transaction decoder" where
  "demo_dec bs = (if bs = [7] then Inr demo_unsigned else if bs = [8] then Inr demo_identified else Inl (Error ''json''))"

definition demo_sent :: Transaction where
  "demo_sent = request_tx demo_submission (replicate 64 1) 25 1\<lparr>tx_ID := hex (sha256 [7])\<rparr>"

text \<open>A state where the sender is a validator under the key of the submission, and one without validators.\<close>

definition demo_sender :: "ValidatorInfo list \<Rightarrow> mem_state" where
  "demo_sender vs = \<lparr>mst_validators = map (\<lambda>v. (v_ID v, v)) vs,
     mst_accounts = [(demo_address, \<lparr>a_Address = demo_address, a_Balance = 100, a_Nonce = 0, a_CodeHash = []\<rparr>)]\<rparr>"

definition demo_registered :: ValidatorInfo where
  "demo_registered = demo_info\<lparr>v_ID := demo_address\<rparr>"

definition demo_post :: http_request where
  "demo_post = \<lparr>rq_method = ''POST'', rq_path = ''/api/submit'', rq_limit = [], rq_body = Inr []\<rparr>"

lemma demo_generate: "GenerateAddress (0, 0) = Inr demo_address"
  by (simp add: GenerateAddress_def elliptic_Marshal_def EncodePublicKey_def pad32_def be_bytes.simps demo_address_def AddressHexLength_def
      replicate_add [symmetric])

lemma demo_submitted:
  "\<exists>resp. handleSubmitTx demo_submit_env 0 demo_post NewMempool = (AddTransaction demo_sent NewMempool, Inr resp) \<and> hp_status resp = 200"
proof -
  have n: "hex (replicate 64 1) \<noteq> []" "hex (replicate 64 0) \<noteq> []" using length_hex [of "replicate 64 1"] length_hex [of "replicate 64 0"] by auto
  have p: "parse_int ''25'' = Some 25" "parse_int ''1'' = Some 1" by (simp_all add: parse_int_def is_digit_def dec_value_def digit_value_def)
  have t: "Transaction_Hash (te_enc (se_tx demo_submit_env)) (request_tx demo_submission (replicate 64 1) 25 1) = Inr (sha256 [7])"
    by (simp add: Transaction_Hash_def demo_submit_env_def demo_unsigned_def request_tx_def)
  have a: "demo_address \<noteq> []" by (simp add: demo_address_def)
  have f: "sq_From demo_submission = demo_address" "sq_To demo_submission \<noteq> []" "sq_Amount demo_submission = ''25''"
    "sq_Fee demo_submission = ''1''" "sq_Signature demo_submission = hex (replicate 64 1)" "sq_PublicKey demo_submission = hex (replicate 64 0)"
    "sq_Timestamp demo_submission = 0" by (simp_all add: demo_submission_def)
  have v: "se_dec demo_submit_env [] = Inr demo_submission" "te_verify (se_tx demo_submit_env) k (sha256 [7]) r s" for k r s
    by (simp_all add: demo_submit_env_def)
  have d: "\<not> 5 * minute < duration_abs (time_sub 0 0)"
    by (simp add: duration_abs_def time_sub_def duration_values min_duration_def max_duration_def)
  show ?thesis
    by (simp add: handleSubmitTx_def demo_post_def Let_def f v n a demo_generate p d submit_signed_def t demo_sent_def)
qed

lemma add_inj: "AddTransaction a NewMempool = AddTransaction b NewMempool \<longleftrightarrow> a = b"
  by (auto simp: AddTransaction_def NewMempool_def mhas_def)

lemma demo_sent_parts:
  "demo_sent\<lparr>tx_Signature := []\<rparr> = demo_identified" "demo_sent\<lparr>tx_ID := [], tx_Signature := []\<rparr> = demo_unsigned"
  "demo_identified \<noteq> demo_unsigned" "tx_From demo_sent = demo_address" "tx_Signature demo_sent = replicate 64 1"
proof -
  have "length (hex (sha256 [7])) = 64" by (simp add: length_hex)
  then have "hex (sha256 [7]) \<noteq> []" by (metis list.size(3) zero_neq_numeral)
  then show "demo_identified \<noteq> demo_unsigned"
    by (simp add: demo_identified_def demo_unsigned_def request_tx_def)
qed (simp_all add: demo_sent_def demo_identified_def demo_unsigned_def request_tx_def demo_submission_def)

lemma demo_codec_ok:
  "json_ok (te_enc (se_tx demo_submit_env)) demo_dec demo_identified" "json_ok (te_enc (se_tx demo_submit_env)) demo_dec demo_unsigned"
  by (simp_all add: json_ok_def demo_submit_env_def demo_dec_def demo_sent_parts(3))

lemma demo_taken:
  "selectAndValidateTransactions (se_tx demo_submit_env) mem_state_ops (\<lambda>ts. ts) (demo_sender [demo_registered]) [demo_sent] = Inr [demo_sent]"
proof -
  have key: "DecodeECDSAPublicKey m (replicate 64 0) = Inr (0, 0)" for m
    by (simp add: DecodeECDSAPublicKey_def)
  have "te_enc (se_tx demo_submit_env) demo_identified = Inr [8]" by (simp add: demo_submit_env_def demo_sent_parts(3))
  then have h: "Transaction_Hash (te_enc (se_tx demo_submit_env)) demo_sent = Inr (sha256 [8])"
    by (simp add: Transaction_Hash_def demo_sent_parts(1))
  have "signature_valid (se_tx demo_submit_env) mem_state_ops (demo_sender [demo_registered]) demo_sent"
    by (simp add: signature_valid_def h demo_sent_parts mem_state_ops_def demo_sender_def demo_registered_def demo_info_def key Let_def)
      (simp add: demo_submit_env_def)
  moreover have "tx_Nonce demo_sent = 0" "tx_Amount demo_sent = 25" "tx_Fee demo_sent = 1"
    by (simp_all add: demo_sent_def request_tx_def demo_submission_def)
  ultimately show ?thesis
    by (simp add: selectAndValidateTransactions_def validateTransaction_def demo_sent_parts mem_state_ops_def demo_sender_def)
qed

theorem submitted_transaction_selected_witness:
  "\<exists>resp. handleSubmitTx demo_submit_env 0 demo_post NewMempool = (AddTransaction demo_sent NewMempool, Inr resp) \<and> hp_status resp = 200 \<and>
     selectAndValidateTransactions (se_tx demo_submit_env) mem_state_ops (\<lambda>ts. ts) (demo_sender [demo_registered]) [demo_sent] = Inr [demo_sent] \<and>
     (\<exists>x x0. te_enc (se_tx demo_submit_env) (demo_sent\<lparr>tx_Signature := []\<rparr>) = Inr x \<and> tx_ID demo_sent = hex (sha256 x0) \<and> x \<noteq> x0 \<and>
        te_verify (se_tx demo_submit_env) (0, 0) (sha256 x) (be_val (replicate 32 1)) (be_val (replicate 32 1))) \<and>
     (\<forall>txs res. selectAndValidateTransactions (se_tx demo_submit_env) mem_state_ops (\<lambda>ts. ts) (demo_sender []) txs = Inr res \<longrightarrow>
        demo_sent \<notin> set res)"
proof -
  obtain resp where h: "handleSubmitTx demo_submit_env 0 demo_post NewMempool = (AddTransaction demo_sent NewMempool, Inr resp)"
    "hp_status resp = 200" using demo_submitted by blast
  note submitted = submitted_transaction_selected [OF h, of mem_state_ops "\<lambda>ts. ts" _ demo_dec, unfolded add_inj]
  have none: "so_validator mem_state_ops (demo_sender []) i \<noteq> Inr info" for i info
    by (simp add: mem_state_ops_def demo_sender_def)
  have never: "demo_sent \<notin> set res"
    if "selectAndValidateTransactions (se_tx demo_submit_env) mem_state_ops (\<lambda>ts. ts) (demo_sender []) txs = Inr res" for txs res
    using submitted [of "demo_sender []"] that none by blast
  have "demo_sent \<in> set [demo_sent]" by simp
  then obtain info key x x0 where "so_validator mem_state_ops (demo_sender [demo_registered]) (tx_From demo_sent) = Inr info"
    "DecodeECDSAPublicKey (te_modsqrt (se_tx demo_submit_env)) (v_PublicKey info) = Inr key"
    "te_enc (se_tx demo_submit_env) (demo_sent\<lparr>tx_Signature := []\<rparr>) = Inr x" "tx_ID demo_sent = hex (sha256 x0)" "x \<noteq> x0"
    "te_verify (se_tx demo_submit_env) key (sha256 x) (be_val (take 32 (tx_Signature demo_sent))) (be_val (drop 32 (tx_Signature demo_sent)))"
    using submitted [of "demo_sender [demo_registered]"] demo_taken demo_codec_ok demo_sent_parts(1,2) by metis
  moreover from this have "key = (0, 0)"
    by (auto simp: demo_sent_parts mem_state_ops_def demo_sender_def demo_registered_def demo_info_def DecodeECDSAPublicKey_def)
  ultimately show ?thesis using h never demo_taken by (auto simp: demo_sent_parts)
qed

end
