(* ===== verification/PoB_Test.thy ===== *)
theory PoB_Test
  imports Speed_Test Anti_DDoS Proposer Registry
begin

text \<open>
  The bandwidth test over TCP (\<open>pkg/consensus/pob_testing.go\<close>): the manager of the test sessions, the tester's side
  (\<open>ConductBandwidthTest\<close>) and the candidate's side (\<open>HandlePoBTestRequest\<close>, served by \<open>pob_server.go\<close>), and the run
  of a whole test (\<open>RunPoBTest\<close> of \<open>validator_service.go\<close>).

  What a socket operation returns is an input of either side. The last section connects the two sides: the
  server reads the bytes of the client in pieces of its choice, and every answer arrives in time.
\<close>

section \<open>Sessions\<close>

record PoBTestSession =
  pe_CandidateID :: string
  pe_Testers :: "string list"
  pe_TestData :: bytes
  pe_CommitmentHash :: string
  pe_Results :: "(string, PoBTestResult) gomap"
  pe_StartTime :: gotime

record PoBTestManager =
  pq_activeTests :: "(string, PoBTestSession) gomap"
  pq_zkSystem :: "ZKProofSystem option"
  pq_antiDRDoS :: AntiDRDoSManager

definition MaxTestCommitteeSize :: int where "MaxTestCommitteeSize = 8"

definition NewPoBTestManager :: "ZKProofSystem res \<Rightarrow> PoBTestManager" where
  "NewPoBTestManager zk = \<lparr>pq_activeTests = [], pq_zkSystem = (case zk of Inl _ \<Rightarrow> None | Inr z \<Rightarrow> Some z),
     pq_antiDRDoS = NewAntiDRDoSManager\<rparr>"

definition InitiateTest :: "gotime \<Rightarrow> gotime \<Rightarrow> bytes res \<Rightarrow> string \<Rightarrow> string list \<Rightarrow> PoBTestManager \<Rightarrow> PoBTestManager \<times> PoBTestSession res" where
  "InitiateTest now started random candidateID testers ptm =
     (if \<exists>t \<in> set testers. GetRemainingTests now t (pq_antiDRDoS ptm) = 0 then (ptm, Inl (Error ''tester exceeded rate limit''))
      else case random of
        Inl (Panic e) \<Rightarrow> (ptm, Inl (Panic e))
      | Inl (Error _) \<Rightarrow> (ptm, Inl (Error ''failed to generate cryptographic test data''))
      | Inr testData \<Rightarrow>
          let session = \<lparr>pe_CandidateID = candidateID, pe_Testers = testers, pe_TestData = testData,
                pe_CommitmentHash = hex (sha256 testData), pe_Results = [], pe_StartTime = started\<rparr>
          in (ptm\<lparr>pq_activeTests := mput candidateID session (pq_activeTests ptm)\<rparr>, Inr session))"

definition RequestBandwidthTest ::
  "challenge_clock \<Rightarrow> bytes res \<Rightarrow> string \<Rightarrow> string \<Rightarrow> f64 \<Rightarrow> PoBTestManager \<Rightarrow> PoBTestManager \<times> Challenge res" where
  "RequestBandwidthTest cc nonce candidateID testerID validatorReputation ptm =
     (if \<not> CheckReputationThreshold (pq_antiDRDoS ptm) validatorReputation then
        (ptm, Inl (Error ''tester reputation below minimum threshold''))
      else case GenerateChallenge cc nonce candidateID testerID (pq_antiDRDoS ptm) of
        (ad, Inl (Panic e)) \<Rightarrow> (ptm\<lparr>pq_antiDRDoS := ad\<rparr>, Inl (Panic e))
      | (ad, Inl (Error _)) \<Rightarrow> (ptm\<lparr>pq_antiDRDoS := ad\<rparr>, Inl (Error ''failed to generate challenge''))
      | (ad, Inr challenge) \<Rightarrow> (ptm\<lparr>pq_antiDRDoS := ad\<rparr>, Inr challenge))"

definition RespondToChallenge :: "Challenge \<Rightarrow> string" where
  "RespondToChallenge challenge = ComputeChallengeResponse (ch_CandidateID challenge) (ch_TesterID challenge) (ch_Nonce challenge)"

definition VerifyAndStartTest :: "gotime \<Rightarrow> string \<Rightarrow> string \<Rightarrow> PoBTestManager \<Rightarrow> PoBTestManager \<times> bool res" where
  "VerifyAndStartTest now challengeID responseHash ptm =
     (case VerifyChallenge now challengeID responseHash (pq_antiDRDoS ptm) of
        (ad, Inl (Panic e)) \<Rightarrow> (ptm\<lparr>pq_antiDRDoS := ad\<rparr>, Inl (Panic e))
      | (ad, Inl (Error _)) \<Rightarrow> (ptm\<lparr>pq_antiDRDoS := ad\<rparr>, Inl (Error ''challenge verification failed''))
      | (ad, Inr verified) \<Rightarrow>
          (ptm\<lparr>pq_antiDRDoS := ad\<rparr>, if verified then Inr True else Inl (Error ''invalid challenge response'')))"

section \<open>Proofs and scores\<close>

definition GenerateZKProof :: "PoBTestManager \<Rightarrow> PoBTestResult \<Rightarrow> PoBTestResult res" where
  "GenerateZKProof ptm result =
     (case pq_zkSystem ptm of
        None \<Rightarrow> Inl (Error ''ZK proof system not initialized'')
      | Some zk \<Rightarrow>
          (case zk_prove zk result (CalculatePoBScore [result]) of
             Inl (Panic e) \<Rightarrow> Inl (Panic e)
           | Inl (Error _) \<Rightarrow> Inl (Error ''failed to generate ZK proof'')
           | Inr proof \<Rightarrow> Inr (result\<lparr>pt_ZKProof := proof\<rparr>)))"

definition VerifyZKProof :: "PoBTestManager \<Rightarrow> PoBTestResult \<Rightarrow> bool res" where
  "VerifyZKProof ptm result =
     (case pq_zkSystem ptm of
        None \<Rightarrow> Inl (Error ''ZK proof system not initialized'')
      | Some zk \<Rightarrow>
          if pt_ZKProof result = [] then Inl (Error ''no ZK proof provided'')
          else zk_verify zk (pt_ZKProof result) (pt_TestDataHash result) (CalculatePoBScore [result]) (pt_Passed result))"

definition proved :: "PoBTestManager \<Rightarrow> PoBTestResult \<Rightarrow> PoBTestResult" where
  "proved ptm result =
     (case pq_zkSystem ptm of
        None \<Rightarrow> result
      | Some zk \<Rightarrow>
          if pt_ZKProof result \<noteq> [] then result
          else (case zk_prove zk result (CalculatePoBScore [result]) of Inl _ \<Rightarrow> result | Inr proof \<Rightarrow> result\<lparr>pt_ZKProof := proof\<rparr>))"

definition AggregateResults :: "string \<Rightarrow> PoBTestManager \<Rightarrow> PoBTestManager \<times> f64 res" where
  "AggregateResults candidateID ptm =
     (case mget (pq_activeTests ptm) candidateID of
        None \<Rightarrow> (ptm, Inl (Error ''no test session found for candidate''))
      | Some session \<Rightarrow>
          let results = mmap (\<lambda>_. proved ptm) (pe_Results session)
          in (ptm\<lparr>pq_activeTests := mput candidateID (session\<lparr>pe_Results := results\<rparr>) (pq_activeTests ptm)\<rparr>,
              Inr (CalculatePoBScore (map snd results))))"

section \<open>The tester's side\<close>

text \<open>
  The outcome of a ping is its latency in milliseconds, or \<open>None\<close> when its write or its read fails; that of a chunk
  is what the write returns (\<open>None\<close> for an error) and whether the acknowledgement is read.
\<close>

record bandwidth_env =
  bw_now :: gotime
  bw_dial :: bool
  bw_pings :: "int option list"
  bw_uploads :: "(nat option \<times> bool) list"
  bw_uploadTime :: int

definition numPings :: nat where "numPings = 100"
definition chunk_size :: nat where "chunk_size = 64 * 1024"

definition average_latency :: "int option list \<Rightarrow> f64" where
  "average_latency outcomes =
     (let latencies = map f_of_int (List.map_filter (\<lambda>x. x) outcomes) in
      if latencies \<noteq> [] then f_div (foldl f_add (f_lit 0) latencies) (f_of_int (int (length latencies))) else f_lit 0)"

definition packet_loss :: "int option list \<Rightarrow> f64" where
  "packet_loss outcomes =
     f_mul (f_div (f_of_int (int (length (filter (\<lambda>x. x = None) outcomes)))) (f_of_int (int numPings))) (f_lit 100)"

fun upload_loop :: "bytes list \<Rightarrow> (nat option \<times> bool) list \<Rightarrow> nat \<Rightarrow> nat res" where
  "upload_loop [] outcomes totalSent = Inr totalSent"
| "upload_loop (chunk # cs) [] totalSent = Inl (Error ''ack timeout'')"
| "upload_loop (chunk # cs) ((None, ack) # outcomes) totalSent = Inl (Error ''upload error'')"
| "upload_loop (chunk # cs) ((Some n, ack) # outcomes) totalSent =
     (if ack then upload_loop cs outcomes (totalSent + n) else Inl (Error ''ack timeout''))"

definition ConductBandwidthTest :: "bandwidth_env \<Rightarrow> string \<Rightarrow> bytes \<Rightarrow> PoBTestResult res" where
  "ConductBandwidthTest env candidateAddr testData =
     (if \<not> bw_dial env then Inl (Error ''failed to connect to candidate'')
      else let pings = take numPings (bw_pings env) in
        case upload_loop (chunks chunk_size testData) (bw_uploads env) 0 of
          Inl e \<Rightarrow> Inl e
        | Inr totalSent \<Rightarrow>
            let result = \<lparr>pt_CandidateID = candidateAddr, pt_TesterID = [],
              pt_UploadBandwidth = f_div (f_div (f_of_int (int totalSent)) (f_lit (1024 * 1024)))
                (f_div (f_of_int (bw_uploadTime env)) (f_lit 1000)),
              pt_Latency = average_latency pings, pt_PacketLoss = packet_loss pings, pt_TestDataHash = hex (sha256 testData),
              pt_MerkleRoot = calculateMerkleRoot testData, pt_TransmissionTime = of_int (bw_uploadTime env),
              pt_Timestamp = bw_now env, pt_Passed = False, pt_ZKProof = []\<rparr>
            in Inr (result\<lparr>pt_Passed := evaluatePoBResult result\<rparr>))"

section \<open>The candidate's side\<close>

datatype server_phase = Pinging | Receiving | Finished

definition PING :: bytes where "PING = bytes_of ''PING''"
definition PONG :: bytes where "PONG = bytes_of ''PONG''"
definition ACK :: bytes where "ACK = bytes_of ''ACK''"

primrec buffer_size :: "server_phase \<Rightarrow> nat" where
  "buffer_size Pinging = 4"
| "buffer_size Receiving = chunk_size"
| "buffer_size Finished = 0"

text \<open>What the server does with the bytes of one read: its next phase and what it writes.\<close>

fun serve :: "server_phase \<Rightarrow> bytes \<Rightarrow> server_phase \<times> bytes" where
  "serve Pinging d = (if length d = 4 \<and> d = PING then (Pinging, PONG) else (Receiving, []))"
| "serve Receiving d = (if length d < chunk_size then Finished else Receiving, ACK)"
| "serve Finished d = (Finished, [])"

datatype conn_read = Read_Data bytes bool | Read_EOF | Read_Error string

text \<open>
  The handler over the outcomes of its reads, each with whether the write that may follow succeeds: what it
  writes and its result, \<open>None\<close> while it waits for more.
\<close>

fun serve_loop :: "server_phase \<Rightarrow> conn_read list \<Rightarrow> bytes list \<times> unit res option" where
  "serve_loop ph [] = ([], None)"
| "serve_loop ph (Read_EOF # evs) = ([], Some (Inr ()))"
| "serve_loop ph (Read_Error e # evs) = ([], Some (Inl (Error e)))"
| "serve_loop ph (Read_Data d ok # evs) =
     (let (ph', reply) = serve ph d in
      if reply \<noteq> [] \<and> \<not> ok then ([], Some (Inl (Error ''write'')))
      else if ph' = Finished then ([reply], Some (Inr ()))
      else let (replies, r) = serve_loop ph' evs in (if reply = [] then replies else reply # replies, r))"

definition HandlePoBTestRequest :: "conn_read list \<Rightarrow> bytes list \<times> unit res option" where
  "HandlePoBTestRequest evs = serve_loop Pinging evs"

section \<open>A whole test\<close>

text \<open>
  \<open>RunPoBTest\<close>: each tester's goroutine enters its result in the session; \<open>runs\<close> are the testers and the
  environments of those that end within the 35 seconds, in the order in which they do.
\<close>

definition enter_result :: "string \<Rightarrow> string \<times> bandwidth_env \<Rightarrow> PoBTestSession \<Rightarrow> PoBTestSession" where
  "enter_result candidateID run session =
     (case ConductBandwidthTest (snd run) (candidateID @ '':8080'') (pe_TestData session) of
        Inl _ \<Rightarrow> session
      | Inr result \<Rightarrow> session\<lparr>pe_Results := mput (fst run) result (pe_Results session)\<rparr>)"

definition RunPoBTest ::
  "'st state_ops \<Rightarrow> bytes res \<Rightarrow> gotime \<Rightarrow> gotime \<Rightarrow> bytes res \<Rightarrow> (string \<times> bandwidth_env) list \<Rightarrow> gotime \<Rightarrow> string \<Rightarrow> PoBTestManager \<Rightarrow> 'st
    \<Rightarrow> PoBTestManager \<times> 'st \<times> f64 res" where
  "RunPoBTest so latestHash now started random runs done_at candidateID ptm st =
     (let blockHash = (case latestHash of Inl _ \<Rightarrow> [] | Inr h \<Rightarrow> h) in
      case SecureSelectTestCommittee candidateID blockHash (so_active so st) MaxTestCommitteeSize of
        Inl e \<Rightarrow> (ptm, st, Inl e)
      | Inr testers \<Rightarrow>
          (case InitiateTest now started random candidateID testers ptm of
             (ptm1, Inl e) \<Rightarrow> (ptm1, st, Inl e)
           | (ptm1, Inr session) \<Rightarrow>
               if length candidateID < 8 \<or> (\<exists>t \<in> set testers. length t < 8)
               then (ptm1, st, Inl (Panic ''slice bounds out of range''))
               else
                 let finished = filter (\<lambda>run. fst run \<in> set testers) runs;
                     session' = fold (enter_result candidateID) finished session;
                     ptm2 = ptm1\<lparr>pq_activeTests := mput candidateID session' (pq_activeTests ptm1)\<rparr>
                 in (case AggregateResults candidateID ptm2 of
                       (ptm3, Inl e) \<Rightarrow> (ptm3, st, Inl e)
                     | (ptm3, Inr score) \<Rightarrow>
                         let st' = (case so_validator so st candidateID of
                               Inl _ \<Rightarrow> st
                             | Inr info \<Rightarrow> so_put_validator so (info\<lparr>v_PoBScore := score, v_LastPoBTest := done_at\<rparr>) st)
                         in (ptm3, st', Inr score))))"


section \<open>Both sides over one connection\<close>

text \<open>
  \<open>replies ph buf ph' buf' r\<close>: the server in phase \<open>ph\<close>, with the bytes \<open>buf\<close> on its side of the connection, reads
  them piece by piece, each at most its buffer, until it writes \<open>r\<close>.
\<close>

inductive replies :: "server_phase \<Rightarrow> bytes \<Rightarrow> server_phase \<Rightarrow> bytes \<Rightarrow> bytes \<Rightarrow> bool" where
  reply: "d \<noteq> [] \<Longrightarrow> length d \<le> buffer_size ph \<Longrightarrow> serve ph d = (ph', r) \<Longrightarrow> r \<noteq> [] \<Longrightarrow> replies ph (d @ rest) ph' rest r"
| silent: "d \<noteq> [] \<Longrightarrow> length d \<le> buffer_size ph \<Longrightarrow> serve ph d = (ph1, []) \<Longrightarrow> replies ph1 rest ph' buf' r \<Longrightarrow>
     replies ph (d @ rest) ph' buf' r"

text \<open>
  The tester's pings and chunks when every answer is read in time and whole: an operation fails exactly if the server has
  closed the connection.
\<close>

inductive prompt_pings :: "server_phase \<Rightarrow> bytes \<Rightarrow> int option list \<Rightarrow> server_phase \<Rightarrow> bytes \<Rightarrow> bool" where
  no_ping: "prompt_pings ph buf [] ph buf"
| answered: "replies ph (buf @ PING) ph1 buf1 r \<Longrightarrow> 0 \<le> ms \<Longrightarrow> prompt_pings ph1 buf1 os ph' buf' \<Longrightarrow> prompt_pings ph buf (Some ms # os) ph' buf'"
| lost: "prompt_pings Finished buf os ph' buf' \<Longrightarrow> prompt_pings Finished buf (None # os) ph' buf'"

inductive prompt_chunks :: "server_phase \<Rightarrow> bytes \<Rightarrow> bytes list \<Rightarrow> (nat option \<times> bool) list \<Rightarrow> bool" where
  no_chunk: "prompt_chunks ph buf [] []"
| acked: "replies ph (buf @ c) ph1 buf1 r \<Longrightarrow> prompt_chunks ph1 buf1 cs os \<Longrightarrow> prompt_chunks ph buf (c # cs) ((Some (length c), True) # os)"
| closed: "w = None \<or> \<not> ack \<Longrightarrow> prompt_chunks Finished buf (c # cs) ((w, ack) # os)"

inductive_cases repliesE: "replies ph buf ph' buf' r"
inductive_cases prompt_chunksE: "prompt_chunks ph buf (c # cs) os"

text \<open>A whole test over a prompt connection: the 100 pings, then the chunks.\<close>

definition prompt_test :: "bytes \<Rightarrow> bandwidth_env \<Rightarrow> bool" where
  "prompt_test testData env \<longleftrightarrow> length (bw_pings env) = numPings \<and>
     (\<exists>ph buf. prompt_pings Pinging [] (bw_pings env) ph buf \<and> prompt_chunks ph buf (chunks chunk_size testData) (bw_uploads env))"

definition idle :: "server_phase \<Rightarrow> bytes \<Rightarrow> bool" where
  "idle ph buf \<longleftrightarrow> ph = Finished \<or> ph = Pinging \<and> buf = []"

lemma reply_bytes [simp]: "length PING = 4" "ACK \<noteq> []" "PONG \<noteq> []" "PING \<noteq> []"
  by (simp_all add: PING_def ACK_def PONG_def bytes_of_def)

lemma replies_finished: "\<not> replies Finished buf ph' buf' r"
  by (auto elim: repliesE)

lemma replies_receiving:
  "replies Receiving buf ph' buf' r \<Longrightarrow> length buf < chunk_size \<Longrightarrow> ph' = Finished"
  by (erule repliesE) (auto split: if_splits)

lemma replies_pinging:
  assumes "replies Pinging buf ph' buf' r" "length buf \<le> chunk_size" "buf = PING \<or> take 4 buf \<noteq> PING"
  shows "idle ph' buf'"
  using assms(1)
proof (cases rule: replies.cases)
  case (reply d)
  then have d: "length d = 4" "d = PING" "ph' = Pinging" by (auto split: if_splits)
  then have "buf = PING" using assms(3) reply(1) by auto
  then show ?thesis using reply(1) d by (simp add: idle_def)
next
  case (silent d ph1 rest)
  then have "ph1 = Receiving" by (auto split: if_splits)
  moreover have "length rest < chunk_size" using assms(2) silent(1,2) by (cases d) auto
  ultimately show ?thesis using replies_receiving silent(5) by (auto simp: idle_def)
qed

lemma pings_idle: "prompt_pings ph buf os ph' buf' \<Longrightarrow> idle ph buf \<Longrightarrow> idle ph' buf'"
proof (induction rule: prompt_pings.induct)
  case (answered ph buf ph1 buf1 r ms os ph' buf')
  show ?case
  proof (cases "ph = Finished")
    case False
    then have "idle ph1 buf1" using replies_pinging [of "buf @ PING"] answered.hyps(1) answered.prems by (simp add: idle_def chunk_size_def)
    then show ?thesis by (rule answered.IH)
  qed (use answered.hyps(1) replies_finished in blast)
qed (simp_all add: idle_def)

lemma closed_fails: "prompt_chunks Finished buf (c # cs) os \<Longrightarrow> \<exists>e. upload_loop (c # cs) os n = Inl (Error e)"
proof (erule prompt_chunksE)
  fix w ack os'
  assume "os = (w, ack) # os'" "w = None \<or> \<not> ack"
  then show ?thesis by (cases w) auto
qed (simp add: replies_finished)

lemma first_chunk:
  assumes "replies Pinging c ph' buf' r" "length c = chunk_size" "take 4 c \<noteq> PING"
  shows "ph' = Finished"
  using assms(1)
proof (cases rule: replies.cases)
  case (silent d ph1 rest)
  then have "ph1 = Receiving" by (auto split: if_splits)
  moreover have "length rest < chunk_size" using assms(2) silent(1,2) by (cases d) auto
  ultimately show ?thesis using replies_receiving [of rest ph' buf' r] silent(5) by simp
qed (use assms(3) in \<open>auto split: if_splits\<close>)

lemma two_chunks_fail:
  assumes "prompt_chunks ph buf (c1 # c2 # cs) os" "idle ph buf" "length c1 = chunk_size" "take 4 c1 \<noteq> PING"
  shows "\<exists>e. upload_loop (c1 # c2 # cs) os n = Inl (Error e)"
proof (cases "ph = Finished")
  case False
  then have ph: "ph = Pinging" "buf = []" using assms(2) by (simp_all add: idle_def)
  from assms(1) obtain ph1 buf1 r os' where r: "replies Pinging c1 ph1 buf1 r" "prompt_chunks ph1 buf1 (c2 # cs) os'" "os = (Some (length c1), True) # os'"
    unfolding ph by (auto elim: prompt_chunksE)
  have "ph1 = Finished" by (rule first_chunk [OF r(1) assms(3,4)])
  then show ?thesis using closed_fails [of buf1 c2 cs os' "n + length c1"] r(2,3) by simp
qed (use closed_fails assms(1) in blast)

lemma bandwidth_test_fails:
  assumes "prompt_test testData env" "chunk_size < length testData" "take 4 testData \<noteq> PING"
  shows "\<exists>e. ConductBandwidthTest env addr testData = Inl (Error e)"
proof (cases "bw_dial env")
  case True
  obtain ph buf where run: "prompt_pings Pinging [] (bw_pings env) ph buf" "prompt_chunks ph buf (chunks chunk_size testData) (bw_uploads env)"
    using assms(1) by (auto simp: prompt_test_def)
  have "chunks chunk_size testData = take chunk_size testData # chunks chunk_size (drop chunk_size testData)"
    using assms(2) by (subst chunks.simps) (auto simp: chunk_size_def)
  moreover have "chunks chunk_size (drop chunk_size testData) =
      take chunk_size (drop chunk_size testData) # chunks chunk_size (drop chunk_size (drop chunk_size testData))"
    using assms(2) by (subst chunks.simps) (auto simp: chunk_size_def)
  ultimately obtain c2 cs where cs: "chunks chunk_size testData = take chunk_size testData # c2 # cs" by metis
  have "idle ph buf" by (rule pings_idle [OF run(1)]) (simp add: idle_def)
  moreover have "take 4 (take chunk_size testData) \<noteq> PING" using assms(3) by (simp add: chunk_size_def)
  ultimately have "\<exists>e. upload_loop (chunks chunk_size testData) (bw_uploads env) 0 = Inl (Error e)"
    using two_chunks_fail [of ph buf "take chunk_size testData" c2 cs] run(2) assms(2) unfolding cs by simp
  then show ?thesis using True by (auto simp: ConductBandwidthTest_def Let_def)
qed (simp add: ConductBandwidthTest_def)


lemma entered_results:
  assumes "\<forall>run \<in> set runs. prompt_test (pe_TestData session) (snd run)"
    and "chunk_size < length (pe_TestData session)" "take 4 (pe_TestData session) \<noteq> PING"
  shows "fold (enter_result candidateID) runs session = session"
  using assms
proof (induction runs)
  case (Cons run runs)
  obtain e where "ConductBandwidthTest (snd run) (candidateID @ '':8080'') (pe_TestData session) = Inl (Error e)"
    using bandwidth_test_fails [of "pe_TestData session" "snd run"] Cons.prems by auto
  then have "enter_result candidateID run session = session" by (simp add: enter_result_def)
  then show ?case using Cons by simp
qed simp

lemma score_zero_inactive: "\<not> f_le MinPoBScore (Fin 0)"
  unfolding MinPoBScore_def lit_85 by (simp add: f_le_def)

text \<open>
  C13: A tester and a candidate that run this code never complete a bandwidth test, even when every answer comes in
  time: the candidate reads the first bytes of the upload as a ping, answers the short rest of the first chunk and
  closes. So RunPoBTest ends with the score 0 and enters it for the candidate, who cannot be activated with it. The random test
  data must be longer than a chunk (the code takes 8 MB) and not begin with PING.
\<close>

theorem pob_test_scores_zero:
  assumes "state_laws so" "random = Inr testData" "chunk_size < length testData" "take 4 testData \<noteq> PING"
    and "\<forall>run \<in> set runs. prompt_test testData (snd run)"
    and "RunPoBTest so latestHash now started random runs done_at candidateID ptm st = (ptm', st', Inr score)"
  shows "score = Fin 0 \<and>
    (\<forall>info. so_validator so st candidateID = Inr info \<longrightarrow>
      (\<exists>info'. so_validator so st' candidateID = Inr info' \<and> v_PoBScore info' = Fin 0 \<and> (\<forall>t. \<not> may_activate t info')))"
proof -
  define session where "session = \<lparr>pe_CandidateID = candidateID,
    pe_Testers = projr (SecureSelectTestCommittee candidateID (case latestHash of Inl _ \<Rightarrow> [] | Inr h \<Rightarrow> h) (so_active so st) MaxTestCommitteeSize),
    pe_TestData = testData, pe_CommitmentHash = hex (sha256 testData), pe_Results = [], pe_StartTime = started\<rparr>"
  have same: "fold (enter_result candidateID) us session = session" if "set us \<subseteq> set runs" for us
    by (rule entered_results) (use that assms(3-5) in \<open>auto simp: session_def\<close>)
  have sub: "set (filter P runs) \<subseteq> set runs" for P by auto
  have r: "score = Fin 0" "st' = (case so_validator so st candidateID of Inl _ \<Rightarrow> st
      | Inr info \<Rightarrow> so_put_validator so (info\<lparr>v_PoBScore := Fin 0, v_LastPoBTest := done_at\<rparr>) st)"
    using assms(6) same [OF sub]
    by (auto simp: RunPoBTest_def InitiateTest_def assms(2) session_def AggregateResults_def CalculatePoBScore_def mget_mput mmap_def Let_def
        split: sum.splits if_splits)
  show ?thesis
    using r state_ids(1) [OF assms(1)] score_zero_inactive by (auto simp: state_put_validator [OF assms(1)] may_activate_def)
qed

definition demo_data :: bytes where "demo_data = replicate (Suc chunk_size) 0"

definition demo_bandwidth :: bandwidth_env where
  "demo_bandwidth = \<lparr>bw_now = 0, bw_dial = True, bw_pings = replicate numPings (Some 3), bw_uploads = [(Some chunk_size, True), (None, False)], bw_uploadTime = 1\<rparr>"

lemma chunks_replicate_Suc: "0 < n \<Longrightarrow> chunks n (replicate (Suc n) x) = [replicate n x, [x]]"
  by (subst chunks.simps, subst chunks.simps) (auto simp: chunks.simps [of _ "[]"] take_Cons' simp flip: replicate_append_same)

lemma demo_data_large: "chunk_size < length demo_data" "take 4 demo_data \<noteq> PING"
proof -
  show "chunk_size < length demo_data" by (simp add: demo_data_def)
  have "hd (take 4 demo_data) = 0" by (simp add: demo_data_def)
  moreover have "hd PING \<noteq> 0" by (simp add: PING_def bytes_of_def)
  ultimately show "take 4 demo_data \<noteq> PING" by metis
qed

lemma demo_answered: "prompt_pings Pinging [] (replicate n (Some 3)) Pinging []"
proof (induction n)
  case (Suc n)
  have "replies Pinging (PING @ []) Pinging [] PONG" by (rule replies.reply) simp_all
  then have "replies Pinging ([] @ PING) Pinging [] PONG" by simp
  from prompt_pings.answered [OF this _ Suc] show ?case by simp
qed (simp add: prompt_pings.no_ping)

lemma demo_prompt: "prompt_test demo_data demo_bandwidth"
proof -
  have "0 < chunk_size" by (simp add: chunk_size_def)
  then have c: "chunks chunk_size demo_data = [replicate chunk_size 0, [0]]" unfolding demo_data_def by (rule chunks_replicate_Suc)
  have "replies Receiving (replicate (chunk_size - 1) 0 @ []) Finished [] ACK"
    by (rule replies.reply) (simp_all add: chunk_size_def)
  then have "replies Pinging ([0] @ replicate (chunk_size - 1) 0) Finished [] ACK"
    by (intro replies.silent [of "[0]" Pinging Receiving]) simp_all
  moreover have "[0] @ replicate (chunk_size - 1) 0 = [] @ replicate chunk_size (0 :: byte)"
    by (simp add: chunk_size_def replicate_Suc [symmetric] del: replicate_Suc)
  ultimately have "replies Pinging ([] @ replicate chunk_size 0) Finished [] ACK" by simp
  from prompt_chunks.acked [OF this prompt_chunks.closed [of None False "[]" "[0]" "[]"]]
  have "prompt_chunks Pinging [] [replicate chunk_size 0, [0]] [(Some (length (replicate chunk_size (0 :: byte))), True), (None, False)]"
    by simp
  then have "prompt_chunks Pinging [] (chunks chunk_size demo_data) (bw_uploads demo_bandwidth)"
    by (simp add: c demo_bandwidth_def)
  moreover have "prompt_pings Pinging [] (bw_pings demo_bandwidth) Pinging []" by (simp add: demo_bandwidth_def demo_answered)
  moreover have "length (bw_pings demo_bandwidth) = numPings" by (simp add: demo_bandwidth_def)
  ultimately show ?thesis by (auto simp: prompt_test_def)
qed

definition demo_candidates :: mem_state where
  "demo_candidates = \<lparr>mst_validators = [(''tester-01'', demo_info\<lparr>v_ID := ''tester-01''\<rparr>),
     (''candidate'', demo_info\<lparr>v_ID := ''candidate'', v_IsActive := False, v_IsObserver := True\<rparr>)], mst_accounts = []\<rparr>"

theorem pob_test_scores_zero_witness:
  "\<exists>ptm' st' info. RunPoBTest mem_state_ops (Inr []) 0 0 (Inr demo_data) [(''tester-01'', demo_bandwidth)] 0 ''candidate''
     (NewPoBTestManager (Inl (Error []))) demo_candidates = (ptm', st', Inr (Fin 0)) \<and>
     so_validator mem_state_ops st' ''candidate'' = Inr info \<and> v_PoBScore info = Fin 0"
proof -
  let ?run = "RunPoBTest mem_state_ops (Inr []) 0 0 (Inr demo_data) [(''tester-01'', demo_bandwidth)] 0 ''candidate''
     (NewPoBTestManager (Inl (Error []))) demo_candidates"
  have act: "so_active mem_state_ops demo_candidates = [''tester-01'']"
    by (simp add: mem_state_ops_def demo_candidates_def mkeep_def demo_info_def)
  have com: "SecureSelectTestCommittee ''candidate'' [] [''tester-01''] MaxTestCommitteeSize = Inr [''tester-01'']"
    using length_exchange_sort [of higher_score "[(''tester-01'', committee_score ''candidate'' [] ''tester-01'')]"]
      set_exchange_sort [of higher_score "[(''tester-01'', committee_score ''candidate'' [] ''tester-01'')]"]
    by (auto simp: SecureSelectTestCommittee_def MaxTestCommitteeSize_def length_Suc_conv)
  obtain ptm' st' score where run: "?run = (ptm', st', Inr score)"
    by (auto simp: RunPoBTest_def act com InitiateTest_def NewPoBTestManager_def NewAntiDRDoSManager_def GetRemainingTests_def
        AggregateResults_def mget_mput Let_def)
  have "so_validator mem_state_ops demo_candidates ''candidate'' = Inr (demo_info\<lparr>v_ID := ''candidate'', v_IsActive := False, v_IsObserver := True\<rparr>)"
    by (simp add: mem_state_ops_def demo_candidates_def)
  with pob_test_scores_zero [OF mem_state_laws refl demo_data_large _ run] demo_prompt run show ?thesis by auto
qed

end
