(* ===== verification/ZK_Circuit.thy ===== *)
theory ZK_Circuit
  imports Speed_Test Wallet
begin

text \<open>
  The zero-knowledge proofs of test results (\<open>pkg/consensus/zkproof.go\<close>): the circuit as the equation it puts on
  its wires over the scalar field of BN254, and the generation and verification of proofs over it.

  The Groth16 backend of gnark is a parameter (\<open>groth16\<close>); a proof exists for a witness exactly if the witness
  satisfies the circuit, and then verifies against its public part. Its field elements are integers modulo
  the order of the field.
\<close>

section \<open>The field\<close>

definition scalar_order :: int where
  "scalar_order = 21888242871839275222246405745257275088548364400416034343698204186575808495617"

function bezout_pair :: "int \<Rightarrow> int \<Rightarrow> int \<times> int" where
  "bezout_pair a b = (if b \<le> 0 then (1, 0) else let (x, y) = bezout_pair b (a mod b) in (y, x - (a div b) * y))"
  by pat_completeness auto
termination
  by (relation "measure (\<lambda>(a, b). nat b)") auto

declare bezout_pair.simps [simp del]

lemma bezout_pair_gcd: "0 \<le> a \<Longrightarrow> 0 \<le> b \<Longrightarrow> bezout_pair a b = (x, y) \<Longrightarrow> x * a + y * b = gcd a b"
proof (induction a b arbitrary: x y rule: bezout_pair.induct)
  case (1 a b)
  show ?case
  proof (cases "b = 0")
    case False
    obtain u v where uv: "bezout_pair b (a mod b) = (u, v)" by (cases "bezout_pair b (a mod b)")
    have xy: "x = v" "y = u - (a div b) * v" using "1.prems" False by (auto simp: bezout_pair.simps [of a b] uv)
    have g: "u * b + v * (a mod b) = gcd a b"
      using "1.IH" [OF _ _ _ uv] "1.prems" False by (simp add: gcd_red_int [of a b])
    have "x * a + y * b = u * b + v * (a - (a div b) * b)" by (simp add: xy algebra_simps)
    also have "\<dots> = u * b + v * (a mod b)" by (simp add: minus_div_mult_eq_mod)
    finally show ?thesis using g by simp
  qed (use "1.prems" in \<open>simp add: bezout_pair.simps\<close>)
qed

definition field_inv :: "int \<Rightarrow> int" where
  "field_inv a = fst (bezout_pair (a mod scalar_order) scalar_order) mod scalar_order"

lemma field_inv_dvd: "coprime a scalar_order \<Longrightarrow> scalar_order dvd a * field_inv a - 1"
proof -
  assume c: "coprime a scalar_order"
  let ?R = scalar_order
  have R: "0 < ?R" by (simp add: scalar_order_def)
  obtain x y where xy: "bezout_pair (a mod ?R) ?R = (x, y)" by (cases "bezout_pair (a mod ?R) ?R")
  have "gcd (a mod ?R) ?R = 1" using c R by (simp flip: coprime_iff_gcd_eq_1)
  then have "x * (a mod ?R) + y * ?R = 1" using bezout_pair_gcd [OF _ _ xy] R by simp
  then have "(x * (a mod ?R) + y * ?R) mod ?R = 1 mod ?R" by simp
  then have "(a * field_inv a) mod ?R = 1 mod ?R"
    by (simp add: field_inv_def xy mod_mult_right_eq mod_mult_left_eq mult.commute)
  then show ?thesis by (simp add: mod_eq_dvd_iff)
qed

section \<open>The circuit\<close>

record PoBCircuit =
  ck_UploadBandwidth :: int
  ck_Latency :: int
  ck_PacketLoss :: int
  ck_DataHash :: int
  ck_CommitmentHash :: int
  ck_Score :: int
  ck_Passed :: int

text \<open>\<open>api.Div\<close>: no wire satisfies it for a divisor without inverse.\<close>

definition api_Div :: "int \<Rightarrow> int \<Rightarrow> int option" where
  "api_Div a b = (if coprime b scalar_order then Some (a * field_inv b mod scalar_order) else None)"

definition uploadThreshold :: int where "uploadThreshold = 7000"
definition latencyThreshold :: int where "latencyThreshold = 100000"
definition packetLossThreshold :: int where "packetLossThreshold = 100"

definition Define :: "PoBCircuit \<Rightarrow> bool" where
  "Define c =
     (case api_Div (ck_UploadBandwidth c) uploadThreshold of None \<Rightarrow> False | Some uploadRatio \<Rightarrow>
     (case api_Div latencyThreshold (ck_Latency c) of None \<Rightarrow> False | Some latencyRatio \<Rightarrow>
     (case api_Div (packetLossThreshold - ck_PacketLoss c) packetLossThreshold of None \<Rightarrow> False | Some packetLossNorm \<Rightarrow>
       let sumRatios = uploadRatio + latencyRatio + packetLossNorm;
           scaledSum = sumRatios * 1000;
           scoreTimesThree = ck_Score c * 3
       in scoreTimesThree mod scalar_order = scaledSum mod scalar_order)))"

definition public_part :: "PoBCircuit \<Rightarrow> int \<times> int \<times> int" where
  "public_part c = (ck_CommitmentHash c mod scalar_order, ck_Score c mod scalar_order, ck_Passed c mod scalar_order)"

section \<open>Proofs\<close>

record ('pk, 'vk) groth16 =
  gl_compile :: "unit res"
  gl_setup :: "('pk \<times> 'vk) res"
  gl_field :: "string \<Rightarrow> int res"
  gl_prove :: "'pk \<Rightarrow> PoBCircuit \<Rightarrow> bytes res"
  gl_verify :: "'vk \<Rightarrow> bytes \<Rightarrow> int \<times> int \<times> int \<Rightarrow> bool res"
  gl_write :: "'vk \<Rightarrow> bytes res"
  gl_read :: "bytes \<Rightarrow> 'vk res"

definition groth16_laws :: "('pk, 'vk) groth16 \<Rightarrow> bool" where
  "groth16_laws G \<longleftrightarrow> (\<forall>pk vk. gl_setup G = Inr (pk, vk) \<longrightarrow>
     (\<forall>c. if Define c then \<exists>proof. gl_prove G pk c = Inr proof \<and> gl_verify G vk proof (public_part c) = Inr True
          else \<exists>e. gl_prove G pk c = Inl (Error e)))"

record ('pk, 'vk) ProofSystem =
  zs_provingKey :: 'pk
  zs_verifyingKey :: 'vk

definition NewZKProofSystem :: "('pk, 'vk) groth16 \<Rightarrow> ('pk, 'vk) ProofSystem res" where
  "NewZKProofSystem G =
     (case gl_compile G of
        Inl (Panic e) \<Rightarrow> Inl (Panic e)
      | Inl (Error _) \<Rightarrow> Inl (Error ''failed to compile circuit'')
      | Inr _ \<Rightarrow>
          (case gl_setup G of
             Inl (Panic e) \<Rightarrow> Inl (Panic e)
           | Inl (Error _) \<Rightarrow> Inl (Error ''failed to setup keys'')
           | Inr (pk, vk) \<Rightarrow> Inr \<lparr>zs_provingKey = pk, zs_verifyingKey = vk\<rparr>))"

definition scaled :: "f64 \<Rightarrow> int" where
  "scaled x = f_int (f_mul x (f_lit 1000))"

definition commitment_int :: "string \<Rightarrow> int" where
  "commitment_int h = int (be_val (sha256 (bytes_of h)))"

definition assignment :: "int \<Rightarrow> PoBTestResult \<Rightarrow> f64 \<Rightarrow> PoBCircuit" where
  "assignment dataHash result score =
     \<lparr>ck_UploadBandwidth = scaled (pt_UploadBandwidth result), ck_Latency = scaled (pt_Latency result),
      ck_PacketLoss = scaled (pt_PacketLoss result), ck_DataHash = dataHash,
      ck_CommitmentHash = commitment_int (pt_TestDataHash result), ck_Score = scaled score,
      ck_Passed = (if pt_Passed result then 1 else 0)\<rparr>"

definition GenerateProof :: "('pk, 'vk) groth16 \<Rightarrow> ('pk, 'vk) ProofSystem \<Rightarrow> PoBTestResult \<Rightarrow> f64 \<Rightarrow> bytes res" where
  "GenerateProof G zk result score =
     (case gl_field G (pt_TestDataHash result) of
        Inl (Panic e) \<Rightarrow> Inl (Panic e)
      | Inl (Error _) \<Rightarrow> Inl (Error ''failed to create witness'')
      | Inr dataHash \<Rightarrow>
          (case gl_prove G (zs_provingKey zk) (assignment dataHash result score) of
             Inl (Panic e) \<Rightarrow> Inl (Panic e)
           | Inl (Error _) \<Rightarrow> Inl (Error ''failed to generate proof'')
           | Inr proof \<Rightarrow> Inr proof))"

definition VerifyProof :: "('pk, 'vk) groth16 \<Rightarrow> ('pk, 'vk) ProofSystem \<Rightarrow> bytes \<Rightarrow> string \<Rightarrow> f64 \<Rightarrow> bool \<Rightarrow> bool res" where
  "VerifyProof G zk proofBytes commitmentHash score passed =
     (let public = (commitment_int commitmentHash mod scalar_order, scaled score mod scalar_order,
            (if passed then 1 else 0) mod scalar_order)
      in case gl_verify G (zs_verifyingKey zk) proofBytes public of
           Inl (Panic e) \<Rightarrow> Inl (Panic e)
         | Inl (Error _) \<Rightarrow> Inl (Error ''failed to unmarshal proof'')
         | Inr ok \<Rightarrow> Inr ok)"

definition ExportVerifyingKey :: "('pk, 'vk) groth16 \<Rightarrow> ('pk, 'vk) ProofSystem \<Rightarrow> string res" where
  "ExportVerifyingKey G zk =
     (case gl_write G (zs_verifyingKey zk) of
        Inl (Panic e) \<Rightarrow> Inl (Panic e)
      | Inl (Error _) \<Rightarrow> Inl (Error ''failed to serialize verifying key'')
      | Inr bs \<Rightarrow> Inr (hex bs))"

definition ImportVerifyingKey ::
  "('pk, 'vk) groth16 \<Rightarrow> string \<Rightarrow> ('pk, 'vk) ProofSystem \<Rightarrow> ('pk, 'vk) ProofSystem \<times> unit res" where
  "ImportVerifyingKey G vkHex zk =
     (case unhex vkHex of
        Inl _ \<Rightarrow> (zk, Inl (Error ''failed to decode verifying key''))
      | Inr vkBytes \<Rightarrow>
          (case gl_read G vkBytes of
             Inl (Panic e) \<Rightarrow> (zk, Inl (Panic e))
           | Inl (Error _) \<Rightarrow> (zk, Inl (Error ''failed to deserialize verifying key''))
           | Inr vk \<Rightarrow> (zk\<lparr>zs_verifyingKey := vk\<rparr>, Inr ())))"

text \<open>The system as the managers of the tests hold it.\<close>

definition zk_interface :: "('pk, 'vk) groth16 \<Rightarrow> ('pk, 'vk) ProofSystem \<Rightarrow> ZKProofSystem" where
  "zk_interface G zk = \<lparr>zk_prove = GenerateProof G zk, zk_verify = VerifyProof G zk\<rparr>"

section \<open>The equation of the circuit\<close>

lemma scalar_coprime: "coprime uploadThreshold scalar_order" "coprime packetLossThreshold scalar_order" "coprime 1000 scalar_order"
proof -
  have r: "gcd n scalar_order = gcd n (scalar_order mod n)" for n by (metis gcd_red_int gcd.commute)
  show "coprime uploadThreshold scalar_order" "coprime packetLossThreshold scalar_order" "coprime 1000 scalar_order"
    unfolding uploadThreshold_def packetLossThreshold_def coprime_iff_gcd_eq_1 r by (simp_all add: scalar_order_def gcd_non_0_int)
qed

lemma Define_iff:
  "Define c \<longleftrightarrow> coprime (ck_Latency c) scalar_order \<and>
     scalar_order dvd ck_Score c * 3 - (ck_UploadBandwidth c * field_inv uploadThreshold + latencyThreshold * field_inv (ck_Latency c)
       + (packetLossThreshold - ck_PacketLoss c) * field_inv packetLossThreshold) * 1000"
proof -
  have "(x mod m + y mod m + z mod m) * 1000 mod m = (x + y + z) * 1000 mod m" for x y z m :: int
    by (intro mod_mult_cong mod_add_cong) simp_all
  then show ?thesis
    by (simp add: Define_def api_Div_def scalar_coprime Let_def flip: mod_eq_dvd_iff)
qed

text \<open>The equation without its inverses.\<close>

lemma cleared_equation:
  assumes "Define c"
  shows "scalar_order dvd ck_Score c * 3 * (700000 * ck_Latency c)
    - 1000 * (100 * ck_Latency c * ck_UploadBandwidth c + 70000000000 + (100 - ck_PacketLoss c) * (7000 * ck_Latency c))"
    (is "_ dvd ?d")
proof -
  let ?l = "ck_Latency c" and ?u = "ck_UploadBandwidth c" and ?k = "100 - ck_PacketLoss c"
  let ?i7 = "field_inv 7000" and ?il = "field_inv ?l" and ?i1 = "field_inv 100"
  have cop: "coprime ?l scalar_order" and eq: "scalar_order dvd ck_Score c * 3 - (?u * ?i7 + 100000 * ?il + ?k * ?i1) * 1000"
    using assms by (simp_all add: Define_iff uploadThreshold_def latencyThreshold_def packetLossThreshold_def)
  have inv: "scalar_order dvd 7000 * ?i7 - 1" "scalar_order dvd ?l * ?il - 1" "scalar_order dvd 100 * ?i1 - 1"
    using field_inv_dvd scalar_coprime(1,2) cop by (simp_all add: uploadThreshold_def packetLossThreshold_def)
  have "?d = 700000 * ?l * (ck_Score c * 3 - (?u * ?i7 + 100000 * ?il + ?k * ?i1) * 1000)
      + 100000 * ?l * ?u * (7000 * ?i7 - 1) + 70000000000000 * (?l * ?il - 1) + 7000000 * ?k * ?l * (100 * ?i1 - 1)"
    by algebra
  then show ?thesis using eq inv by (simp only: dvd_add dvd_mult)
qed

text \<open>
  C36: Every public claim has a proof: for each test data hash, score and verdict, and for each secret latency with an
  inverse, packet loss and data hash, some secret upload rate satisfies the circuit, and the proof of it is accepted. The
  verdict and the commitment occur in no constraint, and the circuit has no cap and no threshold.
\<close>

theorem any_claim_provable:
  assumes "groth16_laws G" "NewZKProofSystem G = Inr zk" "coprime latency scalar_order"
  shows "\<exists>c pf. ck_Latency c = latency \<and> ck_PacketLoss c = loss \<and> ck_DataHash c = dataHash \<and>
    gl_prove G (zs_provingKey zk) c = Inr pf \<and> VerifyProof G zk pf commitmentHash score passed = Inr True"
proof -
  let ?rest = "latencyThreshold * field_inv latency + (packetLossThreshold - loss) * field_inv packetLossThreshold"
  define s where "s = scaled score"
  define u where "u = uploadThreshold * (s * 3 * field_inv 1000 - ?rest)"
  define c where "c = \<lparr>ck_UploadBandwidth = u, ck_Latency = latency, ck_PacketLoss = loss, ck_DataHash = dataHash,
    ck_CommitmentHash = commitment_int commitmentHash, ck_Score = s, ck_Passed = (if passed then 1 else 0)\<rparr>"
  have a: "s * 3 - (u * field_inv uploadThreshold + ?rest) * 1000 =
      - (s * 3) * (1000 * field_inv 1000 - 1) - 1000 * (s * 3 * field_inv 1000 - ?rest) * (uploadThreshold * field_inv uploadThreshold - 1)"
    by (simp add: u_def algebra_simps)
  have b: "scalar_order dvd s * 3 - (u * field_inv uploadThreshold + ?rest) * 1000"
    unfolding a by (intro dvd_diff dvd_mult field_inv_dvd scalar_coprime)
  have "Define c" using assms(3) b by (simp add: Define_iff c_def add.assoc)
  moreover obtain pk vk where keys: "gl_setup G = Inr (pk, vk)" "zk = \<lparr>zs_provingKey = pk, zs_verifyingKey = vk\<rparr>"
    using assms(2) by (auto simp: NewZKProofSystem_def split: sum.splits fail.splits)
  ultimately obtain pf where "gl_prove G pk c = Inr pf" "gl_verify G vk pf (public_part c) = Inr True"
    using assms(1) unfolding groth16_laws_def by meson
  moreover have "public_part c = (commitment_int commitmentHash mod scalar_order, scaled score mod scalar_order,
      (if passed then 1 else 0) mod scalar_order)"
    by (simp add: public_part_def c_def s_def)
  ultimately show ?thesis
    by (intro exI [of _ c] exI [of _ pf]) (simp add: VerifyProof_def keys(2) c_def Let_def)
qed

definition demo_groth :: "(unit, unit) groth16" where
  "demo_groth = \<lparr>gl_compile = Inr (), gl_setup = Inr ((), ()), gl_field = (\<lambda>_. Inr 0),
     gl_prove = (\<lambda>_ c. if Define c then Inr [1] else Inl (Error ''constraint is not satisfied'')),
     gl_verify = (\<lambda>_ _ _. Inr True), gl_write = (\<lambda>_. Inr [2]), gl_read = (\<lambda>_. Inr ())\<rparr>"

definition demo_system :: "(unit, unit) ProofSystem" where
  "demo_system = \<lparr>zs_provingKey = (), zs_verifyingKey = ()\<rparr>"

lemma demo_groth_laws: "groth16_laws demo_groth" and demo_groth_system: "NewZKProofSystem demo_groth = Inr demo_system"
  by (simp_all add: groth16_laws_def NewZKProofSystem_def demo_groth_def demo_system_def)

theorem any_claim_provable_witness:
  "\<exists>c pf. ck_Latency c = 1 \<and> ck_PacketLoss c = 100 \<and> ck_DataHash c = 0 \<and>
    gl_prove demo_groth (zs_provingKey demo_system) c = Inr pf \<and> VerifyProof demo_groth demo_system pf ''aa'' (Fin 1) True = Inr True"
  by (rule any_claim_provable [OF demo_groth_laws demo_groth_system]) simp

section \<open>Honest proofs\<close>

lemma scaled_between:
  assumes "of_int a \<le> x * 1000" "x * 1000 \<le> of_int b" "0 \<le> a" "b \<le> 2 ^ 53"
  shows "a \<le> scaled (Fin x)" "scaled (Fin x) \<le> b"
proof -
  note r = rnd_between [OF assms(3,4,1,2)]
  have "(of_int b :: rat) \<le> of_int (2 ^ 53)" using assms(4) by (simp only: of_int_le_iff)
  then have v: "0 \<le> rnd_val (x * 1000)" "rnd_val (x * 1000) < 2 ^ 63" using r assms(3) by (simp_all add: order_trans [of 0 "of_int a"])
  have "scaled (Fin x) = \<lfloor>rnd_val (x * 1000)\<rfloor>"
    using f_to_int_range [OF v] by (simp add: scaled_def f_int_def r(1))
  then show "a \<le> scaled (Fin x)" "scaled (Fin x) \<le> b" using r(2,3) by (simp_all add: le_floor_iff floor_le_iff)
qed

lemma score_at_most_one:
  assumes "pt_UploadBandwidth result = Fin u" "pt_Latency result = Fin l" "pt_PacketLoss result = Fin q" "0 \<le> u" "0 \<le> l" "0 \<le> q"
    "u \<le> 2 ^ 40" "l \<le> 2 ^ 40" "q \<le> 2 ^ 40"
  shows "scaled (CalculatePoBScore [result]) \<le> 1000"
proof (cases "pt_Passed result")
  case True
  have same: "\<exists>y. f_div (f_add (Fin 0) (Fin x)) (f_of_int 1) = Fin y \<and> 0 \<le> y" if "0 \<le> x" "x \<le> 2 ^ 40" for x
  proof -
    have b: "(of_int 0 :: rat) \<le> x" "x \<le> of_int (2 ^ 40)" using that by simp_all
    note r = rnd_between [OF _ _ b, simplified]
    have b': "(of_int 0 :: rat) \<le> rnd_val x" "rnd_val x \<le> of_int (2 ^ 40)" using r by simp_all
    note r' = rnd_between [OF _ _ b', simplified]
    show ?thesis using r r' by simp
  qed
  obtain u' l' q' where e: "f_div (f_add (Fin 0) (Fin u)) (f_of_int 1) = Fin u'" "f_div (f_add (Fin 0) (Fin l)) (f_of_int 1) = Fin l'"
    "f_div (f_add (Fin 0) (Fin q)) (f_of_int 1) = Fin q'" "0 \<le> u'" "0 \<le> l'" "0 \<le> q'"
    using same assms(4-9) by metis
  have "unit_val (three_scores (Fin 7) (Fin 100) (Fin (7205759403792794 / 2 ^ 56)) (Fin u') (Fin l') (Fin q'))"
    using e(4-6) by (intro three_scores_range) (simp_all add: nonneg_def)
  then have "unit_val (three_scores MinUploadBandwidth TargetLatency TargetPacketLoss (Fin u') (Fin l') (Fin q'))"
    by (simp add: MinUploadBandwidth_def TargetLatency_def TargetPacketLoss_def lit_tenth del: f_div.simps)
  moreover have "CalculatePoBScore [result] = three_scores MinUploadBandwidth TargetLatency TargetPacketLoss (Fin u') (Fin l') (Fin q')"
    using True assms(1-3) e(1-3) by (simp add: CalculatePoBScore_def del: f_div.simps f_add.simps f_of_int_exact)
  ultimately obtain y where y: "CalculatePoBScore [result] = Fin y" "0 \<le> y" "y \<le> 1" by (auto simp: unit_val_def)
  show ?thesis unfolding y(1) by (rule scaled_between(2) [of 0]) (use y in simp_all)
next
  case False
  then show ?thesis by (simp add: CalculatePoBScore_def scaled_def f_int_def trunc_rat_def Let_def)
qed

text \<open>The cleared equation has no solution for a score of at most 1000 and metrics clearly better than the thresholds.\<close>

lemma equation_unsolvable:
  fixes s u l k :: int
  assumes "s \<le> 1000" "- (2 ^ 63) \<le> s" "7000 \<le> u" "u \<le> 2 ^ 60" "1000 \<le> l" "l \<le> 100000" "0 \<le> k" "k \<le> 101" "15000 \<le> u \<or> l \<le> 49000"
  shows "\<not> scalar_order dvd s * 3 * (700000 * l) - 1000 * (100 * l * u + 70000000000 + (100 - k) * (7000 * l))"
proof -
  let ?x = "s * 3 * (700000 * l)" and ?y = "1000 * (100 * l * u + 70000000000 + (100 - k) * (7000 * l))"
  have lu: "7000 * l \<le> l * u" "l * u \<le> 100000 * 2 ^ 60" "0 \<le> l * u"
    using assms mult_left_mono [of 7000 u l] mult_mono [of l 100000 u "2 ^ 60"] by (simp_all add: mult.commute)
  have lk: "- l \<le> (100 - k) * l" "(100 - k) * l \<le> 100 * l"
    using assms mult_right_mono [of "- 1" "100 - k" l] mult_right_mono [of "100 - k" 100 l] by simp_all
  have ls: "s * l \<le> 1000 * l" "- (2 ^ 63 * 100000) \<le> s * l"
  proof -
    show "s * l \<le> 1000 * l" using assms by (intro mult_right_mono) simp_all
    have "- (2 ^ 63) * l \<le> s * l" using assms by (intro mult_right_mono) simp_all
    moreover have "- (2 ^ 63) * 100000 \<le> - (2 ^ 63) * l" using assms(6) by simp
    ultimately show "- (2 ^ 63 * 100000) \<le> s * l" by linarith
  qed
  have x: "?x = 2100000 * (s * l)" and y: "?y = 100000 * (l * u) + 70000000000000 + 7000000 * ((100 - k) * l)"
    by (simp_all add: algebra_simps)
  have "?x < ?y"
  proof (cases "15000 \<le> u")
    case True
    then have "15000 * l \<le> l * u" using assms(5) mult_left_mono [of 15000 u l] by (simp add: mult.commute)
    then show ?thesis unfolding x y using ls lk assms(5,6) by linarith
  next
    case False
    then have "l \<le> 49000" using assms(9) by simp
    then show ?thesis unfolding x y using ls lk lu assms(5) by linarith
  qed
  moreover have "?y - ?x < scalar_order"
  proof -
    have "?y - ?x \<le> 100000 * (100000 * 2 ^ 60) + 70000000000000 + 7000000 * (100 * 100000) + 2100000 * (2 ^ 63 * 100000)"
      unfolding x y using lu lk ls assms(6) by linarith
    also have "\<dots> < scalar_order" by (simp add: scalar_order_def)
    finally show ?thesis .
  qed
  ultimately have "\<not> scalar_order dvd ?y - ?x" using zdvd_not_zless [of "?y - ?x" scalar_order] by simp
  then show ?thesis by (simp add: dvd_diff_commute)
qed

text \<open>
  A result that meets the thresholds with twice the upload rate, or half the latency, has no proof with its own
  score: the score caps what each metric contributes at one and the circuit does not. So
  \<open>GenerateProof\<close> fails for it, whatever the backend makes of the data hash.
\<close>

theorem good_results_have_no_proof:
  assumes "groth16_laws G" "NewZKProofSystem G = Inr zk" "\<forall>h. \<nexists>e. gl_field G h = Inl (Panic e)"
    and "pt_UploadBandwidth result = Fin u" "pt_Latency result = Fin l" "pt_PacketLoss result = Fin q"
    and "7 \<le> u" "u \<le> 2 ^ 40" "1 \<le> l" "l \<le> 100" "0 \<le> q" "q \<le> 1 / 10" "15 \<le> u \<or> l \<le> 49"
  shows "\<exists>e. GenerateProof G zk result (CalculatePoBScore [result]) = Inl (Error e)"
proof -
  have s: "scaled (CalculatePoBScore [result]) \<le> 1000"
    using score_at_most_one [OF assms(4-6)] assms(7-12) by simp
  have smin: "- (2 ^ 63) \<le> scaled x" for x
    by (cases "f_mul x (f_lit 1000)") (auto simp: scaled_def f_int_def Let_def)
  have uu: "7000 \<le> scaled (Fin u)" "scaled (Fin u) \<le> 1000 * 2 ^ 40" "15 \<le> u \<longrightarrow> 15000 \<le> scaled (Fin u)"
    using scaled_between [of 7000 u "1000 * 2 ^ 40"] scaled_between(1) [of 15000 u "1000 * 2 ^ 40"] assms(7,8) by auto
  have ll: "1000 \<le> scaled (Fin l)" "scaled (Fin l) \<le> 100000" "l \<le> 49 \<longrightarrow> scaled (Fin l) \<le> 49000"
    using scaled_between [of 1000 l 100000] scaled_between(2) [of 1000 l 49000] assms(9,10) by auto
  have qq: "0 \<le> scaled (Fin q)" "scaled (Fin q) \<le> 101"
    using scaled_between [of 0 q 101] assms(11,12) by auto
  have no: "\<not> Define (assignment d result (CalculatePoBScore [result]))" for d
  proof
    assume "Define (assignment d result (CalculatePoBScore [result]))"
    from cleared_equation [OF this] show False
      using equation_unsolvable [OF s smin, of "scaled (Fin u)" "scaled (Fin l)" "scaled (Fin q)"] uu ll qq assms(13)
      by (auto simp: assignment_def assms(4-6))
  qed
  obtain pk vk where keys: "gl_setup G = Inr (pk, vk)" "zk = \<lparr>zs_provingKey = pk, zs_verifyingKey = vk\<rparr>"
    using assms(2) by (auto simp: NewZKProofSystem_def split: sum.splits fail.splits)
  show ?thesis
  proof (cases "gl_field G (pt_TestDataHash result)")
    case (Inl e)
    then show ?thesis using assms(3) by (cases e) (auto simp: GenerateProof_def)
  next
    case (Inr d)
    obtain e where "gl_prove G pk (assignment d result (CalculatePoBScore [result])) = Inl (Error e)"
      using assms(1) keys(1) no [of d] unfolding groth16_laws_def by meson
    then show ?thesis using Inr by (simp add: GenerateProof_def keys(2))
  qed
qed

definition demo_good_result :: PoBTestResult where
  "demo_good_result = \<lparr>pt_CandidateID = [], pt_TesterID = [], pt_UploadBandwidth = Fin 20, pt_Latency = Fin 40, pt_PacketLoss = Fin 0,
     pt_TestDataHash = ''aa'', pt_MerkleRoot = [], pt_TransmissionTime = 0, pt_Timestamp = 0, pt_Passed = True, pt_ZKProof = []\<rparr>"

theorem good_results_have_no_proof_witness:
  "evaluatePoBResult demo_good_result \<and>
   (\<exists>e. GenerateProof demo_groth demo_system demo_good_result (CalculatePoBScore [demo_good_result]) = Inl (Error e))"
proof
  show "evaluatePoBResult demo_good_result"
    by (simp add: evaluatePoBResult_def demo_good_result_def MinUploadBandwidth_def TargetLatency_def TargetPacketLoss_def lit_tenth)
  show "\<exists>e. GenerateProof demo_groth demo_system demo_good_result (CalculatePoBScore [demo_good_result]) = Inl (Error e)"
    by (rule good_results_have_no_proof [OF demo_groth_laws demo_groth_system, of _ 20 40 0])
      (simp_all add: demo_good_result_def, simp_all add: demo_groth_def)
qed

section \<open>The verifying key\<close>

text \<open>An exported key is imported again, if the backend reads back what it writes.\<close>

lemma verifying_key_roundtrip:
  assumes "gl_write G (zs_verifyingKey zk) = Inr bs" "gl_read G bs = Inr (zs_verifyingKey zk)"
  shows "\<exists>h. ExportVerifyingKey G zk = Inr h \<and> ImportVerifyingKey G h other = (other\<lparr>zs_verifyingKey := zs_verifyingKey zk\<rparr>, Inr ())"
  using assms by (simp add: ExportVerifyingKey_def ImportVerifyingKey_def)

end
