(* ===== verification/IP_Reputation.thy ===== *)
theory IP_Reputation
  imports Network_Fairness
begin

text \<open>
  The reputation of IP addresses (\<open>pkg/network/ip_reputation.go\<close>) and the table of peer addresses
  (\<open>pkg/network/ip_tracker.go\<close>). \<open>NewP2PNetwork\<close> creates the system and starts its decay; no stream handler asks it.

  A \<open>net.IP\<close> is its bytes; \<open>String\<close>, \<open>To4\<close>, \<open>Mask\<close> and \<open>CIDRMask\<close> of the standard library are modelled. A
  multiaddress is its text. The hourly tick of \<open>StartReputationDecay\<close> is \<open>decay_tick\<close>, with one clock reading for
  the tick; the readings of the other operations are arguments.
\<close>

unbundle bit_operations_syntax

section \<open>Addresses (package net)\<close>

type_synonym net_ip = bytes

definition ip_To4 :: "net_ip \<Rightarrow> bytes option" where
  "ip_To4 ip = (if length ip = 4 then Some ip
     else if length ip = 16 \<and> take 12 ip = replicate 10 0 @ [255, 255] then Some (drop 12 ip) else None)"

definition CIDRMask :: "nat \<Rightarrow> nat \<Rightarrow> bytes" where
  "CIDRMask ones bits = map (\<lambda>i. of_nat (256 - 2 ^ (8 - min 8 (ones - 8 * i)))) [0..<bits div 8]"

definition Mask :: "net_ip \<Rightarrow> bytes \<Rightarrow> net_ip" where
  "Mask ip msk =
     (let ip' = (if length msk = 4 \<and> length ip = 16 \<and> take 12 ip = replicate 10 0 @ [255, 255] then drop 12 ip else ip)
      in if length ip' \<noteq> length msk then [] else map2 (AND) ip' msk)"

definition dotted :: "bytes \<Rightarrow> string" where
  "dotted ip = (case ip of [a, b, c, d] \<Rightarrow>
     dec_nat (unat a) @ ''.'' @ dec_nat (unat b) @ ''.'' @ dec_nat (unat c) @ ''.'' @ dec_nat (unat d) | _ \<Rightarrow> [])"

fun hex_nat :: "nat \<Rightarrow> string" where
  "hex_nat n = (if n < 16 then [hex_digit n] else hex_nat (n div 16) @ [hex_digit (n mod 16)])"

declare hex_nat.simps [simp del]

fun ip_groups :: "bytes \<Rightarrow> nat list" where
  "ip_groups (a # b # rest) = (unat a * 256 + unat b) # ip_groups rest"
| "ip_groups _ = []"

text \<open>The first of the longest runs of at least two zero groups, as its bounds.\<close>

definition zero_run :: "nat list \<Rightarrow> nat \<times> nat" where
  "zero_run gs = foldl (\<lambda>(s, e) i. let l = length (takeWhile (\<lambda>g. g = 0) (drop i gs)) in
     if 2 \<le> l \<and> e - s < l then (i, i + l) else (s, e)) (255, 255) [0..<8]"

fun colon_groups :: "nat \<times> nat \<Rightarrow> nat \<Rightarrow> nat list \<Rightarrow> string" where
  "colon_groups (s, e) i [] = []"
| "colon_groups (s, e) i (g # gs) =
     (if i = s then ''::'' @ colon_groups (s, e) (Suc i) gs
      else if s < i \<and> i < e then colon_groups (s, e) (Suc i) gs
      else (if 0 < i \<and> i \<noteq> e then '':'' else []) @ hex_nat g @ colon_groups (s, e) (Suc i) gs)"

definition show_ip :: "net_ip \<Rightarrow> string" where
  "show_ip ip =
     (if ip = [] then ''<nil>''
      else if length ip \<noteq> 4 \<and> length ip \<noteq> 16 then ''?'' @ hex ip
      else case ip_To4 ip of Some p4 \<Rightarrow> dotted p4 | None \<Rightarrow> colon_groups (zero_run (ip_groups ip)) 0 (ip_groups ip))"

section \<open>State\<close>

datatype IPReputationScore = ReputationGood | ReputationSuspicious | ReputationBad | ReputationBlacklisted

record IPMisbehavior =
  mb_Type :: string
  mb_Severity :: int
  mb_Timestamp :: gotime
  mb_Description :: string

record IPReputation =
  rp_IP :: net_ip
  rp_Score :: int
  rp_Misbehaviors :: "IPMisbehavior list"
  rp_FirstSeen :: gotime
  rp_LastSeen :: gotime
  rp_SuccessfulActions :: int
  rp_FailedActions :: int
  rp_IsBlacklisted :: bool
  rp_BlacklistReason :: string
  rp_BlacklistUntil :: gotime

record IPReputationSystem =
  ir_reputations :: "(string, IPReputation) gomap"
  ir_initialScore :: int
  ir_misbehaviorDecay :: f64
  ir_blacklistThreshold :: int
  ir_blacklistDuration :: duration
  ir_maxNodesPerSubnet :: int
  ir_subnetMask :: nat
  ir_subnetNodeCount :: "(string, int) gomap"

definition NewIPReputationSystem :: IPReputationSystem where
  "NewIPReputationSystem = \<lparr>ir_reputations = [], ir_initialScore = 100, ir_misbehaviorDecay = f_lit (1 / 10),
     ir_blacklistThreshold = 20, ir_blacklistDuration = 24 * hour, ir_maxNodesPerSubnet = 3, ir_subnetMask = 24,
     ir_subnetNodeCount = []\<rparr>"

definition getSubnet :: "nat \<Rightarrow> net_ip \<Rightarrow> string" where
  "getSubnet subnetMask ip =
     (if ip_To4 ip \<noteq> None then show_ip (Mask ip (CIDRMask subnetMask 32)) else show_ip (Mask ip (CIDRMask 64 128)))"

definition subnet_count :: "IPReputationSystem \<Rightarrow> string \<Rightarrow> int" where
  "subnet_count irs subnet = (case mget (ir_subnetNodeCount irs) subnet of None \<Rightarrow> 0 | Some n \<Rightarrow> n)"

section \<open>Operations\<close>

definition CheckIPAllowed :: "gotime \<Rightarrow> net_ip \<Rightarrow> IPReputationSystem \<Rightarrow> IPReputationSystem \<times> bool \<times> string" where
  "CheckIPAllowed now ip irs =
     (case mget (ir_reputations irs) (show_ip ip) of
        None \<Rightarrow>
          (if subnet_count irs (getSubnet (ir_subnetMask irs) ip) \<ge> ir_maxNodesPerSubnet irs
           then (irs, False, ''Sybil attack detected: too many nodes from same subnet'') else (irs, True, []))
      | Some rep \<Rightarrow>
          if rp_IsBlacklisted rep \<and> now < rp_BlacklistUntil rep then (irs, False, ''IP blacklisted: '' @ rp_BlacklistReason rep)
          else let rep' = (if rp_IsBlacklisted rep
                 then rep\<lparr>rp_IsBlacklisted := False, rp_Score := ir_blacklistThreshold irs + 5\<rparr> else rep);
               irs' = irs\<lparr>ir_reputations := mput (show_ip ip) rep' (ir_reputations irs)\<rparr>
            in if rp_Score rep' < ir_blacklistThreshold irs then (irs', False, ''IP reputation too low'') else (irs', True, []))"

text \<open>The reputation of an address after its creation, if it is new; a pointer to it is its key.\<close>

definition getOrCreateReputation :: "gotime \<Rightarrow> gotime \<Rightarrow> net_ip \<Rightarrow> IPReputationSystem \<Rightarrow> IPReputationSystem \<times> IPReputation" where
  "getOrCreateReputation firstSeen lastSeen ip irs =
     (case mget (ir_reputations irs) (show_ip ip) of
        Some rep \<Rightarrow> (irs, rep)
      | None \<Rightarrow>
          let rep = \<lparr>rp_IP = ip, rp_Score = ir_initialScore irs, rp_Misbehaviors = [], rp_FirstSeen = firstSeen, rp_LastSeen = lastSeen,
                rp_SuccessfulActions = 0, rp_FailedActions = 0, rp_IsBlacklisted = False, rp_BlacklistReason = [], rp_BlacklistUntil = 0\<rparr>;
              subnet = getSubnet (ir_subnetMask irs) ip
          in (irs\<lparr>ir_reputations := mput (show_ip ip) rep (ir_reputations irs),
                 ir_subnetNodeCount := mput subnet (subnet_count irs subnet + 1) (ir_subnetNodeCount irs)\<rparr>, rep))"

record reputation_clock =
  rc_first :: gotime
  rc_last :: gotime
  rc_event :: gotime
  rc_seen :: gotime
  rc_until :: gotime
  rc_critical :: gotime

definition punish :: "reputation_clock \<Rightarrow> int \<Rightarrow> duration \<Rightarrow> string \<Rightarrow> int \<Rightarrow> string \<Rightarrow> IPReputation \<Rightarrow> IPReputation" where
  "punish rc threshold blacklistDuration misbehaviorType severity description rep =
     (let rep1 = rep\<lparr>rp_Misbehaviors := rp_Misbehaviors rep @ [\<lparr>mb_Type = misbehaviorType, mb_Severity = severity,
              mb_Timestamp = rc_event rc, mb_Description = description\<rparr>],
            rp_FailedActions := rp_FailedActions rep + 1, rp_LastSeen := rc_seen rc,
            rp_Score := max 0 (rp_Score rep - severity * 5)\<rparr>;
          rep2 = (if rp_Score rep1 < threshold \<and> \<not> rp_IsBlacklisted rep1
            then rep1\<lparr>rp_IsBlacklisted := True, rp_BlacklistReason := ''Accumulated misbehavior: '' @ misbehaviorType,
              rp_BlacklistUntil := rc_until rc + blacklistDuration\<rparr> else rep1)
      in if severity \<ge> 8
         then rep2\<lparr>rp_IsBlacklisted := True, rp_BlacklistReason := ''Critical attack: '' @ description,
           rp_BlacklistUntil := rc_critical rc + 7 * 24 * hour\<rparr> else rep2)"

definition RecordMisbehavior :: "reputation_clock \<Rightarrow> net_ip \<Rightarrow> string \<Rightarrow> int \<Rightarrow> string \<Rightarrow> IPReputationSystem \<Rightarrow> IPReputationSystem" where
  "RecordMisbehavior rc ip misbehaviorType severity description irs =
     (let (irs1, rep) = getOrCreateReputation (rc_first rc) (rc_last rc) ip irs
      in irs1\<lparr>ir_reputations := mput (show_ip ip)
           (punish rc (ir_blacklistThreshold irs1) (ir_blacklistDuration irs1) misbehaviorType severity description rep) (ir_reputations irs1)\<rparr>)"

definition RecordSuccess :: "reputation_clock \<Rightarrow> net_ip \<Rightarrow> IPReputationSystem \<Rightarrow> IPReputationSystem" where
  "RecordSuccess rc ip irs =
     (let (irs1, rep) = getOrCreateReputation (rc_first rc) (rc_last rc) ip irs
      in irs1\<lparr>ir_reputations := mput (show_ip ip)
           (rep\<lparr>rp_SuccessfulActions := rp_SuccessfulActions rep + 1, rp_LastSeen := rc_seen rc, rp_Score := min 100 (rp_Score rep + 1)\<rparr>)
           (ir_reputations irs1)\<rparr>)"

definition GetReputation :: "net_ip \<Rightarrow> IPReputationSystem \<Rightarrow> IPReputation option" where
  "GetReputation ip irs = mget (ir_reputations irs) (show_ip ip)"

definition recover :: "gotime \<Rightarrow> int \<Rightarrow> f64 \<Rightarrow> IPReputation \<Rightarrow> IPReputation" where
  "recover now initialScore decay rep =
     (if rp_IsBlacklisted rep \<and> now < rp_BlacklistUntil rep then rep
      else let recentMisbehavior = list_ex (\<lambda>mb. mb_Timestamp mb > now - 24 * hour) (rp_Misbehaviors rep) in
        if \<not> recentMisbehavior \<and> rp_Score rep < initialScore then
          let recovery = max 1 (f_int (f_mul (f_of_int (initialScore - rp_Score rep)) decay))
          in rep\<lparr>rp_Score := min initialScore (rp_Score rep + recovery)\<rparr>
        else rep)"

definition decay_tick :: "gotime \<Rightarrow> IPReputationSystem \<Rightarrow> IPReputationSystem" where
  "decay_tick now irs =
     irs\<lparr>ir_reputations := mmap (\<lambda>_. recover now (ir_initialScore irs) (ir_misbehaviorDecay irs)) (ir_reputations irs)\<rparr>"

definition forget :: "gotime \<Rightarrow> string \<times> IPReputation \<Rightarrow> IPReputationSystem \<Rightarrow> IPReputationSystem" where
  "forget cutoff entry irs =
     (let (ipStr, rep) = entry in
      if rp_IsBlacklisted rep \<or> rp_LastSeen rep > cutoff then irs
      else if rp_Score rep \<ge> 90 \<and> rp_LastSeen rep < cutoff then
        let subnet = getSubnet (ir_subnetMask irs) (rp_IP rep); n = subnet_count irs subnet - 1
        in irs\<lparr>ir_subnetNodeCount := (if n \<le> 0 then mdel subnet (ir_subnetNodeCount irs) else mput subnet n (ir_subnetNodeCount irs)),
               ir_reputations := mdel ipStr (ir_reputations irs)\<rparr>
      else irs)"

definition CleanupOldReputations :: "gotime \<Rightarrow> IPReputationSystem \<Rightarrow> IPReputationSystem" where
  "CleanupOldReputations now irs = fold (forget (now - 30 * 24 * hour)) (ir_reputations irs) irs"

definition GetReputationStatus :: "net_ip \<Rightarrow> IPReputationSystem \<Rightarrow> IPReputationScore" where
  "GetReputationStatus ip irs =
     (case mget (ir_reputations irs) (show_ip ip) of
        None \<Rightarrow> ReputationGood
      | Some rep \<Rightarrow>
          if rp_IsBlacklisted rep then ReputationBlacklisted
          else if rp_Score rep \<ge> 80 then ReputationGood
          else if rp_Score rep \<ge> 50 then ReputationSuspicious else ReputationBad)"

section \<open>Addresses of peers\<close>

type_synonym 'p IPTracker = "('p, string) gomap"

definition NewIPTracker :: "'p IPTracker" where
  "NewIPTracker = []"

fun ip_part :: "string list \<Rightarrow> string" where
  "ip_part [] = []"
| "ip_part [part] = []"
| "ip_part (part # next # parts) = (if part = ''ip4'' \<or> part = ''ip6'' then next else ip_part (next # parts))"

definition extractIPFromMultiaddr :: "string \<Rightarrow> string" where
  "extractIPFromMultiaddr maddr = ip_part (split_at (CHR ''/'') maddr)"

fun TrackPeerIP :: "'p \<Rightarrow> string list \<Rightarrow> 'p IPTracker \<Rightarrow> 'p IPTracker \<times> string" where
  "TrackPeerIP p [] ipt = (ipt, [])"
| "TrackPeerIP p (addr # addrs) ipt =
     (let ip = extractIPFromMultiaddr addr in if ip \<noteq> [] then (mput p ip ipt, ip) else TrackPeerIP p addrs ipt)"

definition GetPeerIP :: "'p IPTracker \<Rightarrow> 'p \<Rightarrow> string" where
  "GetPeerIP ipt p = (case mget ipt p of None \<Rightarrow> [] | Some ip \<Rightarrow> ip)"

definition GetSubnet24 :: "string \<Rightarrow> string" where
  "GetSubnet24 ip = (case split_at (CHR ''.'') ip of
     a # b # c # rest \<Rightarrow> a @ ''.'' @ b @ ''.'' @ c @ ''.0/24'' | _ \<Rightarrow> ''unknown'')"

section \<open>Runs\<close>

text \<open>A sequence of operations whose clock readings lie from \<open>lo\<close> up to before \<open>hi\<close>, with severities from 0.\<close>

definition readings_in :: "gotime \<Rightarrow> gotime \<Rightarrow> reputation_clock \<Rightarrow> bool" where
  "readings_in lo hi rc \<longleftrightarrow> (\<forall>t \<in> {rc_first rc, rc_last rc, rc_event rc, rc_seen rc, rc_until rc, rc_critical rc}. lo \<le> t \<and> t < hi)"

inductive ip_run :: "gotime \<Rightarrow> gotime \<Rightarrow> IPReputationSystem \<Rightarrow> IPReputationSystem \<Rightarrow> bool" for lo hi irs where
  none: "ip_run lo hi irs irs"
| check: "ip_run lo hi irs irs1 \<Longrightarrow> lo \<le> now \<Longrightarrow> now < hi \<Longrightarrow> ip_run lo hi irs (fst (CheckIPAllowed now ip irs1))"
| misbehaviour: "ip_run lo hi irs irs1 \<Longrightarrow> readings_in lo hi rc \<Longrightarrow> 0 \<le> severity \<Longrightarrow>
    ip_run lo hi irs (RecordMisbehavior rc ip ty severity description irs1)"
| success: "ip_run lo hi irs irs1 \<Longrightarrow> readings_in lo hi rc \<Longrightarrow> ip_run lo hi irs (RecordSuccess rc ip irs1)"
| decay: "ip_run lo hi irs irs1 \<Longrightarrow> lo \<le> now \<Longrightarrow> now < hi \<Longrightarrow> ip_run lo hi irs (decay_tick now irs1)"
| cleanup: "ip_run lo hi irs irs1 \<Longrightarrow> lo \<le> now \<Longrightarrow> now < hi \<Longrightarrow> ip_run lo hi irs (CleanupOldReputations now irs1)"

section \<open>Counts of the subnets\<close>

lemma update_new: "k \<notin> fst ` set m \<Longrightarrow> AList.update k v m = m @ [(k, v)]"
  by (induction m) auto

lemma filter_mput_new: "mget m k = None \<Longrightarrow> length (filter P (mput k v m)) = length (filter P m) + (if P (k, v) then 1 else 0)"
  by (simp add: mput_def mget_None_iff update_new)

lemma filter_mput_same:
  "mget m k = Some v \<Longrightarrow> P (k, v') = P (k, v) \<Longrightarrow> length (filter P (mput k v' m)) = length (filter P m)"
  by (induction m) (auto simp: mput_def mget_def split: if_splits)

lemma filter_mdel:
  "wf_map m \<Longrightarrow> mget m k = Some v \<Longrightarrow> length (filter P m) = length (filter P (mdel k m)) + (if P (k, v) then 1 else 0)"
proof (induction m)
  case (Cons e m)
  show ?case
  proof (cases "fst e = k")
    case True
    then have "e = (k, v)" "mdel k m = m" using Cons.prems by (cases e; simp add: mdel_def delete_id)+
    then show ?thesis by (simp add: mdel_def)
  next
    case False
    then have "mget m k = Some v" "wf_map m" using Cons.prems by (cases e; simp)+
    then show ?thesis using Cons.IH False by (cases e) (simp add: mdel_def)
  qed
qed simp

definition in_subnet :: "string \<Rightarrow> string \<times> IPReputation \<Rightarrow> bool" where
  "in_subnet subnet entry \<longleftrightarrow> getSubnet 24 (rp_IP (snd entry)) = subnet"

definition counts_exact :: "IPReputationSystem \<Rightarrow> bool" where
  "counts_exact irs \<longleftrightarrow> wf_map (ir_reputations irs) \<and> ir_subnetMask irs = 24 \<and>
     (\<forall>subnet. subnet_count irs subnet = int (length (filter (in_subnet subnet) (ir_reputations irs))))"

definition scores_in_range :: "IPReputationSystem \<Rightarrow> bool" where
  "scores_in_range irs \<longleftrightarrow> ir_initialScore irs = 100 \<and> ir_blacklistThreshold irs = 20 \<and>
     (\<forall>(k, rep) \<in> set (ir_reputations irs). 0 \<le> rp_Score rep \<and> rp_Score rep \<le> 100)"

lemma exact_put:
  assumes "counts_exact irs" "mget (ir_reputations irs) k = Some rep" "rp_IP rep' = rp_IP rep"
  shows "counts_exact (irs\<lparr>ir_reputations := mput k rep' (ir_reputations irs)\<rparr>)"
  using assms filter_mput_same [OF assms(2), of _ rep']
  by (auto simp: counts_exact_def subnet_count_def in_subnet_def wf_mput)

lemma range_put:
  assumes "scores_in_range irs" "0 \<le> rp_Score rep" "rp_Score rep \<le> 100"
  shows "scores_in_range (irs\<lparr>ir_reputations := mput k rep (ir_reputations irs)\<rparr>)"
  using assms set_mput_subset [of k rep "ir_reputations irs"] by (auto simp: scores_in_range_def)

lemma created:
  assumes "counts_exact irs" "scores_in_range irs" "getOrCreateReputation a b ip irs = (irs', rep)"
  shows "counts_exact irs'" "scores_in_range irs'" "mget (ir_reputations irs') (show_ip ip) = Some rep"
    "0 \<le> rp_Score rep" "rp_Score rep \<le> 100"
proof -
  have "counts_exact irs' \<and> scores_in_range irs' \<and> mget (ir_reputations irs') (show_ip ip) = Some rep \<and> 0 \<le> rp_Score rep \<and> rp_Score rep \<le> 100"
  proof (cases "mget (ir_reputations irs) (show_ip ip)")
    case None
    then have irs': "irs' = irs\<lparr>ir_reputations := mput (show_ip ip) rep (ir_reputations irs),
        ir_subnetNodeCount := mput (getSubnet 24 ip) (subnet_count irs (getSubnet 24 ip) + 1) (ir_subnetNodeCount irs)\<rparr>"
      and rep: "rp_IP rep = ip" "rp_Score rep = 100"
      using assms by (auto simp: getOrCreateReputation_def Let_def counts_exact_def scores_in_range_def)
    have "counts_exact irs'"
      using assms(1) filter_mput_new [OF None] by (auto simp: irs' counts_exact_def subnet_count_def in_subnet_def rep mget_mput wf_mput)
    moreover have "scores_in_range irs'"
      using range_put [OF assms(2), of rep "show_ip ip"] by (simp add: irs' rep scores_in_range_def)
    ultimately show ?thesis by (simp add: irs' rep mget_mput)
  next
    case (Some r)
    then have "irs' = irs" "rep = r" using assms(3) by (simp_all add: getOrCreateReputation_def)
    then show ?thesis using assms Some mget_in_set [OF Some] by (auto simp: scores_in_range_def)
  qed
  then show "counts_exact irs'" "scores_in_range irs'" "mget (ir_reputations irs') (show_ip ip) = Some rep"
    "0 \<le> rp_Score rep" "rp_Score rep \<le> 100" by blast+
qed

lemma punish_keeps: "rp_IP (punish rc th d ty sev de rep) = rp_IP rep"
  "0 \<le> sev \<Longrightarrow> rp_Score rep \<le> 100 \<Longrightarrow> 0 \<le> rp_Score (punish rc th d ty sev de rep) \<and> rp_Score (punish rc th d ty sev de rep) \<le> 100"
  by (simp_all add: punish_def Let_def)

lemma forget_exact:
  assumes "counts_exact irs" "e \<in> set (ir_reputations irs)"
  shows "counts_exact (forget cutoff e irs)"
proof -
  obtain k rep where e: "e = (k, rep)" by (cases e)
  have "wf_map (ir_reputations irs)" and get: "mget (ir_reputations irs) k = Some rep"
    using assms mget_of_set unfolding e by (auto simp: counts_exact_def)
  note del = filter_mdel [OF this]
  let ?s = "getSubnet 24 (rp_IP rep)"
  have one: "1 \<le> subnet_count irs ?s" using assms(1) del [of "in_subnet ?s"] by (simp add: counts_exact_def in_subnet_def)
  have n: "int (length (filter (in_subnet s) (mdel k (ir_reputations irs)))) = subnet_count irs s - (if ?s = s then 1 else 0)" for s
    using assms(1) del [of "in_subnet s"] by (simp add: counts_exact_def in_subnet_def)
  show ?thesis
    using assms(1) one by (auto simp: forget_def e Let_def counts_exact_def n) (auto simp: subnet_count_def mget_mput mget_mdel wf_mdel)
qed

text \<open>An entry stays until its own turn.\<close>

lemma set_mdel: "set (mdel k m) = {e \<in> set m. fst e \<noteq> k}"
  by (induction m) (auto simp: mdel_def)

lemma forget_entries: "(k', r) \<in> set (ir_reputations irs) \<Longrightarrow> k' \<noteq> fst e \<Longrightarrow> (k', r) \<in> set (ir_reputations (forget cutoff e irs))"
  by (auto simp: forget_def Let_def set_mdel split: prod.splits)

lemma forget_subset: "set (ir_reputations (forget cutoff e irs)) \<subseteq> set (ir_reputations irs)"
  by (auto simp: forget_def Let_def set_mdel split: prod.splits)

lemma forget_config: "ir_initialScore (forget cutoff e irs) = ir_initialScore irs" "ir_blacklistThreshold (forget cutoff e irs) = ir_blacklistThreshold irs"
  by (auto simp: forget_def Let_def split: prod.splits)

lemma forget_all:
  "wf_map es \<Longrightarrow> set es \<subseteq> set (ir_reputations irs) \<Longrightarrow> counts_exact irs \<Longrightarrow> scores_in_range irs \<Longrightarrow>
   counts_exact (fold (forget cutoff) es irs) \<and> scores_in_range (fold (forget cutoff) es irs)"
proof (induction es arbitrary: irs)
  case (Cons e es)
  have "counts_exact (forget cutoff e irs)" using forget_exact Cons.prems by simp
  moreover have "scores_in_range (forget cutoff e irs)"
    using Cons.prems(4) forget_subset [of cutoff e irs] by (auto simp: scores_in_range_def forget_config)
  moreover have "set es \<subseteq> set (ir_reputations (forget cutoff e irs))"
  proof
    fix x
    assume x: "x \<in> set es"
    then have "fst x \<in> fst ` set es" by simp
    moreover have "fst e \<notin> fst ` set es" using Cons.prems(1) by simp
    ultimately have "fst x \<noteq> fst e" by metis
    then show "x \<in> set (ir_reputations (forget cutoff e irs))" using forget_entries [of "fst x" "snd x" irs e cutoff] x Cons.prems(2) by auto
  qed
  ultimately show ?case using Cons by simp
qed simp

lemma filter_mmap: "(\<And>k v. P (k, f k v) = P (k, v)) \<Longrightarrow> length (filter P (mmap f m)) = length (filter P m)"
  by (induction m) (auto simp: mmap_def)

lemma recover_keeps: "rp_IP (recover now i d rep) = rp_IP rep"
  "i = 100 \<Longrightarrow> 0 \<le> rp_Score rep \<Longrightarrow> rp_Score rep \<le> 100 \<Longrightarrow> 0 \<le> rp_Score (recover now i d rep) \<and> rp_Score (recover now i d rep) \<le> 100"
  by (auto simp: recover_def Let_def max_def)

lemma decay_keeps:
  assumes "counts_exact irs" "scores_in_range irs"
  shows "counts_exact (decay_tick now irs)" "scores_in_range (decay_tick now irs)"
proof -
  let ?f = "\<lambda>_ :: string. recover now (ir_initialScore irs) (ir_misbehaviorDecay irs)"
  have "length (filter (in_subnet s) (mmap ?f m)) = length (filter (in_subnet s) m)" for s m
    by (rule filter_mmap) (simp add: in_subnet_def recover_keeps(1))
  then show "counts_exact (decay_tick now irs)" using assms(1) by (simp add: counts_exact_def decay_tick_def subnet_count_def)
  show "scores_in_range (decay_tick now irs)"
    using assms(2) recover_keeps(2) by (fastforce simp: scores_in_range_def decay_tick_def mmap_def)
qed

lemma check_keeps:
  assumes "counts_exact irs" "scores_in_range irs"
  shows "counts_exact (fst (CheckIPAllowed now ip irs)) \<and> scores_in_range (fst (CheckIPAllowed now ip irs))"
proof (cases "mget (ir_reputations irs) (show_ip ip)")
  case (Some rep)
  have "0 \<le> rp_Score rep \<and> rp_Score rep \<le> 100" using assms(2) mget_in_set [OF Some] by (auto simp: scores_in_range_def)
  moreover have "ir_blacklistThreshold irs = 20" using assms(2) by (simp add: scores_in_range_def)
  ultimately show ?thesis
    using assms exact_put [OF assms(1) Some] range_put [OF assms(2)] Some by (simp add: CheckIPAllowed_def Let_def)
qed (use assms in \<open>simp add: CheckIPAllowed_def\<close>)

lemma ip_run_keeps:
  "ip_run lo hi irs irs' \<Longrightarrow> counts_exact irs \<Longrightarrow> scores_in_range irs \<Longrightarrow> counts_exact irs' \<and> scores_in_range irs'"
proof (induction rule: ip_run.induct)
  case (check irs1 now ip)
  then show ?case using check_keeps by blast
next
  case (misbehaviour irs1 rc severity ip ty description)
  obtain irs2 rep where c: "getOrCreateReputation (rc_first rc) (rc_last rc) ip irs1 = (irs2, rep)"
    by (cases "getOrCreateReputation (rc_first rc) (rc_last rc) ip irs1")
  have pre: "counts_exact irs1" "scores_in_range irs1" using misbehaviour by simp_all
  note g = created [OF pre c]
  show ?case
    using exact_put [OF g(1,3)] range_put [OF g(2)] punish_keeps misbehaviour.hyps(3) g(5) by (simp add: RecordMisbehavior_def c)
next
  case (success irs1 rc ip)
  obtain irs2 rep where c: "getOrCreateReputation (rc_first rc) (rc_last rc) ip irs1 = (irs2, rep)"
    by (cases "getOrCreateReputation (rc_first rc) (rc_last rc) ip irs1")
  have pre: "counts_exact irs1" "scores_in_range irs1" using success by simp_all
  note g = created [OF pre c]
  show ?case using exact_put [OF g(1,3)] range_put [OF g(2)] g(4) by (simp add: RecordSuccess_def c)
next
  case (decay irs1 now)
  then show ?case using decay_keeps by blast
next
  case (cleanup irs1 now)
  then show ?case using forget_all [of "ir_reputations irs1" irs1] by (simp add: CleanupOldReputations_def counts_exact_def)
qed simp

text \<open>
  In every reachable system the count of a subnet is the number of the addresses in it that have a reputation,
  whatever has been cleaned up, and every score lies between 0 and 100.
\<close>

theorem subnet_count_exact:
  assumes "ip_run lo hi NewIPReputationSystem irs"
  shows "subnet_count irs subnet = int (length (filter (in_subnet subnet) (ir_reputations irs)))"
    and "(k, rep) \<in> set (ir_reputations irs) \<Longrightarrow> 0 \<le> rp_Score rep \<and> rp_Score rep \<le> 100"
proof -
  have "counts_exact NewIPReputationSystem" "scores_in_range NewIPReputationSystem"
    by (simp_all add: counts_exact_def scores_in_range_def NewIPReputationSystem_def subnet_count_def)
  from ip_run_keeps [OF assms this] show "subnet_count irs subnet = int (length (filter (in_subnet subnet) (ir_reputations irs)))"
    "(k, rep) \<in> set (ir_reputations irs) \<Longrightarrow> 0 \<le> rp_Score rep \<and> rp_Score rep \<le> 100"
    by (auto simp: counts_exact_def scores_in_range_def)
qed

section \<open>Critical attacks\<close>

lemma forget_banned:
  "wf_map es \<Longrightarrow> mget (ir_reputations irs) key = Some rep \<Longrightarrow> (\<forall>r. (key, r) \<in> set es \<longrightarrow> rp_IsBlacklisted r) \<Longrightarrow>
   mget (ir_reputations (fold (forget cutoff) es irs)) key = Some rep"
proof (induction es arbitrary: irs)
  case (Cons e es)
  obtain k r where e: "e = (k, r)" by (cases e)
  have "mget (ir_reputations (forget cutoff e irs)) key = Some rep"
  proof (cases "rp_IsBlacklisted r")
    case False
    then have "k \<noteq> key" using Cons.prems(3) e by auto
    then show ?thesis using Cons.prems(2) by (simp add: forget_def e Let_def mget_mdel)
  qed (use Cons.prems(2) in \<open>simp add: forget_def e\<close>)
  moreover have "wf_map es" "\<forall>r. (key, r) \<in> set es \<longrightarrow> rp_IsBlacklisted r" using Cons.prems(1,3) by simp_all
  ultimately show ?case using Cons.IH by simp
qed simp

lemma wf_forget: "wf_map (ir_reputations irs) \<Longrightarrow> wf_map (ir_reputations (fold (forget cutoff) es irs))"
proof (induction es arbitrary: irs)
  case (Cons e es)
  have "wf_map (ir_reputations (forget cutoff e irs))" using Cons.prems by (cases e) (auto simp: forget_def Let_def wf_mdel)
  then show ?case using Cons.IH by simp
qed simp

definition banned_until :: "gotime \<Rightarrow> string \<Rightarrow> IPReputationSystem \<Rightarrow> bool" where
  "banned_until hi key irs \<longleftrightarrow> wf_map (ir_reputations irs) \<and>
     (\<exists>rep. mget (ir_reputations irs) key = Some rep \<and> rp_IsBlacklisted rep \<and> hi \<le> rp_BlacklistUntil rep)"

lemma create_keeps_ban: "banned_until hi key irs \<Longrightarrow> getOrCreateReputation a b ip irs = (irs', rep) \<Longrightarrow>
  banned_until hi key irs' \<and> mget (ir_reputations irs') (show_ip ip) = Some rep"
  by (auto simp: getOrCreateReputation_def banned_until_def Let_def mget_mput wf_mput split: option.splits)

lemma put_keeps_ban:
  assumes "banned_until hi key irs" "mget (ir_reputations irs) k = Some rep" "\<lbrakk>rp_IsBlacklisted rep; hi \<le> rp_BlacklistUntil rep\<rbrakk> \<Longrightarrow> rp_IsBlacklisted rep' \<and> hi \<le> rp_BlacklistUntil rep'"
  shows "banned_until hi key (irs\<lparr>ir_reputations := mput k rep' (ir_reputations irs)\<rparr>)"
  using assms by (auto simp: banned_until_def mget_mput wf_mput)

lemma run_keeps_ban: "ip_run lo hi irs irs' \<Longrightarrow> hi = lo + 7 * 24 * hour \<Longrightarrow> banned_until hi key irs \<Longrightarrow> banned_until hi key irs'"
proof (induction rule: ip_run.induct)
  case (check irs1 now ip)
  then have b: "banned_until hi key irs1" by simp
  show ?case
  proof (cases "mget (ir_reputations irs1) (show_ip ip)")
    case (Some rep)
    show ?thesis
      using put_keeps_ban [OF b Some] b Some check.hyps(3) by (auto simp: CheckIPAllowed_def Let_def)
  qed (use b in \<open>simp add: CheckIPAllowed_def\<close>)
next
  case (misbehaviour irs1 rc severity ip ty description)
  obtain irs2 rep where c: "getOrCreateReputation (rc_first rc) (rc_last rc) ip irs1 = (irs2, rep)"
    by (cases "getOrCreateReputation (rc_first rc) (rc_last rc) ip irs1")
  have b: "banned_until hi key irs2" "mget (ir_reputations irs2) (show_ip ip) = Some rep"
    using create_keeps_ban [OF _ c] misbehaviour by blast+
  show ?case
    using put_keeps_ban [OF b] misbehaviour.hyps(2) misbehaviour.prems(1)
    by (auto simp: RecordMisbehavior_def c punish_def Let_def readings_in_def)
next
  case (success irs1 rc ip)
  obtain irs2 rep where c: "getOrCreateReputation (rc_first rc) (rc_last rc) ip irs1 = (irs2, rep)"
    by (cases "getOrCreateReputation (rc_first rc) (rc_last rc) ip irs1")
  have b: "banned_until hi key irs2" "mget (ir_reputations irs2) (show_ip ip) = Some rep"
    using create_keeps_ban [OF _ c] success by blast+
  show ?case using put_keeps_ban [OF b] by (simp add: RecordSuccess_def c)
next
  case (decay irs1 now)
  then obtain rep where r: "mget (ir_reputations irs1) key = Some rep" "rp_IsBlacklisted rep" "hi \<le> rp_BlacklistUntil rep" "wf_map (ir_reputations irs1)"
    by (auto simp: banned_until_def)
  then have "recover now i d rep = rep" for i d using decay.hyps(3) by (simp add: recover_def)
  then show ?case using r by (simp add: banned_until_def decay_tick_def mget_mmap)
next
  case (cleanup irs1 now)
  then obtain rep where r: "mget (ir_reputations irs1) key = Some rep" "rp_IsBlacklisted rep" "hi \<le> rp_BlacklistUntil rep" "wf_map (ir_reputations irs1)"
    by (auto simp: banned_until_def)
  have "\<forall>r. (key, r) \<in> set (ir_reputations irs1) \<longrightarrow> rp_IsBlacklisted r" using r mget_of_set by force
  from forget_banned [OF r(4,1) this] show ?case
    using r by (auto simp: banned_until_def CleanupOldReputations_def wf_forget)
qed simp

text \<open>
  C39: An address reported for a critical attack is refused for seven days, whatever the node records, forgives,
  checks or cleans up in the meantime.
\<close>

theorem critical_attack_bans:
  assumes "ip_run lo0 hi0 NewIPReputationSystem irs" "8 \<le> severity"
    and "ip_run (rc_critical rc) (rc_critical rc + 7 * 24 * hour) (RecordMisbehavior rc ip ty severity description irs) irs'"
    and "rc_critical rc \<le> now" "now < rc_critical rc + 7 * 24 * hour"
  shows "\<not> fst (snd (CheckIPAllowed now ip irs'))"
proof -
  let ?hi = "rc_critical rc + 7 * 24 * hour"
  have "counts_exact NewIPReputationSystem" "scores_in_range NewIPReputationSystem"
    by (simp_all add: counts_exact_def scores_in_range_def NewIPReputationSystem_def subnet_count_def)
  from ip_run_keeps [OF assms(1) this] have "wf_map (ir_reputations irs)" by (simp add: counts_exact_def)
  then have "banned_until ?hi (show_ip ip) (RecordMisbehavior rc ip ty severity description irs)"
    using assms(2) by (auto simp: banned_until_def RecordMisbehavior_def getOrCreateReputation_def punish_def Let_def mget_mput wf_mput split: option.splits)
  from run_keeps_ban [OF assms(3) refl this] show ?thesis
    using assms(5) by (auto simp: banned_until_def CheckIPAllowed_def)
qed

definition demo_clock :: reputation_clock where
  "demo_clock = \<lparr>rc_first = 0, rc_last = 0, rc_event = 0, rc_seen = 0, rc_until = 0, rc_critical = 0\<rparr>"

definition demo_attacked :: IPReputationSystem where
  "demo_attacked = RecordMisbehavior demo_clock [192, 0, 2, 7] ''byzantine'' 10 ''double vote'' NewIPReputationSystem"

lemma demo_readings: "readings_in 0 1 demo_clock" "readings_in 0 (7 * 24 * hour) demo_clock"
  by (simp_all add: readings_in_def demo_clock_def hour_def minute_def second_def)

theorem subnet_count_exact_witness:
  "subnet_count demo_attacked ''192.0.2.0'' = int (length (filter (in_subnet ''192.0.2.0'') (ir_reputations demo_attacked))) \<and>
   (\<forall>(k, rep) \<in> set (ir_reputations demo_attacked). 0 \<le> rp_Score rep \<and> rp_Score rep \<le> 100)"
proof -
  have run: "ip_run 0 1 NewIPReputationSystem demo_attacked"
    unfolding demo_attacked_def by (rule ip_run.misbehaviour [OF ip_run.none demo_readings(1)]) simp
  show ?thesis using subnet_count_exact(1) [OF run] subnet_count_exact(2) [OF run] by auto
qed

theorem critical_attack_bans_witness:
  "\<not> fst (snd (CheckIPAllowed 5 [192, 0, 2, 7] (RecordSuccess demo_clock [192, 0, 2, 7] demo_attacked)))"
proof -
  have "ip_run (rc_critical demo_clock) (rc_critical demo_clock + 7 * 24 * hour) demo_attacked (RecordSuccess demo_clock [192, 0, 2, 7] demo_attacked)"
    by (rule ip_run.success [OF ip_run.none]) (use demo_readings(2) in \<open>simp add: demo_clock_def\<close>)
  from critical_attack_bans [OF ip_run.none _ this [unfolded demo_attacked_def], of 5] show ?thesis
    by (simp add: demo_attacked_def demo_clock_def hour_def minute_def second_def)
qed

section \<open>Expired bans\<close>

text \<open>The first check after a ban has expired lifts it and leaves the score 25.\<close>

lemma expired_ban_lifted:
  assumes "mget (ir_reputations irs) (show_ip ip) = Some rep" "rp_IsBlacklisted rep" "rp_BlacklistUntil rep \<le> now" "0 \<le> ir_blacklistThreshold irs"
  shows "CheckIPAllowed now ip irs =
    (irs\<lparr>ir_reputations := mput (show_ip ip) (rep\<lparr>rp_IsBlacklisted := False, rp_Score := ir_blacklistThreshold irs + 5\<rparr>) (ir_reputations irs)\<rparr>, True, [])"
  using assms by (simp add: CheckIPAllowed_def)

lemma show_ip_examples:
  "show_ip [192, 0, 2, 7] = ''192.0.2.7''" "getSubnet 24 [192, 0, 2, 7] = ''192.0.2.0''"
  by (simp_all add: show_ip_def getSubnet_def ip_To4_def Mask_def CIDRMask_def dotted_def dec_nat.simps digit_def upt_rec) code_simp+

end
