(* ===== verification/Gossip.thy ===== *)
theory Gossip
  imports Core_Types
begin

text \<open>
  The gossip protocol (\<open>pkg/network/gossip.go\<close>): which messages a node processes, the peers it passes them on
  to, and the cleanup of the identifiers it has seen. \<open>main.go\<close> creates the protocol and leaves it unused.

  The random numbers of the selection are a sequence \<open>draw\<close>. The metadata of a message, empty in every message that
  \<open>CreateMessage\<close> makes, is left out.
\<close>

section \<open>Messages and state\<close>

record GossipMessage =
  gm_MessageID :: string
  gm_Type :: string
  gm_Payload :: bytes
  gm_TTL :: int
  gm_Timestamp :: gotime
  gm_SenderID :: string

record GossipProtocol =
  gp_seenMessages :: "(string, gotime) gomap"
  gp_fanout :: int
  gp_maxTTL :: int
  gp_cleanupPeriod :: duration

definition NewGossipProtocol :: "int \<Rightarrow> int \<Rightarrow> GossipProtocol" where
  "NewGossipProtocol fanout maxTTL =
     \<lparr>gp_seenMessages = [], gp_fanout = fanout, gp_maxTTL = maxTTL, gp_cleanupPeriod = 5 * minute\<rparr>"

text \<open>The identifier is the hexadecimal text of 16 random bytes.\<close>

definition generateMessageID :: "bytes \<Rightarrow> string" where
  "generateMessageID random = hex random"

definition CreateMessage :: "bytes \<Rightarrow> gotime \<Rightarrow> string \<Rightarrow> bytes \<Rightarrow> string \<Rightarrow> GossipProtocol \<Rightarrow> GossipMessage" where
  "CreateMessage random now msgType payload senderID gp =
     \<lparr>gm_MessageID = generateMessageID random, gm_Type = msgType, gm_Payload = payload, gm_TTL = gp_maxTTL gp,
      gm_Timestamp = now, gm_SenderID = senderID\<rparr>"

definition ShouldProcess :: "gotime \<Rightarrow> gotime \<Rightarrow> GossipMessage \<Rightarrow> GossipProtocol \<Rightarrow> GossipProtocol \<times> bool" where
  "ShouldProcess now seen msg gp =
     (if mhas (gp_seenMessages gp) (gm_MessageID msg) then (gp, False)
      else if gm_TTL msg \<le> 0 then (gp, False)
      else if time_sub now (gm_Timestamp msg) > 1 * minute then (gp, False)
      else (gp\<lparr>gp_seenMessages := mput (gm_MessageID msg) seen (gp_seenMessages gp)\<rparr>, True))"

definition DecrementTTL :: "GossipMessage \<Rightarrow> GossipMessage" where
  "DecrementTTL msg = msg\<lparr>gm_TTL := gm_TTL msg - 1\<rparr>"

text \<open>The loop draws until it has an index it has not used; it may not end.\<close>

partial_function (option) pick_distinct ::
  "(nat \<Rightarrow> nat) \<Rightarrow> 'p list \<Rightarrow> nat \<Rightarrow> nat \<Rightarrow> nat list \<Rightarrow> 'p list \<Rightarrow> 'p list option" where
  "pick_distinct draw available fanout k used selected =
     (if length selected < fanout then
        (if draw k \<notin> set used
         then pick_distinct draw available fanout (Suc k) (draw k # used) (selected @ [available ! draw k])
         else pick_distinct draw available fanout (Suc k) used selected)
      else Some selected)"

definition SelectPeersForGossip :: "(nat \<Rightarrow> nat) \<Rightarrow> 'p list \<Rightarrow> 'p \<Rightarrow> GossipProtocol \<Rightarrow> 'p list res option" where
  "SelectPeersForGossip draw allPeers excludePeer gp =
     (let available = filter (\<lambda>p. p \<noteq> excludePeer) allPeers in
      if int (length available) \<le> gp_fanout gp then Some (Inr available)
      else if gp_fanout gp < 0 then Some (Inl (Panic ''makeslice: len out of range''))
      else map_option Inr (pick_distinct draw available (nat (gp_fanout gp)) 0 [] []))"

definition cleanupOldMessages :: "gotime \<Rightarrow> GossipProtocol \<Rightarrow> GossipProtocol" where
  "cleanupOldMessages now gp =
     gp\<lparr>gp_seenMessages := mkeep (\<lambda>_ t. \<not> t < now - 10 * minute) (gp_seenMessages gp)\<rparr>"

definition Gossip_GetStats :: "GossipProtocol \<Rightarrow> int \<times> int \<times> int" where
  "Gossip_GetStats gp = (int (mlen (gp_seenMessages gp)), gp_fanout gp, gp_maxTTL gp)"

section \<open>The peers of a message\<close>

lemma pick_next:
  assumes "length selected < fanout" "draw j \<notin> set used" "k \<le> j" "\<forall>i. k \<le> i \<and> i < j \<longrightarrow> draw i \<in> set used"
  shows "pick_distinct draw available fanout k used selected =
    pick_distinct draw available fanout (Suc j) (draw j # used) (selected @ [available ! draw j])"
  using assms(3,4)
proof (induction "j - k" arbitrary: k)
  case 0
  then show ?case using assms(1,2) by (subst pick_distinct.simps) simp
next
  case (Suc d)
  then have "draw k \<in> set used" "Suc k \<le> j" "\<forall>i. Suc k \<le> i \<and> i < j \<longrightarrow> draw i \<in> set used" by auto
  then have "pick_distinct draw available fanout (Suc k) used selected =
      pick_distinct draw available fanout (Suc j) (draw j # used) (selected @ [available ! draw j])"
    using Suc.hyps(1) [of "Suc k"] Suc.hyps(2) by simp
  then show ?case using assms(1) \<open>draw k \<in> set used\<close> by (subst pick_distinct.simps) simp
qed

lemma pick_returns:
  assumes "\<forall>i < length available. \<forall>k. \<exists>j \<ge> k. draw j = i" "\<forall>k. draw k < length available"
  shows "fanout \<le> length available \<Longrightarrow> distinct used \<Longrightarrow> set used \<subseteq> {..<length available} \<Longrightarrow> selected = map ((!) available) (rev used) \<Longrightarrow>
    length used \<le> fanout \<Longrightarrow>
    \<exists>js. pick_distinct draw available fanout k used selected = Some (map ((!) available) js) \<and> distinct js \<and>
      set js \<subseteq> {..<length available} \<and> length js = fanout"
proof (induction "fanout - length used" arbitrary: k used selected)
  case 0
  then have len: "length used = fanout" "\<not> length selected < fanout" by simp_all
  have "pick_distinct draw available fanout k used selected = Some selected" using len(2) by (subst pick_distinct.simps) simp
  then show ?case using 0 len(1) by (intro exI [of _ "rev used"]) simp
next
  case (Suc d)
  have "card (set used) < card {..<length available}" using Suc.hyps(2) Suc.prems(1,2) by (simp add: distinct_card)
  then have "\<not> {..<length available} \<subseteq> set used" using card_mono [of "set used" "{..<length available}"] by auto
  then obtain i where i: "i < length available" "i \<notin> set used" by blast
  then obtain j0 where j0: "j0 \<ge> k" "draw j0 = i" using assms(1) by blast
  then have j0: "k \<le> j0" "draw j0 \<notin> set used" using i(2) by simp_all
  define j where "j = (LEAST j. k \<le> j \<and> draw j \<notin> set used)"
  have j: "k \<le> j \<and> draw j \<notin> set used" unfolding j_def by (rule LeastI [of _ j0]) (use j0 in simp)
  have before: "\<forall>i. k \<le> i \<and> i < j \<longrightarrow> draw i \<in> set used" using not_less_Least unfolding j_def by blast
  have len: "length selected < fanout" using Suc.hyps(2) Suc.prems(4) by simp
  have "\<exists>js. pick_distinct draw available fanout (Suc j) (draw j # used) (selected @ [available ! draw j]) = Some (map ((!) available) js) \<and>
      distinct js \<and> set js \<subseteq> {..<length available} \<and> length js = fanout"
  proof (rule Suc.hyps(1))
    show "d = fanout - length (draw j # used)" using Suc.hyps(2) by simp
    show "set (draw j # used) \<subseteq> {..<length available}" using Suc.prems(3) assms(2) by simp
    show "selected @ [available ! draw j] = map ((!) available) (rev (draw j # used))" using Suc.prems(4) by simp
    show "length (draw j # used) \<le> fanout" using Suc.hyps(2) by simp
  qed (use Suc.prems(1,2) j in simp_all)
  then show ?case by (simp only: pick_next [OF len conjunct2 [OF j] conjunct1 [OF j] before])
qed

text \<open>
  With more candidates than the fan-out, and random numbers that keep hitting every candidate, the
  selection ends with as many different peers as the fan-out, none of them the sender.
\<close>

theorem gossip_selection:
  assumes "distinct allPeers" "0 \<le> gp_fanout gp"
    and "\<forall>i < length (filter (\<lambda>p. p \<noteq> excludePeer) allPeers). \<forall>k. \<exists>j \<ge> k. draw j = i"
    and "\<forall>k. draw k < length (filter (\<lambda>p. p \<noteq> excludePeer) allPeers)"
  shows "\<exists>ps. SelectPeersForGossip draw allPeers excludePeer gp = Some (Inr ps) \<and> distinct ps \<and>
    set ps \<subseteq> set allPeers - {excludePeer} \<and>
    int (length ps) = min (gp_fanout gp) (int (length (filter (\<lambda>p. p \<noteq> excludePeer) allPeers)))"
proof -
  let ?a = "filter (\<lambda>p. p \<noteq> excludePeer) allPeers"
  have d: "distinct ?a" using assms(1) by simp
  show ?thesis
  proof (cases "int (length ?a) \<le> gp_fanout gp")
    case True
    then show ?thesis using d by (auto simp: SelectPeersForGossip_def)
  next
    case False
    have "\<exists>js. pick_distinct draw ?a (nat (gp_fanout gp)) 0 [] [] = Some (map ((!) ?a) js) \<and> distinct js \<and>
        set js \<subseteq> {..<length ?a} \<and> length js = nat (gp_fanout gp)"
      by (rule pick_returns [OF assms(3,4)]) (use False in simp_all)
    then obtain js where js: "pick_distinct draw ?a (nat (gp_fanout gp)) 0 [] [] = Some (map ((!) ?a) js)" "distinct js"
      "set js \<subseteq> {..<length ?a}" "length js = nat (gp_fanout gp)" by blast
    have d': "distinct (map ((!) ?a) js)" using js(2,3) inj_on_nth [OF d, of "set js"] by (auto simp: distinct_map)
    have "?a ! i \<in> set ?a" if "i \<in> set js" for i using that js(3) by (intro nth_mem) auto
    then have "set (map ((!) ?a) js) \<subseteq> set ?a" by auto
    moreover note d'
    moreover have "set ?a = set allPeers - {excludePeer}" by auto
    ultimately have "distinct (map ((!) ?a) js)" "set (map ((!) ?a) js) \<subseteq> set allPeers - {excludePeer}" by simp_all
    then show ?thesis using js assms(2) False by (simp add: SelectPeersForGossip_def)
  qed
qed

theorem gossip_selection_witness:
  "\<exists>ps. SelectPeersForGossip (\<lambda>k. k mod 3) [''a'', ''b'', ''c'', ''d''] ''b'' (NewGossipProtocol 2 5) = Some (Inr ps) \<and> distinct ps \<and>
    set ps \<subseteq> set [''a'', ''b'', ''c'', ''d''] - {''b''} \<and> length ps = 2"
proof -
  let ?a = "filter (\<lambda>p. p \<noteq> ''b'') [''a'', ''b'', ''c'', ''d'']"
  have len: "length ?a = 3" by simp
  have "\<exists>j \<ge> k. j mod 3 = i" if "i < 3" for i k :: nat
    using that by (intro exI [of _ "3 * k + i"]) simp
  then have "\<forall>i < length ?a. \<forall>k. \<exists>j \<ge> k. j mod 3 = i" "\<forall>k. k mod 3 < length ?a" unfolding len by simp_all
  from gossip_selection [OF _ _ this, of "NewGossipProtocol 2 5"] show ?thesis
    unfolding len by (simp add: NewGossipProtocol_def)
qed

section \<open>One processing per message\<close>

text \<open>A run between two times: messages of any content and cleanups, with clock readings that do not go back.\<close>

inductive gossip_run :: "gotime \<Rightarrow> GossipProtocol \<Rightarrow> gotime \<Rightarrow> GossipProtocol \<Rightarrow> bool" for t0 gp0 where
  start: "gossip_run t0 gp0 t0 gp0"
| received: "gossip_run t0 gp0 t gp \<Longrightarrow> t \<le> now \<Longrightarrow> now \<le> seen \<Longrightarrow> gossip_run t0 gp0 seen (fst (ShouldProcess now seen msg gp))"
| cleaned: "gossip_run t0 gp0 t gp \<Longrightarrow> t \<le> now \<Longrightarrow> gossip_run t0 gp0 now (cleanupOldMessages now gp)"

definition settled :: "GossipMessage \<Rightarrow> gotime \<Rightarrow> GossipProtocol \<Rightarrow> bool" where
  "settled msg t gp \<longleftrightarrow> wf_map (gp_seenMessages gp) \<and>
     (gm_Timestamp msg + minute < t \<or>
      (\<exists>s. mget (gp_seenMessages gp) (gm_MessageID msg) = Some s \<and> gm_Timestamp msg \<le> s))"

lemma run_settled: "gossip_run t0 gp0 t gp \<Longrightarrow> gm_Timestamp msg \<le> t0 \<Longrightarrow> settled msg t0 gp0 \<Longrightarrow> settled msg t gp \<and> t0 \<le> t"
proof (induction rule: gossip_run.induct)
  case (received t gp now seen msg')
  then show ?case by (auto simp: settled_def ShouldProcess_def mhas_def mget_mput wf_mput)
next
  case (cleaned t gp now)
  then show ?case by (auto simp: settled_def cleanupOldMessages_def mget_mkeep wf_mkeep duration_values)
qed simp

text \<open>
  A message that was accepted when it was not dated in the future is never accepted again, whatever arrives and is
  cleaned up in between: its identifier is kept for longer than its age allows.
\<close>

theorem gossip_processed_once:
  assumes "wf_map (gp_seenMessages gp)" "ShouldProcess now seen msg gp = (gp1, True)" "gm_Timestamp msg \<le> now" "now \<le> seen"
    and "gossip_run seen gp1 t gp2" "t \<le> later" "time_sub later (gm_Timestamp msg) < max_duration"
  shows "ShouldProcess later seen' msg gp2 = (gp2, False)"
proof -
  have "settled msg seen gp1"
    using assms(1-4) by (auto simp: settled_def ShouldProcess_def mget_mput wf_mput split: if_splits)
  from run_settled [OF assms(5) _ this] assms(3,4) have s: "settled msg t gp2" by simp
  show ?thesis
  proof (cases "mhas (gp_seenMessages gp2) (gm_MessageID msg)")
    case False
    then have "gm_Timestamp msg + minute < later" using s assms(6) by (auto simp: settled_def mhas_def)
    then have "time_sub later (gm_Timestamp msg) > 1 * minute"
      using time_sub_gt [of minute later "gm_Timestamp msg"] by (simp add: duration_values max_duration_def)
    then show ?thesis using False by (simp add: ShouldProcess_def)
  qed (simp add: ShouldProcess_def)
qed

definition demo_message :: GossipMessage where
  "demo_message = \<lparr>gm_MessageID = ''m'', gm_Type = ''tx'', gm_Payload = [], gm_TTL = 5, gm_Timestamp = 0, gm_SenderID = ''a''\<rparr>"

theorem gossip_processed_once_witness:
  "\<exists>gp1. ShouldProcess 1 2 demo_message (NewGossipProtocol 3 5) = (gp1, True) \<and>
    ShouldProcess (12 * minute) 0 demo_message (cleanupOldMessages (11 * minute) gp1) = (cleanupOldMessages (11 * minute) gp1, False)"
proof -
  obtain gp1 where g: "ShouldProcess 1 2 demo_message (NewGossipProtocol 3 5) = (gp1, True)"
    by (simp add: ShouldProcess_def demo_message_def NewGossipProtocol_def mhas_def time_sub_def min_duration_def max_duration_def duration_values)
  have "gossip_run 2 gp1 (11 * minute) (cleanupOldMessages (11 * minute) gp1)"
    by (rule gossip_run.cleaned [OF gossip_run.start]) (simp add: duration_values)
  from gossip_processed_once [OF _ g _ _ this, of "12 * minute" 0] g show ?thesis
    by (simp add: demo_message_def NewGossipProtocol_def time_sub_def min_duration_def max_duration_def duration_values)
qed

text \<open>A message dated in the future is accepted a second time, after a cleanup.\<close>

lemma future_message_accepted_again:
  assumes "gm_Timestamp msg = 20 * minute" "0 < gm_TTL msg"
  shows "\<exists>gp1. ShouldProcess 0 0 msg (NewGossipProtocol f m) = (gp1, True) \<and>
    snd (ShouldProcess (12 * minute) (12 * minute) msg (cleanupOldMessages (11 * minute) gp1))"
  using assms by (simp add: ShouldProcess_def NewGossipProtocol_def cleanupOldMessages_def mhas_def mkeep_def time_sub_def
      min_duration_def max_duration_def duration_values)

end
