(* ===== verification/Genesis.thy ===== *)
theory Genesis
  imports Wallet Chain
begin

text \<open>
  The genesis configuration (\<open>pkg/genesis/genesis.go\<close>) and the tool that writes one (\<open>cmd/genesis/main.go\<close>). The node
  loads a configuration and uses none of it.

  A JSON text is its value (\<open>json\<close>), an object the list of its fields; \<open>decode_config\<close> is \<open>json.Unmarshal\<close> into the
  structure: a field goes where its name agrees up to case, unknown fields are dropped, and the first field of a wrong type
  is the error. Files are a map from their paths; bip39, the Ethereum addresses and the terminal are inputs.
\<close>

section \<open>Configurations\<close>

record GenesisValidator =
  gv_Address :: string
  gv_PublicKey :: string
  gv_Stake :: string

record GenesisConfig =
  gc_ChainID :: string
  gc_NetworkName :: string
  gc_GenesisTimestamp :: int
  gc_GenesisWallet :: string
  gc_InitialValidators :: "GenesisValidator list"
  gc_BootstrapNodes :: "string list"
  gc_BlockTime :: int
  gc_InitialDifficulty :: int

definition zero_config :: GenesisConfig where
  "zero_config = \<lparr>gc_ChainID = [], gc_NetworkName = [], gc_GenesisTimestamp = 0, gc_GenesisWallet = [], gc_InitialValidators = [],
     gc_BootstrapNodes = [], gc_BlockTime = 0, gc_InitialDifficulty = 0\<rparr>"

definition DefaultGenesisConfig :: GenesisConfig where
  "DefaultGenesisConfig = zero_config\<lparr>gc_ChainID := ''rnr-mainnet-1'', gc_NetworkName := ''RNR Mainnet'',
     gc_GenesisTimestamp := 1231006505, gc_BlockTime := 30, gc_InitialDifficulty := 1\<rparr>"

definition CreateGenesisBlock :: "GenesisConfig \<Rightarrow> Block" where
  "CreateGenesisBlock gc = \<lparr>
     b_Header = \<lparr>h_Version = 1, h_PrevBlockHash = [], h_MerkleRoot = [], h_Timestamp = gc_GenesisTimestamp gc * second, h_Nonce = 0,
       h_Difficulty = gc_InitialDifficulty gc, h_Height = 0, h_PoBScore = f_of_int 1, h_PoBWeight = 0, h_VRFProof = [],
       h_VRFOutput = None\<rparr>,
     b_Transactions = [], b_ProposerID = ''genesis'', b_PoHSequence = [], b_Signature = [], b_VRFProof = []\<rparr>"

definition AddValidator :: "string \<Rightarrow> PublicKey \<Rightarrow> int \<Rightarrow> GenesisConfig \<Rightarrow> GenesisConfig \<times> unit res" where
  "AddValidator address pubKey stake gc =
     (case EncodePublicKey pubKey of
        Inl (Panic e) \<Rightarrow> (gc, Inl (Panic e))
      | Inl (Error _) \<Rightarrow> (gc, Inl (Error ''failed to encode public key''))
      | Inr pubKeyBytes \<Rightarrow>
          (gc\<lparr>gc_InitialValidators := gc_InitialValidators gc @
             [\<lparr>gv_Address = address, gv_PublicKey = hex pubKeyBytes, gv_Stake = dec_int stake\<rparr>]\<rparr>, Inr ()))"

definition Validate_Config :: "GenesisConfig \<Rightarrow> fail option" where
  "Validate_Config gc =
     (if gc_ChainID gc = [] then Some (Error ''chain_id is required'')
      else if gc_NetworkName gc = [] then Some (Error ''network_name is required'')
      else if gc_GenesisTimestamp gc = 0 then Some (Error ''genesis_timestamp is required'')
      else if gc_InitialValidators gc = [] then Some (Error ''at least one validator is required'')
      else None)"

section \<open>Reading a configuration\<close>

datatype json = JNull | JBool bool | JInt int | JStr string | JArr "json list" | JObj "(string \<times> json) list"

definition lower :: "string \<Rightarrow> string" where
  "lower s = map (\<lambda>c. let n = of_char c :: nat in if 65 \<le> n \<and> n \<le> 90 then char_of (n + 32) else c) s"

definition named_field :: "string \<Rightarrow> string \<Rightarrow> bool" where
  "named_field tag key \<longleftrightarrow> lower key = lower tag"

definition wrong_type :: fail where
  "wrong_type = Error ''json: cannot unmarshal value into Go struct field''"

definition as_string :: "json \<Rightarrow> string \<Rightarrow> string res" where
  "as_string v old = (case v of JStr s \<Rightarrow> Inr s | JNull \<Rightarrow> Inr old | _ \<Rightarrow> Inl wrong_type)"

definition as_int :: "json \<Rightarrow> int \<Rightarrow> int res" where
  "as_int v old = (case v of JInt n \<Rightarrow> if - (2 ^ 63) \<le> n \<and> n < 2 ^ 63 then Inr n else Inl wrong_type | JNull \<Rightarrow> Inr old | _ \<Rightarrow> Inl wrong_type)"

fun as_list :: "(json \<Rightarrow> 'a res) \<Rightarrow> json list \<Rightarrow> 'a list res" where
  "as_list f [] = Inr []"
| "as_list f (v # vs) = (case f v of Inl e \<Rightarrow> Inl e | Inr x \<Rightarrow> (case as_list f vs of Inl e \<Rightarrow> Inl e | Inr xs \<Rightarrow> Inr (x # xs)))"

fun validator_fields :: "(string \<times> json) list \<Rightarrow> GenesisValidator \<Rightarrow> GenesisValidator res" where
  "validator_fields [] gv = Inr gv"
| "validator_fields ((key, v) # rest) gv =
     (if named_field ''address'' key then (case as_string v (gv_Address gv) of Inl e \<Rightarrow> Inl e | Inr s \<Rightarrow> validator_fields rest (gv\<lparr>gv_Address := s\<rparr>))
      else if named_field ''public_key'' key then (case as_string v (gv_PublicKey gv) of Inl e \<Rightarrow> Inl e | Inr s \<Rightarrow> validator_fields rest (gv\<lparr>gv_PublicKey := s\<rparr>))
      else if named_field ''stake'' key then (case as_string v (gv_Stake gv) of Inl e \<Rightarrow> Inl e | Inr s \<Rightarrow> validator_fields rest (gv\<lparr>gv_Stake := s\<rparr>))
      else validator_fields rest gv)"

definition as_validator :: "json \<Rightarrow> GenesisValidator res" where
  "as_validator v = (case v of
     JObj fs \<Rightarrow> validator_fields fs \<lparr>gv_Address = [], gv_PublicKey = [], gv_Stake = []\<rparr>
   | JNull \<Rightarrow> Inr \<lparr>gv_Address = [], gv_PublicKey = [], gv_Stake = []\<rparr> | _ \<Rightarrow> Inl wrong_type)"

definition as_array :: "(json \<Rightarrow> 'a res) \<Rightarrow> json \<Rightarrow> 'a list res" where
  "as_array f v = (case v of JArr vs \<Rightarrow> as_list f vs | JNull \<Rightarrow> Inr [] | _ \<Rightarrow> Inl wrong_type)"

definition config_field :: "string \<Rightarrow> json \<Rightarrow> GenesisConfig \<Rightarrow> GenesisConfig res" where
  "config_field key v gc =
     (if named_field ''chain_id'' key then map_sum id (\<lambda>s. gc\<lparr>gc_ChainID := s\<rparr>) (as_string v (gc_ChainID gc))
      else if named_field ''network_name'' key then map_sum id (\<lambda>s. gc\<lparr>gc_NetworkName := s\<rparr>) (as_string v (gc_NetworkName gc))
      else if named_field ''genesis_timestamp'' key then map_sum id (\<lambda>n. gc\<lparr>gc_GenesisTimestamp := n\<rparr>) (as_int v (gc_GenesisTimestamp gc))
      else if named_field ''genesis_wallet'' key then map_sum id (\<lambda>s. gc\<lparr>gc_GenesisWallet := s\<rparr>) (as_string v (gc_GenesisWallet gc))
      else if named_field ''initial_validators'' key then map_sum id (\<lambda>xs. gc\<lparr>gc_InitialValidators := xs\<rparr>) (as_array as_validator v)
      else if named_field ''bootstrap_nodes'' key then map_sum id (\<lambda>xs. gc\<lparr>gc_BootstrapNodes := xs\<rparr>) (as_array (\<lambda>x. as_string x []) v)
      else if named_field ''block_time_seconds'' key then map_sum id (\<lambda>n. gc\<lparr>gc_BlockTime := n\<rparr>) (as_int v (gc_BlockTime gc))
      else if named_field ''initial_difficulty'' key then map_sum id (\<lambda>n. gc\<lparr>gc_InitialDifficulty := n\<rparr>) (as_int v (gc_InitialDifficulty gc))
      else Inr gc)"

fun config_fields :: "(string \<times> json) list \<Rightarrow> GenesisConfig \<Rightarrow> GenesisConfig res" where
  "config_fields [] gc = Inr gc"
| "config_fields ((key, v) # rest) gc = (case config_field key v gc of Inl e \<Rightarrow> Inl e | Inr gc' \<Rightarrow> config_fields rest gc')"

definition decode_config :: "json \<Rightarrow> GenesisConfig res" where
  "decode_config v = (case v of JObj fs \<Rightarrow> config_fields fs zero_config | JNull \<Rightarrow> Inr zero_config | _ \<Rightarrow> Inl wrong_type)"

text \<open>The file is its JSON value, or the error of reading or parsing it.\<close>

definition LoadGenesisConfig :: "json res \<Rightarrow> GenesisConfig res" where
  "LoadGenesisConfig file =
     (case file of
        Inl (Panic e) \<Rightarrow> Inl (Panic e)
      | Inl (Error _) \<Rightarrow> Inl (Error ''failed to read genesis config'')
      | Inr v \<Rightarrow> (case decode_config v of Inl _ \<Rightarrow> Inl (Error ''failed to parse genesis config'') | Inr gc \<Rightarrow> Inr gc))"

definition config_json :: "GenesisConfig \<Rightarrow> json" where
  "config_json gc = JObj [(''chain_id'', JStr (gc_ChainID gc)), (''network_name'', JStr (gc_NetworkName gc)),
     (''genesis_timestamp'', JInt (gc_GenesisTimestamp gc)), (''genesis_wallet'', JStr (gc_GenesisWallet gc)),
     (''initial_validators'', JArr (map (\<lambda>gv. JObj [(''address'', JStr (gv_Address gv)), (''public_key'', JStr (gv_PublicKey gv)),
        (''stake'', JStr (gv_Stake gv))]) (gc_InitialValidators gc))),
     (''bootstrap_nodes'', JArr (map JStr (gc_BootstrapNodes gc))), (''block_time_seconds'', JInt (gc_BlockTime gc)),
     (''initial_difficulty'', JInt (gc_InitialDifficulty gc))]"

definition Save_Config :: "unit res \<Rightarrow> GenesisConfig \<Rightarrow> json option \<times> unit res" where
  "Save_Config written gc =
     (case written of
        Inl (Panic e) \<Rightarrow> (None, Inl (Panic e))
      | Inl (Error _) \<Rightarrow> (None, Inl (Error ''failed to write genesis config''))
      | Inr _ \<Rightarrow> (Some (config_json gc), Inr ()))"

section \<open>The genesis tool\<close>

record ToolConfig =
  tl_ChainID :: string
  tl_NetworkName :: string
  tl_InitialValidators :: "(string, string) gomap"

text \<open>The two entries of the password must agree; a short one is only warned about.\<close>

definition getPassword :: "string res \<Rightarrow> string res \<Rightarrow> string res" where
  "getPassword first confirm =
     (case first of Inl e \<Rightarrow> Inl e | Inr password \<Rightarrow>
     (case confirm of Inl e \<Rightarrow> Inl e | Inr passwordConfirm \<Rightarrow>
       if password \<noteq> passwordConfirm then Inl (Error ''kata sandi tidak cocok'') else Inr password))"

text \<open>
  What the tool gets for a validator: its key with its Ethereum address (\<open>generateKeys\<close>, \<open>crypto.PubkeyToAddress\<close>), the two
  entries of the password, and the random salt and IV. A failure ends the program.
\<close>

record tool_input =
  ti_key :: "(string \<times> bytes) res"
  ti_password :: "string res"
  ti_confirm :: "string res"
  ti_salt :: "bytes res"
  ti_iv :: "bytes res"

fun tool_loop :: "wallet_lib \<Rightarrow> KeystoreFile encoder \<Rightarrow> string \<Rightarrow> tool_input list \<Rightarrow> (string, bytes) gomap \<Rightarrow> ToolConfig
    \<Rightarrow> (string, bytes) gomap \<times> ToolConfig res" where
  "tool_loop wl enc outputDir [] files tc = (files, Inr tc)"
| "tool_loop wl enc outputDir (ti # tis) files tc =
     (case ti_key ti of Inl e \<Rightarrow> (files, Inl e) | Inr (address, privateKey) \<Rightarrow>
     (case getPassword (ti_password ti) (ti_confirm ti) of Inl e \<Rightarrow> (files, Inl e) | Inr password \<Rightarrow>
     (case createKeystoreFile wl enc (ti_salt ti) (ti_iv ti) address privateKey password of Inl e \<Rightarrow> (files, Inl e) | Inr bs \<Rightarrow>
       tool_loop wl enc outputDir tis (mput (outputDir @ ''/wallet-'' @ address @ ''.json'') bs files)
         (tc\<lparr>tl_InitialValidators := mput address ''100'' (tl_InitialValidators tc)\<rparr>))))"

definition tool_json :: "ToolConfig \<Rightarrow> json" where
  "tool_json tc = JObj [(''chainId'', JStr (tl_ChainID tc)), (''networkName'', JStr (tl_NetworkName tc)),
     (''initialValidators'', JObj (map (\<lambda>(address, stake). (address, JObj [(''stake'', JStr stake)])) (tl_InitialValidators tc)))]"

definition genesis_tool ::
  "wallet_lib \<Rightarrow> KeystoreFile encoder \<Rightarrow> string \<Rightarrow> string \<Rightarrow> string \<Rightarrow> unit res \<Rightarrow> tool_input list \<Rightarrow> (string, bytes) gomap \<times> json res" where
  "genesis_tool wl enc chainID networkName outputDir created inputs =
     (case tool_loop wl enc outputDir inputs [] \<lparr>tl_ChainID = chainID, tl_NetworkName = networkName, tl_InitialValidators = []\<rparr> of
        (files, Inl e) \<Rightarrow> (files, Inl e)
      | (files, Inr tc) \<Rightarrow> (case created of Inl e \<Rightarrow> (files, Inl e) | Inr _ \<Rightarrow> (files, Inr (tool_json tc))))"

section \<open>Round trip and mismatch\<close>

lemma lower_tags:
  "lower ''chain_id'' = ''chain_id''" "lower ''network_name'' = ''network_name''" "lower ''genesis_timestamp'' = ''genesis_timestamp''"
  "lower ''genesis_wallet'' = ''genesis_wallet''" "lower ''initial_validators'' = ''initial_validators''"
  "lower ''bootstrap_nodes'' = ''bootstrap_nodes''" "lower ''block_time_seconds'' = ''block_time_seconds''"
  "lower ''initial_difficulty'' = ''initial_difficulty''" "lower ''address'' = ''address''" "lower ''public_key'' = ''public_key''"
  "lower ''stake'' = ''stake''" "lower ''chainId'' = ''chainid''" "lower ''networkName'' = ''networkname''"
  "lower ''initialValidators'' = ''initialvalidators''"
  by code_simp+

lemma as_list_map: "(\<And>x. x \<in> set xs \<Longrightarrow> f (g x) = Inr x) \<Longrightarrow> as_list f (map g xs) = Inr xs"
  by (induction xs) auto

lemma validator_roundtrip: "as_validator (JObj [(''address'', JStr (gv_Address gv)), (''public_key'', JStr (gv_PublicKey gv)), (''stake'', JStr (gv_Stake gv))]) = Inr gv"
  by (cases gv) (simp add: as_validator_def named_field_def lower_tags as_string_def)

text \<open>A saved configuration is read back.\<close>

theorem config_roundtrip:
  assumes "\<forall>n \<in> {gc_GenesisTimestamp gc, gc_BlockTime gc, gc_InitialDifficulty gc}. - (2 ^ 63) \<le> n \<and> n < 2 ^ 63"
  shows "\<exists>v. Save_Config (Inr ()) gc = (Some v, Inr ()) \<and> LoadGenesisConfig (Inr v) = Inr gc"
proof -
  have "as_list as_validator (map (\<lambda>gv. JObj [(''address'', JStr (gv_Address gv)), (''public_key'', JStr (gv_PublicKey gv)),
        (''stake'', JStr (gv_Stake gv))]) (gc_InitialValidators gc)) = Inr (gc_InitialValidators gc)"
    "as_list (\<lambda>x. as_string x []) (map JStr (gc_BootstrapNodes gc)) = Inr (gc_BootstrapNodes gc)"
    by (intro as_list_map validator_roundtrip, simp add: as_string_def)+
  then have "decode_config (config_json gc) = Inr gc"
    using assms by (cases gc) (simp add: decode_config_def config_json_def config_field_def named_field_def lower_tags as_string_def as_int_def as_array_def zero_config_def)
  then show ?thesis by (simp add: Save_Config_def LoadGenesisConfig_def)
qed

theorem config_roundtrip_witness:
  "\<exists>v. Save_Config (Inr ()) DefaultGenesisConfig = (Some v, Inr ()) \<and> LoadGenesisConfig (Inr v) = Inr DefaultGenesisConfig"
  by (rule config_roundtrip) (simp add: DefaultGenesisConfig_def zero_config_def)

text \<open>
  The file of the genesis tool has other field names: the node reads it without an error as the empty configuration,
  which its own check would refuse, whatever the chain, the network and the validators it was made for.
\<close>

theorem genesis_tool_config_empty:
  assumes "genesis_tool wl enc chainID networkName outputDir created inputs = (files, Inr v)"
  shows "LoadGenesisConfig (Inr v) = Inr zero_config" "Validate_Config zero_config = Some (Error ''chain_id is required'')"
proof -
  obtain tc where "v = tool_json tc" using assms by (auto simp: genesis_tool_def split: prod.splits sum.splits)
  then show "LoadGenesisConfig (Inr v) = Inr zero_config"
    by (simp add: LoadGenesisConfig_def decode_config_def tool_json_def config_field_def named_field_def lower_tags)
qed (simp add: Validate_Config_def zero_config_def)

theorem genesis_tool_config_empty_witness:
  "\<exists>v. genesis_tool demo_wallet_lib (\<lambda>_. Inr []) ''rnr-mainnet-v1'' ''RNR Mainnet'' ''out'' (Inr ()) [] = ([], Inr v) \<and>
    LoadGenesisConfig (Inr v) = Inr zero_config"
proof -
  obtain v where "genesis_tool demo_wallet_lib (\<lambda>_. Inr []) ''rnr-mainnet-v1'' ''RNR Mainnet'' ''out'' (Inr ()) [] = ([], Inr v)"
    by (simp add: genesis_tool_def)
  with genesis_tool_config_empty(1) [OF this] show ?thesis by blast
qed

text \<open>
  The genesis block of a configuration is that of the chain only for its time of 1 January 2025 and
  difficulty 1; the default configuration has another time.
\<close>

lemma genesis_block_of_config:
  "CreateGenesisBlock gc = createGenesisBlock \<longleftrightarrow> gc_GenesisTimestamp gc = 1735689600 \<and> gc_InitialDifficulty gc = 1"
  by (auto simp: CreateGenesisBlock_def createGenesisBlock_def second_def)

lemma default_config_block_differs: "CreateGenesisBlock DefaultGenesisConfig \<noteq> createGenesisBlock"
  by (simp add: genesis_block_of_config DefaultGenesisConfig_def)

text \<open>Validators are added in order, each with its encoded key.\<close>

lemma added_validator_valid:
  "AddValidator address pubKey stake gc = (gc', Inr ()) \<Longrightarrow> gc_ChainID gc \<noteq> [] \<Longrightarrow> gc_NetworkName gc \<noteq> [] \<Longrightarrow>
   gc_GenesisTimestamp gc \<noteq> 0 \<Longrightarrow> Validate_Config gc' = None"
  by (auto simp: AddValidator_def Validate_Config_def split: sum.splits fail.splits)

end
