(* ===== verification/Discovery.thy ===== *)
theory Discovery
  imports Core_Types
begin

text \<open>
  Peer discovery (\<open>pkg/network/discovery.go\<close>): the peers found by mDNS and the DHT and the connections made to them.
  libp2p connects; a connection attempt and its outcome are part of the result and of the input. The peers found
  here are not those of the P2P node: its broadcasts go to peers entered by \<open>ConnectToPeer\<close> alone.
\<close>

record 'p PeerDiscovery =
  pv_self :: 'p
  pv_peers :: "('p, bool) gomap"

definition NewPeerDiscovery :: "unit res \<Rightarrow> unit res \<Rightarrow> 'p \<Rightarrow> 'p PeerDiscovery res" where
  "NewPeerDiscovery created bootstrapped self =
     (case created of
        Inl (Panic e) \<Rightarrow> Inl (Panic e) | Inl (Error _) \<Rightarrow> Inl (Error ''failed to create DHT'')
      | Inr _ \<Rightarrow>
          (case bootstrapped of
             Inl (Panic e) \<Rightarrow> Inl (Panic e) | Inl (Error _) \<Rightarrow> Inl (Error ''failed to bootstrap DHT'')
           | Inr _ \<Rightarrow> Inr \<lparr>pv_self = self, pv_peers = []\<rparr>))"

text \<open>The state, whether a connection is tried, and the panic of the log line after it.\<close>

definition HandlePeerFound :: "('p \<Rightarrow> string) \<Rightarrow> 'p \<Rightarrow> 'p PeerDiscovery \<Rightarrow> 'p PeerDiscovery \<times> bool \<times> unit res" where
  "HandlePeerFound show_peer peer pd =
     (if mget (pv_peers pd) peer = Some True then (pd, False, Inr ())
      else (pd\<lparr>pv_peers := mput peer True (pv_peers pd)\<rparr>, True,
        case slice_to 12 (show_peer peer) of Inl e \<Rightarrow> Inl e | Inr _ \<Rightarrow> Inr ()))"

text \<open>The loop over the peers a search yields, with the peers a connection is tried to.\<close>

fun found_loop :: "('p \<Rightarrow> string) \<Rightarrow> 'p list \<Rightarrow> 'p PeerDiscovery \<Rightarrow> 'p PeerDiscovery \<times> 'p list \<times> unit res" where
  "found_loop show_peer [] pd = (pd, [], Inr ())"
| "found_loop show_peer (p # ps) pd =
     (if p = pv_self pd then found_loop show_peer ps pd
      else case HandlePeerFound show_peer p pd of
        (pd1, tried, Inl e) \<Rightarrow> (pd1, if tried then [p] else [], Inl e)
      | (pd1, tried, Inr _) \<Rightarrow>
          (case found_loop show_peer ps pd1 of (pd2, cs, r) \<Rightarrow> (pd2, if tried then p # cs else cs, r)))"

definition findPeers :: "('p \<Rightarrow> string) \<Rightarrow> 'p list res \<Rightarrow> 'p PeerDiscovery \<Rightarrow> 'p PeerDiscovery \<times> 'p list \<times> unit res" where
  "findPeers show_peer found pd =
     (case found of Inl (Panic e) \<Rightarrow> (pd, [], Inl (Panic e)) | Inl (Error _) \<Rightarrow> (pd, [], Inr ()) | Inr ps \<Rightarrow> found_loop show_peer ps pd)"

text \<open>The bootstrap peers: those whose address parses are tried once, and not entered.\<close>

definition connectToBootstrap :: "(string \<Rightarrow> 'p option) \<Rightarrow> string list \<Rightarrow> 'p list" where
  "connectToBootstrap parse addrs = List.map_filter parse addrs"

definition Discovery_GetPeers :: "'p PeerDiscovery \<Rightarrow> 'p list" where
  "Discovery_GetPeers pd = map fst (pv_peers pd)"

definition Discovery_GetPeerCount :: "'p PeerDiscovery \<Rightarrow> int" where
  "Discovery_GetPeerCount pd = int (mlen (pv_peers pd))"

section \<open>One attempt per peer\<close>

lemma found_loop_attempts:
  assumes "found_loop show_peer ps pd = (pd', cs, r)"
  shows "distinct cs \<and> (\<forall>p \<in> set cs. mget (pv_peers pd) p \<noteq> Some True \<and> mget (pv_peers pd') p = Some True) \<and>
    (\<forall>p. mget (pv_peers pd) p = Some True \<longrightarrow> mget (pv_peers pd') p = Some True) \<and> pv_self pd' = pv_self pd \<and> pv_self pd \<notin> set cs"
  using assms
proof (induction ps arbitrary: pd cs)
  case (Cons p ps)
  show ?case
  proof (cases "p = pv_self pd \<or> mget (pv_peers pd) p = Some True")
    case True
    then have "found_loop show_peer ps pd = (pd', cs, r)" using Cons.prems by (auto simp: HandlePeerFound_def split: if_splits prod.splits)
    then show ?thesis by (rule Cons.IH)
  next
    case False
    let ?pd1 = "pd\<lparr>pv_peers := mput p True (pv_peers pd)\<rparr>"
    show ?thesis
    proof (cases "slice_to 12 (show_peer p)")
      case (Inl e)
      then have "pd' = ?pd1" "cs = [p]" using Cons.prems False by (simp_all add: HandlePeerFound_def)
      then show ?thesis using False by (auto simp: mget_mput)
    next
      case (Inr x)
      obtain cs1 where cs1: "found_loop show_peer ps ?pd1 = (pd', cs1, r)" "cs = p # cs1"
        using Cons.prems False Inr by (auto simp: HandlePeerFound_def split: prod.splits)
      have "\<forall>q. mget (pv_peers pd) q = Some True \<longrightarrow> mget (pv_peers ?pd1) q = Some True" by (simp add: mget_mput)
      then show ?thesis using Cons.IH [OF cs1(1)] False unfolding cs1(2) by (auto simp: mget_mput split: if_splits)
    qed
  qed
qed simp

text \<open>
  A peer is connected to at most once in the life of the discovery: it is entered before the attempt and stays entered
  when the attempt fails. So the attempts of two searches, one after the other, have no peer in common.
\<close>

theorem discovery_attempts_once:
  assumes "findPeers show_peer found1 pd = (pd1, cs1, r1)" "findPeers show_peer found2 pd1 = (pd2, cs2, r2)"
  shows "distinct (cs1 @ cs2)" "pv_self pd \<notin> set (cs1 @ cs2)"
proof -
  have f: "distinct cs \<and> (\<forall>p \<in> set cs. mget (pv_peers pd) p \<noteq> Some True \<and> mget (pv_peers pd') p = Some True) \<and> pv_self pd' = pv_self pd \<and> pv_self pd \<notin> set cs"
    if "findPeers show_peer found pd = (pd', cs, r)" for found pd pd' cs r
    using that found_loop_attempts [of show_peer _ pd pd' cs r] by (auto simp: findPeers_def split: sum.splits fail.splits)
  show "distinct (cs1 @ cs2)" "pv_self pd \<notin> set (cs1 @ cs2)" using f [OF assms(1)] f [OF assms(2)] by auto
qed

theorem discovery_attempts_once_witness:
  "\<exists>pd1 cs1 r1 pd2 cs2 r2. findPeers (\<lambda>p. p) (Inr [''peer-0000001'', ''peer-0000002'']) \<lparr>pv_self = ''me'', pv_peers = []\<rparr> = (pd1, cs1, r1) \<and>
     findPeers (\<lambda>p. p) (Inr [''peer-0000002'', ''peer-0000003'']) pd1 = (pd2, cs2, r2) \<and> distinct (cs1 @ cs2)"
proof -
  let ?pd = "\<lparr>pv_self = ''me'', pv_peers = []\<rparr>"
  obtain pd1 cs1 r1 where 1: "findPeers (\<lambda>p. p) (Inr [''peer-0000001'', ''peer-0000002'']) ?pd = (pd1, cs1, r1)" by (rule prod_cases3)
  obtain pd2 cs2 r2 where 2: "findPeers (\<lambda>p. p) (Inr [''peer-0000002'', ''peer-0000003'']) pd1 = (pd2, cs2, r2)" by (rule prod_cases3)
  from discovery_attempts_once(1) [OF 1 2] 1 2 show ?thesis by blast
qed

end
