(* ===== verification/Resources.thy ===== *)
theory Resources
  imports Prelude
begin

text \<open>
  Shutdown and resources (\<open>pkg/utils/shutdown.go\<close>): the hooks of the shutdown, its race with the return of \<open>main\<close>, and the limiter of
  goroutines, whose operations are two steps each, a channel operation and the update of a counter under a
  mutex, that other goroutines can come between.
\<close>

section \<open>Shutdown hooks\<close>

type_synonym 's hook = "string \<times> ('s \<Rightarrow> 's \<times> unit res)"

definition RegisterShutdownHook :: "string \<Rightarrow> ('s \<Rightarrow> 's \<times> unit res) \<Rightarrow> 's hook list \<Rightarrow> 's hook list" where
  "RegisterShutdownHook name hook hooks = hooks @ [(name, hook)]"

fun run_hooks :: "'s hook list \<Rightarrow> 's \<Rightarrow> 's \<times> unit res" where
  "run_hooks [] s = (s, Inr ())"
| "run_hooks ((name, hook) # hooks) s =
     (case hook s of (s', Inl (Panic e)) \<Rightarrow> (s', Inl (Panic e)) | (s', _) \<Rightarrow> run_hooks hooks s')"

definition executeShutdownHooks :: "'s hook list \<Rightarrow> 's \<Rightarrow> 's \<times> unit res" where
  "executeShutdownHooks hooks s = run_hooks (rev hooks) s"

text \<open>Every hook runs, the last registered first, whatever errors the others return.\<close>

lemma hooks_run_in_reverse:
  assumes "\<forall>(name, hook) \<in> set hooks. \<forall>s. \<not> is_panic (snd (hook s))"
  shows "executeShutdownHooks hooks s = (foldr (\<lambda>(name, hook) s. fst (hook s)) hooks s, Inr ())"
proof -
  have "run_hooks hs s = (fold (\<lambda>(name, hook) s. fst (hook s)) hs s, Inr ())"
    if "\<forall>(name, hook) \<in> set hs. \<forall>s. \<not> is_panic (snd (hook s))" for hs s
    using that
  proof (induction hs arbitrary: s)
    case (Cons h hs)
    obtain name hook where h: "h = (name, hook)" by (cases h)
    obtain s' r where r: "hook s = (s', r)" by (cases "hook s")
    have "\<not> is_panic r" using Cons.prems h r by (metis list.set_intros(1) case_prodD snd_conv)
    then have "run_hooks (h # hs) s = run_hooks hs s'" by (cases r) (auto simp: h r is_panic_def split: fail.splits)
    then show ?case using Cons.IH Cons.prems by (simp add: h r)
  qed simp
  from this [of "rev hooks" s] assms show ?thesis by (simp add: executeShutdownHooks_def foldr_conv_fold)
qed

section \<open>The end of the process\<close>

text \<open>
  \<open>InitiateShutdown\<close> cancels the context, waits for the tasks or the grace period, runs the hooks and exits. \<open>main\<close> waits
  for the same context and returns when it is cancelled, which ends the process too. The two run side by side.
\<close>

datatype 's shutdown_phase = Running | Waiting | Hooks "'s hook list"

record 's shutdown =
  sh_tasks :: nat
  sh_phase :: "'s shutdown_phase"
  sh_state :: 's
  sh_alive :: bool

definition AddTask :: "'s shutdown \<Rightarrow> 's shutdown" where
  "AddTask sh = sh\<lparr>sh_tasks := Suc (sh_tasks sh)\<rparr>"

inductive shutdown_step :: "'s hook list \<Rightarrow> 's shutdown \<Rightarrow> 's shutdown \<Rightarrow> bool" for hooks where
  sd_add: "sh_alive sh \<Longrightarrow> shutdown_step hooks sh (AddTask sh)"
| sd_done: "sh_alive sh \<Longrightarrow> sh_tasks sh = Suc n \<Longrightarrow> shutdown_step hooks sh (sh\<lparr>sh_tasks := n\<rparr>)"
| sd_cancel: "sh_alive sh \<Longrightarrow> sh_phase sh = Running \<Longrightarrow> shutdown_step hooks sh (sh\<lparr>sh_phase := Waiting\<rparr>)"
| sd_waited: "sh_alive sh \<Longrightarrow> sh_phase sh = Waiting \<Longrightarrow> sh_tasks sh = 0 \<or> graceExpired \<Longrightarrow>
    shutdown_step hooks sh (sh\<lparr>sh_phase := Hooks (rev hooks)\<rparr>)"
| sd_hook: "sh_alive sh \<Longrightarrow> sh_phase sh = Hooks ((name, hook) # hs) \<Longrightarrow> hook (sh_state sh) = (s', r) \<Longrightarrow>
    shutdown_step hooks sh (sh\<lparr>sh_phase := Hooks hs, sh_state := s', sh_alive := \<not> is_panic r\<rparr>)"
| sd_exit: "sh_alive sh \<Longrightarrow> sh_phase sh = Hooks [] \<Longrightarrow> shutdown_step hooks sh (sh\<lparr>sh_alive := False\<rparr>)"
| sd_main: "sh_alive sh \<Longrightarrow> sh_phase sh \<noteq> Running \<Longrightarrow> shutdown_step hooks sh (sh\<lparr>sh_alive := False\<rparr>)"

definition up :: "'s \<Rightarrow> 's shutdown" where
  "up s = \<lparr>sh_tasks = 0, sh_phase = Running, sh_state = s, sh_alive = True\<rparr>"

text \<open>The hooks that have run are a first part of the hooks in reverse, run on the state at the start.\<close>

definition hooks_so_far :: "'s hook list \<Rightarrow> 's \<Rightarrow> 's shutdown \<Rightarrow> bool" where
  "hooks_so_far hooks s sh \<longleftrightarrow> (case sh_phase sh of
       Hooks hs \<Rightarrow> \<exists>ran. rev hooks = ran @ hs \<and> sh_state sh = fold (\<lambda>(name, hook) s. fst (hook s)) ran s
     | _ \<Rightarrow> sh_state sh = s)"

lemma shutdown_step_hooks: "shutdown_step hooks sh sh' \<Longrightarrow> hooks_so_far hooks s sh \<Longrightarrow> hooks_so_far hooks s sh'"
proof (induction rule: shutdown_step.induct)
  case (sd_hook sh name hook hs s' r)
  then obtain ran where "rev hooks = ran @ (name, hook) # hs" "sh_state sh = fold (\<lambda>(name, hook) s. fst (hook s)) ran s"
    by (auto simp: hooks_so_far_def)
  then show ?case using sd_hook(3) by (auto simp: hooks_so_far_def intro!: exI [of _ "ran @ [(name, hook)]"])
qed (auto simp: hooks_so_far_def AddTask_def split: shutdown_phase.splits)

text \<open>
  A shutdown runs the hooks in reverse order and no hook twice; but a process can end before any of them has run, as
  \<open>main\<close> does not wait for them.
\<close>

theorem shutdown_may_skip_hooks:
  "((shutdown_step hooks)\<^sup>*\<^sup>* (up s) sh \<longrightarrow> hooks_so_far hooks s sh) \<and>
   (\<exists>sh. (shutdown_step hooks)\<^sup>*\<^sup>* (up s) sh \<and> \<not> sh_alive sh \<and> sh_state sh = s)"
proof (intro conjI impI)
  assume "(shutdown_step hooks)\<^sup>*\<^sup>* (up s) sh"
  then show "hooks_so_far hooks s sh"
  proof (induction rule: rtranclp_induct)
    case base
    show ?case by (simp add: hooks_so_far_def up_def)
  next
    case (step sh sh')
    show ?case by (rule shutdown_step_hooks [OF step.hyps(2) step.IH])
  qed
next
  have "shutdown_step hooks (up s) ((up s)\<lparr>sh_phase := Waiting\<rparr>)" by (rule sd_cancel) (simp_all add: up_def)
  moreover have "shutdown_step hooks ((up s)\<lparr>sh_phase := Waiting\<rparr>) ((up s)\<lparr>sh_phase := Waiting, sh_alive := False\<rparr>)"
    using sd_main [of "(up s)\<lparr>sh_phase := Waiting\<rparr>" hooks] by (simp add: up_def)
  ultimately show "\<exists>sh. (shutdown_step hooks)\<^sup>*\<^sup>* (up s) sh \<and> \<not> sh_alive sh \<and> sh_state sh = s"
    by (intro exI [of _ "(up s)\<lparr>sh_phase := Waiting, sh_alive := False\<rparr>"]) (auto simp: up_def)
qed

section \<open>The limiter\<close>

record ResourceLimiter =
  rs_maxGoroutines :: int
  rs_semaphore :: nat
  rs_active :: int

definition NewResourceLimiter :: "int \<Rightarrow> ResourceLimiter res" where
  "NewResourceLimiter maxGoroutines =
     (if maxGoroutines < 0 then Inl (Panic ''makechan: size out of range'')
      else Inr \<lparr>rs_maxGoroutines = maxGoroutines, rs_semaphore = 0, rs_active = 0\<rparr>)"

text \<open>The channel operation of \<open>Acquire\<close> succeeds with a free slot; otherwise the call waits or times out.\<close>

definition take_slot :: "ResourceLimiter \<Rightarrow> ResourceLimiter option" where
  "take_slot rl = (if int (rs_semaphore rl) < rs_maxGoroutines rl then Some (rl\<lparr>rs_semaphore := Suc (rs_semaphore rl)\<rparr>) else None)"

definition free_slot :: "ResourceLimiter \<Rightarrow> ResourceLimiter option" where
  "free_slot rl = (if 0 < rs_semaphore rl then Some (rl\<lparr>rs_semaphore := rs_semaphore rl - 1\<rparr>) else None)"

definition add_active :: "int \<Rightarrow> ResourceLimiter \<Rightarrow> ResourceLimiter" where
  "add_active d rl = rl\<lparr>rs_active := rs_active rl + d\<rparr>"

definition Acquire :: "ResourceLimiter \<Rightarrow> ResourceLimiter \<times> bool" where
  "Acquire rl = (case take_slot rl of None \<Rightarrow> (rl, False) | Some rl' \<Rightarrow> (add_active 1 rl', True))"

text \<open>\<open>None\<close> when \<open>Release\<close> blocks.\<close>

definition Release :: "ResourceLimiter \<Rightarrow> ResourceLimiter option" where
  "Release rl = map_option (add_active (- 1)) (free_slot rl)"

definition GetActiveCount :: "ResourceLimiter \<Rightarrow> int" where
  "GetActiveCount rl = rs_active rl"

definition GetCapacity :: "ResourceLimiter \<Rightarrow> int" where
  "GetCapacity rl = rs_maxGoroutines rl"

text \<open>The steps of concurrent calls: \<open>e\<close> calls have taken a slot and not counted it, \<open>l\<close> have freed one and still count it.\<close>

inductive limiter_run :: "int \<Rightarrow> ResourceLimiter \<times> nat \<times> nat \<Rightarrow> bool" for m where
  fresh: "NewResourceLimiter m = Inr rl \<Longrightarrow> limiter_run m (rl, 0, 0)"
| taken: "limiter_run m (rl, e, l) \<Longrightarrow> take_slot rl = Some rl' \<Longrightarrow> limiter_run m (rl', Suc e, l)"
| counted: "limiter_run m (rl, Suc e, l) \<Longrightarrow> limiter_run m (add_active 1 rl, e, l)"
| freed: "limiter_run m (rl, e, l) \<Longrightarrow> free_slot rl = Some rl' \<Longrightarrow> limiter_run m (rl', e, Suc l)"
| uncounted: "limiter_run m (rl, e, Suc l) \<Longrightarrow> limiter_run m (add_active (- 1) rl, e, l)"

lemma limiter_invariant:
  "limiter_run m c \<Longrightarrow> case c of (rl, e, l) \<Rightarrow> rs_maxGoroutines rl = m \<and> 0 \<le> m \<and> int (rs_semaphore rl) \<le> m \<and>
     rs_active rl = int (rs_semaphore rl) - int e + int l"
  by (induction rule: limiter_run.induct)
    (auto simp: NewResourceLimiter_def take_slot_def free_slot_def add_active_def split: if_splits)

text \<open>
  No more slots are taken than the capacity, in any interleaving. The count that
  \<open>GetActiveCount\<close> reports is exact when no call is between its two steps; in between it can exceed the capacity by the
  calls that are giving their slot back.
\<close>

theorem limiter_capacity:
  assumes "limiter_run m (rl, e, l)"
  shows "int (rs_semaphore rl) \<le> GetCapacity rl" "GetActiveCount rl \<le> GetCapacity rl + int l"
    "e = 0 \<Longrightarrow> l = 0 \<Longrightarrow> GetActiveCount rl = int (rs_semaphore rl)"
  using limiter_invariant [OF assms] by (auto simp: GetCapacity_def GetActiveCount_def)

theorem limiter_capacity_witness:
  "\<exists>rl e l. limiter_run 1 (rl, e, l) \<and> int (rs_semaphore rl) \<le> GetCapacity rl \<and> GetActiveCount rl = GetCapacity rl + int l"
proof -
  let ?rl = "\<lambda>s a. \<lparr>rs_maxGoroutines = 1, rs_semaphore = s, rs_active = a\<rparr>"
  have "limiter_run 1 (?rl 0 0, 0, 0)" by (rule limiter_run.fresh) (simp add: NewResourceLimiter_def)
  then have "limiter_run 1 (?rl 1 0, 1, 0)" using limiter_run.taken [of 1 _ 0 0 "?rl 1 0"] by (simp add: take_slot_def)
  then have "limiter_run 1 (?rl 1 1, 0, 0)" using limiter_run.counted [of 1 _ 0 0] by (fastforce simp: add_active_def)
  then have "limiter_run 1 (?rl 0 1, 0, 1)" using limiter_run.freed [of 1 _ 0 0 "?rl 0 1"] by (simp add: free_slot_def)
  then have "limiter_run 1 (?rl 1 1, 1, 1)" using limiter_run.taken [of 1 _ 0 1 "?rl 1 1"] by (simp add: take_slot_def)
  then have r: "limiter_run 1 (?rl 1 2, 0, 1)" using limiter_run.counted [of 1 _ 0 1] by (fastforce simp: add_active_def)
  show ?thesis using r limiter_capacity(1) [OF r] by (intro exI conjI) (auto simp: GetActiveCount_def GetCapacity_def)
qed

end
