(* ===== verification/Speed_Wire.thy ===== *)
theory Speed_Wire
  imports Speed_Test_Run
begin

text \<open>
  The speed test over streams (\<open>pkg/network/speedtest.go\<close>): the request, the stream of chunks with their
  acknowledgements on both sides, and the result the tester computes. Neither \<open>main.go\<close> nor the speed test of
  \<open>pob_speedtest_integration.go\<close> uses it.

  Every message is encoded whole; what a decoder or an encoder returns is an input. An acknowledgement is the
  fields it decodes to, which no code reads.
\<close>

section \<open>Messages\<close>

record SpeedTestRequest =
  wq_SessionID :: string
  wq_TesterID :: string
  wq_CandidateID :: string
  wq_PayloadRootHash :: string
  wq_ExpectedChunks :: int
  wq_ChallengeNonce :: bytes
  wq_Timestamp :: gotime

record SpeedTestResponse =
  wr_SessionID :: string
  wr_CandidateID :: string
  wr_Accepted :: bool
  wr_PayloadReady :: bool
  wr_ResponseHash :: bytes
  wr_Timestamp :: gotime

record SpeedTestChunk =
  wc_SessionID :: string
  wc_ChunkIndex :: int
  wc_Data :: bytes
  wc_ChunkHash :: string
  wc_Timestamp :: gotime

record WireTestResult =
  wt_SessionID :: string
  wt_TesterID :: string
  wt_CandidateID :: string
  wt_UploadBandwidth :: f64
  wt_Latency :: f64
  wt_Jitter :: f64
  wt_ChunkTimestamps :: "gotime list"
  wt_ReceivedChunks :: int
  wt_VerifiedHashes :: "string list"
  wt_PayloadVerified :: bool
  wt_Timestamp :: gotime
  wt_Anomalies :: "string list"

section \<open>The candidate\<close>

definition handleSpeedTestRequest :: "gotime \<Rightarrow> SpeedTestRequest res \<Rightarrow> SpeedTestResponse option" where
  "handleSpeedTestRequest now decoded =
     (case decoded of
        Inl _ \<Rightarrow> None
      | Inr request \<Rightarrow> Some \<lparr>wr_SessionID = wq_SessionID request, wr_CandidateID = wq_CandidateID request, wr_Accepted = True,
          wr_PayloadReady = True, wr_ResponseHash = [], wr_Timestamp = now\<rparr>)"

record stream_totals =
  st_received :: nat
  st_bytes :: nat
  st_mismatches :: "int list"
  st_acks :: "int list"

text \<open>The events are what each decoding returns and whether the acknowledgement that follows it can be sent.\<close>

fun stream_chunks :: "(SpeedTestChunk res \<times> bool) list \<Rightarrow> stream_totals \<Rightarrow> stream_totals" where
  "stream_chunks [] tot = tot"
| "stream_chunks ((Inl e, ok) # evs) tot = tot"
| "stream_chunks ((Inr chunk, ok) # evs) tot =
     (let actualHash = hex (sha256 (wc_Data chunk));
          tot1 = tot\<lparr>st_received := Suc (st_received tot), st_bytes := st_bytes tot + length (wc_Data chunk),
            st_mismatches := (if actualHash \<noteq> wc_ChunkHash chunk then st_mismatches tot @ [wc_ChunkIndex chunk] else st_mismatches tot)\<rparr>
      in if ok then stream_chunks evs (tot1\<lparr>st_acks := st_acks tot1 @ [wc_ChunkIndex chunk]\<rparr>) else tot1)"

definition handleSpeedTestStream :: "(SpeedTestChunk res \<times> bool) list \<Rightarrow> duration \<Rightarrow> stream_totals \<times> f64" where
  "handleSpeedTestStream evs totalTime =
     (let tot = stream_chunks evs \<lparr>st_received = 0, st_bytes = 0, st_mismatches = [], st_acks = []\<rparr>
      in (tot, f_div (f_div (f_of_int (int (st_bytes tot))) (f_lit (1024 * 1024))) (duration_seconds totalTime)))"

section \<open>The tester\<close>

definition RequestSpeedTest :: "unit res \<Rightarrow> unit res \<Rightarrow> SpeedTestResponse res \<Rightarrow> SpeedTestResponse res" where
  "RequestSpeedTest opened sent answer =
     (case opened of Inl (Panic e) \<Rightarrow> Inl (Panic e) | Inl (Error _) \<Rightarrow> Inl (Error ''failed to open stream'') | Inr _ \<Rightarrow>
     (case sent of Inl (Panic e) \<Rightarrow> Inl (Panic e) | Inl (Error _) \<Rightarrow> Inl (Error ''failed to send request'') | Inr _ \<Rightarrow>
     (case answer of Inl (Panic e) \<Rightarrow> Inl (Panic e) | Inl (Error _) \<Rightarrow> Inl (Error ''failed to read response'') | Inr response \<Rightarrow> Inr response)))"

text \<open>What a round gets: the clock, whether the chunk can be encoded and flushed, and the acknowledgement that is decoded.\<close>

record chunk_round =
  ro_now :: gotime
  ro_encoded :: bool
  ro_flushed :: bool
  ro_ack :: "(string \<times> string) list res"

definition wire_chunk_size :: nat where "wire_chunk_size = 512 * 1024"

text \<open>The loop over the chunks; \<open>None\<close> while it waits for a round that does not come. It returns what was sent and the times.\<close>

fun send_chunks :: "string \<Rightarrow> bytes \<Rightarrow> string list \<Rightarrow> nat list \<Rightarrow> chunk_round list \<Rightarrow> SpeedTestChunk list \<Rightarrow>
    (SpeedTestChunk list \<times> gotime list res) option" where
  "send_chunks sessionID payload chunkHashes [] rounds acc = Some (acc, Inr (map wc_Timestamp acc))"
| "send_chunks sessionID payload chunkHashes (i # idx) rounds acc =
     (if length chunkHashes \<le> i then Some (acc, Inl (Panic ''index out of range''))
      else case rounds of
        [] \<Rightarrow> None
      | ro # rounds' \<Rightarrow>
          let chunk = \<lparr>wc_SessionID = sessionID, wc_ChunkIndex = int i,
                wc_Data = take wire_chunk_size (drop (i * wire_chunk_size) payload), wc_ChunkHash = chunkHashes ! i,
                wc_Timestamp = ro_now ro\<rparr>
          in if \<not> ro_encoded ro then Some (acc, Inl (Error ''failed to send chunk''))
             else if \<not> ro_flushed ro then Some (acc, Inl (Error ''failed to flush chunk''))
             else (case ro_ack ro of
                Inl _ \<Rightarrow> Some (acc @ [chunk], Inl (Error ''failed to receive ACK for chunk''))
              | Inr _ \<Rightarrow> send_chunks sessionID payload chunkHashes idx rounds' (acc @ [chunk])))"

definition ConductSpeedTest ::
  "unit res \<Rightarrow> chunk_round list \<Rightarrow> duration \<Rightarrow> gotime \<Rightarrow> string \<Rightarrow> string \<Rightarrow> bytes \<Rightarrow> string list \<Rightarrow> (SpeedTestChunk list \<times> WireTestResult res) option" where
  "ConductSpeedTest opened rounds totalTime now peerID sessionID payload chunkHashes =
     (case opened of
        Inl (Panic e) \<Rightarrow> Some ([], Inl (Panic e))
      | Inl (Error _) \<Rightarrow> Some ([], Inl (Error ''failed to open stream''))
      | Inr _ \<Rightarrow>
          let numChunks = length payload div wire_chunk_size in
          (case send_chunks sessionID payload chunkHashes [0..<numChunks] rounds [] of
             None \<Rightarrow> None
           | Some (sent, Inl e) \<Rightarrow> Some (sent, Inl e)
           | Some (sent, Inr chunkTimestamps) \<Rightarrow>
               Some (sent, Inr \<lparr>wt_SessionID = sessionID, wt_TesterID = [], wt_CandidateID = peerID,
                 wt_UploadBandwidth = f_div (f_div (f_of_int (int (length payload))) (f_lit (1024 * 1024))) (duration_seconds totalTime),
                 wt_Latency = Fin 0, wt_Jitter = Fin 0, wt_ChunkTimestamps = chunkTimestamps, wt_ReceivedChunks = int numChunks,
                 wt_VerifiedHashes = [], wt_PayloadVerified = True, wt_Timestamp = now, wt_Anomalies = []\<rparr>)))"

section \<open>What a completed test shows\<close>

lemma send_chunks_sent:
  "send_chunks s payload hs idx rounds acc = Some (sent, Inr ts) \<Longrightarrow>
   (\<forall>i \<in> set idx. i < length hs) \<and> map wc_Data sent = map wc_Data acc @ map (\<lambda>i. take wire_chunk_size (drop (i * wire_chunk_size) payload)) idx \<and>
   length rounds \<ge> length idx"
proof (induction s payload hs idx rounds acc arbitrary: sent ts rule: send_chunks.induct)
  case (2 s payload hs i idx rounds acc)
  show ?case
  proof (cases rounds)
    case Nil
    then show ?thesis using "2.prems" by (auto split: if_splits)
  next
    case (Cons ro rounds')
    have i: "\<not> length hs \<le> i" using "2.prems" by (auto split: if_splits)
    note r = "2.IH" [OF i Cons refl]
    show ?thesis using "2.prems" i r by (auto simp: Cons Let_def split: if_splits sum.splits)
  qed
qed auto

text \<open>
  A completed test reports a verified payload without anomalies, whatever the acknowledgements contain and
  whatever the hashes are: it says only that an acknowledgement could be decoded for every whole chunk. The rest of
  the payload, shorter than a chunk, is never sent and still counts for the rate.
\<close>

theorem conducted_test_unverified:
  assumes "ConductSpeedTest opened rounds totalTime now peerID sessionID payload chunkHashes = Some (sent, Inr result)"
  shows "wt_PayloadVerified result \<and> wt_Anomalies result = [] \<and> int (length sent) = wt_ReceivedChunks result \<and>
    length sent \<le> length chunkHashes \<and>
    concat (map wc_Data sent) = take (length payload - length payload mod wire_chunk_size) payload \<and>
    wt_UploadBandwidth result = f_div (f_div (f_of_int (int (length payload))) (f_lit (1024 * 1024))) (duration_seconds totalTime)"
proof -
  let ?n = "length payload div wire_chunk_size"
  obtain ts where ts: "send_chunks sessionID payload chunkHashes [0..<?n] rounds [] = Some (sent, Inr ts)"
    and res: "wt_PayloadVerified result" "wt_Anomalies result = []" "wt_ReceivedChunks result = int ?n"
      "wt_UploadBandwidth result = f_div (f_div (f_of_int (int (length payload))) (f_lit (1024 * 1024))) (duration_seconds totalTime)"
    using assms by (auto simp: ConductSpeedTest_def Let_def split: sum.splits fail.splits option.splits prod.splits)
  note sent = send_chunks_sent [OF ts]
  have data: "map wc_Data sent = map (\<lambda>i. take wire_chunk_size (drop (i * wire_chunk_size) payload)) [0..<?n]" using sent by simp
  then have len: "length sent = ?n" by (metis length_map length_upt minus_nat.diff_0)
  have step: "take (n * k + k) payload = take (n * k) payload @ take k (drop (n * k) payload)" for n k
    by (rule take_add)
  have "concat (map (\<lambda>i. take k (drop (i * k) payload)) [0..<n]) = take (n * k) payload" for n k
    by (induction n) (simp_all add: step add.commute [of k])
  then have "concat (map wc_Data sent) = take (?n * wire_chunk_size) payload" unfolding data by simp
  moreover have "?n \<le> length chunkHashes"
  proof (cases ?n)
    case (Suc m)
    then have "m \<in> set [0..<?n]" by simp
    then show ?thesis using sent Suc by (metis Suc_leI)
  qed simp
  moreover have "?n * wire_chunk_size = length payload - length payload mod wire_chunk_size" by (simp add: minus_mod_eq_div_mult)
  ultimately show ?thesis using res len by simp
qed

theorem conducted_test_unverified_witness:
  "\<exists>result. ConductSpeedTest (Inr ()) [] 1 0 ''peer'' ''session'' (replicate 1000 0) [] = Some ([], Inr result) \<and> wt_PayloadVerified result"
proof -
  have "length (replicate 1000 (0 :: byte)) div wire_chunk_size = 0" by (simp add: wire_chunk_size_def)
  then obtain result where r: "ConductSpeedTest (Inr ()) [] 1 0 ''peer'' ''session'' (replicate 1000 0) [] = Some ([], Inr result)"
    by (simp add: ConductSpeedTest_def Let_def)
  with conducted_test_unverified [OF r] show ?thesis by blast
qed

text \<open>Every request that decodes is accepted.\<close>

lemma every_request_accepted: "handleSpeedTestRequest now (Inr request) = Some r \<Longrightarrow> wr_Accepted r \<and> wr_PayloadReady r"
  by (auto simp: handleSpeedTestRequest_def)

end
