(* ===== verification/Migration.thy ===== *)
theory Migration
  imports Chain
begin

text \<open>
  The migration of a database between versions of the protocol (\<open>tools/state_migration.go\<close>), a program of its own. The
  source is read through an iterator, the target written key by key; the encoding of the new record is an input.
\<close>

record MigrationConfig =
  mc_FromVersion :: string
  mc_ToVersion :: string
  mc_SourceDataDir :: string
  mc_TargetDataDir :: string
  mc_DryRun :: bool

text \<open>The arguments after the program's name; with fewer than three the program exits. A dry run still writes, into \<open>preview\<close>.\<close>

definition migration_config :: "string \<Rightarrow> string list \<Rightarrow> MigrationConfig option" where
  "migration_config preview args =
     (case args of
        fromV # toV # source # others \<Rightarrow>
          let dry = (case others of flag # _ \<Rightarrow> flag = ''--dry-run'' | [] \<Rightarrow> False)
          in Some \<lparr>mc_FromVersion = fromV, mc_ToVersion = toV, mc_SourceDataDir = source,
            mc_TargetDataDir = (if dry then preview else source @ ''.v'' @ toV), mc_DryRun = dry\<rparr>
      | _ \<Rightarrow> None)"

record MigrationReport =
  mi_RecordsMigrated :: nat
  mi_RecordsFailed :: nat
  mi_Errors :: "string list"
  mi_Success :: bool

text \<open>\<open>transformDataV1ToV1_1\<close>: the value inside a record with a time stamp; an encoding error leaves no bytes.\<close>

definition transformDataV1ToV1_1 :: "(bytes \<times> int) encoder \<Rightarrow> int \<Rightarrow> bytes \<Rightarrow> bytes" where
  "transformDataV1ToV1_1 enc now v = (case enc (v, now) of Inl _ \<Rightarrow> [] | Inr bs \<Rightarrow> bs)"

fun migrate_loop :: "'db leveldb \<Rightarrow> (bytes \<times> int) encoder \<Rightarrow> int \<Rightarrow> (string \<times> bytes) list \<Rightarrow> 'db \<Rightarrow> MigrationReport \<Rightarrow> 'db \<times> MigrationReport" where
  "migrate_loop L enc now [] target report = (target, report)"
| "migrate_loop L enc now ((key, v) # entries) target report =
     (case db_put L key (transformDataV1ToV1_1 enc now v) target of
        (target', Some _) \<Rightarrow> migrate_loop L enc now entries target' (report\<lparr>mi_RecordsFailed := Suc (mi_RecordsFailed report),
          mi_Errors := mi_Errors report @ [''Failed to migrate key '' @ key]\<rparr>)
      | (target', None) \<Rightarrow> migrate_loop L enc now entries target' (report\<lparr>mi_RecordsMigrated := Suc (mi_RecordsMigrated report)\<rparr>))"

definition migrateV1ToV1_1 :: "'db leveldb \<Rightarrow> (bytes \<times> int) encoder \<Rightarrow> int \<Rightarrow> 'db \<Rightarrow> 'db \<Rightarrow> MigrationReport \<Rightarrow> 'db \<times> MigrationReport" where
  "migrateV1ToV1_1 L enc now source target report =
     (case migrate_loop L enc now (db_iter L source []) target report of
        (target', r) \<Rightarrow> (target', r\<lparr>mi_Success := db_iter_err L source [] = None \<and> mi_RecordsFailed r = 0\<rparr>))"

definition migrateV1_1ToV2 :: "MigrationReport \<Rightarrow> MigrationReport" where
  "migrateV1_1ToV2 report = report\<lparr>mi_Success := True\<rparr>"

text \<open>\<open>opened\<close> are the source and the target, or the error of opening one.\<close>

definition runMigration ::
  "'db leveldb \<Rightarrow> (bytes \<times> int) encoder \<Rightarrow> int \<Rightarrow> string \<Rightarrow> string \<Rightarrow> 'db res \<Rightarrow> 'db res \<Rightarrow> 'db option \<times> MigrationReport" where
  "runMigration L enc now fromVersion toVersion source target =
     (let report = \<lparr>mi_RecordsMigrated = 0, mi_RecordsFailed = 0, mi_Errors = [], mi_Success = False\<rparr> in
      case source of
        Inl _ \<Rightarrow> (None, report\<lparr>mi_Errors := [''Failed to open source DB'']\<rparr>)
      | Inr s \<Rightarrow>
          (case target of
             Inl _ \<Rightarrow> (None, report\<lparr>mi_Errors := [''Failed to create target DB'']\<rparr>)
           | Inr t \<Rightarrow>
               if fromVersion = ''1.0'' \<and> toVersion = ''1.1'' then
                 (case migrateV1ToV1_1 L enc now s t report of (t', r) \<Rightarrow> (Some t', r))
               else if fromVersion = ''1.1'' \<and> toVersion = ''2.0'' then (Some t, migrateV1_1ToV2 report)
               else (Some t, report\<lparr>mi_Errors := [''Unsupported migration path'']\<rparr>)))"

text \<open>The program with the databases its directories open to; the result is its exit code.\<close>

definition migration_main ::
  "'db leveldb \<Rightarrow> (bytes \<times> int) encoder \<Rightarrow> int \<Rightarrow> string \<Rightarrow> (string \<Rightarrow> 'db res) \<Rightarrow> string list \<Rightarrow> 'db option \<times> nat" where
  "migration_main L enc now preview open_db args =
     (case migration_config preview args of
        None \<Rightarrow> (None, 1)
      | Some config \<Rightarrow>
          (case runMigration L enc now (mc_FromVersion config) (mc_ToVersion config)
              (open_db (mc_SourceDataDir config)) (open_db (mc_TargetDataDir config)) of
             (target, report) \<Rightarrow> (target, if mi_Success report then 0 else 1)))"

section \<open>What a successful migration leaves\<close>

lemma migrate_loop_mono:
  "migrate_loop L enc now es target report = (target', report') \<Longrightarrow> mi_RecordsFailed report \<le> mi_RecordsFailed report'"
proof (induction L enc now es target report arbitrary: target' report' rule: migrate_loop.induct)
  case (2 L enc now key v entries target report)
  obtain t1 err where put: "db_put L key (transformDataV1ToV1_1 enc now v) target = (t1, err)"
    by (cases "db_put L key (transformDataV1ToV1_1 enc now v) target")
  show ?case
  proof (cases err)
    case None
    then show ?thesis using "2.IH"(1) [OF put [symmetric] None] "2.prems" put by force
  next
    case (Some e)
    then show ?thesis using "2.IH"(2) [OF put [symmetric] Some] "2.prems" put by force
  qed
qed simp

lemma migrate_loop_entries:
  assumes "kv_laws L" "migrate_loop L enc now es target report = (target', report')" "mi_RecordsFailed report' = mi_RecordsFailed report" "wf_map es"
  shows "db_get L target' key = (case map_of es key of None \<Rightarrow> db_get L target key | Some v \<Rightarrow> Some (transformDataV1ToV1_1 enc now v))
    \<and> mi_RecordsMigrated report' = mi_RecordsMigrated report + length es"
  using assms(2-4)
proof (induction es arbitrary: target report)
  case (Cons e es)
  obtain k v where e: "e = (k, v)" by (cases e)
  have mono: "mi_RecordsFailed r \<le> mi_RecordsFailed r'" if "migrate_loop L enc now xs t r = (t', r')" for xs t r t' r'
    using that by (rule migrate_loop_mono)
  obtain t1 err where put: "db_put L k (transformDataV1ToV1_1 enc now v) target = (t1, err)"
    by (cases "db_put L k (transformDataV1ToV1_1 enc now v) target")
  have none: "err = None"
  proof (rule ccontr)
    assume "err \<noteq> None"
    then have "migrate_loop L enc now es t1 (report\<lparr>mi_RecordsFailed := Suc (mi_RecordsFailed report),
        mi_Errors := mi_Errors report @ [''Failed to migrate key '' @ k]\<rparr>) = (target', report')"
      using Cons.prems(1) put by (auto simp: e)
    from mono [OF this] show False using Cons.prems(2) by simp
  qed
  have rest: "migrate_loop L enc now es t1 (report\<lparr>mi_RecordsMigrated := Suc (mi_RecordsMigrated report)\<rparr>) = (target', report')"
    using Cons.prems(1) put none by (simp add: e)
  have wf: "wf_map es" "map_of es k = None" using Cons.prems(3) by (auto simp: e map_of_eq_None_iff)
  have "db_get L t1 j = (if j = k then Some (transformDataV1ToV1_1 enc now v) else db_get L target j)" for j
    using put none assms(1) by (auto simp: kv_laws_def)
  then show ?case using Cons.IH [OF rest _ wf(1)] Cons.prems(2) wf(2) by (auto simp: e split: option.splits)
qed simp

text \<open>
  A successful migration from 1.0 to 1.1 leaves, under every key of the source, the wrapped record, and nothing else
  changes in the target. The migration from 1.1 to 2.0 is reported as a success and copies nothing. Any other pair of
  versions fails.
\<close>

theorem migration_result:
  assumes L: "kv_laws L" and wf: "wf_map (db_iter L s [])"
    and run: "runMigration L enc now from_v to_v (Inr s) (Inr t) = (Some t', report)" and ok: "mi_Success report"
  shows "(from_v = ''1.0'' \<and> to_v = ''1.1'' \<and> mi_RecordsMigrated report = length (db_iter L s []) \<and>
      (\<forall>key. db_get L t' key = (case map_of (db_iter L s []) key of
         None \<Rightarrow> db_get L t key | Some v \<Rightarrow> Some (transformDataV1ToV1_1 enc now v)))) \<or>
    (from_v = ''1.1'' \<and> to_v = ''2.0'' \<and> t' = t \<and> mi_RecordsMigrated report = 0)"
proof -
  let ?r0 = "\<lparr>mi_RecordsMigrated = 0, mi_RecordsFailed = 0, mi_Errors = [], mi_Success = False\<rparr>"
  consider (one) "from_v = ''1.0'' \<and> to_v = ''1.1''" | (two) "from_v = ''1.1'' \<and> to_v = ''2.0''"
    | (other) "\<not> (from_v = ''1.0'' \<and> to_v = ''1.1'')" "\<not> (from_v = ''1.1'' \<and> to_v = ''2.0'')" by blast
  then show ?thesis
  proof cases
    case one
    obtain t1 r1 where l: "migrate_loop L enc now (db_iter L s []) t ?r0 = (t1, r1)" by (cases "migrate_loop L enc now (db_iter L s []) t ?r0")
    have r: "t' = t1" "report = r1\<lparr>mi_Success := db_iter_err L s [] = None \<and> mi_RecordsFailed r1 = 0\<rparr>"
      using run one by (auto simp: runMigration_def migrateV1ToV1_1_def Let_def l)
    have "mi_RecordsFailed r1 = mi_RecordsFailed ?r0" using ok r(2) by simp
    from migrate_loop_entries [OF L l this wf] show ?thesis using one by (simp add: r)
  qed (use run ok in \<open>auto simp: runMigration_def migrateV1_1ToV2_def Let_def\<close>)
qed

theorem migration_result_witness:
  "\<exists>t' report. runMigration memdb_ops (\<lambda>(v, n). Inr (v @ [1])) 0 ''1.0'' ''1.1'' (Inr [(''k'', [7])]) (Inr []) = (Some t', report) \<and>
     mi_RecordsMigrated report = 1 \<and> db_get memdb_ops t' ''k'' = Some [7, 1]"
proof -
  let ?enc = "\<lambda>(v, n). Inr (v @ [1]) :: bytes res"
  have entries: "db_iter memdb_ops [(''k'', [7])] [] = [(''k'', [7])]" by (simp add: memdb_ops_def mem_iter_def clearjunk.simps)
  obtain t' report where run: "runMigration memdb_ops ?enc 0 ''1.0'' ''1.1'' (Inr [(''k'', [7])]) (Inr []) = (Some t', report)"
    and ok: "mi_Success report"
    using entries by (simp add: runMigration_def migrateV1ToV1_1_def Let_def memdb_ops_def)
  from migration_result [OF memdb_laws _ run ok] have "mi_RecordsMigrated report = 1 \<and> db_get memdb_ops t' ''k'' = Some [7, 1]"
    by (simp add: entries transformDataV1ToV1_1_def)
  with run show ?thesis by blast
qed

end
