(* ===== verification/Partition.thy ===== *)
theory Partition
  imports Core_Types
begin

text \<open>
  The partition detector (\<open>pkg/consensus/partition_detector.go\<close>): heartbeats of peers and the status of the network by
  the share of the validators heard of. \<open>main.go\<close> creates it for one validator, checks it every 30 seconds, never
  enters a heartbeat and never asks whether to halt.
\<close>

datatype PartitionStatus = PStatusHealthy | PStatusSuspected | PStatusPartitioned

record PartitionDetector =
  pd_peerHeartbeats :: "(string, gotime) gomap"
  pd_totalValidators :: int
  pd_connectedPeers :: int
  pd_status :: PartitionStatus
  pd_heartbeatTimeout :: duration
  pd_partitionThreshold :: f64

definition NewPartitionDetector :: "int \<Rightarrow> PartitionDetector" where
  "NewPartitionDetector totalValidators = \<lparr>pd_peerHeartbeats = [], pd_totalValidators = totalValidators, pd_connectedPeers = 0,
     pd_status = PStatusHealthy, pd_heartbeatTimeout = 30 * second, pd_partitionThreshold = f_lit (33 / 100)\<rparr>"

definition UpdateHeartbeat :: "gotime \<Rightarrow> string \<Rightarrow> PartitionDetector \<Rightarrow> PartitionDetector" where
  "UpdateHeartbeat now peerID pd = pd\<lparr>pd_peerHeartbeats := mput peerID now (pd_peerHeartbeats pd)\<rparr>"

definition partition_status :: "f64 \<Rightarrow> f64 \<Rightarrow> PartitionStatus" where
  "partition_status threshold connectedRatio =
     (if f_lt connectedRatio threshold then PStatusPartitioned
      else if f_lt connectedRatio (f_lit (67 / 100)) then PStatusSuspected else PStatusHealthy)"

definition CheckPartitionStatus :: "gotime \<Rightarrow> PartitionDetector \<Rightarrow> PartitionDetector \<times> PartitionStatus" where
  "CheckPartitionStatus now pd =
     (let beats = mkeep (\<lambda>_ lastSeen. \<not> time_sub now lastSeen > pd_heartbeatTimeout pd) (pd_peerHeartbeats pd);
          activeCount = int (mlen beats);
          connectedRatio = f_div (f_of_int activeCount) (f_of_int (pd_totalValidators pd));
          st = partition_status (pd_partitionThreshold pd) connectedRatio
      in (pd\<lparr>pd_peerHeartbeats := beats, pd_connectedPeers := activeCount, pd_status := st\<rparr>, st))"

definition ShouldHaltConsensus :: "PartitionDetector \<Rightarrow> bool" where
  "ShouldHaltConsensus pd \<longleftrightarrow> pd_status pd = PStatusPartitioned"

definition GetConnectedPeerCount :: "PartitionDetector \<Rightarrow> int" where
  "GetConnectedPeerCount pd = pd_connectedPeers pd"

definition Partition_GetStatus :: "PartitionDetector \<Rightarrow> PartitionStatus" where
  "Partition_GetStatus pd = pd_status pd"

section \<open>The thresholds\<close>

lemma rnd_val_close: "0 < x \<Longrightarrow> x < 1 \<Longrightarrow> \<bar>rnd_val x - x\<bar> \<le> 1 / 2 ^ 54"
proof -
  assume x: "0 < x" "x < 1"
  have "rnd_unit x \<le> 0 - 53" by (rule rnd_unit_le) (use x in simp_all)
  then have "pow2 (rnd_unit x) \<le> pow2 (- 53)" by (simp add: pow2_le_iff)
  then show ?thesis using rnd_val_error [of x] x by (simp add: pow2_def)
qed

lemma rnd_unit_fin: "0 \<le> x \<Longrightarrow> x \<le> 1 \<Longrightarrow> rnd x = Fin (rnd_val x)"
  by (rule rnd_finite) simp_all

text \<open>Two rationals below one, a multiple of \<open>2^-47\<close> apart, are told apart after rounding.\<close>

lemma rounded_less:
  assumes "0 \<le> x" "0 < y" "y < 1" "0 < n" "n \<le> 2 ^ 40" "x = of_int a / of_int n" "y = of_int p / 100"
  shows "f_lt (rnd x) (rnd y) \<longleftrightarrow> 100 * a < p * n"
proof -
  have "(of_int n :: rat) \<le> of_int (2 ^ 40)" using assms(5) by (simp only: of_int_le_iff)
  then have n: "(0 :: rat) < of_int n" "(of_int n :: rat) \<le> 2 ^ 40" using assms(4) by simp_all
  have cross: "x < y \<longleftrightarrow> 100 * a < p * n"
  proof -
    have "x < y \<longleftrightarrow> of_int (100 * a) < (of_int (p * n) :: rat)" using n by (simp add: assms(6,7) field_simps)
    then show ?thesis by (simp only: of_int_less_iff)
  qed
  have yv: "rnd y = Fin (rnd_val y)" "\<bar>rnd_val y - y\<bar> \<le> 1 / 2 ^ 54" using rnd_unit_fin rnd_val_close assms(2,3) by simp_all
  show ?thesis
  proof (cases "100 * a < p * n")
    case True
    have "100 * a + 1 \<le> p * n" using True by simp
    then have "of_int (100 * a + 1) \<le> (of_int (p * n) :: rat)" by (simp only: of_int_le_iff)
    then have "x + 1 / (100 * of_int n) \<le> y" using n by (simp add: assms(6,7) field_simps)
    moreover have "1 / (100 * 2 ^ 40) \<le> 1 / (100 * of_int n :: rat)" using n by (intro divide_left_mono) simp_all
    ultimately have gap: "x + 1 / (100 * 2 ^ 40) \<le> y" by linarith
    have "rnd_val x \<le> x + 1 / 2 ^ 54"
    proof (cases "x = 0")
      case False
      then have "\<bar>rnd_val x - x\<bar> \<le> 1 / 2 ^ 54" using gap assms(1,3) by (intro rnd_val_close) simp_all
      then show ?thesis by (simp only: abs_le_iff) linarith
    qed (simp add: rnd_val_def)
    moreover have "- (rnd_val y - y) \<le> 1 / 2 ^ 54" using yv(2) by (simp only: abs_le_iff)
    moreover have "1 / 2 ^ 54 + 1 / 2 ^ 54 < (1 / (100 * 2 ^ 40) :: rat)" by simp
    ultimately have "rnd_val x < rnd_val y" using gap by linarith
    moreover have "rnd x = Fin (rnd_val x)" using gap assms(1,3) by (intro rnd_unit_fin) simp_all
    ultimately show ?thesis using True yv(1) by simp
  next
    case False
    then have "y \<le> x" using cross by simp
    then have "rnd_val y \<le> rnd_val x" using assms(2) by (intro rnd_val_mono) simp_all
    then have "\<not> f_lt (rnd x) (rnd y)" using yv(1) assms(1) by (auto simp: rnd_eq [of x])
    then show ?thesis using False by simp
  qed
qed

text \<open>
  The status after a check, in whole numbers: partitioned below 33 per cent of the validators, suspected
  below 67 per cent, healthy otherwise. The rounding of the two literals and of the quotient never decides.
\<close>

theorem partition_thresholds:
  assumes "CheckPartitionStatus now pd = (pd', st)" "pd_partitionThreshold pd = f_lit (33 / 100)"
    and "0 < pd_totalValidators pd" "pd_totalValidators pd \<le> 2 ^ 40" "pd_connectedPeers pd' \<le> 2 ^ 40"
  shows "st = (if 100 * pd_connectedPeers pd' < 33 * pd_totalValidators pd then PStatusPartitioned
               else if 100 * pd_connectedPeers pd' < 67 * pd_totalValidators pd then PStatusSuspected else PStatusHealthy)"
    and "pd_status pd' = st" "ShouldHaltConsensus pd' \<longleftrightarrow> 100 * pd_connectedPeers pd' < 33 * pd_totalValidators pd"
proof -
  let ?a = "pd_connectedPeers pd'" and ?n = "pd_totalValidators pd"
  let ?x = "of_int ?a / of_int ?n :: rat"
  have a: "0 \<le> ?a" and st: "st = partition_status (f_lit (33 / 100)) (f_div (f_of_int ?a) (f_of_int ?n))" "pd_status pd' = st"
    using assms(1,2) by (auto simp: CheckPartitionStatus_def Let_def)
  have "f_of_int ?a = Fin (of_int ?a)" "f_of_int ?n = Fin (of_int ?n)" using a assms(3-5) by (intro f_of_int_exact; simp)+
  then have r: "f_div (f_of_int ?a) (f_of_int ?n) = rnd ?x" using assms(3) by simp
  have x: "0 \<le> ?x" using a assms(3) by simp
  have "f_lt (rnd ?x) (rnd (33 / 100)) \<longleftrightarrow> 100 * ?a < 33 * ?n" "f_lt (rnd ?x) (rnd (67 / 100)) \<longleftrightarrow> 100 * ?a < 67 * ?n"
    by (rule rounded_less [OF x _ _ assms(3,4) refl]; simp)+
  then show s: "st = (if 100 * ?a < 33 * ?n then PStatusPartitioned else if 100 * ?a < 67 * ?n then PStatusSuspected else PStatusHealthy)"
    unfolding st(1) r partition_status_def by simp
  show "pd_status pd' = st" by (rule st(2))
  then show "ShouldHaltConsensus pd' \<longleftrightarrow> 100 * ?a < 33 * ?n" using s by (simp add: ShouldHaltConsensus_def)
qed

theorem partition_thresholds_witness:
  "\<exists>pd'. CheckPartitionStatus 40 (UpdateHeartbeat 20 ''b'' (UpdateHeartbeat 10 ''a'' (NewPartitionDetector 3))) = (pd', PStatusSuspected)"
proof -
  let ?pd = "UpdateHeartbeat 20 ''b'' (UpdateHeartbeat 10 ''a'' (NewPartitionDetector 3))"
  obtain pd' st where c: "CheckPartitionStatus 40 ?pd = (pd', st)" by (cases "CheckPartitionStatus 40 ?pd")
  have "pd_connectedPeers pd' = 2"
    using c by (auto simp: CheckPartitionStatus_def Let_def UpdateHeartbeat_def NewPartitionDetector_def mput_def mkeep_def mlen_def time_sub_def
        min_duration_def max_duration_def duration_values)
  then have "st = PStatusSuspected"
    using partition_thresholds(1) [OF c] by (simp add: UpdateHeartbeat_def NewPartitionDetector_def)
  then show ?thesis using c by simp
qed

text \<open>As \<open>main.go\<close> uses it: without heartbeats every check finds a partition.\<close>

lemma unfed_detector_partitioned:
  assumes "pd_peerHeartbeats pd = []" "pd_totalValidators pd = 1" "pd_partitionThreshold pd = f_lit (33 / 100)"
  shows "\<exists>pd'. CheckPartitionStatus now pd = (pd', PStatusPartitioned) \<and> ShouldHaltConsensus pd' \<and> pd_peerHeartbeats pd' = [] \<and>
    pd_totalValidators pd' = 1 \<and> pd_partitionThreshold pd' = f_lit (33 / 100)"
proof -
  obtain pd' st where c: "CheckPartitionStatus now pd = (pd', st)" by (cases "CheckPartitionStatus now pd")
  have p: "pd_connectedPeers pd' = 0" "pd_peerHeartbeats pd' = []" "pd_totalValidators pd' = 1" "pd_partitionThreshold pd' = f_lit (33 / 100)"
    using c assms by (auto simp: CheckPartitionStatus_def Let_def mkeep_def)
  let ?x = "of_int 0 / of_int 1 :: rat"
  have "f_lt (rnd ?x) (rnd (33 / 100)) \<longleftrightarrow> 100 * (0 :: int) < 33 * 1" by (rule rounded_less [OF _ _ _ _ _ refl]) simp_all
  then have "f_lt (rnd ?x) (rnd (33 / 100))" by simp
  then have "f_lt (f_div (f_of_int 0) (f_of_int 1)) (rnd (33 / 100))" by simp
  then have "st = PStatusPartitioned" "pd_status pd' = st" using c assms p(1) by (auto simp: CheckPartitionStatus_def Let_def partition_status_def mkeep_def)
  then show ?thesis using c p by (simp add: ShouldHaltConsensus_def)
qed

end
