(* ===== verification/Metrics.thy ===== *)
theory Metrics
  imports Recovery Float64
begin

text \<open>
  The metrics of a node (\<open>pkg/metrics/prometheus.go\<close>): counters, gauges and histograms in a registry. A registered
  metric is a pointer shared by all who register its name, so the operations on a metric take its name. A counter
  is an \<open>int64\<close> and wraps. The exposition is its lines before the numbers are formatted; Go writes them in
  any order of the names. A bound that is no number, which a Go map could hold several times, is held once; its
  bucket stays at zero.
\<close>

section \<open>Metrics\<close>

record Counter =
  co_help :: string
  co_value :: int

record Gauge =
  ga_help :: string
  ga_value :: f64

record Histogram =
  hi_help :: string
  hi_sum :: f64
  hi_count :: int
  hi_buckets :: "(f64, int) gomap"

record PrometheusMetrics =
  pr_counters :: "(string, Counter) gomap"
  pr_gauges :: "(string, Gauge) gomap"
  pr_histograms :: "(string, Histogram) gomap"

definition NewPrometheusMetrics :: PrometheusMetrics where
  "NewPrometheusMetrics = \<lparr>pr_counters = [], pr_gauges = [], pr_histograms = []\<rparr>"

definition RegisterCounter :: "string \<Rightarrow> string \<Rightarrow> PrometheusMetrics \<Rightarrow> PrometheusMetrics" where
  "RegisterCounter name help pm =
     (if mhas (pr_counters pm) name then pm
      else pm\<lparr>pr_counters := mput name \<lparr>co_help = help, co_value = 0\<rparr> (pr_counters pm)\<rparr>)"

definition RegisterGauge :: "string \<Rightarrow> string \<Rightarrow> PrometheusMetrics \<Rightarrow> PrometheusMetrics" where
  "RegisterGauge name help pm =
     (if mhas (pr_gauges pm) name then pm
      else pm\<lparr>pr_gauges := mput name \<lparr>ga_help = help, ga_value = Fin 0\<rparr> (pr_gauges pm)\<rparr>)"

definition RegisterHistogram :: "string \<Rightarrow> string \<Rightarrow> f64 list \<Rightarrow> PrometheusMetrics \<Rightarrow> PrometheusMetrics" where
  "RegisterHistogram name help buckets pm =
     (if mhas (pr_histograms pm) name then pm
      else let bucketMap = fold (\<lambda>bucket. mput bucket 0) buckets []
        in pm\<lparr>pr_histograms := mput name \<lparr>hi_help = help, hi_sum = Fin 0, hi_count = 0, hi_buckets = bucketMap\<rparr> (pr_histograms pm)\<rparr>)"

definition Counter_Add :: "int \<Rightarrow> Counter \<Rightarrow> Counter" where
  "Counter_Add delta c = c\<lparr>co_value := wrap_int64 (co_value c + delta)\<rparr>"

definition Counter_Inc :: "Counter \<Rightarrow> Counter" where
  "Counter_Inc c = c\<lparr>co_value := wrap_int64 (co_value c + 1)\<rparr>"

definition Gauge_Set :: "f64 \<Rightarrow> Gauge \<Rightarrow> Gauge" where "Gauge_Set x g = g\<lparr>ga_value := x\<rparr>"
definition Gauge_Inc :: "Gauge \<Rightarrow> Gauge" where "Gauge_Inc g = g\<lparr>ga_value := f_add (ga_value g) (f_of_int 1)\<rparr>"
definition Gauge_Dec :: "Gauge \<Rightarrow> Gauge" where "Gauge_Dec g = g\<lparr>ga_value := f_sub (ga_value g) (f_of_int 1)\<rparr>"

definition Observe :: "f64 \<Rightarrow> Histogram \<Rightarrow> Histogram" where
  "Observe x h = h\<lparr>hi_sum := f_add (hi_sum h) x, hi_count := wrap_int64 (hi_count h + 1),
     hi_buckets := mmap (\<lambda>bucket n. if f_le x bucket then wrap_int64 (n + 1) else n) (hi_buckets h)\<rparr>"

definition on_histogram :: "string \<Rightarrow> (Histogram \<Rightarrow> Histogram) \<Rightarrow> PrometheusMetrics \<Rightarrow> PrometheusMetrics" where
  "on_histogram name f pm = (case mget (pr_histograms pm) name of None \<Rightarrow> pm
     | Some h \<Rightarrow> pm\<lparr>pr_histograms := mput name (f h) (pr_histograms pm)\<rparr>)"

definition Counter_Get :: "Counter \<Rightarrow> int" where "Counter_Get c = co_value c"
definition Gauge_Get :: "Gauge \<Rightarrow> f64" where "Gauge_Get g = ga_value g"

definition ObserveDuration :: "gotime \<Rightarrow> gotime \<Rightarrow> Histogram \<Rightarrow> Histogram" where
  "ObserveDuration now start h = Observe (duration_seconds (time_sub now start)) h"

definition on_gauge :: "string \<Rightarrow> (Gauge \<Rightarrow> Gauge) \<Rightarrow> PrometheusMetrics \<Rightarrow> PrometheusMetrics" where
  "on_gauge name f pm = (case mget (pr_gauges pm) name of None \<Rightarrow> pm
     | Some g \<Rightarrow> pm\<lparr>pr_gauges := mput name (f g) (pr_gauges pm)\<rparr>)"

lemma on_gauge_get: "mget (pr_gauges (on_gauge name f pm)) n =
    (if n = name then map_option f (mget (pr_gauges pm) n) else mget (pr_gauges pm) n)"
  by (auto simp: on_gauge_def mget_mput split: option.splits)

section \<open>The exposition\<close>

datatype exposed = HelpLine string string | TypeLine string string | IntLine string "f64 option" int | FloatLine string f64

definition Handler :: "PrometheusMetrics \<Rightarrow> exposed list" where
  "Handler pm =
     concat (map (\<lambda>(name, c). [HelpLine name (co_help c), TypeLine name ''counter'', IntLine name None (Counter_Get c)]) (pr_counters pm)) @
     concat (map (\<lambda>(name, g). [HelpLine name (ga_help g), TypeLine name ''gauge'', FloatLine name (Gauge_Get g)]) (pr_gauges pm)) @
     concat (map (\<lambda>(name, h). [HelpLine name (hi_help h), TypeLine name ''histogram''] @
       map (\<lambda>(bucket, n). IntLine (name @ ''_bucket'') (Some bucket) n) (hi_buckets h) @
       [IntLine (name @ ''_bucket'') (Some (Inf False)) (hi_count h), FloatLine (name @ ''_sum'') (hi_sum h),
        IntLine (name @ ''_count'') None (hi_count h)]) (pr_histograms pm))"

section \<open>The metrics of the node\<close>

definition production_buckets :: "f64 list" where
  "production_buckets = [f_lit (1 / 10), f_lit (1 / 2), f_lit 1, f_lit 2, f_lit 5, f_lit 10, f_lit 30]"

definition NewBlockchainMetrics :: "PrometheusMetrics \<Rightarrow> PrometheusMetrics" where
  "NewBlockchainMetrics pm =
     RegisterCounter ''rnr_network_partitions_total'' ''Total number of network partition events detected''
    (RegisterCounter ''rnr_validators_slashed_total'' ''Total number of slashed validators''
    (RegisterCounter ''rnr_blocks_finalized_total'' ''Total number of finalized blocks''
    (RegisterGauge ''rnr_sync_status'' ''Sync status (1=synced, 0=syncing)''
    (RegisterGauge ''rnr_mempool_size'' ''Number of transactions in mempool''
    (RegisterGauge ''rnr_peers_connected'' ''Number of connected peers''
    (RegisterGauge ''rnr_validators_active'' ''Number of active validators''
    (RegisterHistogram ''rnr_block_production_seconds'' ''Time taken to produce a block'' production_buckets
    (RegisterCounter ''rnr_transactions_total'' ''Total number of processed transactions''
    (RegisterGauge ''rnr_block_height'' ''Current blockchain height'' pm)))))))))"

section \<open>What a histogram counts\<close>

definition counts :: "f64 list \<Rightarrow> Histogram \<Rightarrow> bool" where
  "counts xs h \<longleftrightarrow> hi_count h = int (length xs) \<and>
     (\<forall>bucket n. mget (hi_buckets h) bucket = Some n \<longrightarrow> n = int (length (filter (\<lambda>x. f_le x bucket) xs)))"

lemma wrap_int64_small: "0 \<le> n \<Longrightarrow> n < 2 ^ 63 \<Longrightarrow> wrap_int64 n = n"
  by (simp add: wrap_int64_def)

lemma observe_counts: "counts xs h \<Longrightarrow> length xs < 2 ^ 63 - 1 \<Longrightarrow> counts (xs @ [x]) (Observe x h)"
proof -
  assume c: "counts xs h" and len: "length xs < 2 ^ 63 - 1"
  have "wrap_int64 (int n + 1) = int n + 1" if "n \<le> length xs" for n
    using that len by (intro wrap_int64_small) simp_all
  then have small: "wrap_int64 (int (length (filter P xs)) + 1) = int (length (filter P xs)) + 1" "wrap_int64 (int (length xs) + 1) = int (length xs) + 1" for P
    by (simp_all add: length_filter_le)
  have step: "wrap_int64 (z + 1) = z + 1" if "mget (hi_buckets h) b = Some z" for b z
  proof -
    have "z = int (length (filter (\<lambda>x. f_le x b) xs))" using c that by (simp add: counts_def)
    then show ?thesis by (simp only: small)
  qed
  show ?thesis using c unfolding counts_def by (auto simp: Observe_def mget_mmap small step)
qed

lemma observed_counts:
  "counts ys h \<Longrightarrow> length ys + length xs < 2 ^ 63 \<Longrightarrow> counts (ys @ xs) (fold Observe xs h)"
proof (induction xs arbitrary: ys h)
  case (Cons x xs)
  have "counts (ys @ [x]) (Observe x h)" using observe_counts [OF Cons.prems(1)] Cons.prems(2) by simp
  from Cons.IH [OF this] show ?case using Cons.prems(2) by simp
qed simp

text \<open>
  C38: A histogram counts what it should: after any observations, fewer than \<open>2^63\<close>, its count is their number, every
  bucket holds the number of those up to its bound, and so a bucket of a larger bound never holds less. A value that is
  no number is counted and is in no bucket.
\<close>

theorem histogram_cumulative:
  assumes "length xs < 2 ^ 63"
    and h: "h = fold Observe xs \<lparr>hi_help = help, hi_sum = Fin 0, hi_count = 0, hi_buckets = fold (\<lambda>bucket. mput bucket 0) bounds []\<rparr>"
  shows "hi_count h = int (length xs) \<and>
    (\<forall>b n. mget (hi_buckets h) b = Some n \<longrightarrow> n = int (length (filter (\<lambda>x. f_le x b) xs)) \<and> n \<le> hi_count h \<and>
      (\<forall>b' n'. mget (hi_buckets h) b' = Some n' \<longrightarrow> f_le b b' \<longrightarrow> n \<le> n'))"
proof -
  have zero: "mget (fold (\<lambda>bucket. mput bucket 0) bs m) b = Some n \<Longrightarrow> \<forall>b n. mget m b = Some n \<longrightarrow> n = 0 \<Longrightarrow> n = (0 :: int)" for bs m b n
    by (induction bs arbitrary: m) (auto simp: mget_mput split: if_splits)
  have "counts [] \<lparr>hi_help = help, hi_sum = Fin 0, hi_count = 0, hi_buckets = fold (\<lambda>bucket. mput bucket 0) bounds []\<rparr>"
    by (auto simp: counts_def dest: zero)
  from observed_counts [OF this, of xs] assms(1) have c: "counts xs h" by (simp add: h)
  have "length (filter (\<lambda>x. f_le x b) xs) \<le> length (filter (\<lambda>x. f_le x b') xs)" if "f_le b b'" for b b'
    by (induction xs) (use that f_le_trans in auto)
  then have mono: "f_le b b' \<Longrightarrow> int (length (filter (\<lambda>x. f_le x b) xs)) \<le> int (length (filter (\<lambda>x. f_le x b') xs))" for b b'
    by (simp only: of_nat_le_iff)
  have "int (length (filter P xs)) \<le> int (length xs)" for P by (simp only: of_nat_le_iff length_filter_le)
  with c mono show ?thesis unfolding counts_def by metis
qed

theorem histogram_cumulative_witness:
  "mget (hi_buckets (Observe (Fin 3) (Observe (Fin 1) \<lparr>hi_help = [], hi_sum = Fin 0, hi_count = 0, hi_buckets = [(Fin 2, 0)]\<rparr>))) (Fin 2) = Some 1"
proof -
  let ?h = "Observe (Fin 3) (Observe (Fin 1) \<lparr>hi_help = [], hi_sum = Fin 0, hi_count = 0, hi_buckets = [(Fin 2, 0)]\<rparr>)"
  have "?h = fold Observe [Fin 1, Fin 3] \<lparr>hi_help = [], hi_sum = Fin 0, hi_count = 0, hi_buckets = fold (\<lambda>bucket. mput bucket 0) [Fin 2] []\<rparr>"
    by simp
  from histogram_cumulative [OF _ this] have all: "mget (hi_buckets ?h) (Fin 2) = Some n \<Longrightarrow>
      n = int (length (filter (\<lambda>x. f_le x (Fin 2)) [Fin 1, Fin 3]))" for n by simp
  obtain n where n: "mget (hi_buckets ?h) (Fin 2) = Some n" by (simp add: Observe_def mget_mmap)
  have "length (filter (\<lambda>x. f_le x (Fin 2)) [Fin 1, Fin 3]) = 1" by (simp add: f_le_def)
  with all [OF n] n show ?thesis by simp
qed

text \<open>A name that is registered again keeps its value.\<close>

lemma register_again: "mhas (pr_counters pm) name \<Longrightarrow> RegisterCounter name help pm = pm"
  by (simp add: RegisterCounter_def)

end
