(* ===== verification/Node.thy ===== *)
theory Node
  imports Validator_Service P2P_Node Fork_Resolver State_Pruner Slashing Mempool_Sync Partition Recovery API_Server Genesis Metrics
begin

text \<open>
  The node (\<open>cmd/rnr/main.go\<close>): its start, the handlers it installs in the P2P layer, the ticks of its goroutines and
  the production of blocks.

  The parts of the node share the chain, the account state, the pool and the database through pointers. They stand
  once in the state, in the service; the fork resolver, the registry, the pool synchronisation and the pruner
  see them through views. A goroutine started by \<open>SafeGoroutine\<close> that panics ends and the node goes on without it
  (\<open>nd_ended\<close>). The panic of a stream handler would end the process; the step relation goes on from there, which
  only adds runs.
\<close>

section \<open>State\<close>

record ('db, 'st) NodeState =
  nd_service :: "('db, 'st) ValidatorService"
  nd_forks :: "(string, ChainInfo) gomap"
  nd_waiting :: bool
  nd_knownTxs :: "(string, bool) gomap"
  nd_slashing :: "('db, 'st) SlashingManager"
  nd_checkpoints :: "'db CheckpointManager"
  nd_pruner :: StatePruner
  nd_partition :: PartitionDetector
  nd_recovery :: ErrorRecovery
  nd_breaker :: CircuitBreaker
  nd_blockCount :: int
  nd_finalizedBlocks :: int
  nd_ended :: "string list"

record ('db, 'st, 'p) node_env =
  ne_validator :: "('db, 'st) validator_env"
  ne_slashing :: "('db, 'st) slashing_env"
  ne_checkpoint :: "'db cp_env"
  ne_codec :: p2p_codec
  ne_show :: "'p \<Rightarrow> string"
  ne_compact :: "'db \<Rightarrow> 'db \<times> fail option"

text \<open>The views of the shared parts, and how an operation on a view changes the node.\<close>

definition pool_of :: "('db, 'st) NodeState \<Rightarrow> Mempool" where
  "pool_of nd = sv_mempool (nd_service nd)"

definition put_pool :: "Mempool \<Rightarrow> ('db, 'st) NodeState \<Rightarrow> ('db, 'st) NodeState" where
  "put_pool mp nd = nd\<lparr>nd_service := (nd_service nd)\<lparr>sv_mempool := mp\<rparr>\<rparr>"

definition fork_view :: "('db, 'st) NodeState \<Rightarrow> 'db ForkResolver" where
  "fork_view nd = \<lparr>fr_mainChain = sv_blockchain (nd_service nd), fr_candidateChains = nd_forks nd\<rparr>"

definition put_fork :: "'db ForkResolver \<Rightarrow> ('db, 'st) NodeState \<Rightarrow> ('db, 'st) NodeState" where
  "put_fork fr nd = nd\<lparr>nd_service := (nd_service nd)\<lparr>sv_blockchain := fr_mainChain fr\<rparr>, nd_forks := fr_candidateChains fr\<rparr>"

definition sync_view :: "('db, 'st) NodeState \<Rightarrow> MempoolSync" where
  "sync_view nd = (NewMempoolSync (pool_of nd))\<lparr>ms_knownTxs := nd_knownTxs nd\<rparr>"

definition put_sync :: "MempoolSync \<Rightarrow> ('db, 'st) NodeState \<Rightarrow> ('db, 'st) NodeState" where
  "put_sync ms nd = (put_pool (ms_mempool ms) nd)\<lparr>nd_knownTxs := ms_knownTxs ms\<rparr>"

definition slashing_view :: "('db, 'st) NodeState \<Rightarrow> ('db, 'st) SlashingManager" where
  "slashing_view nd = (nd_slashing nd)\<lparr>sm_registry := (sm_registry (nd_slashing nd))\<lparr>vr_state := sv_state (nd_service nd)\<rparr>\<rparr>"

definition put_slashing :: "('db, 'st) SlashingManager \<Rightarrow> ('db, 'st) NodeState \<Rightarrow> ('db, 'st) NodeState" where
  "put_slashing sm nd = nd\<lparr>nd_slashing := sm, nd_service := (nd_service nd)\<lparr>sv_state := vr_state (sm_registry sm)\<rparr>\<rparr>"

section \<open>The handlers\<close>

text \<open>
  The block handler. Where \<open>HandleCompetingBlock\<close> does not return, its goroutine keeps the lock of the resolver and
  every later block waits for it.
\<close>

definition block_handler :: "'db chain_env \<Rightarrow> Block \<Rightarrow> ('db, 'st) NodeState \<Rightarrow> ('db, 'st) NodeState \<times> unit res" where
  "block_handler env block nd =
     (if nd_waiting nd then (nd, Inr ())
      else case HandleCompetingBlock env block (fork_view nd) of
        None \<Rightarrow> (nd\<lparr>nd_waiting := True\<rparr>, Inr ())
      | Some (fr, r) \<Rightarrow> (put_fork fr nd, r))"

definition vote_handler :: "bytes \<times> string \<times> bytes \<Rightarrow> ('db, 'st) NodeState \<Rightarrow> ('db, 'st) NodeState \<times> unit res" where
  "vote_handler vote nd =
     (case vote of (blockHash, validatorID, signature) \<Rightarrow>
        (nd, case slice_to 12 validatorID of
           Inl e \<Rightarrow> Inl e
         | Inr _ \<Rightarrow> (case slice_to 8 blockHash of Inl e \<Rightarrow> Inl e | Inr _ \<Rightarrow> Inr ())))"

definition tx_handler :: "Transaction \<Rightarrow> ('db, 'st) NodeState \<Rightarrow> ('db, 'st) NodeState \<times> unit res" where
  "tx_handler tx nd = (put_pool (AddTransaction tx (pool_of nd)) nd,
     case slice_to 12 (tx_ID tx) of Inl e \<Rightarrow> Inl e | Inr _ \<Rightarrow> Inr ())"

definition lookup_handler :: "string \<Rightarrow> ('db, 'st) NodeState \<Rightarrow> Transaction res" where
  "lookup_handler txID nd =
     (case GetTransaction (pool_of nd) txID of
        None \<Rightarrow> (case slice_to 12 txID of Inl e \<Rightarrow> Inl e | Inr _ \<Rightarrow> Inl (Error ''transaction not found''))
      | Some tx \<Rightarrow> Inr tx)"

section \<open>The ticks\<close>

definition running :: "string \<Rightarrow> ('db, 'st) NodeState \<Rightarrow> bool" where
  "running name nd \<longleftrightarrow> name \<notin> set (nd_ended nd)"

text \<open>Pool synchronisation: the transactions are broadcast to the peers of the P2P layer.\<close>

definition broadcast_tx :: "('db, 'st, 'p) node_env \<Rightarrow> 'p P2PNetwork \<Rightarrow> Transaction \<Rightarrow> fail option" where
  "broadcast_tx env nw tx = (case P2P_BroadcastTransaction (ne_codec env) tx nw of Inl e \<Rightarrow> Some e | Inr _ \<Rightarrow> None)"

text \<open>A transaction is asked of the first peer; \<open>decode\<close> is \<open>peer.Decode\<close>, \<open>ask\<close> a round over a stream.\<close>

definition request_tx_func ::
  "('db, 'st, 'p) node_env \<Rightarrow> (string \<Rightarrow> 'p res) \<Rightarrow> ('p \<Rightarrow> bytes \<Rightarrow> bytes res) \<Rightarrow> 'p P2PNetwork \<Rightarrow> string \<Rightarrow> Transaction res" where
  "request_tx_func env decode ask nw txID =
     (case GetPeers (ne_show env) nw of
        [] \<Rightarrow> Inl (Error ''no peers available'')
      | peer # _ \<Rightarrow> RequestTransaction (ne_codec env) (decode peer) ask txID)"

definition sync_tick ::
  "('db, 'st, 'p) node_env \<Rightarrow> 'p P2PNetwork \<Rightarrow> ('db, 'st) NodeState \<Rightarrow> ('db, 'st) NodeState \<times> Transaction list" where
  "sync_tick env nw nd =
     (case performSync (Some (broadcast_tx env nw)) (GetPeers (ne_show env) nw) (sync_view nd) of
        (ms, sent) \<Rightarrow> (put_sync ms nd, sent))"

definition registry_tick :: "('db, 'st, 'p) node_env \<Rightarrow> gotime \<Rightarrow> gotime \<Rightarrow> gotime \<Rightarrow> ('db, 'st) NodeState \<Rightarrow> ('db, 'st) NodeState" where
  "registry_tick env now1 now2 now3 nd =
     (let sm = slashing_view nd;
          vr = ProcessExits now2 (ActivatePendingValidators (ve_so (ne_validator env)) now1 (sm_registry sm))
      in (put_slashing (sm\<lparr>sm_registry := vr\<rparr>) nd)\<lparr>nd_partition := fst (CheckPartitionStatus now3 (nd_partition nd))\<rparr>)"

definition cleanup_tick :: "('db, 'st, 'p) node_env \<Rightarrow> gotime \<Rightarrow> gotime \<Rightarrow> ('db, 'st) NodeState \<Rightarrow> ('db, 'st) NodeState" where
  "cleanup_tick env now1 now2 nd =
     (let nd1 = put_slashing (CleanupOldTracking now1 (24 * hour) (slashing_view nd)) nd;
          nd2 = nd1\<lparr>nd_checkpoints := fst (CleanupOldCheckpoints (ne_checkpoint env) 10 (nd_checkpoints nd1))\<rparr>;
          nd3 = put_sync (CleanupOldKnownTxs (1 * hour) (sync_view nd2)) nd2
      in put_slashing (fst (CheckAndClearExpiredSuspensions (ne_slashing env) now2 (slashing_view nd3))) nd3)"

text \<open>The error of the pruner is logged.\<close>

definition pruning_tick :: "('db, 'st, 'p) node_env \<Rightarrow> ('db, 'st) NodeState \<Rightarrow> ('db, 'st) NodeState" where
  "pruning_tick env nd =
     (let chain = sv_blockchain (nd_service nd);
          db' = fst (PerformMaintenance (ce_ldb (ve_chain (ne_validator env))) (ne_compact env)
            (GetLastFinalizedHeight (nd_checkpoints nd)) (nd_pruner nd) (bc_db chain))
      in nd\<lparr>nd_service := (nd_service nd)\<lparr>sv_blockchain := chain\<lparr>bc_db := db'\<rparr>\<rparr>\<rparr>)"

definition poh_tick :: "('db, 'st) NodeState \<Rightarrow> ('db, 'st) NodeState" where
  "poh_tick nd = nd\<lparr>nd_service := (nd_service nd)\<lparr>sv_poh := PoH_Update (GetSequence (sv_poh (nd_service nd))) (sv_poh (nd_service nd))\<rparr>\<rparr>"

section \<open>The production of blocks\<close>

record attempt_input =
  pt_propose :: clock
  pt_call :: gotime
  pt_fail :: gotime
  pt_vote :: clock

text \<open>The block and its VRF proof go to the network; errors are logged. Without a network nothing is sent.\<close>

definition announce :: "('db, 'st, 'p) node_env \<Rightarrow> 'p P2PNetwork option \<Rightarrow> Block \<Rightarrow> ('p \<times> bytes) list res" where
  "announce env nw block =
     (case nw of
        None \<Rightarrow> Inr []
      | Some n \<Rightarrow>
          let messages = (\<lambda>r. case r of Inl (Panic e) \<Rightarrow> Inl (Panic e) | Inl (Error _) \<Rightarrow> Inr [] | Inr ms \<Rightarrow> Inr ms)
          in (case messages (BroadcastBlock (ne_codec env) block n) of
                Inl e \<Rightarrow> Inl e
              | Inr ms \<Rightarrow> (case messages (BroadcastVRFProof (ne_codec env) block n) of
                   Inl e \<Rightarrow> Inl e | Inr ms' \<Rightarrow> Inr (ms @ ms'))))"

text \<open>The metric of the finalized blocks counts the node's own votes.\<close>

definition vote_on_own ::
  "('db, 'st, 'p) node_env \<Rightarrow> clock \<Rightarrow> Block \<Rightarrow> ('db, 'st) NodeState \<Rightarrow> ('db, 'st) NodeState \<times> unit res" where
  "vote_on_own env ck block nd =
     (case VoteOnBlock (ne_validator env) ck block (nd_service nd) of
        (vs, Inl (Panic e)) \<Rightarrow> (nd\<lparr>nd_service := vs\<rparr>, Inl (Panic e))
      | (vs, Inl (Error _)) \<Rightarrow> (nd\<lparr>nd_service := vs\<rparr>, Inr ())
      | (vs, Inr _) \<Rightarrow> (nd\<lparr>nd_service := vs, nd_finalizedBlocks := nd_finalizedBlocks nd + 1\<rparr>, Inr ()))"

text \<open>What the proposer does, with the messages it sends. A panic passes through the breaker, which is half open by then if it was open.\<close>

definition propose_and_vote ::
  "('db, 'st, 'p) node_env \<Rightarrow> 'p P2PNetwork option \<Rightarrow> attempt_input \<Rightarrow> ('db, 'st) NodeState
    \<Rightarrow> ('db, 'st) NodeState \<times> ('p \<times> bytes) list \<times> unit res" where
  "propose_and_vote env nw inp nd =
     (case ProposeBlock (ne_validator env) (pt_propose inp) (nd_service nd) of
        (vs, proposed) \<Rightarrow>
          (case Breaker_Call (pt_call inp) (pt_fail inp) (case proposed of Inl e \<Rightarrow> Some e | Inr _ \<Rightarrow> None) (nd_breaker nd) of
             (cb, err, called) \<Rightarrow>
               if \<not> called then (nd\<lparr>nd_breaker := cb\<rparr>, [], Inl (Error ''failed to propose block''))
               else (case proposed of
                  Inl (Panic e) \<Rightarrow> (nd\<lparr>nd_service := vs, nd_breaker := (if cb_state (nd_breaker nd) = Open
                      then (nd_breaker nd)\<lparr>cb_state := HalfOpen, cb_halfOpenTries := 0\<rparr> else nd_breaker nd)\<rparr>, [], Inl (Panic e))
                | Inl (Error _) \<Rightarrow> (nd\<lparr>nd_service := vs, nd_breaker := cb\<rparr>, [], Inl (Error ''failed to propose block''))
                | Inr block \<Rightarrow>
                    let nd1 = nd\<lparr>nd_service := vs, nd_breaker := cb\<rparr>
                    in (case slice_to 12 (sv_validatorID vs) of
                          Inl e \<Rightarrow> (nd1, [], Inl e)
                        | Inr _ \<Rightarrow>
                            (case announce env nw block of
                               Inl e \<Rightarrow> (nd1, [], Inl e)
                             | Inr messages \<Rightarrow> (case vote_on_own env (pt_vote inp) block nd1 of (nd2, r) \<Rightarrow> (nd2, messages, r)))))))"

text \<open>The operation that is retried.\<close>

definition produce_attempt ::
  "('db, 'st, 'p) node_env \<Rightarrow> 'p P2PNetwork option \<Rightarrow> attempt_input \<Rightarrow> ('db, 'st) NodeState
    \<Rightarrow> ('db, 'st) NodeState \<times> ('p \<times> bytes) list \<times> unit res" where
  "produce_attempt env nw inp nd =
     (let vs = nd_service nd; nextHeight = height_of (GetLatestBlock (sv_blockchain vs)) + 1 in
      case IsProposer (ne_validator env) vs nextHeight of
        Inl (Panic e) \<Rightarrow> (nd, [], Inl (Panic e))
      | Inl (Error _) \<Rightarrow> (nd, [], Inl (Error ''error checking proposer''))
      | Inr (isProposer, proposerID) \<Rightarrow>
          (case slice_to 12 proposerID of
             Inl e \<Rightarrow> (nd, [], Inl e)
           | Inr _ \<Rightarrow> if isProposer then propose_and_vote env nw inp nd else (nd, [], Inr ())))"

text \<open>The state before attempt \<open>k\<close> of a cycle, if all the attempts before it are made, and the outcome of attempt \<open>k\<close>.\<close>

primrec attempt_state ::
  "('db, 'st, 'p) node_env \<Rightarrow> 'p P2PNetwork option \<Rightarrow> (nat \<Rightarrow> attempt_input) \<Rightarrow> ('db, 'st) NodeState \<Rightarrow> nat \<Rightarrow> ('db, 'st) NodeState" where
  "attempt_state env nw inp nd 0 = nd"
| "attempt_state env nw inp nd (Suc k) = fst (produce_attempt env nw (inp k) (attempt_state env nw inp nd k))"

definition attempt_result ::
  "('db, 'st, 'p) node_env \<Rightarrow> 'p P2PNetwork option \<Rightarrow> (nat \<Rightarrow> attempt_input) \<Rightarrow> ('db, 'st) NodeState \<Rightarrow> nat
    \<Rightarrow> ('p \<times> bytes) list \<times> unit res" where
  "attempt_result env nw inp nd k = snd (produce_attempt env nw (inp k) (attempt_state env nw inp nd k))"

text \<open>
  One tick of the production: the attempts that \<open>RetryWithBackoff\<close> makes, up to a panic, which ends the goroutine.
\<close>

definition production_tick ::
  "('db, 'st, 'p) node_env \<Rightarrow> 'p P2PNetwork option \<Rightarrow> (nat \<Rightarrow> attempt_input) \<Rightarrow> ('db, 'st) NodeState
    \<Rightarrow> ('db, 'st) NodeState \<times> ('p \<times> bytes) list" where
  "production_tick env nw inp nd =
     (if \<not> running ''block-production'' nd then (nd, [])
      else
        let nd1 = nd\<lparr>nd_blockCount := nd_blockCount nd + 1\<rparr>;
            outcome = (\<lambda>k. case snd (attempt_result env nw inp nd1 k) of Inl e \<Rightarrow> Some e | Inr _ \<Rightarrow> None);
            n = ro_attempts (RetryWithBackoff (nd_recovery nd) outcome ''block-production'');
            sent = (\<lambda>m. concat (map (\<lambda>k. fst (attempt_result env nw inp nd1 k)) [0..<m]))
        in (case find (\<lambda>k. is_panic (snd (attempt_result env nw inp nd1 k))) [0..<n] of
              None \<Rightarrow> (attempt_state env nw inp nd1 n, sent n)
            | Some k \<Rightarrow> ((attempt_state env nw inp nd1 (Suc k))\<lparr>nd_ended := ''block-production'' # nd_ended nd\<rparr>, sent (Suc k))))"

section \<open>The start\<close>

text \<open>
  What \<open>main\<close> gets from outside. \<open>NewState\<close>, \<open>CreateGenesisValidator\<close> and the account state itself are not in the
  repository: the state is an input, the second a function. The wallet is loaded when a file and a password are
  set, else it is made from a fresh mnemonic. The fatal errors end the program (\<open>Inl\<close>); a P2P layer that cannot be
  created is only missed.
\<close>

record ('db, 'st, 'p) start_input =
  in_config :: "GenesisConfig res option"
  in_walletFile :: string
  in_walletPassword :: string
  in_wallet :: "Wallet res"
  in_mnemonic :: "string res"
  in_key :: "PublicKey res"
  in_db :: "'db res"
  in_state :: "'st res"
  in_genesis_validator :: "string \<Rightarrow> bytes \<Rightarrow> 'st \<Rightarrow> 'st"
  in_vrf :: "SecureVRFSystem res"
  in_network :: "'p res"
  in_pob_server :: "unit res"
  in_retention :: string
  in_poh :: string
  in_now :: gotime

definition node_wallet :: "wallet_lib \<Rightarrow> ('db, 'st, 'p) start_input \<Rightarrow> Wallet res" where
  "node_wallet wl inp =
     (if in_walletFile inp \<noteq> [] \<and> in_walletPassword inp \<noteq> [] then in_wallet inp
      else case in_mnemonic inp of Inl e \<Rightarrow> Inl e | Inr mnemonic \<Rightarrow> NewWalletFromMnemonic wl mnemonic)"

definition retention_blocks :: "string \<Rightarrow> u64" where
  "retention_blocks s = (case parse_u64 s of None \<Rightarrow> 1000 | Some n \<Rightarrow> n)"

text \<open>The parts of a node over an opened database; the last account update of \<open>main\<close> comes with them.\<close>

definition assemble ::
  "('db, 'st, 'p) node_env \<Rightarrow> ('db, 'st, 'p) start_input \<Rightarrow> ('db, 'st) ValidatorService \<Rightarrow> 'db \<Rightarrow> ('db, 'st) NodeState" where
  "assemble env inp vs db =
     (let so = ve_so (ne_validator env);
          st = so_put_account so \<lparr>a_Address = sv_validatorID vs, a_Balance = 0, a_Nonce = 0, a_CodeHash = []\<rparr> (sv_state vs)
      in \<lparr>nd_service = vs\<lparr>sv_state := st\<rparr>, nd_forks = fr_candidateChains (NewForkResolver (sv_blockchain vs)), nd_waiting = False,
        nd_knownTxs = ms_knownTxs (NewMempoolSync (sv_mempool vs)),
        nd_slashing = NewSlashingManager (ne_slashing env) db (NewValidatorRegistry st),
        nd_checkpoints = NewCheckpointManager (ne_checkpoint env) db 100,
        nd_pruner = NewStatePruner (retention_blocks (in_retention inp)) (24 * hour),
        nd_partition = NewPartitionDetector 1, nd_recovery = NewErrorRecovery 3 (1 * second),
        nd_breaker = NewCircuitBreaker ''database'' 5 (30 * second), nd_blockCount = 0, nd_finalizedBlocks = 0, nd_ended = []\<rparr>)"

text \<open>The ports of the API and of the metrics; \<open>atoi\<close> is \<open>strconv.Atoi\<close>.\<close>

definition port_of :: "(string \<Rightarrow> int option) \<Rightarrow> int \<Rightarrow> string \<Rightarrow> int" where
  "port_of atoi default_port portStr =
     (if portStr = [] then default_port else case atoi portStr of None \<Rightarrow> default_port | Some port \<Rightarrow> port)"

text \<open>The gauges; the size of the pool is read off the list that \<open>GetTransactions(100)\<close> returns.\<close>

definition metrics_tick :: "('db, 'st, 'p) node_env \<Rightarrow> 'p P2PNetwork option \<Rightarrow> ('db, 'st) NodeState \<Rightarrow> PrometheusMetrics \<Rightarrow> PrometheusMetrics" where
  "metrics_tick env nw nd pm =
     (let service = nd_service nd;
          selected = (case GetTransactions (sv_mempool service) 100 of Inl _ \<Rightarrow> [] | Inr txs \<Rightarrow> txs);
          pm1 = on_gauge ''rnr_block_height'' (Gauge_Set (f_of_int (uint (height_of (GetLatestBlock (sv_blockchain service)))))) pm;
          pm2 = on_gauge ''rnr_validators_active''
            (Gauge_Set (f_of_int (int (length (so_active (ve_so (ne_validator env)) (sv_state service)))))) pm1;
          pm3 = on_gauge ''rnr_mempool_size'' (Gauge_Set (f_of_int (int (length selected)))) pm2
      in case nw of None \<Rightarrow> pm3 | Some n \<Rightarrow> on_gauge ''rnr_peers_connected'' (Gauge_Set (f_of_int (GetPeerCount n))) pm3)"

lemma mempool_gauge_capped:
  assumes "mget (pr_gauges pm) ''rnr_mempool_size'' = Some g"
  shows "mget (pr_gauges (metrics_tick env nw nd pm)) ''rnr_mempool_size'' =
    Some (g\<lparr>ga_value := f_of_int (min 100 (int (length (GetPendingTransactions (sv_mempool (nd_service nd))))))\<rparr>)"
  using assms by (simp add: metrics_tick_def Let_def on_gauge_get Gauge_Set_def GetTransactions_def GetPendingTransactions_def
      min_def split: option.splits)

definition node_start ::
  "wallet_lib \<Rightarrow> ('db, 'st, 'p) node_env \<Rightarrow> ('db, 'st, 'p) start_input \<Rightarrow> ('p P2PNetwork option \<times> ('db, 'st) NodeState) res" where
  "node_start wl env inp =
     (case in_config inp of Some (Inl e) \<Rightarrow> Inl e | _ \<Rightarrow>
     (case node_wallet wl inp of Inl e \<Rightarrow> Inl e | Inr validatorWallet \<Rightarrow>
     (case in_key inp of Inl e \<Rightarrow> Inl e | Inr publicKey \<Rightarrow>
     (case slice_to 12 (wa_Address validatorWallet) of Inl e \<Rightarrow> Inl e | Inr _ \<Rightarrow>
     (case in_db inp of Inl e \<Rightarrow> Inl e | Inr db0 \<Rightarrow>
     (case NewBlockchain (ve_chain (ne_validator env)) db0 of (db, Inl e) \<Rightarrow> Inl e | (db, Inr chain) \<Rightarrow>
     (case in_state inp of Inl e \<Rightarrow> Inl e | Inr st0 \<Rightarrow>
       let pubKeyBytes = (case EncodePublicKey publicKey of Inl _ \<Rightarrow> [] | Inr bs \<Rightarrow> bs);
           validatorID = wa_Address validatorWallet;
           st = in_genesis_validator inp validatorID pubKeyBytes st0
       in (case NewValidatorService (ne_validator env) (in_now inp) (in_vrf inp) validatorID chain st (Some db) NewMempool
                (NewProofOfHistory (in_poh inp)) of Inl e \<Rightarrow> Inl e | Inr vs \<Rightarrow>
          (case in_pob_server inp of Inl e \<Rightarrow> Inl e | Inr _ \<Rightarrow>
          (case slice_to 16 validatorID of Inl e \<Rightarrow> Inl e | Inr _ \<Rightarrow>
             Inr (case in_network inp of Inl _ \<Rightarrow> None | Inr self \<Rightarrow> Some (NewP2PNetwork self), assemble env inp vs db)))))))))))"

section \<open>The running node\<close>

text \<open>
  What happens to a running node. The streams come from any peer with any content, the answers to challenges
  included; only \<open>ConnectToPeer\<close> would enter a peer or send a challenge, and the program never calls it.
\<close>

inductive node_step ::
  "('db, 'st, 'p) node_env \<Rightarrow> submit_env \<Rightarrow> 'p P2PNetwork option \<times> ('db, 'st) NodeState \<Rightarrow> 'p P2PNetwork option \<times> ('db, 'st) NodeState \<Rightarrow> bool"
  for env api where
  ns_block: "handleBlockStream (ne_show env) (ne_codec env) (Some (block_handler (ve_chain (ne_validator env)))) p si nw nd = (nw', nd', r)
     \<Longrightarrow> node_step env api (Some nw, nd) (Some nw', nd')"
| ns_vote: "handleVoteStream (ne_show env) (ne_codec env) (Some vote_handler) p si nw nd = (nw', nd', r)
     \<Longrightarrow> node_step env api (Some nw, nd) (Some nw', nd')"
| ns_tx: "handleTransactionStream (ne_show env) (ne_codec env) (Some tx_handler) (Some lookup_handler) p si nw nd = (nw', nd', r')
     \<Longrightarrow> node_step env api (Some nw, nd) (Some nw', nd')"
| ns_auth: "handleAuthStream (ne_show env) ak eof (nw_self nw) p decoded (nw_authManager nw) = (am, reply)
     \<Longrightarrow> node_step env api (Some nw, nd) (Some (nw\<lparr>nw_authManager := am\<rparr>), nd)"
| ns_expire: "node_step env api (Some nw, nd) (Some (nw\<lparr>nw_authManager := CleanupExpired now (nw_authManager nw)\<rparr>), nd)"
| ns_sync: "sync_tick env nw nd = (nd', sent) \<Longrightarrow> node_step env api (Some nw, nd) (Some nw, nd')"
| ns_api: "handleSubmitTx api now rq (pool_of nd) = (mp, reply') \<Longrightarrow> node_step env api (n, nd) (n, put_pool mp nd)"
| ns_registry: "node_step env api (n, nd) (n, registry_tick env now1 now2 now3 nd)"
| ns_cleanup: "node_step env api (n, nd) (n, cleanup_tick env now1 now2 nd)"
| ns_pruning: "node_step env api (n, nd) (n, pruning_tick env nd)"
| ns_poh: "node_step env api (n, nd) (n, poh_tick nd)"
| ns_production: "production_tick env n inp nd = (nd', messages) \<Longrightarrow> node_step env api (n, nd) (n, nd')"

inductive_cases node_stepE: "node_step env api x y"

section \<open>What a start yields\<close>

lemma new_service:
  "NewValidatorService env now vrf i chain st db mp poh = Inr vs \<Longrightarrow>
     vm_sessions (sv_votingManager vs) = [] \<and> sv_blockchain vs = chain \<and> sv_validatorID vs = i \<and> sv_mempool vs = mp"
  by (auto simp: NewValidatorService_def NewVotingManager_def LoadProcessedVotes_def Let_def
      split: sum.splits fail.splits option.splits prod.splits)

lemma assembled:
  "nd_service (assemble env inp vs db) = vs\<lparr>sv_state := so_put_account (ve_so (ne_validator env))
     \<lparr>a_Address = sv_validatorID vs, a_Balance = 0, a_Nonce = 0, a_CodeHash = []\<rparr> (sv_state vs)\<rparr>"
  "nd_forks (assemble env inp vs db) = []" "vr_validators (sm_registry (nd_slashing (assemble env inp vs db))) = []"
  by (simp_all add: assemble_def Let_def NewForkResolver_def NewSlashingManager_def loadSlashingEvents_def NewValidatorRegistry_def)

lemma node_startE:
  assumes "node_start wl env inp = Inr (nw, nd)"
  obtains w db vs where "node_wallet wl inp = Inr w" "nd = assemble env inp vs db" "sv_validatorID vs = wa_Address w"
    "16 \<le> length (wa_Address w)" "vm_sessions (sv_votingManager vs) = []"
    "nw = (case in_network inp of Inl _ \<Rightarrow> None | Inr self \<Rightarrow> Some (NewP2PNetwork self))"
proof -
  obtain w where w: "node_wallet wl inp = Inr w" using assms by (cases "node_wallet wl inp") (auto simp: node_start_def split: option.splits sum.splits)
  from assms obtain vs chain st db where vs: "NewValidatorService (ne_validator env) (in_now inp) (in_vrf inp) (wa_Address w) chain st (Some db)
      NewMempool (NewProofOfHistory (in_poh inp)) = Inr vs" and nd: "nd = assemble env inp vs db"
    and net: "nw = (case in_network inp of Inl _ \<Rightarrow> None | Inr self \<Rightarrow> Some (NewP2PNetwork self))"
    and len: "16 \<le> length (wa_Address w)"
    by (auto simp: node_start_def w Let_def slice_to_def split: option.splits sum.splits prod.splits if_splits)
  show ?thesis using new_service [OF vs] by (intro that [OF w nd _ len _ net]) simp_all
qed

section \<open>A deaf node\<close>

definition deaf :: "('db, 'st) NodeState \<Rightarrow> ('db, 'st) NodeState \<Rightarrow> bool" where
  "deaf nd0 nd \<longleftrightarrow> stuck (nd_service nd0) (nd_service nd) \<and> nd_forks nd = nd_forks nd0 \<and>
     vr_validators (sm_registry (nd_slashing nd)) = [] \<and> cm_finalizedHeight (nd_checkpoints nd) = 0"

definition fresh_network :: "'p P2PNetwork option \<Rightarrow> bool" where
  "fresh_network n \<longleftrightarrow> (\<forall>nw. n = Some nw \<longrightarrow> nw = NewP2PNetwork (nw_self nw))"

lemma new_network [simp]:
  "nw_peers (NewP2PNetwork self) = []" "am_authenticated (nw_authManager (NewP2PNetwork self)) = []"
  "am_challenges (nw_authManager (NewP2PNetwork self)) = []" "nw_self (NewP2PNetwork self) = self"
  by (simp_all add: NewP2PNetwork_def NewP2PAuthManager_def)

text \<open>Without a challenge no answer authenticates a peer.\<close>

lemma no_challenge_no_change:
  "am_challenges am = [] \<Longrightarrow> fst (handleAuthStream show_peer ak eof self p decoded am) = am"
  by (auto simp: handleAuthStream_def handleAuthResponse_def VerifyResponse_def Let_def
      split: sum.splits fail.splits prod.splits)

lemma expire_fresh: "am_challenges am = [] \<Longrightarrow> am_authenticated am = [] \<Longrightarrow> CleanupExpired now am = am"
  by (simp add: CleanupExpired_def mkeep_def)

lemma announce_nothing: "fresh_network n \<Longrightarrow> announce env n block = Inr ms \<Longrightarrow> ms = []"
proof -
  have none: "ms' = []" if "nw_peers nw = []" "BroadcastBlock pc block nw = Inr ms'" for pc nw and ms' :: "('a \<times> bytes) list"
    using that by (auto simp: BroadcastBlock_def send_payload_def broadcast_def split: sum.splits fail.splits)
  have none_vrf: "ms' = []" if "nw_peers nw = []" "BroadcastVRFProof pc block nw = Inr ms'" for pc nw and ms' :: "('a \<times> bytes) list"
    using that by (auto simp: BroadcastVRFProof_def broadcast_def Let_def split: sum.splits fail.splits if_splits)
  assume "fresh_network n" "announce env n block = Inr ms"
  then show "ms = []"
  proof (cases n)
    case (Some nw)
    have "nw_peers nw = []" using \<open>fresh_network n\<close> Some by (metis fresh_network_def new_network(1))
    then show ?thesis using \<open>announce env n block = Inr ms\<close> none none_vrf
      by (fastforce simp: announce_def Some Let_def split: sum.splits fail.splits)
  qed (simp add: announce_def)
qed

lemma vote_on_own_service:
  "vote_on_own env ck block nd = (nd', r) \<Longrightarrow> \<exists>vs r'. VoteOnBlock (ne_validator env) ck block (nd_service nd) = (vs, r') \<and>
     nd_service nd' = vs \<and> nd_slashing nd' = nd_slashing nd \<and> nd_checkpoints nd' = nd_checkpoints nd \<and> nd_forks nd' = nd_forks nd"
  by (auto simp: vote_on_own_def split: prod.splits sum.splits fail.splits)

lemma propose_and_vote_cases:
  assumes run: "propose_and_vote env nw inp nd = (nd', ms, r)"
    and p: "ProposeBlock (ne_validator env) (pt_propose inp) (nd_service nd) = (vs, proposed)"
  obtains "ms = []" "nd_service nd' = nd_service nd \<or> nd_service nd' = vs" "nd_slashing nd' = nd_slashing nd"
      "nd_checkpoints nd' = nd_checkpoints nd" "nd_forks nd' = nd_forks nd"
    | block nd1 where "announce env nw block = Inr ms" "vote_on_own env (pt_vote inp) block nd1 = (nd', r)" "nd_service nd1 = vs"
      "nd_slashing nd1 = nd_slashing nd" "nd_checkpoints nd1 = nd_checkpoints nd" "nd_forks nd1 = nd_forks nd"
proof -
  obtain cb err called where b: "Breaker_Call (pt_call inp) (pt_fail inp) (case proposed of Inl e \<Rightarrow> Some e | Inr _ \<Rightarrow> None) (nd_breaker nd) = (cb, err, called)"
    by (metis prod_cases3)
  consider "ms = []" "nd_service nd' = nd_service nd \<or> nd_service nd' = vs" "nd_slashing nd' = nd_slashing nd" "nd_checkpoints nd' = nd_checkpoints nd" "nd_forks nd' = nd_forks nd"
    | block where "announce env nw block = Inr ms" "vote_on_own env (pt_vote inp) block (nd\<lparr>nd_service := vs, nd_breaker := cb\<rparr>) = (nd', r)"
    using run by (auto simp: propose_and_vote_def p b Let_def split: if_splits sum.splits fail.splits prod.splits)
  then show ?thesis
  proof cases
    case 1
    then show ?thesis by (rule that(1))
  next
    case (2 block)
    show ?thesis by (rule that(2) [OF 2]) simp_all
  qed
qed

lemma produce_attempt_cases:
  "produce_attempt env nw inp nd = (nd', ms, r) \<Longrightarrow> nd' = nd \<and> ms = [] \<or> propose_and_vote env nw inp nd = (nd', ms, r)"
  by (auto simp: produce_attempt_def Let_def split: if_splits sum.splits fail.splits prod.splits)

text \<open>A node without peers is silent, whatever it produces.\<close>

lemma attempt_silent:
  assumes net: "fresh_network nw" shows "fst (attempt_result env nw inp nd k) = []"
proof -
  have "ms = []" if "propose_and_vote env nw i nd1 = (nd', ms, r)" for i nd1 nd' ms r
    by (rule propose_and_vote_cases [OF that prod.collapse [symmetric]]) (use announce_nothing [OF net] in simp_all)
  then show ?thesis using produce_attempt_cases by (metis attempt_result_def fst_conv prod.collapse)
qed

lemma production_silent: "fresh_network nw \<Longrightarrow> snd (production_tick env nw inp nd) = []"
  by (simp add: production_tick_def Let_def attempt_silent del: attempt_state.simps split: option.splits)

lemma sync_silent: "nw_peers nw = [] \<Longrightarrow> snd (sync_tick env nw nd) = []"
  by (simp add: sync_tick_def GetPeers_def performSync_def split: prod.splits)

text \<open>With three or more active validators what it produces has no effect either.\<close>

lemma propose_and_vote_deaf:
  assumes run: "propose_and_vote env nw inp nd = (nd', ms, r)" and inv: "deaf nd0 nd"
    and n: "3 \<le> length (so_active (ve_so (ne_validator env)) (sv_state (nd_service nd0)))"
      "length (so_active (ve_so (ne_validator env)) (sv_state (nd_service nd0))) \<le> 2 ^ 40"
  shows "deaf nd0 nd'"
proof -
  obtain vs proposed where p: "ProposeBlock (ne_validator env) (pt_propose inp) (nd_service nd) = (vs, proposed)" by fastforce
  have vs: "stuck (nd_service nd0) vs"
    using step_stuck [OF _ service_step.intros(1) [OF p] n] inv by (simp add: deaf_def)
  show ?thesis
  proof (rule propose_and_vote_cases [OF run p])
    assume "nd_service nd' = nd_service nd \<or> nd_service nd' = vs" "nd_slashing nd' = nd_slashing nd"
      "nd_checkpoints nd' = nd_checkpoints nd" "nd_forks nd' = nd_forks nd"
    then show ?thesis using inv vs by (auto simp: deaf_def)
  next
    fix block nd1
    assume v: "vote_on_own env (pt_vote inp) block nd1 = (nd', r)" and nd1: "nd_service nd1 = vs"
      "nd_slashing nd1 = nd_slashing nd" "nd_checkpoints nd1 = nd_checkpoints nd" "nd_forks nd1 = nd_forks nd"
    from vote_on_own_service [OF v] obtain vs' r' where v: "VoteOnBlock (ne_validator env) (pt_vote inp) block vs = (vs', r')"
      "nd_service nd' = vs'" "nd_slashing nd' = nd_slashing nd" "nd_checkpoints nd' = nd_checkpoints nd" "nd_forks nd' = nd_forks nd"
      by (auto simp: nd1)
    show ?thesis using vote_stuck [OF vs v(1)] inv v(2-) by (simp add: deaf_def)
  qed
qed

lemma attempts_deaf:
  assumes inv: "deaf nd0 nd"
    and n: "3 \<le> length (so_active (ve_so (ne_validator env)) (sv_state (nd_service nd0)))"
      "length (so_active (ve_so (ne_validator env)) (sv_state (nd_service nd0))) \<le> 2 ^ 40"
  shows "deaf nd0 (attempt_state env nw inp nd k)"
proof (induction k)
  case (Suc k)
  show ?case using produce_attempt_cases propose_and_vote_deaf [OF _ Suc n] Suc
    by (metis attempt_state.simps(2) prod.collapse)
qed (simp add: inv)

lemma production_deaf:
  assumes run: "production_tick env nw inp nd = (nd', ms)" and inv: "deaf nd0 nd"
    and n: "3 \<le> length (so_active (ve_so (ne_validator env)) (sv_state (nd_service nd0)))"
      "length (so_active (ve_so (ne_validator env)) (sv_state (nd_service nd0))) \<le> 2 ^ 40"
  shows "deaf nd0 nd'"
proof -
  let ?nd1 = "nd\<lparr>nd_blockCount := nd_blockCount nd + 1\<rparr>"
  have "deaf nd0 ?nd1" using inv by (simp add: deaf_def)
  note all = attempts_deaf [OF this n, of nw inp]
  have "deaf nd0 ((attempt_state env nw inp ?nd1 k)\<lparr>nd_ended := e\<rparr>)" for k e using all [of k] by (simp add: deaf_def)
  then show ?thesis using run inv all
    by (auto simp: production_tick_def Let_def simp del: attempt_state.simps split: if_splits option.splits)
qed

lemma registry_tick_deaf: "deaf nd0 nd \<Longrightarrow> deaf nd0 (registry_tick env now1 now2 now3 nd)"
  by (simp add: deaf_def registry_tick_def put_slashing_def slashing_view_def ActivatePendingValidators_def ProcessExits_def mkeep_def Let_def)

lemma cleanup_tick_deaf:
  assumes "deaf nd0 nd" shows "deaf nd0 (cleanup_tick env now1 now2 nd)"
proof -
  have fin: "cm_finalizedHeight (fst (CleanupOldCheckpoints cenv n cm)) = cm_finalizedHeight cm" for cenv n and cm :: "'a CheckpointManager"
    by (simp add: CleanupOldCheckpoints_def cleanup_heights_get)
  have none: "vr_validators vr = [] \<Longrightarrow> GetAllValidators so vr = []" for so and vr :: "'b ValidatorRegistry"
    by (simp add: GetAllValidators_def List.map_filter_def)
  show ?thesis using assms
    by (simp add: deaf_def cleanup_tick_def put_slashing_def slashing_view_def put_sync_def put_pool_def sync_view_def pool_of_def
        CleanupOldTracking_def CheckAndClearExpiredSuspensions_def fin none stuck_def Let_def)
qed

lemma pruning_tick_deaf: "deaf nd0 nd \<Longrightarrow> deaf nd0 (pruning_tick env nd)"
  by (simp add: deaf_def pruning_tick_def PerformMaintenance_def PruneOldBlocks_def PruneOldTransactions_def GetLastFinalizedHeight_def Let_def)

lemma sync_tick_deaf: "sync_tick env nw nd = (nd', sent) \<Longrightarrow> nw_peers nw = [] \<Longrightarrow> deaf nd0 nd \<Longrightarrow> deaf nd0 nd'"
  by (auto simp: sync_tick_def GetPeers_def performSync_def put_sync_def put_pool_def sync_view_def NewMempoolSync_def pool_of_def deaf_def stuck_def)

text \<open>
  No step changes the P2P layer of a node that has neither peers nor challenges, and a stream has no effect on the
  node. The steps that are left are the node's own.
\<close>

inductive own_step ::
  "('db, 'st, 'p) node_env \<Rightarrow> 'p P2PNetwork option \<Rightarrow> ('db, 'st) NodeState \<Rightarrow> ('db, 'st) NodeState \<Rightarrow> bool" for env n nd where
  "n = Some nw \<Longrightarrow> sync_tick env nw nd = (nd', sent) \<Longrightarrow> own_step env n nd nd'"
| "own_step env n nd (put_pool mp nd)"
| "own_step env n nd (registry_tick env now1 now2 now3 nd)"
| "own_step env n nd (cleanup_tick env now1 now2 nd)"
| "own_step env n nd (pruning_tick env nd)"
| "own_step env n nd (poh_tick nd)"
| "production_tick env n inp nd = (nd', messages) \<Longrightarrow> own_step env n nd nd'"

lemma node_step_fresh:
  assumes step: "node_step env api x y" and net: "fresh_network (fst x)"
  shows "fst y = fst x \<and> (snd y = snd x \<or> own_step env (fst x) (snd x) (snd y))"
proof -
  have nobody: "\<not> IsAuthenticated (si_auth si) p (nw_authManager nw)" "am_challenges (nw_authManager nw) = []"
    "am_authenticated (nw_authManager nw) = []" if "fst x = Some nw" for nw si p
    using net that by (metis fresh_network_def new_network(2,3) not_authenticated)+
  show ?thesis
    using step
  proof (cases rule: node_step.cases)
    case (ns_block p si nw nd nw' nd' r)
    then show ?thesis using unauthenticated_ignored(1) [OF nobody(1)] by (metis fst_conv snd_conv)
  next
    case (ns_vote p si nw nd nw' nd' r)
    then show ?thesis using unauthenticated_ignored(2) [OF nobody(1)] by (metis fst_conv snd_conv)
  next
    case (ns_tx p si nw nd nw' nd' r')
    then show ?thesis using unauthenticated_ignored(3) [OF nobody(1)] by (metis fst_conv snd_conv)
  next
    case (ns_auth ak eof nw p decoded am reply nd)
    then have "am = nw_authManager nw" using no_challenge_no_change [OF nobody(2)] by (metis fst_conv)
    then show ?thesis using ns_auth by simp
  next
    case (ns_expire nw nd now)
    then show ?thesis using expire_fresh [OF nobody(2,3)] by simp
  qed (auto intro: own_step.intros)
qed

lemma own_step_deaf:
  assumes "own_step env n nd nd'" and net: "fresh_network n" and inv: "deaf nd0 nd"
    and n: "3 \<le> length (so_active (ve_so (ne_validator env)) (sv_state (nd_service nd0)))"
      "length (so_active (ve_so (ne_validator env)) (sv_state (nd_service nd0))) \<le> 2 ^ 40"
  shows "deaf nd0 nd'"
  using assms(1)
proof cases
  case (1 nw sent)
  then have "nw_peers nw = []" using net by (metis fresh_network_def new_network(1))
  then show ?thesis by (rule sync_tick_deaf [OF 1(2) _ inv])
next
  case (7 inp messages)
  then show ?thesis by (rule production_deaf [OF _ inv n])
qed (use inv in \<open>simp_all add: registry_tick_deaf cleanup_tick_deaf pruning_tick_deaf put_pool_def poh_tick_def,
    simp_all add: deaf_def stuck_def\<close>)

lemma node_run_fresh:
  "(node_step env api)\<^sup>*\<^sup>* (nw0, nd0) (nw, nd) \<Longrightarrow> fresh_network nw0 \<Longrightarrow> nw = nw0"
  by (induction rule: rtranclp_induct2) (use node_step_fresh in fastforce)+

lemma node_run_deaf:
  assumes "(node_step env api)\<^sup>*\<^sup>* (nw0, nd0) (nw, nd)" "fresh_network nw0" "deaf nd0 nd0"
    and n: "3 \<le> length (so_active (ve_so (ne_validator env)) (sv_state (nd_service nd0)))"
      "length (so_active (ve_so (ne_validator env)) (sv_state (nd_service nd0))) \<le> 2 ^ 40"
  shows "deaf nd0 nd"
  using assms(1)
proof (induction rule: rtranclp_induct2)
  case (step nw1 nd1 nw2 nd2)
  have net: "fresh_network nw1" using node_run_fresh [OF step(1) assms(2)] assms(2) by simp
  then show ?case using node_step_fresh [OF step(2)] own_step_deaf [OF _ net step(3) n] step(3) by auto
qed (simp add: assms)

text \<open>
  C9: A node that was started as \<open>main\<close> starts it stays alone, whatever happens to it and whatever any peer sends,
  answers to challenges included: its P2P layer stays the one it was started with, so it has no peers and no peer is
  ever authenticated; a block, vote or transaction stream changes nothing and is dropped with an error; and no cycle of its
  production and of its pool synchronisation sends a message. Only the answers on the streams that peers open
  (challenges and the replies to them) leave the node. If it was started with three or more active validators (at
  most \<open>2^40\<close>) and the checkpoints that it loaded name no finalized height, it finalizes nothing either: its current block,
  its accounts, its finality and its fork candidates stay what they were, for every run; of the chain's database
  nothing is written or removed.
\<close>

theorem node_isolated:
  assumes start: "node_start wl env inp = Inr (nw0, nd0)" and run: "(node_step env api)\<^sup>*\<^sup>* (nw0, nd0) (nw, nd)"
  shows "nw = (case in_network inp of Inl _ \<Rightarrow> None | Inr self \<Rightarrow> Some (NewP2PNetwork self)) \<and>
    (\<forall>inputs. snd (production_tick env nw inputs nd) = []) \<and>
    (case nw of None \<Rightarrow> True
     | Some n \<Rightarrow> nw_peers n = [] \<and> snd (sync_tick env n nd) = [] \<and>
        (\<forall>p si. \<not> IsAuthenticated (si_auth si) p (nw_authManager n) \<and>
          (\<exists>e. handleBlockStream (ne_show env) (ne_codec env) (Some (block_handler (ve_chain (ne_validator env)))) p si n nd = (n, nd, Inl e)) \<and>
          (\<exists>e. handleVoteStream (ne_show env) (ne_codec env) (Some vote_handler) p si n nd = (n, nd, Inl e)) \<and>
          (\<exists>e. handleTransactionStream (ne_show env) (ne_codec env) (Some tx_handler) (Some lookup_handler) p si n nd = (n, nd, Inl e)))) \<and>
    (3 \<le> length (so_active (ve_so (ne_validator env)) (sv_state (nd_service nd0))) \<and>
      length (so_active (ve_so (ne_validator env)) (sv_state (nd_service nd0))) \<le> 2 ^ 40 \<and>
      GetLastFinalizedHeight (nd_checkpoints nd0) = 0 \<longrightarrow>
        sv_blockchain (nd_service nd) = sv_blockchain (nd_service nd0) \<and> sv_state (nd_service nd) = sv_state (nd_service nd0) \<and>
        sv_finalityTracker (nd_service nd) = sv_finalityTracker (nd_service nd0) \<and> nd_forks nd = [])"
proof -
  obtain db vs where nd0: "nd0 = assemble env inp vs db" "vm_sessions (sv_votingManager vs) = []"
    and nw0: "nw0 = (case in_network inp of Inl _ \<Rightarrow> None | Inr self \<Rightarrow> Some (NewP2PNetwork self))"
    by (rule node_startE [OF start])
  have net: "fresh_network nw0" by (simp add: nw0 fresh_network_def split: sum.splits)
  have nw: "nw = nw0" by (rule node_run_fresh [OF run net])
  have "deaf nd0 nd0" if "GetLastFinalizedHeight (nd_checkpoints nd0) = 0"
    using that nd0(2) by (simp add: deaf_def nd0(1) assembled stuck_def GetLastFinalizedHeight_def)
  then have deaf: "deaf nd0 nd" if "3 \<le> length (so_active (ve_so (ne_validator env)) (sv_state (nd_service nd0)))"
      "length (so_active (ve_so (ne_validator env)) (sv_state (nd_service nd0))) \<le> 2 ^ 40" "GetLastFinalizedHeight (nd_checkpoints nd0) = 0"
    using node_run_deaf [OF run net _ that(1,2)] that(3) by blast
  have alone: "case nw of None \<Rightarrow> True
     | Some n \<Rightarrow> nw_peers n = [] \<and> snd (sync_tick env n nd) = [] \<and>
        (\<forall>p si. \<not> IsAuthenticated (si_auth si) p (nw_authManager n) \<and>
          (\<exists>e. handleBlockStream (ne_show env) (ne_codec env) (Some (block_handler (ve_chain (ne_validator env)))) p si n nd = (n, nd, Inl e)) \<and>
          (\<exists>e. handleVoteStream (ne_show env) (ne_codec env) (Some vote_handler) p si n nd = (n, nd, Inl e)) \<and>
          (\<exists>e. handleTransactionStream (ne_show env) (ne_codec env) (Some tx_handler) (Some lookup_handler) p si n nd = (n, nd, Inl e)))"
  proof (cases nw)
    case (Some n)
    then have "nw_peers n = []" "\<not> IsAuthenticated (si_auth si) p (nw_authManager n)" for si p
      using net nw by (metis fresh_network_def new_network(1,2) not_authenticated)+
    then show ?thesis using Some
      by (simp only: option.case sync_silent) (intro conjI allI refl unauthenticated_ignored(1-3); assumption)
  qed simp
  show ?thesis
    by (intro conjI impI allI) (use alone nw nw0 production_silent [OF net] deaf in
      \<open>simp_all add: deaf_def stuck_def nd0(1) assembled\<close>)
qed

definition demo_env_node :: "(memdb, mem_state, string) node_env" where
  "demo_env_node = \<lparr>ne_validator = demo_node_env, ne_slashing = demo_slash_env, ne_checkpoint = demo_cenv, ne_codec = demo_codec,
     ne_show = (\<lambda>p. p), ne_compact = (\<lambda>db. (db, None))\<rparr>"

definition demo_start :: "mem_state \<Rightarrow> (memdb, mem_state, string) start_input" where
  "demo_start st = \<lparr>in_config = None, in_walletFile = ''wallet.json'', in_walletPassword = ''secret'',
     in_wallet = Inr \<lparr>wa_D = 1, wa_PublicKey = (1, 1), wa_Address = ''rnr-node-address''\<rparr>, in_mnemonic = Inl (Error []), in_key = Inr (1, 1),
     in_db = Inr [], in_state = Inr st, in_genesis_validator = (\<lambda>_ _ s. s), in_vrf = Inr \<lparr>svs_privateKey = [], svs_publicKey = [1]\<rparr>,
     in_network = Inr ''QmSelf-Node'', in_pob_server = Inr (), in_retention = [], in_poh = [], in_now = 0\<rparr>"

lemma demo_starts:
  assumes "mget (mst_validators st) ''rnr-node-address'' = None"
  shows "\<exists>vs db. node_start wl demo_env_node (demo_start st) = Inr (Some (NewP2PNetwork ''QmSelf-Node''), assemble demo_env_node (demo_start st) vs db) \<and>
     sv_state vs = st \<and> sv_validatorID vs = ''rnr-node-address'' \<and> db = [(current_key, [0])]"
proof -
  have chain: "NewBlockchain demo_env [] = ([(current_key, [0])], Inr \<lparr>bc_db = [(current_key, [0])], bc_currentBlock = Chain.demo_block 0, bc_Difficulty = 1\<rparr>)"
    by (simp add: NewBlockchain_def memdb_ops_def createGenesisBlock_def Let_def)
  have "so_validator mem_state_ops st ''rnr-node-address'' = Inl (Error ''validator not found'')" using assms by (simp add: mem_state_ops_def)
  then show ?thesis
    by (auto simp: node_start_def demo_env_node_def demo_node_env_def demo_start_def node_wallet_def slice_to_def chain
        NewValidatorService_def Let_def split: sum.splits)
qed

lemma demo_never_finalized: "cm_finalizedHeight (nd_checkpoints (assemble demo_env_node inp vs [(current_key, [0])])) = 0"
  by (simp add: assemble_def demo_env_node_def demo_cenv_def NewCheckpointManager_def loadCheckpoints_def memdb_ops_def
      finalized_key_def current_key_def Let_def)

theorem node_isolated_witness:
  "\<exists>nw0 nd0 nd r. node_start demo_wallet_lib demo_env_node (demo_start demo_trio) = Inr (Some nw0, nd0) \<and>
     handleBlockStream (ne_show demo_env_node) demo_codec (Some (block_handler demo_env)) ''QmPeerOne'' demo_stream nw0 nd0 = (nw0, nd, r) \<and>
     sv_blockchain (nd_service nd) = sv_blockchain (nd_service nd0)"
proof -
  have "mget (mst_validators demo_trio) ''rnr-node-address'' = None" by (simp add: demo_trio_def)
  from demo_starts [OF this] obtain vs where start: "node_start demo_wallet_lib demo_env_node (demo_start demo_trio) =
      Inr (Some (NewP2PNetwork ''QmSelf-Node''), assemble demo_env_node (demo_start demo_trio) vs [(current_key, [0])])"
    and vs: "sv_state vs = demo_trio" by blast
  let ?nd0 = "assemble demo_env_node (demo_start demo_trio) vs [(current_key, [0])]"
  obtain nw nd r where b: "handleBlockStream (ne_show demo_env_node) demo_codec (Some (block_handler demo_env)) ''QmPeerOne'' demo_stream
      (NewP2PNetwork ''QmSelf-Node'') ?nd0 = (nw, nd, r)" by (metis prod_cases3)
  have env: "ve_chain (ne_validator demo_env_node) = demo_env" "ne_codec demo_env_node = demo_codec" "ve_so (ne_validator demo_env_node) = mem_state_ops"
    by (simp_all add: demo_env_node_def demo_node_env_def)
  have step: "node_step demo_env_node demo_submit_env (Some (NewP2PNetwork ''QmSelf-Node''), ?nd0) (Some nw, nd)"
    using node_step.ns_block [of demo_env_node "''QmPeerOne''" demo_stream "NewP2PNetwork ''QmSelf-Node''" ?nd0 nw nd r demo_submit_env] b env by simp
  have active: "so_active mem_state_ops (so_put_account mem_state_ops a demo_trio) = [''validator-one'', ''validator-two'', ''validator-six'']" for a
    using demo_active by (simp add: mem_state_ops_def)
  have three: "length (so_active (ve_so (ne_validator demo_env_node)) (sv_state (nd_service ?nd0))) = 3"
    by (simp add: assembled env vs active)
  note alone = node_isolated [OF start r_into_rtranclp [of "node_step demo_env_node demo_submit_env", OF step]]
  have "Some nw = Some (NewP2PNetwork ''QmSelf-Node'')" using alone by (simp add: demo_start_def)
  moreover have "sv_blockchain (nd_service nd) = sv_blockchain (nd_service ?nd0)"
    using alone three by (simp add: GetLastFinalizedHeight_def demo_never_finalized)
  ultimately show ?thesis using start b by auto
qed

section \<open>A restart\<close>

text \<open>
  A start sets the account of the node's own address to an empty one: whatever balance and nonce the database
  holds for it, the rewards of the validator included, is lost.
\<close>

theorem restart_resets_account:
  assumes start: "node_start wl env inp = Inr (nw, nd)" and laws: "state_laws (ve_so (ne_validator env))"
  shows "\<exists>w. node_wallet wl inp = Inr w \<and>
    so_account (ve_so (ne_validator env)) (sv_state (nd_service nd)) (wa_Address w) =
      Inr (Some \<lparr>a_Address = wa_Address w, a_Balance = 0, a_Nonce = 0, a_CodeHash = []\<rparr>)"
proof -
  obtain w db vs where "node_wallet wl inp = Inr w" "nd = assemble env inp vs db" "sv_validatorID vs = wa_Address w"
    by (rule node_startE [OF start])
  then show ?thesis using laws by (auto simp: assembled state_laws_def)
qed

theorem restart_resets_account_witness:
  "\<exists>nw nd. node_start demo_wallet_lib demo_env_node (demo_start \<lparr>mst_validators = [], mst_accounts =
      [(''rnr-node-address'', \<lparr>a_Address = ''rnr-node-address'', a_Balance = 1000, a_Nonce = 7, a_CodeHash = []\<rparr>)]\<rparr>) = Inr (nw, nd) \<and>
     so_account mem_state_ops (sv_state (nd_service nd)) ''rnr-node-address'' =
       Inr (Some \<lparr>a_Address = ''rnr-node-address'', a_Balance = 0, a_Nonce = 0, a_CodeHash = []\<rparr>)"
proof -
  let ?st = "\<lparr>mst_validators = [], mst_accounts =
      [(''rnr-node-address'', \<lparr>a_Address = ''rnr-node-address'', a_Balance = 1000, a_Nonce = 7, a_CodeHash = []\<rparr>)]\<rparr>"
  have none: "mget (mst_validators ?st) ''rnr-node-address'' = None" by simp
  obtain nw nd where start: "node_start demo_wallet_lib demo_env_node (demo_start ?st) = Inr (nw, nd)" using demo_starts [OF none] by blast
  have so: "ve_so (ne_validator demo_env_node) = mem_state_ops" by (simp add: demo_env_node_def demo_node_env_def)
  have "node_wallet demo_wallet_lib (demo_start ?st) = Inr \<lparr>wa_D = 1, wa_PublicKey = (1, 1), wa_Address = ''rnr-node-address''\<rparr>"
    by (simp add: node_wallet_def demo_start_def)
  with restart_resets_account [OF start] start show ?thesis by (auto simp: so mem_state_laws)
qed

section \<open>Blocks from the network\<close>

text \<open>
  C35: The block handler adds every block that names the tip as its predecessor and becomes the new tip. Its
  height, proposer, VRF proof, signature and transactions are not looked at; the transactions are not applied and
  stay in the pool, the vote of the node is not asked for, and the block is not marked final.
\<close>

theorem handler_adopts_unchecked:
  assumes "\<not> nd_waiting nd" "prev_of block = hashBlock env (GetLatestBlock (sv_blockchain (nd_service nd)))"
    and "AddBlock env block (sv_blockchain (nd_service nd)) = (bc, None)"
  shows "block_handler env block nd = (nd\<lparr>nd_service := (nd_service nd)\<lparr>sv_blockchain := bc\<rparr>\<rparr>, Inr ()) \<and>
    GetLatestBlock bc = block"
  using assms add_block_cases(1) [OF assms(3)]
  by (simp add: block_handler_def HandleCompetingBlock_def fork_view_def put_fork_def GetLatestBlock_def Let_def)

theorem handler_adopts_unchecked_witness:
  "\<exists>bc. \<forall>nd. \<not> nd_waiting nd \<and> sv_blockchain (nd_service nd) = demo_bc0 \<longrightarrow>
     block_handler demo_env ((Chain.demo_block 9)\<lparr>b_Header := (b_Header (Chain.demo_block 9))\<lparr>h_PrevBlockHash := hashBlock demo_env (Chain.demo_block 0)\<rparr>\<rparr>) nd =
       (nd\<lparr>nd_service := (nd_service nd)\<lparr>sv_blockchain := bc\<rparr>\<rparr>, Inr ()) \<and> height_of (GetLatestBlock bc) = 9"
proof -
  let ?b = "(Chain.demo_block 9)\<lparr>b_Header := (b_Header (Chain.demo_block 9))\<lparr>h_PrevBlockHash := hashBlock demo_env (Chain.demo_block 0)\<rparr>\<rparr>"
  obtain bc where add: "AddBlock demo_env ?b demo_bc0 = (bc, None)" by (simp add: AddBlock_def memdb_ops_def)
  have tip: "GetLatestBlock demo_bc0 = Chain.demo_block 0" by (simp add: GetLatestBlock_def demo_bc0_def)
  have "block_handler demo_env ?b nd = (nd\<lparr>nd_service := (nd_service nd)\<lparr>sv_blockchain := bc\<rparr>\<rparr>, Inr ()) \<and> GetLatestBlock bc = ?b"
    if "\<not> nd_waiting nd" "sv_blockchain (nd_service nd) = demo_bc0" for nd :: "(memdb, 'a) NodeState"
    by (rule handler_adopts_unchecked) (use that add tip in simp_all)
  then show ?thesis by (auto simp: Chain.demo_block_def)
qed

end
