(* ===== verification/Ballots.thy ===== *)
theory Ballots
  imports Voting
begin

text \<open>
  What the voting manager promises, as an abstract specification: a ballot per block is the number of validators and
  the set of those who voted. The specification has no clock, no database, no signature, no replay memory and no
  flag of finality; the voting manager of \<open>Voting.thy\<close> implements it.
\<close>

section \<open>The specification\<close>

text \<open>Who may vote now, and the ballots. The electorate changes at any time and in any way; a vote given stays given.\<close>

type_synonym ballots = "string \<Rightarrow> (int \<times> string set) option"

inductive ballot_step :: "(string \<Rightarrow> bool) \<times> ballots \<Rightarrow> (string \<Rightarrow> bool) \<times> ballots \<Rightarrow> bool" where
  ballot_opened: "B block = None \<Longrightarrow> 0 \<le> n \<Longrightarrow> n \<le> 2 ^ 40 \<Longrightarrow> ballot_step (eligible, B) (eligible, B(block \<mapsto> (n, {})))"
| ballot_vote: "B block = Some (n, voters) \<Longrightarrow> int (card voters) < required_votes n \<Longrightarrow> v \<notin> voters \<Longrightarrow> eligible v \<Longrightarrow>
    ballot_step (eligible, B) (eligible, B(block \<mapsto> (n, insert v voters)))"
| ballot_drop: "ballot_step (eligible, B) (eligible, \<lambda>block. if P block then None else B block)"
| ballot_electorate: "ballot_step (eligible, B) (eligible', B)"

inductive ballots_reachable :: "(string \<Rightarrow> bool) \<times> ballots \<Rightarrow> bool" where
  no_ballots: "ballots_reachable (eligible, \<lambda>_. None)"
| more_ballots: "ballots_reachable A \<Longrightarrow> ballot_step A A' \<Longrightarrow> ballots_reachable A'"

definition decided :: "int \<times> string set \<Rightarrow> bool" where
  "decided b \<longleftrightarrow> (case b of (n, voters) \<Rightarrow> int (card voters) = required_votes n)"

text \<open>A step that leaves the ballots as they are drops none.\<close>

lemma ballot_idle: "ballot_step A A"
  using ballot_drop [of "fst A" "snd A" "\<lambda>_. False"] by simp

section \<open>The abstraction\<close>

definition ballot_of :: "VotingSession \<Rightarrow> int \<times> string set" where
  "ballot_of s = (vs_TotalValidators s, fst ` set (vs_Votes s))"

definition ballots_of :: "'db VotingManager \<Rightarrow> ballots" where
  "ballots_of vm block = map_option ballot_of (mget (vm_sessions vm) block)"

definition may_vote :: "state_view option \<Rightarrow> string \<Rightarrow> bool" where
  "may_vote st v \<longleftrightarrow> (case st of None \<Rightarrow> True
     | Some st \<Rightarrow> v \<in> set (sv_active st) \<and> (\<exists>i. sv_validator st v = Inr i \<and> \<not> v_IsSuspended i))"

definition spec_of :: "'db voting_config \<Rightarrow> (string \<Rightarrow> bool) \<times> ballots" where
  "spec_of c = (may_vote (fst c), ballots_of (snd c))"

lemma state_check_may_vote: "state_check (SetState st env) vote = None \<Longrightarrow> may_vote st (vt_ValidatorID vote)"
  by (auto simp: state_check_def may_vote_def SetState_def split: option.splits if_splits sum.splits)

lemma card_voters: "wf_map (vs_Votes s) \<Longrightarrow> card (fst ` set (vs_Votes s)) = mlen (vs_Votes s)"
  unfolding mlen_def by (metis distinct_card length_map list.set_map)

lemma ballots_put: "ballots_of (vm\<lparr>vm_sessions := mput h s (vm_sessions vm0)\<rparr>) = (ballots_of vm0)(h \<mapsto> ballot_of s)"
  by (rule ext) (simp add: ballots_of_def mget_mput)

lemma ballots_cong: "vm_sessions vm = vm_sessions vm' \<Longrightarrow> ballots_of vm = ballots_of vm'"
  by (rule ext) (simp add: ballots_of_def)

lemma ballots_processed: "ballots_of (vm\<lparr>vm_processedVotes := pv\<rparr>) = ballots_of vm"
  by (rule ballots_cong) simp

section \<open>The simulation\<close>

lemma cast_simulates:
  assumes "vm_ok P vm" "CastVote (SetState st env) now1 now2 now3 h v sg vm = (vm', r)"
  shows "ballot_step (may_vote st, ballots_of vm) (may_vote st, ballots_of vm')"
  using assms(2)
proof (cases rule: cast_vote_cases)
  case 1
  then show ?thesis by (simp add: ballot_idle)
next
  case (2 s vote)
  have id: "vt_ValidatorID vote = v" "vt_BlockHash vote = h" using 2(5) by simp_all
  have ok: "session_ok P (hex h) s" by (rule vm_ok_get [OF assms(1) 2(2)])
  have "ballots_of vm (hex h) = Some (vs_TotalValidators s, fst ` set (vs_Votes s))"
    by (simp add: ballots_of_def 2(2) ballot_of_def)
  moreover have "int (card (fst ` set (vs_Votes s))) < required_votes (vs_TotalValidators s)"
    using ok 2(3) card_voters [of s] by (auto simp: session_ok_def)
  moreover have "v \<notin> fst ` set (vs_Votes s)" using 2(4) by (simp add: mget_None_iff)
  moreover have "may_vote st v" using state_check_may_vote [OF 2(6)] id by simp
  ultimately have "ballot_step (may_vote st, ballots_of vm)
      (may_vote st, (ballots_of vm)(hex h \<mapsto> (vs_TotalValidators s, insert v (fst ` set (vs_Votes s)))))"
    by (rule ballot_vote)
  moreover have "ballots_of vm' = (ballots_of vm)(hex h \<mapsto> (vs_TotalValidators s, insert v (fst ` set (vs_Votes s))))"
    unfolding 2(7) record_vote_def Let_def id ballots_put
    using ballots_cong [of "fst (PersistVote (SetState st env) vote vm)" vm] by (simp add: ballot_of_def fst_set_mput ballots_processed)
  ultimately show ?thesis by simp
qed

lemma step_simulates:
  assumes "vm_ok P (snd c)" "vote_step env c c'"
  shows "ballot_step (spec_of c) (spec_of c')"
  using assms(2,1)
proof (induction rule: vote_step.induct)
  case (step_start tv now1 now2 blockHash vm vm' r st)
  show ?case
  proof (cases "mhas (vm_sessions vm) (hex blockHash)")
    case True
    then have "vm' = vm" using step_start(3) by (simp add: StartVotingSession_def Let_def)
    then show ?thesis by (simp add: ballot_idle)
  next
    case False
    then have "ballots_of vm (hex blockHash) = None" by (simp add: ballots_of_def mhas_def)
    moreover have "ballots_of vm' = (ballots_of vm)(hex blockHash \<mapsto> (tv, {}))"
      using step_start(3) False by (auto simp: StartVotingSession_def Let_def ballots_put ballot_of_def)
    ultimately show ?thesis using ballot_opened step_start(1,2) by (simp add: spec_of_def)
  qed
next
  case step_cast
  then show ?case using cast_simulates by (fastforce simp: spec_of_def)
next
  case (step_cleanup_sessions st vm now maxAge)
  let ?old = "\<lambda>block. \<exists>s. mget (vm_sessions vm) block = Some s \<and> time_sub now (vs_StartTime s) > maxAge"
  have "ballots_of (CleanupOldSessions now maxAge vm) = (\<lambda>block. if ?old block then None else ballots_of vm block)"
    using step_cleanup_sessions by (intro ext) (auto simp: ballots_of_def CleanupOldSessions_def mget_mkeep vm_ok_def split: option.splits)
  then show ?case using ballot_drop [of "may_vote st" "ballots_of vm" ?old] by (simp add: spec_of_def)
next
  case (step_cleanup_votes height keep vm vm' n st)
  let ?done = "\<lambda>block. \<exists>s. mget (vm_sessions vm) block = Some s \<and> vs_IsFinalized s"
  have "ballots_of vm' = (\<lambda>block. if ?done block then None else ballots_of vm block)"
    using step_cleanup_votes(2) cleanup_get [OF _ step_cleanup_votes(1)] by (intro ext) (auto simp: ballots_of_def vm_ok_def split: option.splits)
  then show ?case using ballot_drop [of "may_vote st" "ballots_of vm" ?done] by (simp add: spec_of_def)
next
  case step_state
  show ?case by (simp add: spec_of_def ballot_electorate)
next
  case (step_mark st vm voteID)
  have "ballots_of (MarkVoteProcessed voteID vm) = ballots_of vm" by (rule ballots_cong) (simp add: MarkVoteProcessed_def)
  then show ?case by (simp add: spec_of_def ballot_idle)
next
  case (step_persist st vm vote)
  have "ballots_of (fst (PersistVote env vote vm)) = ballots_of vm" by (rule ballots_cong) simp
  then show ?case by (simp add: spec_of_def ballot_idle)
next
  case (step_delete st vm voteID)
  have "ballots_of (fst (DeleteVoteFromDB env voteID vm)) = ballots_of vm" by (rule ballots_cong) simp
  then show ?case by (simp add: spec_of_def ballot_idle)
next
  case (step_load st vm)
  have "ballots_of (fst (LoadProcessedVotes env vm)) = ballots_of vm" by (rule ballots_cong) simp
  then show ?case by (simp add: spec_of_def ballot_idle)
qed

lemma run_simulates: "voting_run env run \<Longrightarrow> ballots_reachable (spec_of (hd run))"
proof (induction rule: voting_run.induct)
  case (run_start st db)
  have "ballots_of (NewVotingManager env db) = (\<lambda>_. None)" by (rule ext) (simp add: ballots_of_def new_sessions)
  then show ?case by (simp add: spec_of_def no_ballots)
next
  case (run_step c cs c')
  have "vm_ok (cast_in env (c # cs)) (snd c)" using run_ok [OF run_step.hyps(1)] by simp
  from step_simulates [OF this run_step.hyps(2)] show ?case using run_step.IH by (auto intro: more_ballots)
qed

section \<open>Properties\<close>

text \<open>
  C6: The voting manager implements the specification of ballots, also while the validator state changes under it: every
  run leads to ballots the specification reaches, and every step is a step of the specification between the ballots it
  stands for. So a validator votes at most once on a ballot, only when it is active and unsuspended at that moment, and only
  while the ballot is undecided; a later change of the validator state takes no vote away. \<open>CheckFinality\<close> answers what
  the specification says: decided, and by how many.
\<close>

theorem voting_refines_ballots:
  assumes "voting_run env ((st, vm) # cs)"
  shows "ballots_reachable (may_vote st, ballots_of vm) \<and>
    (\<forall>st' vm'. vote_step env (st, vm) (st', vm') \<longrightarrow> ballot_step (may_vote st, ballots_of vm) (may_vote st', ballots_of vm')) \<and>
    CheckFinality h vm = (case ballots_of vm (hex h) of
        None \<Rightarrow> Inl (Error ''no voting session found'')
      | Some b \<Rightarrow> Inr (decided b, card (snd b)))"
proof (intro conjI allI impI)
  show "ballots_reachable (may_vote st, ballots_of vm)" using run_simulates [OF assms] by (simp add: spec_of_def)
  have ok: "vm_ok (cast_in env ((st, vm) # cs)) vm" using run_ok [OF assms] by simp
  show "ballot_step (may_vote st, ballots_of vm) (may_vote st', ballots_of vm')" if "vote_step env (st, vm) (st', vm')" for st' vm'
    using step_simulates [OF _ that] ok by (simp add: spec_of_def)
  show "CheckFinality h vm = (case ballots_of vm (hex h) of
        None \<Rightarrow> Inl (Error ''no voting session found'') | Some b \<Rightarrow> Inr (decided b, card (snd b)))"
  proof (cases "mget (vm_sessions vm) (hex h)")
    case (Some s)
    then show ?thesis using vm_ok_get [OF ok Some] card_voters [of s]
      by (simp add: CheckFinality_def ballots_of_def ballot_of_def decided_def session_ok_def)
  qed (simp add: CheckFinality_def ballots_of_def)
qed

theorem voting_refines_ballots_witness:
  "CheckFinality [1] demo_vm2 = Inr (True, 1) \<and> decided (1, {''v1''}) \<and>
   \<not> may_vote (fst (hd demo_run)) ''v1'' \<and> ballots_reachable (may_vote (fst (hd demo_run)), ballots_of demo_vm2)"
proof -
  have "ballots_of demo_vm2 (hex [1]) = Some (1, {''v1''})" by (simp add: ballots_of_def demo_vm2_session ballot_of_def)
  then show ?thesis using voting_refines_ballots [OF demo_run [unfolded demo_run_def], of "[1]"]
    by (simp add: decided_def required_1 demo_run_def may_vote_def)
qed

end
