(* ===== verification/Pipeline.thy ===== *)
theory Pipeline
  imports Concurrent_Validation Atomic_State
begin

text \<open>
  The two halves of the path of a transaction outside the validator service: the concurrent validation
  (\<open>pkg/consensus/concurrent_validation.go\<close>) selects transactions, \<open>ApplyTransactionAtomic\<close>
  (\<open>pkg/blockchain/atomic_state.go\<close>) applies them. Both read the same accounts. The validation wants a nonce
  above the account's, the application the account's own.
\<close>

section \<open>From validation to application\<close>

lemma valid_nonce:
  assumes "validate_transaction get tx = Inr r" "vres_Valid r" "get (tx_From tx) = Inr (Some s)"
  shows "a_Nonce s < tx_Nonce tx \<and> tx_Amount tx \<le> a_Balance s"
  using assms by (auto simp: validate_transaction_def Let_def split: if_splits)

text \<open>
  C21: No transaction passes both: one that the concurrent validation finds valid on the accounts of a state is refused
  by \<open>ApplyTransactionAtomic\<close> on this state with an invalid nonce, and nothing is changed; and one that is applied was
  refused by the validation.
\<close>

theorem validated_never_applies:
  assumes get: "\<forall>a st' p s. ac_get env st a = (st', Inr p) \<longrightarrow> deref st' p = Inr s \<longrightarrow> get a = Inr (Some s)"
    and sender: "ac_get env st (tx_From tx) = (st1, Inr p)" "deref st1 p = Inr s"
    and checked: "validate_transaction get tx = Inr r"
  shows "(vres_Valid r \<longrightarrow> ApplyTransactionAtomic env tx st = (st1, Inl (Error ''invalid nonce''))) \<and>
    (snd (ApplyTransactionAtomic env tx st) = Inr () \<longrightarrow> \<not> vres_Valid r)"
proof -
  have g: "get (tx_From tx) = Inr (Some s)" using get sender by blast
  have "ApplyTransactionAtomic env tx st = (st1, Inl (Error ''invalid nonce''))" if "vres_Valid r"
    using valid_nonce [OF checked that g] sender by (auto simp: ApplyTransactionAtomic_def)
  then show ?thesis by auto
qed

theorem validated_never_applies_witness:
  "let env = demo_atomic_env shared_get memdb_ops; tx = (demo_transfer ''alice'' ''bob'' 30)\<lparr>tx_Nonce := 1\<rparr>;
       get = (\<lambda>a. case account_of demo_state a of None \<Rightarrow> Inl (Error []) | Some s \<Rightarrow> Inr (Some s)) in
   validate_transaction get tx = Inr \<lparr>vres_TxID = [], vres_Valid = True, vres_Error = None\<rparr> \<and>
   snd (ApplyTransactionAtomic env tx demo_state) = Inl (Error ''invalid nonce'')"
proof -
  let ?env = "demo_atomic_env shared_get memdb_ops" and ?tx = "(demo_transfer ''alice'' ''bob'' 30)\<lparr>tx_Nonce := 1\<rparr>"
  let ?get = "\<lambda>a. case account_of demo_state a of None \<Rightarrow> Inl (Error []) | Some s \<Rightarrow> Inr (Some s)"
  have law: "\<forall>a st' p s. ac_get ?env demo_state a = (st', Inr p) \<longrightarrow> deref st' p = Inr s \<longrightarrow> ?get a = Inr (Some s)"
    by (auto simp: demo_atomic_env_def shared_get_def account_of_def deref_def split: option.splits)
  have v: "validate_transaction ?get ?tx = Inr \<lparr>vres_TxID = [], vres_Valid = True, vres_Error = None\<rparr>"
    using demo_accounts by (simp add: validate_transaction_def demo_transfer_def demo_account_def)
  have g: "ac_get ?env demo_state (tx_From ?tx) = (demo_state, Inr 1)" "deref demo_state 1 = Inr (demo_account ''alice'' 100)"
    by (simp_all add: demo_atomic_defs shared_get_def deref_def)
  from validated_never_applies [OF law g v] v show ?thesis by (simp add: Let_def)
qed

end
