(* ===== verification/Lock_Order.thy ===== *)
theory Lock_Order
  imports Prelude
begin

text \<open>
  The locking of the chain (\<open>pkg/blockchain/blockchain.go\<close>) and of the health monitor (\<open>pkg/utils/health.go\<close>). The other
  theories treat a call that takes a lock as one step; here a call is the sequence of its lock operations, and the
  goroutines interleave.

  \<open>sync.RWMutex\<close> is not reentrant: once a goroutine waits in \<open>Lock\<close>, every later \<open>RLock\<close> waits behind it, until
  the writer has had the lock. \<open>GetTransactionHistory\<close>, \<open>GetTransactionByID\<close>, \<open>GetTotalTransactionCount\<close> and
  \<open>GetHealthReport\<close> hold the read lock while they call a function that takes it again.
\<close>

section \<open>The mutex\<close>

datatype lock_op = RLock | RUnlock | Lock | Unlock

record rwmutex =
  rw_readers :: nat
  rw_writer :: bool
  rw_waiting :: nat

definition free_mutex :: rwmutex where
  "free_mutex = \<lparr>rw_readers = 0, rw_writer = False, rw_waiting = 0\<rparr>"

text \<open>A caller is the operations before it, and whether it waits in \<open>Lock\<close>.\<close>

type_synonym caller = "lock_op list \<times> bool"

inductive lock_step :: "rwmutex \<times> caller list \<Rightarrow> rwmutex \<times> caller list \<Rightarrow> bool" where
  ls_rlock: "i < length ts \<Longrightarrow> ts ! i = (RLock # ops, False) \<Longrightarrow> \<not> rw_writer m \<Longrightarrow> rw_waiting m = 0 \<Longrightarrow>
     lock_step (m, ts) (m\<lparr>rw_readers := Suc (rw_readers m)\<rparr>, ts[i := (ops, False)])"
| ls_runlock: "i < length ts \<Longrightarrow> ts ! i = (RUnlock # ops, False) \<Longrightarrow>
     lock_step (m, ts) (m\<lparr>rw_readers := rw_readers m - 1\<rparr>, ts[i := (ops, False)])"
| ls_announce: "i < length ts \<Longrightarrow> ts ! i = (Lock # ops, False) \<Longrightarrow>
     lock_step (m, ts) (m\<lparr>rw_waiting := Suc (rw_waiting m)\<rparr>, ts[i := (Lock # ops, True)])"
| ls_lock: "i < length ts \<Longrightarrow> ts ! i = (Lock # ops, True) \<Longrightarrow> rw_readers m = 0 \<Longrightarrow> \<not> rw_writer m \<Longrightarrow>
     lock_step (m, ts) (m\<lparr>rw_writer := True, rw_waiting := rw_waiting m - 1\<rparr>, ts[i := (ops, False)])"
| ls_unlock: "i < length ts \<Longrightarrow> ts ! i = (Unlock # ops, False) \<Longrightarrow>
     lock_step (m, ts) (m\<lparr>rw_writer := False\<rparr>, ts[i := (ops, False)])"

inductive_cases lock_stepE: "lock_step s s'"

text \<open>Somebody is not done and nobody can go on.\<close>

definition deadlocked :: "rwmutex \<times> caller list \<Rightarrow> bool" where
  "deadlocked s \<longleftrightarrow> (\<exists>t \<in> set (snd s). fst t \<noteq> []) \<and> (\<forall>s'. \<not> lock_step s s')"

section \<open>The calls\<close>

text \<open>The searches take the number of blocks they read.\<close>

datatype chain_call = LatestBlock | AddsBlock | BlockByHeight | VerifiesBlock | History nat | ByID nat | TotalCount nat

definition read_calls :: "nat \<Rightarrow> lock_op list" where
  "read_calls n = concat (replicate n [RLock, RUnlock])"

fun chain_locks :: "chain_call \<Rightarrow> lock_op list" where
  "chain_locks LatestBlock = [RLock, RUnlock]"
| "chain_locks AddsBlock = [Lock, Unlock]"
| "chain_locks BlockByHeight = [RLock, RUnlock]"
| "chain_locks VerifiesBlock = [RLock, RUnlock]"
| "chain_locks (History n) = RLock # read_calls n @ [RUnlock]"
| "chain_locks (ByID n) = RLock # read_calls n @ [RUnlock]"
| "chain_locks (TotalCount n) = RLock # read_calls n @ [RUnlock]"

text \<open>\<open>GetHealthReport\<close> calls \<open>GetOverallHealth\<close>; \<open>CheckHealth\<close> is the writer.\<close>

definition report_locks :: "lock_op list" where "report_locks = RLock # [RLock, RUnlock] @ [RUnlock]"
definition check_locks :: "lock_op list" where "check_locks = [Lock, Unlock]"

definition calling :: "lock_op list list \<Rightarrow> rwmutex \<times> caller list" where
  "calling progs = (free_mutex, map (\<lambda>ops. (ops, False)) progs)"

section \<open>A nested read lock\<close>

lemma nested_deadlock:
  "\<exists>s. lock_step\<^sup>*\<^sup>* (calling [RLock # RLock # ops, Lock # ops']) s \<and> deadlocked s"
proof -
  let ?m1 = "free_mutex\<lparr>rw_readers := 1\<rparr>" and ?m2 = "free_mutex\<lparr>rw_readers := 1, rw_waiting := 1\<rparr>"
  have one: "lock_step (calling [RLock # RLock # ops, Lock # ops']) (?m1, [(RLock # ops, False), (Lock # ops', False)])"
    using ls_rlock [of 0 "[(RLock # RLock # ops, False), (Lock # ops', False)]" "RLock # ops" free_mutex] by (simp add: calling_def free_mutex_def)
  have two: "lock_step (?m1, [(RLock # ops, False), (Lock # ops', False)]) (?m2, [(RLock # ops, False), (Lock # ops', True)])"
    using ls_announce [of 1 "[(RLock # ops, False), (Lock # ops', False)]" ops' ?m1] by (simp add: free_mutex_def)
  have "\<not> lock_step (?m2, [(RLock # ops, False), (Lock # ops', True)]) s'" for s'
    by (auto simp: free_mutex_def less_Suc_eq elim!: lock_stepE)
  then have "deadlocked (?m2, [(RLock # ops, False), (Lock # ops', True)])" by (simp add: deadlocked_def)
  with one two show ?thesis by (meson converse_rtranclp_into_rtranclp r_into_rtranclp)
qed

section \<open>Calls without nesting\<close>

text \<open>What is left of a program whose lock operations come in adjacent pairs.\<close>

fun paired :: "lock_op list \<Rightarrow> bool" where
  "paired [] = True"
| "paired (RLock # RUnlock # ops) = paired ops"
| "paired (Lock # Unlock # ops) = paired ops"
| "paired ops = False"

definition rest_ok :: "caller \<Rightarrow> bool" where
  "rest_ok t \<longleftrightarrow> (case t of
     (RUnlock # ops, w) \<Rightarrow> \<not> w \<and> paired ops
   | (Unlock # ops, w) \<Rightarrow> \<not> w \<and> paired ops
   | (Lock # ops, w) \<Rightarrow> paired (Lock # ops)
   | (ops, w) \<Rightarrow> \<not> w \<and> paired ops)"

definition reading :: "caller \<Rightarrow> bool" where "reading t \<longleftrightarrow> (\<exists>ops. t = (RUnlock # ops, False))"
definition writing :: "caller \<Rightarrow> bool" where "writing t \<longleftrightarrow> (\<exists>ops. t = (Unlock # ops, False))"

definition accounted :: "rwmutex \<times> caller list \<Rightarrow> bool" where
  "accounted s \<longleftrightarrow> list_all rest_ok (snd s) \<and> rw_readers (fst s) = length (filter reading (snd s)) \<and>
     (if rw_writer (fst s) then 1 else 0) = length (filter writing (snd s)) \<and> rw_waiting (fst s) = length (filter snd (snd s))"

lemma filter_update: "i < length xs \<Longrightarrow>
    length (filter P (xs[i := x])) + (if P (xs ! i) then 1 else 0) = length (filter P xs) + (if P x then 1 else 0)"
proof (induction xs arbitrary: i)
  case (Cons y ys)
  show ?case
  proof (cases i)
    case (Suc j)
    then show ?thesis using Cons.IH [of j] Cons.prems by (simp split: if_splits)
  qed simp
qed simp

lemma list_all_update: "list_all P xs \<Longrightarrow> P x \<Longrightarrow> list_all P (xs[i := x])"
  by (auto simp: list_all_iff dest!: set_update_subset_insert [THEN subsetD])

lemma paired_cases:
  assumes "paired ops"
  obtains "ops = []" | ops' where "ops = RLock # RUnlock # ops'" "paired ops'" | ops' where "ops = Lock # Unlock # ops'" "paired ops'"
  using assms by (cases ops rule: paired.cases) auto

lemma rest_ok_paired: "paired ops \<Longrightarrow> rest_ok (ops, False) \<and> \<not> reading (ops, False) \<and> \<not> writing (ops, False)"
  by (erule paired_cases) (auto simp: rest_ok_def reading_def writing_def)

lemma accounted_update:
  assumes "accounted (m, ts)" "i < length ts" "rest_ok t"
    and "rw_readers m' + (if reading (ts ! i) then 1 else 0) = rw_readers m + (if reading t then 1 else 0)"
    and "(if rw_writer m' then 1 else 0) + (if writing (ts ! i) then 1 else 0) = (if rw_writer m then 1 else 0) + (if writing t then 1 else 0 :: nat)"
    and "rw_waiting m' + (if snd (ts ! i) then 1 else 0) = rw_waiting m + (if snd t then 1 else 0)"
  shows "accounted (m', ts[i := t])"
  using assms filter_update [OF assms(2), of reading t] filter_update [OF assms(2), of writing t] filter_update [OF assms(2), of snd t]
  by (auto simp: accounted_def list_all_update)

lemma accounted_rest: "accounted (m, ts) \<Longrightarrow> i < length ts \<Longrightarrow> rest_ok (ts ! i)"
  by (auto simp: accounted_def list_all_length)

lemma in_filter_pos: "i < length ts \<Longrightarrow> P (ts ! i) \<Longrightarrow> 0 < length (filter P ts)"
  by (metis filter_empty_conv length_greater_0_conv nth_mem)

lemma accounted_step:
  assumes "lock_step s s'" "accounted s"
  shows "accounted s'"
  using assms
proof (induction rule: lock_step.induct)
  case (ls_rlock i ts ops m)
  note accounted_rest [OF ls_rlock(5) ls_rlock(1)]
  then obtain ops' where "ops = RUnlock # ops'" "paired ops'" using ls_rlock(2) by (auto simp: rest_ok_def elim: paired_cases)
  then show ?case using ls_rlock by (intro accounted_update) (auto simp: rest_ok_def reading_def writing_def)
next
  case (ls_runlock i ts ops m)
  note accounted_rest [OF ls_runlock(3) ls_runlock(1)]
  then have p: "paired ops" using ls_runlock(2) by (simp add: rest_ok_def)
  have "0 < rw_readers m" using in_filter_pos [OF ls_runlock(1), of reading] ls_runlock by (simp add: accounted_def reading_def)
  then show ?case using ls_runlock rest_ok_paired [OF p] by (intro accounted_update) (auto simp: reading_def writing_def)
next
  case (ls_announce i ts ops m)
  note accounted_rest [OF ls_announce(3) ls_announce(1)]
  then show ?case using ls_announce by (intro accounted_update) (auto simp: rest_ok_def reading_def writing_def)
next
  case (ls_lock i ts ops m)
  note accounted_rest [OF ls_lock(5) ls_lock(1)]
  then obtain ops' where "ops = Unlock # ops'" "paired ops'" using ls_lock(2) by (auto simp: rest_ok_def elim: paired_cases)
  moreover have "0 < rw_waiting m" using in_filter_pos [OF ls_lock(1), of snd] ls_lock by (simp add: accounted_def)
  ultimately show ?case using ls_lock by (intro accounted_update) (auto simp: rest_ok_def reading_def writing_def)
next
  case (ls_unlock i ts ops m)
  note accounted_rest [OF ls_unlock(3) ls_unlock(1)]
  then have p: "paired ops" using ls_unlock(2) by (simp add: rest_ok_def)
  have "rw_writer m" using in_filter_pos [OF ls_unlock(1), of writing] ls_unlock by (auto simp: accounted_def writing_def split: if_splits)
  then show ?case using ls_unlock rest_ok_paired [OF p] by (intro accounted_update) (auto simp: reading_def writing_def)
qed

lemma accounted_goes_on:
  assumes inv: "accounted (m, ts)" and left: "t \<in> set ts" "fst t \<noteq> []"
  shows "\<exists>s'. lock_step (m, ts) s'"
proof -
  have ok: "rest_ok (ts ! i)" if "i < length ts" for i using inv that by (rule accounted_rest)
  consider (reads) i ops where "i < length ts" "ts ! i = (RUnlock # ops, False)" | (writes) i ops where "i < length ts" "ts ! i = (Unlock # ops, False)"
    | (free) "filter reading ts = []" "filter writing ts = []"
    by (metis filter_empty_conv in_set_conv_nth reading_def writing_def)
  then show ?thesis
  proof cases
    case reads
    then show ?thesis by (blast intro: lock_step.ls_runlock)
  next
    case writes
    then show ?thesis by (blast intro: lock_step.ls_unlock)
  next
    case free
    then have m: "rw_readers m = 0" "\<not> rw_writer m" using inv by (auto simp: accounted_def split: if_splits)
    show ?thesis
    proof (cases "filter snd ts = []")
      case True
      then have w: "rw_waiting m = 0" using inv by (simp add: accounted_def)
      obtain i where i: "i < length ts" "ts ! i = t" using left(1) by (auto simp: in_set_conv_nth)
      have f: "\<not> snd t" "\<not> reading t" "\<not> writing t" using True free left(1) by (auto simp: filter_empty_conv)
      obtain ops where "t = (RLock # ops, False) \<or> t = (Lock # ops, False)"
        using f left(2) by (cases t; cases "fst t") (auto simp: reading_def writing_def intro: lock_op.exhaust)
      then show ?thesis using i m w by (blast intro: lock_step.ls_rlock lock_step.ls_announce)
    next
      case False
      then obtain i where i: "i < length ts" "snd (ts ! i)" by (auto simp: filter_empty_conv in_set_conv_nth)
      obtain ops where "ts ! i = (Lock # ops, True)"
        using ok [OF i(1)] i(2) by (cases "ts ! i") (auto simp: rest_ok_def split: list.splits lock_op.splits)
      then show ?thesis using i(1) m by (blast intro: lock_step.ls_lock)
    qed
  qed
qed

lemma paired_no_deadlock:
  assumes "\<forall>ops \<in> set progs. paired ops" "lock_step\<^sup>*\<^sup>* (calling progs) s"
  shows "\<not> deadlocked s"
proof -
  have "accounted (calling progs)"
    using assms(1) rest_ok_paired by (auto simp: accounted_def calling_def free_mutex_def list_all_iff filter_empty_conv)
  with assms(2) have "accounted s" by (induction rule: rtranclp_induct) (auto intro: accounted_step)
  then show ?thesis using accounted_goes_on by (cases s) (auto simp: deadlocked_def)
qed

lemma read_calls_step: "read_calls (Suc n) = RLock # RUnlock # read_calls n" by (simp add: read_calls_def)

definition nested :: "chain_call \<Rightarrow> bool" where
  "nested c \<longleftrightarrow> (\<exists>n. c = History (Suc n) \<or> c = ByID (Suc n) \<or> c = TotalCount (Suc n))"

lemma flat_paired: "\<not> nested c \<Longrightarrow> paired (chain_locks c)"
proof -
  assume "\<not> nested c"
  then have "c = History n \<or> c = ByID n \<or> c = TotalCount n \<Longrightarrow> n = 0" for n by (cases n) (auto simp: nested_def)
  then show ?thesis by (cases c) (auto simp: read_calls_def)
qed

text \<open>
  C37: A search of the chain that reads a block can deadlock with the adding of a block, and the health report with a health
  check: between its two read locks the writer announces itself, and neither goes on. Any number of the other calls of the
  chain never deadlock, in any interleaving.
\<close>

theorem nested_read_locks_deadlock:
  "(nested c \<longrightarrow> (\<exists>s. lock_step\<^sup>*\<^sup>* (calling [chain_locks c, chain_locks AddsBlock]) s \<and> deadlocked s)) \<and>
   (\<exists>s. lock_step\<^sup>*\<^sup>* (calling [report_locks, check_locks]) s \<and> deadlocked s) \<and>
   ((\<forall>call \<in> set calls. \<not> nested call) \<longrightarrow> lock_step\<^sup>*\<^sup>* (calling (map chain_locks calls)) s \<longrightarrow> \<not> deadlocked s)"
proof (intro conjI impI)
  assume "nested c"
  then obtain ops where "chain_locks c = RLock # RLock # ops" by (auto simp: nested_def read_calls_step)
  then show "\<exists>s. lock_step\<^sup>*\<^sup>* (calling [chain_locks c, chain_locks AddsBlock]) s \<and> deadlocked s"
    using nested_deadlock [of ops "[Unlock]"] by simp
next
  show "\<exists>s. lock_step\<^sup>*\<^sup>* (calling [report_locks, check_locks]) s \<and> deadlocked s"
    using nested_deadlock [of "[RUnlock, RUnlock]" "[Unlock]"] by (simp add: report_locks_def check_locks_def)
next
  assume "\<forall>call \<in> set calls. \<not> nested call" "lock_step\<^sup>*\<^sup>* (calling (map chain_locks calls)) s"
  then show "\<not> deadlocked s" using paired_no_deadlock [of "map chain_locks calls" s] flat_paired by auto
qed

theorem nested_read_locks_deadlock_witness:
  "(\<exists>s. lock_step\<^sup>*\<^sup>* (calling [chain_locks (TotalCount 1), chain_locks AddsBlock]) s \<and> deadlocked s) \<and>
   \<not> deadlocked (calling [chain_locks LatestBlock, chain_locks AddsBlock])"
  using nested_read_locks_deadlock [of "TotalCount 1" "[LatestBlock, AddsBlock]" "calling [chain_locks LatestBlock, chain_locks AddsBlock]"]
  by (simp add: nested_def)

end
