(* ===== verification/Health.thy ===== *)
theory Health
  imports Recovery
begin

text \<open>
  The health of the components (\<open>pkg/utils/health.go\<close>) and the collector of metrics beside it. A status is a string, so
  that a check can return any. The locks are those of \<open>Lock_Order.thy\<close>; here a call is one step. No code of the node
  creates a monitor.
\<close>

section \<open>Components\<close>

definition StatusHealthy :: string where "StatusHealthy = ''healthy''"
definition StatusDegraded :: string where "StatusDegraded = ''degraded''"
definition StatusUnhealthy :: string where "StatusUnhealthy = ''unhealthy''"

record ComponentHealth =
  ch_Name :: string
  ch_Status :: string
  ch_Message :: string
  ch_LastCheck :: gotime
  ch_Uptime :: duration

record HealthMonitor =
  hm_components :: "(string, ComponentHealth) gomap"
  hm_startTime :: gotime
  hm_checkInterval :: duration

definition NewHealthMonitor :: "gotime \<Rightarrow> duration \<Rightarrow> HealthMonitor" where
  "NewHealthMonitor now checkInterval = \<lparr>hm_components = [], hm_startTime = now, hm_checkInterval = checkInterval\<rparr>"

text \<open>The checks are registered with their components and stand beside them: what the check of a name returns is an argument.\<close>

definition RegisterComponent :: "gotime \<Rightarrow> string \<Rightarrow> HealthMonitor \<Rightarrow> HealthMonitor" where
  "RegisterComponent now name hm = hm\<lparr>hm_components := mput name
     \<lparr>ch_Name = name, ch_Status = StatusHealthy, ch_Message = [], ch_LastCheck = now, ch_Uptime = 0\<rparr> (hm_components hm)\<rparr>"

definition CheckHealth :: "gotime \<Rightarrow> gotime \<Rightarrow> (string \<Rightarrow> string \<times> string) \<Rightarrow> string \<Rightarrow> HealthMonitor \<Rightarrow> HealthMonitor" where
  "CheckHealth now1 now2 check name hm =
     (case mget (hm_components hm) name of
        None \<Rightarrow> hm
      | Some ch \<Rightarrow> hm\<lparr>hm_components := mput name (ch\<lparr>ch_Status := fst (check name), ch_Message := snd (check name),
          ch_LastCheck := now1, ch_Uptime := time_sub now2 (hm_startTime hm)\<rparr>) (hm_components hm)\<rparr>)"

definition CheckAllHealth :: "gotime \<Rightarrow> gotime \<Rightarrow> (string \<Rightarrow> string \<times> string) \<Rightarrow> HealthMonitor \<Rightarrow> HealthMonitor" where
  "CheckAllHealth now1 now2 check hm = fold (CheckHealth now1 now2 check) (map fst (hm_components hm)) hm"

definition GetHealth :: "string \<Rightarrow> HealthMonitor \<Rightarrow> ComponentHealth option" where
  "GetHealth name hm = mget (hm_components hm) name"

definition worse :: "ComponentHealth \<Rightarrow> bool \<times> bool \<Rightarrow> bool \<times> bool" where
  "worse ch flags = (case flags of (hasUnhealthy, hasDegraded) \<Rightarrow>
     if ch_Status ch = StatusUnhealthy then (True, hasDegraded)
     else if ch_Status ch = StatusDegraded then (hasUnhealthy, True) else (hasUnhealthy, hasDegraded))"

definition GetOverallHealth :: "HealthMonitor \<Rightarrow> string" where
  "GetOverallHealth hm =
     (case fold worse (map snd (hm_components hm)) (False, False) of (hasUnhealthy, hasDegraded) \<Rightarrow>
        if hasUnhealthy then StatusUnhealthy else if hasDegraded then StatusDegraded else StatusHealthy)"

section \<open>The collector\<close>

datatype metric_value = MInt int | MFloat f64 | MText string

type_synonym MetricsCollector = "(string, metric_value) gomap"

definition NewMetricsCollector :: MetricsCollector where "NewMetricsCollector = []"

definition RecordMetric :: "string \<Rightarrow> metric_value \<Rightarrow> MetricsCollector \<Rightarrow> MetricsCollector" where
  "RecordMetric name v mc = mput name v mc"

definition GetMetric :: "string \<Rightarrow> MetricsCollector \<Rightarrow> metric_value option" where
  "GetMetric name mc = mget mc name"

definition GetAllMetrics :: "MetricsCollector \<Rightarrow> (string, metric_value) gomap" where
  "GetAllMetrics mc = fold (\<lambda>(k, v). mput k v) mc []"

text \<open>A metric that is no \<open>int64\<close> starts again at one.\<close>

definition IncrementCounter :: "string \<Rightarrow> MetricsCollector \<Rightarrow> MetricsCollector" where
  "IncrementCounter name mc =
     (case mget mc name of Some (MInt counter) \<Rightarrow> mput name (MInt (wrap_int64 (counter + 1))) mc | _ \<Rightarrow> mput name (MInt 1) mc)"

text \<open>\<open>Milliseconds\<close> truncates towards zero.\<close>

definition RecordDuration :: "string \<Rightarrow> duration \<Rightarrow> MetricsCollector \<Rightarrow> MetricsCollector" where
  "RecordDuration name d mc = RecordMetric name (MInt (trunc_rat (of_int d / of_int (second div 1000)))) mc"

section \<open>The worst status\<close>

lemma fold_worse:
  "fold worse cs (u, d) = (u \<or> (\<exists>c \<in> set cs. ch_Status c = StatusUnhealthy), d \<or> (\<exists>c \<in> set cs. ch_Status c = StatusDegraded))"
  by (induction cs arbitrary: u d) (auto simp: worse_def StatusUnhealthy_def StatusDegraded_def)

lemma wf_register: "wf_map (hm_components hm) \<Longrightarrow> wf_map (hm_components (RegisterComponent now name hm))"
  by (simp add: RegisterComponent_def wf_mput)

lemma register_keys: "fst ` set (hm_components (RegisterComponent now name hm)) = insert name (fst ` set (hm_components hm))"
  by (simp add: RegisterComponent_def fst_set_mput)

lemma check_known: "mget (hm_components h) n = Some ch \<Longrightarrow> hm_components (CheckHealth now1 now2 check n h) =
    mput n (ch\<lparr>ch_Status := fst (check n), ch_Message := snd (check n), ch_LastCheck := now1,
      ch_Uptime := time_sub now2 (hm_startTime h)\<rparr>) (hm_components h)"
  by (simp add: CheckHealth_def)

lemma check_all_keys: "map fst (hm_components hm) = ks \<Longrightarrow> wf_map (hm_components hm) \<Longrightarrow> set names \<subseteq> set ks \<Longrightarrow>
    hm' = fold (CheckHealth now1 now2 check) names hm \<Longrightarrow>
    wf_map (hm_components hm') \<and> set (map fst (hm_components hm')) = set ks \<and>
    (\<forall>name ch. mget (hm_components hm') name = Some ch \<longrightarrow>
       (if name \<in> set names then ch_Status ch = fst (check name) else mget (hm_components hm) name = Some ch))"
proof (induction names arbitrary: hm' rule: rev_induct)
  case (snoc n names)
  let ?h = "fold (CheckHealth now1 now2 check) names hm"
  have ih: "wf_map (hm_components ?h)" "set (map fst (hm_components ?h)) = set ks"
    "\<forall>name ch. mget (hm_components ?h) name = Some ch \<longrightarrow>
       (if name \<in> set names then ch_Status ch = fst (check name) else mget (hm_components hm) name = Some ch)"
    using snoc.IH [OF snoc.prems(1,2) _ refl] snoc.prems(3) by simp_all
  have "n \<in> fst ` set (hm_components ?h)" using ih(2) snoc.prems(3) by simp
  then obtain ch where c: "mget (hm_components ?h) n = Some ch" by (metis mget_None_iff not_None_eq)
  have h': "hm_components hm' = mput n (ch\<lparr>ch_Status := fst (check n), ch_Message := snd (check n), ch_LastCheck := now1,
      ch_Uptime := time_sub now2 (hm_startTime ?h)\<rparr>) (hm_components ?h)"
    using check_known [OF c] snoc.prems(4) by simp
  show ?case using ih c snoc.prems(3)
    by (auto simp: h' wf_mput mget_mput fst_set_mput split: if_splits)
qed auto

text \<open>
  After a round of checks the overall status is the worst one that a check of a registered component returns: unhealthy if
  one is, else degraded if one is, and healthy else, which a check that returns another word counts as.
\<close>

theorem overall_health_worst:
  assumes "wf_map (hm_components hm)" and after_def: "after = CheckAllHealth now1 now2 check hm"
  shows "GetOverallHealth after =
    (if \<exists>name \<in> fst ` set (hm_components hm). fst (check name) = StatusUnhealthy then StatusUnhealthy
     else if \<exists>name \<in> fst ` set (hm_components hm). fst (check name) = StatusDegraded then StatusDegraded else StatusHealthy)"
proof -
  have all: "wf_map (hm_components after)" "set (map fst (hm_components after)) = set (map fst (hm_components hm))"
    "\<forall>name ch. mget (hm_components after) name = Some ch \<longrightarrow> name \<in> set (map fst (hm_components hm)) \<longrightarrow> ch_Status ch = fst (check name)"
    using check_all_keys [OF refl assms(1) subset_refl, of after now1 now2 check] by (simp_all add: after_def CheckAllHealth_def)
  have "(\<exists>c \<in> snd ` set (hm_components after). ch_Status c = w) \<longleftrightarrow> (\<exists>name \<in> fst ` set (hm_components hm). fst (check name) = w)" for w
  proof
    assume "\<exists>c \<in> snd ` set (hm_components after). ch_Status c = w"
    then obtain n c where nc: "(n, c) \<in> set (hm_components after)" "ch_Status c = w" by auto
    then have "mget (hm_components after) n = Some c" using all(1) by (rule_tac mget_of_set) simp_all
    moreover have "n \<in> fst ` set (hm_components hm)" using nc(1) all(2) by (force simp: image_iff)
    ultimately show "\<exists>name \<in> fst ` set (hm_components hm). fst (check name) = w" using all(3) nc(2) by auto
  next
    assume "\<exists>name \<in> fst ` set (hm_components hm). fst (check name) = w"
    then obtain n where n: "n \<in> fst ` set (hm_components hm)" "fst (check n) = w" by auto
    then have "n \<in> fst ` set (hm_components after)" using all(2) by simp
    then obtain c where "mget (hm_components after) n = Some c" by (metis mget_None_iff not_None_eq)
    then show "\<exists>c \<in> snd ` set (hm_components after). ch_Status c = w" using all(3) n by (force dest: mget_in_set)
  qed
  then show ?thesis by (simp add: GetOverallHealth_def fold_worse)
qed

theorem overall_health_worst_witness:
  "GetOverallHealth (CheckAllHealth 1 1 (\<lambda>n. (if n = ''db'' then ''degraded'' else ''healthy'', [])) (RegisterComponent 0 ''p2p'' (RegisterComponent 0 ''db'' (NewHealthMonitor 0 second)))) = ''degraded''"
proof -
  have "wf_map (hm_components (RegisterComponent 0 ''p2p'' (RegisterComponent 0 ''db'' (NewHealthMonitor 0 second))))"
    by (intro wf_register) (simp add: NewHealthMonitor_def)
  from overall_health_worst [OF this refl] show ?thesis
    by (simp add: register_keys) (simp add: NewHealthMonitor_def StatusUnhealthy_def StatusDegraded_def StatusHealthy_def)
qed

end
