(* ===== verification/Logging.thy ===== *)
theory Logging
  imports Recovery
begin

text \<open>
  The structured logger (\<open>pkg/logging/structured.go\<close>). A value of a field and its JSON are parameters; the encoder
  fails on some values (a channel, a function, a float that is no number). A writer is the list of what was
  written to it, and \<open>os.Exit\<close> is a value of the result. The node makes one
  at the level \<open>INFO\<close> its default and reports its proposals through it.
\<close>

section \<open>Levels\<close>

text \<open>\<open>LogLevel\<close> is an \<open>int\<close>, so that other values than the five constants exist.\<close>

type_synonym LogLevel = int

definition DEBUG :: LogLevel where "DEBUG = 0"
definition INFO :: LogLevel where "INFO = 1"
definition WARN :: LogLevel where "WARN = 2"
definition ERROR :: LogLevel where "ERROR = 3"
definition FATAL :: LogLevel where "FATAL = 4"

definition LogLevel_String :: "LogLevel \<Rightarrow> string" where
  "LogLevel_String l =
     (if l = DEBUG then ''DEBUG'' else if l = INFO then ''INFO'' else if l = WARN then ''WARN''
      else if l = ERROR then ''ERROR'' else if l = FATAL then ''FATAL'' else ''UNKNOWN'')"

section \<open>Loggers\<close>

record 'v StructuredLogger =
  sl_level :: LogLevel
  sl_output :: string
  sl_jsonFormat :: bool
  sl_fields :: "(string, 'v) gomap"

record 'v LogEntry =
  le_Timestamp :: string
  le_Level :: string
  le_Message :: string
  le_Fields :: "(string, 'v) gomap"

text \<open>\<open>encoding/json\<close> on an entry and on a map of fields; on an error \<open>Marshal\<close> returns no bytes.\<close>

record 'v log_env =
  lo_entry :: "'v LogEntry \<Rightarrow> string option"
  lo_map :: "(string, 'v) gomap \<Rightarrow> string option"

definition NewStructuredLogger :: "LogLevel \<Rightarrow> bool \<Rightarrow> 'v StructuredLogger" where
  "NewStructuredLogger level jsonFormat =
     \<lparr>sl_level = level, sl_output = ''stdout'', sl_jsonFormat = jsonFormat, sl_fields = []\<rparr>"

definition SetOutput :: "string \<Rightarrow> 'v StructuredLogger \<Rightarrow> 'v StructuredLogger" where
  "SetOutput w sl = sl\<lparr>sl_output := w\<rparr>"

definition put_all :: "(string, 'v) gomap \<Rightarrow> (string, 'v) gomap \<Rightarrow> (string, 'v) gomap" where
  "put_all fs m = fold (\<lambda>(k, v). mput k v) fs m"

definition WithFields :: "(string, 'v) gomap \<Rightarrow> 'v StructuredLogger \<Rightarrow> 'v StructuredLogger" where
  "WithFields fs sl = sl\<lparr>sl_fields := put_all fs (put_all (sl_fields sl) [])\<rparr>"

definition WithField :: "string \<Rightarrow> 'v \<Rightarrow> 'v StructuredLogger \<Rightarrow> 'v StructuredLogger" where
  "WithField key v sl = WithFields [(key, v)] sl"

section \<open>Writing an entry\<close>

text \<open>What is written, as the writer and the line, and whether the process goes on.\<close>

datatype log_end = Goes_on | Exits

definition log_entry :: "'v log_env \<Rightarrow> string \<Rightarrow> 'v StructuredLogger \<Rightarrow> LogLevel \<Rightarrow> string \<Rightarrow> (string, 'v) gomap \<Rightarrow>
    (string \<times> string) list \<times> log_end" where
  "log_entry env timestamp sl level msg fs =
     (if level < sl_level sl then ([], Goes_on)
      else let allFields = put_all fs (put_all (sl_fields sl) []);
          entry = \<lparr>le_Timestamp = timestamp, le_Level = LogLevel_String level, le_Message = msg, le_Fields = allFields\<rparr>;
          ends = (if level = FATAL then Exits else Goes_on)
        in if sl_jsonFormat sl then
             (case lo_entry env entry of
                None \<Rightarrow> ([(''stderr'', ''Failed to marshal log entry'')], Goes_on)
              | Some data \<Rightarrow> ([(sl_output sl, data @ [CHR 0x0A])], ends))
           else
             let fieldsStr = (if allFields \<noteq> [] then '' '' @ (case lo_map env allFields of None \<Rightarrow> [] | Some s \<Rightarrow> s) else [])
             in ([(sl_output sl, ''['' @ timestamp @ ''] '' @ le_Level entry @ '': '' @ msg @ fieldsStr @ [CHR 0x0A])], ends))"

definition Debug :: "'v log_env \<Rightarrow> string \<Rightarrow> 'v StructuredLogger \<Rightarrow> string \<Rightarrow> (string \<times> string) list \<times> log_end" where
  "Debug env timestamp sl msg = log_entry env timestamp sl DEBUG msg []"
definition DebugWithFields :: "'v log_env \<Rightarrow> string \<Rightarrow> 'v StructuredLogger \<Rightarrow> string \<Rightarrow> (string, 'v) gomap \<Rightarrow> (string \<times> string) list \<times> log_end" where
  "DebugWithFields env timestamp sl msg fs = log_entry env timestamp sl DEBUG msg fs"
definition Info :: "'v log_env \<Rightarrow> string \<Rightarrow> 'v StructuredLogger \<Rightarrow> string \<Rightarrow> (string \<times> string) list \<times> log_end" where
  "Info env timestamp sl msg = log_entry env timestamp sl INFO msg []"
definition InfoWithFields :: "'v log_env \<Rightarrow> string \<Rightarrow> 'v StructuredLogger \<Rightarrow> string \<Rightarrow> (string, 'v) gomap \<Rightarrow> (string \<times> string) list \<times> log_end" where
  "InfoWithFields env timestamp sl msg fs = log_entry env timestamp sl INFO msg fs"
definition Warn :: "'v log_env \<Rightarrow> string \<Rightarrow> 'v StructuredLogger \<Rightarrow> string \<Rightarrow> (string \<times> string) list \<times> log_end" where
  "Warn env timestamp sl msg = log_entry env timestamp sl WARN msg []"
definition WarnWithFields :: "'v log_env \<Rightarrow> string \<Rightarrow> 'v StructuredLogger \<Rightarrow> string \<Rightarrow> (string, 'v) gomap \<Rightarrow> (string \<times> string) list \<times> log_end" where
  "WarnWithFields env timestamp sl msg fs = log_entry env timestamp sl WARN msg fs"
definition Error_log :: "'v log_env \<Rightarrow> string \<Rightarrow> 'v StructuredLogger \<Rightarrow> string \<Rightarrow> (string \<times> string) list \<times> log_end" where
  "Error_log env timestamp sl msg = log_entry env timestamp sl ERROR msg []"
definition ErrorWithFields :: "'v log_env \<Rightarrow> string \<Rightarrow> 'v StructuredLogger \<Rightarrow> string \<Rightarrow> (string, 'v) gomap \<Rightarrow> (string \<times> string) list \<times> log_end" where
  "ErrorWithFields env timestamp sl msg fs = log_entry env timestamp sl ERROR msg fs"
definition Fatal :: "'v log_env \<Rightarrow> string \<Rightarrow> 'v StructuredLogger \<Rightarrow> string \<Rightarrow> (string \<times> string) list \<times> log_end" where
  "Fatal env timestamp sl msg = log_entry env timestamp sl FATAL msg []"
definition FatalWithFields :: "'v log_env \<Rightarrow> string \<Rightarrow> 'v StructuredLogger \<Rightarrow> string \<Rightarrow> (string, 'v) gomap \<Rightarrow> (string \<times> string) list \<times> log_end" where
  "FatalWithFields env timestamp sl msg fs = log_entry env timestamp sl FATAL msg fs"

text \<open>The logger of the package, until \<open>SetDefaultLogger\<close> replaces it.\<close>

definition defaultLogger :: "'v StructuredLogger" where "defaultLogger = NewStructuredLogger INFO False"

section \<open>What is lost\<close>

lemma mget_put_all: "wf_map fs \<Longrightarrow> mget (put_all fs m) k = (case mget fs k of Some v \<Rightarrow> Some v | None \<Rightarrow> mget m k)"
  unfolding put_all_def
proof (induction fs arbitrary: m)
  case (Cons f fs)
  obtain k' v where f: "f = (k', v)" by fastforce
  have new: "mget fs k' = None" using Cons.prems f by (simp add: mget_None_iff)
  have head: "mget (f # fs) k = (if k = k' then Some v else mget fs k)" by (simp add: f mget_def)
  show ?case using Cons.IH [of "mput k' v m"] Cons.prems f new by (cases "k = k'") (simp_all add: head mget_mput split: option.splits)
qed (simp add: mget_def)

text \<open>Fields given later win, and the logger they are given to keeps its own.\<close>

lemma with_fields: "wf_map fs \<Longrightarrow> wf_map (sl_fields sl) \<Longrightarrow>
    mget (sl_fields (WithFields fs sl)) k = (case mget fs k of Some v \<Rightarrow> Some v | None \<Rightarrow> mget (sl_fields sl) k)"
  using mget_put_all [of "sl_fields sl" "[]"] by (simp add: WithFields_def mget_put_all mget_empty split: option.splits)

text \<open>
  When a line is written and when the process ends. Text output writes every entry whose level reaches the
  logger's. JSON output loses an entry with a field the encoder refuses, and a fatal entry that is lost so, or that is
  below the level of the logger, does not end the process.
\<close>

theorem fatal_exit:
  assumes "sl_output sl \<noteq> ''stderr''"
    and entry: "entry = \<lparr>le_Timestamp = timestamp, le_Level = LogLevel_String level, le_Message = msg,
        le_Fields = sl_fields (WithFields fs sl)\<rparr>"
    and res: "(lines, ends) = log_entry env timestamp sl level msg fs"
  shows "((\<exists>line. (sl_output sl, line) \<in> set lines) \<longleftrightarrow> sl_level sl \<le> level \<and> (sl_jsonFormat sl \<longrightarrow> lo_entry env entry \<noteq> None)) \<and>
    (ends = Exits \<longleftrightarrow> level = FATAL \<and> (\<exists>line. (sl_output sl, line) \<in> set lines))"
  using assms by (auto simp: log_entry_def Let_def WithFields_def split: if_splits option.splits)

theorem fatal_exit_witness:
  "log_entry \<lparr>lo_entry = \<lambda>_. None, lo_map = \<lambda>_. None\<rparr> ''t'' (NewStructuredLogger INFO True :: nat StructuredLogger) FATAL ''m'' [] =
     ([(''stderr'', ''Failed to marshal log entry'')], Goes_on) \<and>
   snd (log_entry \<lparr>lo_entry = \<lambda>_. None, lo_map = \<lambda>_. None\<rparr> ''t'' (NewStructuredLogger INFO True :: nat StructuredLogger) FATAL ''m'' []) \<noteq> Exits"
proof -
  let ?sl = "NewStructuredLogger INFO True :: nat StructuredLogger" and ?env = "\<lparr>lo_entry = \<lambda>_. None, lo_map = \<lambda>_. None\<rparr>"
  have "sl_output ?sl \<noteq> ''stderr''" by (simp add: NewStructuredLogger_def)
  note law = fatal_exit [OF this refl prod.collapse, of ?env "''t''" FATAL "''m''" "[]"]
  have "snd (log_entry ?env ''t'' ?sl FATAL ''m'' []) \<noteq> Exits" using law by (simp add: NewStructuredLogger_def)
  then show ?thesis by (simp add: log_entry_def NewStructuredLogger_def FATAL_def INFO_def)
qed

end
