(* ===== verification/PoB_Server.thy ===== *)
theory PoB_Server
  imports PoB_Test
begin

text \<open>
  The server that answers bandwidth tests (\<open>pkg/consensus/pob_server.go\<close>): starting and stopping it, and its
  loop over the listener. What the listener returns and when the channel \<open>done\<close> is found closed are the inputs of the loop;
  each connection is served by \<open>HandlePoBTestRequest\<close> in a goroutine of its own.
\<close>

section \<open>The server\<close>

record PoBTestServer =
  bs_port :: int
  bs_listening :: bool
  bs_done :: bool

definition NewPoBTestServer :: "int \<Rightarrow> PoBTestServer" where
  "NewPoBTestServer port = \<lparr>bs_port = port, bs_listening = False, bs_done = False\<rparr>"

text \<open>\<open>listen\<close> is the error of \<open>net.Listen\<close>; a start that succeeds runs the loop.\<close>

definition Server_Start :: "fail option \<Rightarrow> PoBTestServer \<Rightarrow> PoBTestServer \<times> unit res" where
  "Server_Start listen s = (case listen of
       Some _ \<Rightarrow> (s, Inl (Error ''FATAL: failed to start PoB test server''))
     | None \<Rightarrow> (s\<lparr>bs_listening := True\<rparr>, Inr ()))"

text \<open>\<open>close\<close> is the error of \<open>listener.Close\<close>.\<close>

definition Server_Stop :: "fail option \<Rightarrow> PoBTestServer \<Rightarrow> PoBTestServer \<times> unit res" where
  "Server_Stop closing s =
     (if bs_done s then (s, Inl (Panic ''close of closed channel''))
      else (s\<lparr>bs_done := True\<rparr>, if bs_listening s then (case closing of Some e \<Rightarrow> Inl e | None \<Rightarrow> Inr ()) else Inr ()))"

section \<open>The loop\<close>

text \<open>
  One round: whether \<open>done\<close> is closed before \<open>Accept\<close>, the connection (what will be read from it) or the error, and whether
  \<open>done\<close> is closed after an error. The result is the connections that were served, and whether the loop has returned.
\<close>

record accept_round =
  ar_before :: bool
  ar_conn :: "conn_read list res"
  ar_after :: bool

fun acceptConnections :: "accept_round list \<Rightarrow> (bytes list \<times> unit res option) list \<times> bool" where
  "acceptConnections [] = ([], False)"
| "acceptConnections (r # rs) =
     (if ar_before r then ([], True)
      else case ar_conn r of
          Inl _ \<Rightarrow> if ar_after r then ([], True) else acceptConnections rs
        | Inr conn \<Rightarrow> (case acceptConnections rs of (served, returned) \<Rightarrow> (HandlePoBTestRequest conn # served, returned)))"

section \<open>Stopping\<close>

definition stopped_round :: "accept_round \<Rightarrow> bool" where
  "stopped_round r \<longleftrightarrow> ar_before r \<or> (\<exists>e. ar_conn r = Inl e) \<and> ar_after r"

definition live_conns :: "accept_round list \<Rightarrow> conn_read list list" where
  "live_conns rs = concat (map (\<lambda>r. case ar_conn r of Inl _ \<Rightarrow> [] | Inr c \<Rightarrow> [c]) rs)"

text \<open>
  The loop serves each connection accepted before the first round that finds the server stopped, in order, and no
  other; errors of the listener do not end it; it returns at that round and at no other.
\<close>

theorem accepts_until_stopped:
  "acceptConnections rs =
     (map HandlePoBTestRequest (live_conns (takeWhile (\<lambda>r. \<not> stopped_round r) rs)), \<exists>r \<in> set rs. stopped_round r)"
  by (induction rs) (auto simp: live_conns_def stopped_round_def split: sum.splits prod.splits)

text \<open>A second stop panics, and so does a stop of a server that was stopped before it listened.\<close>

lemma stop_twice: "snd (Server_Stop e' (fst (Server_Stop e s))) = Inl (Panic ''close of closed channel'')"
  by (simp add: Server_Stop_def)

end
