(* ===== verification/Spec2Isabelle.thy ===== *)
theory Spec2Isabelle
  imports Mempool_Sync Sync_Manager Fork_Resolver State_Pruner Governance Slashing Checkpoint
    Concurrent_Validation Atomic_State Anti_DDoS Rate_Limiter Recovery Byzantine Speed_Test_Run Validator_Service P2P_Node API_Server PoB_Test
    ZK_Circuit IP_Reputation Gossip Genesis Discovery Resources Speed_Wire Migration Node
    Ballots Pipeline Lock_Order Metrics Health Logging PoB_Server
begin

text \<open>
  A development for the Route-N-Root node, the Go program under \<open>rnr/\<close>: a proof-of-bandwidth blockchain.

  \<^bold>\<open>The program.\<close> \<open>cmd/rnr/main.go\<close> opens a LevelDB database and a wallet and starts a validator service over the block
  store, the account state, the transaction pool, the voting manager and the proof of history. A block is proposed by the
  validator that a VRF selects, is validated, voted on, and finalized by 85 percent of the active validators; finalizing
  applies its transactions and distributes its reward. A P2P layer carries blocks, votes and transactions between authenticated
  peers; an HTTP API takes transactions. Beside these stand the registry of validators with slashing and checkpoints,
  the bandwidth tests that admit a validator, fork resolution, pruning, and the protection of the network.

  \<^bold>\<open>Which theory models what.\<close> Names of definitions are those of the code; a prefix resolves a clash.

  \<^item> Shared: \<open>Prelude\<close> (errors, Go maps, time, \<open>int64\<close>), \<open>Encoding\<close> (hex, decimal, big-endian bytes, SHA-256), \<open>Float64\<close>
    (binary64), \<open>Store\<close> (LevelDB and JSON as parameters with their laws), \<open>Core_Types\<close> (\<open>pkg/core\<close>), \<open>Merkle\<close> (all four
    routines), \<open>Exchange_Sort\<close> and \<open>Quorum\<close> (the sort and the quota that several packages write out).
  \<^item> \<open>pkg/blockchain\<close>: \<open>Chain\<close>, \<open>Tx_Pool\<close>, \<open>Atomic_State\<close>, \<open>Fork_Resolver\<close>, \<open>State_Pruner\<close>; \<open>Lock_Order\<close> its locks.
  \<^item> \<open>pkg/consensus\<close>, blocks: \<open>Voting\<close> and its specification \<open>Ballots\<close>, \<open>Checkpoint\<close>, \<open>Proposer\<close>, \<open>VRF_Check\<close>,
    \<open>Block_Economy\<close> and \<open>Validator_Service\<close> (\<open>validator_service.go\<close>, \<open>poh.go\<close>), \<open>Concurrent_Validation\<close>, and
    \<open>Pipeline\<close>, which composes it with \<open>Atomic_State\<close>.
  \<^item> \<open>pkg/consensus\<close>, validators: \<open>Registry\<close>, \<open>Slashing\<close>, \<open>Byzantine\<close>, \<open>Governance\<close>, \<open>Network_Fairness\<close>, \<open>Partition\<close>.
  \<^item> \<open>pkg/consensus\<close>, proof of bandwidth: \<open>PoB_Score\<close>, \<open>PoB_Test\<close>, \<open>PoB_Server\<close>, \<open>Speed_Test\<close>, \<open>Speed_Test_Run\<close>, \<open>Retarget\<close>,
    \<open>ZK_Circuit\<close>, \<open>Anti_DDoS\<close>.
  \<^item> \<open>pkg/network\<close>: \<open>P2P_Auth\<close>, \<open>P2P_Node\<close>, \<open>Rate_Limiter\<close>, \<open>IP_Reputation\<close>, \<open>Gossip\<close>, \<open>Discovery\<close>, \<open>Speed_Wire\<close>.
  \<^item> The rest: \<open>Mempool_Sync\<close>, \<open>Sync_Manager\<close>, \<open>API_Server\<close>, \<open>Wallet\<close>, \<open>Genesis\<close> (with \<open>cmd/genesis\<close>), \<open>Recovery\<close>,
    \<open>Resources\<close> and \<open>Health\<close> (\<open>pkg/utils\<close>), \<open>Metrics\<close>, \<open>Logging\<close>, \<open>Migration\<close> (\<open>tools\<close>), and \<open>Node\<close>
    (\<open>cmd/rnr/main.go\<close>), which puts the parts together.

  \<^bold>\<open>State and effects.\<close> The struct of a component is a record; an operation takes it and returns it updated beside its result.
  An error and a panic are the two constructors of \<open>fail\<close>, and every early return is a branch. Readings of the clock, random
  numbers, what a socket, stream or file yields or refuses, and the answers of third-party code are arguments. An operation that holds a
  lock from its beginning to its end is one step; where the code releases a lock in between, or where pointers are shared
  outside it, the model has the pieces (\<open>Anti_DDoS\<close>), an explicit heap (\<open>Atomic_State\<close>), schedules (\<open>Concurrent_Validation\<close>)
  or the lock operations themselves (\<open>Lock_Order\<close>). \<open>uint64\<close> is a 64-bit word, \<open>int64\<close> wraps where it can
  overflow, \<open>*big.Int\<close> is \<open>int\<close>.

  \<^bold>\<open>Interfaces.\<close> \<open>chain_store\<close> (the block store for its clients), \<open>tx_pool\<close> (the pool), \<open>quorum_rule\<close> (a percentage of
  the validators), \<open>sort_order\<close> (a comparison) and the node hash of \<open>Merkle\<close> are locales, interpreted on the model.

  \<^bold>\<open>Parameters.\<close> LevelDB (\<open>kv_laws\<close>), JSON (\<open>json_ok\<close>, \<open>p2p_codec\<close>), ECDSA, the VRF library, scrypt, AES, Groth16
  (\<open>groth16_laws\<close>) and libp2p are arguments with documented laws as hypotheses, and so is the type
  \<open>blockchain.State\<close>, which the sources use and do not declare (\<open>state_laws\<close>, \<open>ac_laws\<close>). That JSON reads a value back is
  asked only of the values a theorem needs, since it replaces invalid UTF-8 and does not encode every time.

  \<^bold>\<open>What is shown.\<close>
  \<^item> The chain is linked and immutable; a round of synchronisation moves on to the peer's tip, and any answer, failed writes
    included, leaves a stored chain sound.
  \<^item> The voting manager keeps its sessions sound and refines the ballots of the specification, also while the validators change
    between the votes (\<open>voting_run\<close>); over one set of validators its quorums intersect. What
    a vote does is stated for every branch, and so is a checkpoint, a slash and an activation.
  \<^item> A proposed block passes its proposer's validation; finalizing moves the amounts, removes the fees and issues no more than
    the reward.
  \<^item> Components keep their invariants and bounds: pool, pruning, atomic transfers, reputations, histograms, selection ranges.
  \<^item> Composed, much of the program does not reach its purpose, and the theorems say so: no peer is authenticated, a started
    node stays alone, three or more validators finalize nothing, a speed test is never passed, a submitted transaction of an
    account that is no validator is not selected.

  \<^bold>\<open>Loops and bounds.\<close> A loop that may not end is a \<open>partial_function (option)\<close> or an option result, with \<open>None\<close> for not
  returning; that a call returns is stated as such. The voting theorems assume at most \<open>2 ^ 40\<close> validators, where the
  float product of the quota is exact enough. A loop over a stream or a listener recurses on the list of what it yields.

  \<^bold>\<open>Not modelled.\<close> The construction of the libp2p host, of the DHT and of the HTTP servers, signals and timers: calls into
  libraries without a decision of the program. Log lines and the texts of errors, but for the slices in them, which can panic.
  Tests, scripts, dashboards and deployment files.
\<close>

end
